(* ===== verification/Go_Prelude.thy ===== *)
theory Go_Prelude
  imports Complex_Main "HOL-Library.AList" "HOL-Library.Sublist" "HOL-Library.Multiset" "HOL-Library.Word"
begin

text \<open>
  The prelude of the development: the part of Go and of its standard library that the
  components share.  A Go string is a byte sequence, so it is a \<^typ>\<open>string\<close> (a list of
  8-bit characters); the functions of package \<open>strings\<close> are defined on it under the names
  \<open>strings_...\<close>.  A Go map is an association list without duplicate keys (\<open>gomap\<close>); its
  iteration order is unspecified in Go and is an explicit argument of every definition that
  ranges over a map.  An error result is a sum (\<^term>\<open>Inl e\<close> the error), and the value of
  \<open>errors.Join\<close> is the list of the joined errors (\<open>nil\<close> is the empty list).
\<close>

named_theorems go_simps \<open>evaluation of the Go library functions\<close>
named_theorems gomap_simps \<open>lookup, update and length of Go maps\<close>

type_synonym ('k, 'v) gomap = "('k \<times> 'v) list"
type_synonym ('e, 'a) result = "'e + 'a"
type_synonym bytes = "8 word list"
type_synonym u64 = "64 word"
type_synonym time_ns = int

section \<open>Package strings\<close>

definition strings_HasPrefix :: "string \<Rightarrow> string \<Rightarrow> bool" where
  "strings_HasPrefix s p = prefix p s"

definition strings_TrimPrefix :: "string \<Rightarrow> string \<Rightarrow> string" where
  "strings_TrimPrefix s p = (if strings_HasPrefix s p then drop (length p) s else s)"

fun strings_Contains :: "string \<Rightarrow> string \<Rightarrow> bool" where
  "strings_Contains [] p = (p = [])"
| "strings_Contains (x # xs) p = (prefix p (x # xs) \<or> strings_Contains xs p)"

text \<open>\<open>strings.Split\<close> with a separator of one byte: never empty, one part more than separators.\<close>

fun strings_Split :: "string \<Rightarrow> char \<Rightarrow> string list" where
  "strings_Split [] c = [[]]"
| "strings_Split (x # xs) c =
     (if x = c then [] # strings_Split xs c
      else case strings_Split xs c of [] \<Rightarrow> [[x]] | w # ws \<Rightarrow> (x # w) # ws)"

text \<open>\<open>strings.Index\<close> and \<open>strings.Cut\<close> with a separator of one byte.\<close>

fun strings_Index :: "string \<Rightarrow> char \<Rightarrow> nat option" where
  "strings_Index [] c = None"
| "strings_Index (x # xs) c = (if x = c then Some 0 else map_option Suc (strings_Index xs c))"

definition strings_Cut :: "string \<Rightarrow> char \<Rightarrow> (string \<times> string) option" where
  "strings_Cut s c =
     (case strings_Index s c of None \<Rightarrow> None | Some i \<Rightarrow> Some (take i s, drop (Suc i) s))"

fun strings_Join :: "string list \<Rightarrow> string \<Rightarrow> string" where
  "strings_Join [] sep = []"
| "strings_Join [w] sep = w"
| "strings_Join (w # v # ws) sep = w @ sep @ strings_Join (v # ws) sep"

text \<open>
  Case mapping.  Go maps an ASCII string byte by byte and hands any other string to its
  Unicode tables; that second path is the argument \<open>uni\<close>.
\<close>

definition is_ascii :: "string \<Rightarrow> bool" where
  "is_ascii s = list_all (\<lambda>c. of_char c < (128 :: nat)) s"

definition ascii_lower :: "char \<Rightarrow> char" where
  "ascii_lower c =
     (let n = of_char c :: nat in if 65 \<le> n \<and> n \<le> 90 then char_of (n + 32) else c)"

definition ascii_upper :: "char \<Rightarrow> char" where
  "ascii_upper c =
     (let n = of_char c :: nat in if 97 \<le> n \<and> n \<le> 122 then char_of (n - 32) else c)"

definition strings_ToLower :: "(string \<Rightarrow> string) \<Rightarrow> string \<Rightarrow> string" where
  "strings_ToLower uni s = (if is_ascii s then map ascii_lower s else uni s)"

definition strings_ToUpper :: "(string \<Rightarrow> string) \<Rightarrow> string \<Rightarrow> string" where
  "strings_ToUpper uni s = (if is_ascii s then map ascii_upper s else uni s)"

definition strings_EqualFold :: "(string \<Rightarrow> string \<Rightarrow> bool) \<Rightarrow> string \<Rightarrow> string \<Rightarrow> bool" where
  "strings_EqualFold uni s t =
     (if is_ascii s \<and> is_ascii t then map ascii_lower s = map ascii_lower t else uni s t)"

section \<open>Package net\<close>

definition strings_LastIndex :: "string \<Rightarrow> char \<Rightarrow> nat option" where
  "strings_LastIndex s c =
     (case strings_Index (rev s) c of None \<Rightarrow> None | Some i \<Rightarrow> Some (length s - 1 - i))"

text \<open>\<open>net.SplitHostPort\<close>, \<open>None\<close> for its errors: the port follows the last colon, a host in
  brackets ends just before it, any other host has no colon, and no other bracket may occur.\<close>

definition net_SplitHostPort :: "string \<Rightarrow> (string \<times> string) option" where
  "net_SplitHostPort hostport =
     (case strings_LastIndex hostport CHR '':'' of
        None \<Rightarrow> None
      | Some i \<Rightarrow>
          let port = drop (Suc i) hostport in
          if hd hostport = CHR ''[''
          then (case strings_Index hostport CHR '']'' of
                  None \<Rightarrow> None
                | Some e \<Rightarrow>
                    if e + 1 \<noteq> i then None
                    else if CHR ''['' \<in> set (drop 1 hostport) \<or> CHR '']'' \<in> set (drop (e + 1) hostport) then None
                    else Some (drop 1 (take e hostport), port))
          else let host = take i hostport in
               if CHR '':'' \<in> set host \<or> CHR ''['' \<in> set hostport \<or> CHR '']'' \<in> set hostport then None
               else Some (host, port))"

definition net_JoinHostPort :: "string \<Rightarrow> string \<Rightarrow> string" where
  "net_JoinHostPort host port =
     (if CHR '':'' \<in> set host then ''['' @ host @ '']:'' @ port else host @ '':'' @ port)"

section \<open>Numbers and order of strings\<close>

text \<open>\<open>strconv.Itoa\<close>: decimal digits with a minus sign.\<close>

fun show_nat :: "nat \<Rightarrow> string" where
  "show_nat n = (if n < 10 then [char_of (48 + n)] else show_nat (n div 10) @ [char_of (48 + n mod 10)])"

definition strconv_Itoa :: "int \<Rightarrow> string" where
  "strconv_Itoa i = (if i < 0 then CHR ''-'' # show_nat (nat (- i)) else show_nat (nat i))"

text \<open>\<open>strconv.ParseInt(s, 10, 64)\<close>: an optional sign and decimal digits, within the range of \<open>int64\<close>.\<close>

definition is_digit :: "char \<Rightarrow> bool" where
  "is_digit c \<longleftrightarrow> 48 \<le> (of_char c :: nat) \<and> of_char c \<le> (57 :: nat)"

definition digits_value :: "string \<Rightarrow> nat" where
  "digits_value s = fold (\<lambda>c n. 10 * n + (of_char c - 48)) s 0"

definition strconv_ParseInt :: "string \<Rightarrow> int option" where
  "strconv_ParseInt s =
     (let (neg, ds) = (case s of [] \<Rightarrow> (False, []) | c # cs \<Rightarrow> if c = CHR ''-'' then (True, cs) else if c = CHR ''+'' then (False, cs) else (False, s));
          n = int (digits_value ds); i = (if neg then - n else n) in
      if ds = [] \<or> \<not> list_all is_digit ds \<or> i < - (2 ^ 63) \<or> 2 ^ 63 \<le> i then None else Some i)"

text \<open>The order of strings, byte by byte.\<close>

fun string_less :: "string \<Rightarrow> string \<Rightarrow> bool" where
  "string_less [] t = (t \<noteq> [])"
| "string_less (x # xs) [] = False"
| "string_less (x # xs) (y # ys) =
     (of_char x < (of_char y :: nat) \<or> x = y \<and> string_less xs ys)"

section \<open>Go maps\<close>

abbreviation gm_get :: "('k, 'v) gomap \<Rightarrow> 'k \<Rightarrow> 'v option" where
  "gm_get m k \<equiv> map_of m k"

abbreviation gm_put :: "'k \<Rightarrow> 'v \<Rightarrow> ('k, 'v) gomap \<Rightarrow> ('k, 'v) gomap" where
  "gm_put k v m \<equiv> AList.update k v m"

abbreviation gm_del :: "'k \<Rightarrow> ('k, 'v) gomap \<Rightarrow> ('k, 'v) gomap" where
  "gm_del k m \<equiv> AList.delete k m"

definition gm_wf :: "('k, 'v) gomap \<Rightarrow> bool" where
  "gm_wf m = distinct (map fst m)"

text \<open>A property of every entry of a map.\<close>

definition gm_all :: "('k \<Rightarrow> 'v \<Rightarrow> bool) \<Rightarrow> ('k, 'v) gomap \<Rightarrow> bool" where
  "gm_all P m = (\<forall>(k, v) \<in> set m. P k v)"

text \<open>Ranging over a map visits every entry once, in some order.\<close>

definition map_order :: "('a list \<Rightarrow> 'a list) \<Rightarrow> bool" where
  "map_order ord = (\<forall>xs. mset (ord xs) = mset xs)"

text \<open>A \<open>for range\<close> loop over \<open>xs\<close> on a state, left by \<open>return err\<close> at the first error.\<close>

fun for_each :: "('x \<Rightarrow> 's \<Rightarrow> 'e option \<times> 's) \<Rightarrow> 'x list \<Rightarrow> 's \<Rightarrow> 'e option \<times> 's" where
  "for_each f [] s = (None, s)"
| "for_each f (x # xs) s =
     (case f x s of (Some e, s') \<Rightarrow> (Some e, s') | (None, s') \<Rightarrow> for_each f xs s')"

text \<open>Replacing every element of a slice by a computed one, abandoned at the first failure.\<close>

fun map_result :: "('a \<Rightarrow> ('e, 'b) result) \<Rightarrow> 'a list \<Rightarrow> ('e, 'b list) result" where
  "map_result f [] = Inr []"
| "map_result f (x # xs) =
     (case f x of
        Inl e \<Rightarrow> Inl e
      | Inr y \<Rightarrow> (case map_result f xs of Inl e \<Rightarrow> Inl e | Inr ys \<Rightarrow> Inr (y # ys)))"

definition result_ok :: "('e, 'a) result \<Rightarrow> bool" where
  "result_ok r = (case r of Inl _ \<Rightarrow> False | Inr _ \<Rightarrow> True)"

section \<open>Lemmas on strings\<close>

declare show_nat.simps [simp del]

lemma show_nat_digits: "c \<in> set (show_nat n) \<Longrightarrow> 48 \<le> (of_char c :: nat) \<and> of_char c \<le> (57 :: nat)"
proof (induction n rule: show_nat.induct)
  case (1 n)
  have "of_char (char_of (48 + d)) = 48 + d" if "d < 10" for d :: nat
    using that by (simp add: of_char_of)
  then show ?case using 1 by (subst (asm) (2) show_nat.simps) (auto split: if_splits)
qed

lemma show_nat_no_sep: "c \<in> {CHR '':'', CHR ''|'', CHR ''.'', CHR '',''} \<Longrightarrow> c \<notin> set (show_nat n)"
  using show_nat_digits [of c n] by auto

lemma Itoa_no_sep: "c \<in> {CHR '':'', CHR ''|'', CHR ''.'', CHR '',''} \<Longrightarrow> c \<notin> set (strconv_Itoa i)"
  using show_nat_no_sep [of c] by (auto simp: strconv_Itoa_def)

lemma show_nat_not_Nil [simp]: "show_nat n \<noteq> []"
  by (subst show_nat.simps) simp

lemma show_nat_inject: "show_nat m = show_nat n \<longleftrightarrow> m = n"
proof (induction m arbitrary: n rule: show_nat.induct)
  case (1 m)
  have dig: "char_of (48 + d) = (char_of (48 + e) :: char) \<longleftrightarrow> d = e" if "d < 10" "e < 10" for d e :: nat
  proof
    assume "char_of (48 + d) = (char_of (48 + e) :: char)"
    then have "(of_char (char_of (48 + d) :: char) :: nat) = of_char (char_of (48 + e) :: char)" by simp
    with that show "d = e" by (simp add: of_char_of)
  qed simp
  show ?case
  proof (cases "m < 10 \<or> n < 10")
    case True
    then show ?thesis using dig by (subst (1 2) show_nat.simps) (auto simp: append_eq_Cons_conv Cons_eq_append_conv)
  next
    case False
    then have "show_nat m = show_nat n \<longleftrightarrow> show_nat (m div 10) = show_nat (n div 10) \<and> m mod 10 = n mod 10"
      using dig [of "m mod 10" "n mod 10"] by (subst (1 2) show_nat.simps) simp
    also have "\<dots> \<longleftrightarrow> m div 10 = n div 10 \<and> m mod 10 = n mod 10" using 1 False by simp
    also have "\<dots> \<longleftrightarrow> m = n" by (metis div_mult_mod_eq)
    finally show ?thesis .
  qed
qed

lemma Itoa_inject [simp]: "strconv_Itoa i = strconv_Itoa j \<longleftrightarrow> i = j"
proof -
  have "CHR ''-'' \<notin> set (show_nat n)" for n using show_nat_digits [of "CHR ''-''" n] by auto
  then have "CHR ''-'' # x \<noteq> show_nat n" for x n by (metis list.set_intros(1))
  then show ?thesis by (auto simp: strconv_Itoa_def show_nat_inject) metis+
qed

lemma digits_value_snoc: "digits_value (s @ [c]) = 10 * digits_value s + (of_char c - 48)"
  by (simp add: digits_value_def)

lemma digits_value_show_nat: "digits_value (show_nat n) = n"
proof (induction n rule: show_nat.induct)
  case (1 n)
  show ?case
  proof (cases "n < 10")
    case True
    then show ?thesis by (subst show_nat.simps) (simp add: digits_value_def of_char_of)
  next
    case False
    with 1 show ?thesis by (subst show_nat.simps) (simp add: digits_value_snoc of_char_of)
  qed
qed

lemma show_nat_all_digits: "list_all is_digit (show_nat n)"
  using show_nat_digits by (auto simp: list_all_iff is_digit_def)

lemma ParseInt_Itoa: "- (2 ^ 63) \<le> i \<Longrightarrow> i < 2 ^ 63 \<Longrightarrow> strconv_ParseInt (strconv_Itoa i) = Some i"
proof -
  assume range: "- (2 ^ 63) \<le> i" "i < 2 ^ 63"
  have "c \<notin> set (show_nat n)" if "c = CHR ''-'' \<or> c = CHR ''+''" for c n using that show_nat_digits [of c n] by auto
  then have sgn: "show_nat n = c # cs \<Longrightarrow> c \<noteq> CHR ''-'' \<and> c \<noteq> CHR ''+''" for n c cs by (metis list.set_intros(1))
  show "strconv_ParseInt (strconv_Itoa i) = Some i"
  proof (cases "i < 0")
    case True
    with range show ?thesis
      by (simp add: strconv_ParseInt_def strconv_Itoa_def digits_value_show_nat show_nat_all_digits Let_def)
  next
    case False
    obtain c cs where "show_nat (nat i) = c # cs" by (cases "show_nat (nat i)") simp_all
    with False range sgn [OF this] digits_value_show_nat [of "nat i"] show_nat_all_digits [of "nat i"] show ?thesis
      by (simp add: strconv_ParseInt_def strconv_Itoa_def Let_def)
  qed
qed

lemma HasPrefix_iff: "strings_HasPrefix s p \<longleftrightarrow> (\<exists>t. s = p @ t)"
  by (auto simp: strings_HasPrefix_def prefix_def)

lemma HasPrefix_append [simp]: "strings_HasPrefix (p @ t) p"
  by (simp add: strings_HasPrefix_def)

lemma TrimPrefix_append [simp]: "strings_TrimPrefix (p @ t) p = t"
  by (simp add: strings_TrimPrefix_def)

lemma TrimPrefix_inv: "strings_HasPrefix s p \<Longrightarrow> p @ strings_TrimPrefix s p = s"
  by (auto simp: HasPrefix_iff)

lemma TrimPrefix_eq: "strings_HasPrefix k p \<Longrightarrow> q = strings_TrimPrefix k p \<longleftrightarrow> p @ q = k"
  by (auto simp: HasPrefix_iff)

lemma append_HasPrefix: "p @ q = k \<Longrightarrow> strings_HasPrefix k p"
  by auto

lemma Contains_sublist: "strings_Contains s p \<longleftrightarrow> sublist p s"
  by (induction s) (auto simp: sublist_Cons_right)

lemma Contains_iff: "strings_Contains s p \<longleftrightarrow> (\<exists>u v. s = u @ p @ v)"
  by (simp add: Contains_sublist sublist_def)

lemma Split_not_Nil [simp]: "strings_Split s c \<noteq> []"
  by (cases s) (auto split: list.splits)

lemma Split_length: "length (strings_Split s c) = Suc (count_list s c)"
  by (induction s) (auto split: list.splits)

lemma Join_Split: "strings_Join (strings_Split s c) [c] = s"
proof (induction s)
  case Nil
  show ?case by simp
next
  case (Cons x s)
  obtain w ws where "strings_Split s c = w # ws"
    by (meson Split_not_Nil neq_Nil_conv)
  with Cons.IH show ?case by (cases ws) auto
qed

lemma Split_no_sep: "c \<notin> set s \<Longrightarrow> strings_Split s c = [s]"
  by (induction s) auto

lemma Split_append_sep: "c \<notin> set s \<Longrightarrow> strings_Split (s @ c # t) c = s # strings_Split t c"
  by (induction s) auto

lemma Split_parts: "w \<in> set (strings_Split s c) \<Longrightarrow> c \<notin> set w"
proof (induction s arbitrary: w)
  case (Cons x s)
  obtain v vs where "strings_Split s c = v # vs"
    by (meson Split_not_Nil neq_Nil_conv)
  with Cons show ?case by (auto split: if_splits)
qed simp

lemma Index_Some: "strings_Index s c = Some i \<Longrightarrow> i < length s \<and> s ! i = c \<and> c \<notin> set (take i s)"
  by (induction s arbitrary: i) (auto split: if_splits)

lemma Index_None: "strings_Index s c = None \<longleftrightarrow> c \<notin> set s"
  by (induction s) auto

lemma Cut_None: "strings_Cut s c = None \<longleftrightarrow> c \<notin> set s"
  by (simp add: strings_Cut_def Index_None [symmetric] split: option.split)

lemma Cut_append: "c \<notin> set a \<Longrightarrow> strings_Cut (a @ c # b) c = Some (a, b)"
proof -
  assume "c \<notin> set a"
  then have "strings_Index (a @ c # b) c = Some (length a)" by (induction a) auto
  then show ?thesis by (simp add: strings_Cut_def)
qed

lemma append_sep_inject:
  fixes a :: string
  assumes "c \<notin> set a" "c \<notin> set a'"
  shows "a @ c # b = a' @ c # b' \<longleftrightarrow> a = a' \<and> b = b'"
proof
  assume "a @ c # b = a' @ c # b'"
  then have "strings_Cut (a @ c # b) c = strings_Cut (a' @ c # b') c" by simp
  then show "a = a' \<and> b = b'" unfolding Cut_append [OF assms(1)] Cut_append [OF assms(2)] by simp
qed simp

lemma Cut_Some: "strings_Cut s c = Some (a, b) \<Longrightarrow> s = a @ c # b \<and> c \<notin> set a"
  by (auto simp: strings_Cut_def id_take_nth_drop dest!: Index_Some split: option.splits)

lemma Index_append: "c \<notin> set a \<Longrightarrow> strings_Index (a @ c # b) c = Some (length a)"
  by (induction a) auto

lemma LastIndex_append: "c \<notin> set b \<Longrightarrow> strings_LastIndex (a @ c # b) c = Some (length a)"
proof -
  assume "c \<notin> set b"
  then have "strings_Index (rev b @ c # rev a) c = Some (length b)"
    by (subst Index_append) simp_all
  then show ?thesis by (simp add: strings_LastIndex_def)
qed

lemma LastIndex_None: "strings_LastIndex s c = None \<longleftrightarrow> c \<notin> set s"
  using Index_None [of "rev s" c] by (cases "strings_Index (rev s) c") (simp_all add: strings_LastIndex_def)

text \<open>The two shapes of an address with a port, and an address without one.\<close>

lemma SplitHostPort_plain:
  assumes "set host \<inter> set '':[]'' = {}" "set port \<inter> set '':[]'' = {}"
  shows "net_SplitHostPort (host @ CHR '':'' # port) = Some (host, port)"
proof -
  have l: "strings_LastIndex (host @ CHR '':'' # port) CHR '':'' = Some (length host)"
    using assms(2) by (intro LastIndex_append) auto
  have "hd (host @ CHR '':'' # port) \<noteq> CHR ''[''" using assms(1) by (cases host) auto
  with l assms show ?thesis by (auto simp: net_SplitHostPort_def Let_def)
qed

lemma SplitHostPort_brackets:
  assumes "set host \<inter> set ''[]'' = {}" "set port \<inter> set '':[]'' = {}"
  shows "net_SplitHostPort (CHR ''['' # host @ CHR '']'' # CHR '':'' # port) = Some (host, port)"
proof -
  have "strings_LastIndex ((CHR ''['' # host @ [CHR '']'']) @ CHR '':'' # port) CHR '':'' = Some (length host + 2)"
    using assms(2) by (subst LastIndex_append) auto
  moreover have "strings_Index ((CHR ''['' # host) @ CHR '']'' # CHR '':'' # port) CHR '']'' = Some (length host + 1)"
    using assms(1) by (subst Index_append) auto
  ultimately show ?thesis
    using assms by (auto simp: net_SplitHostPort_def Let_def)
qed

lemma SplitHostPort_no_colon: "CHR '':'' \<notin> set s \<Longrightarrow> net_SplitHostPort s = None"
  using LastIndex_None [of s "CHR '':''"] by (simp add: net_SplitHostPort_def)

lemma of_char_ascii_lower:
  "of_char (ascii_lower c) = (let n = of_char c :: nat in if 65 \<le> n \<and> n \<le> 90 then n + 32 else n)"
  by (auto simp: ascii_lower_def Let_def of_char_of)

lemma ascii_lower_idem [simp]: "ascii_lower (ascii_lower c) = ascii_lower c"
  by (auto simp: ascii_lower_def [of "ascii_lower c"] of_char_ascii_lower Let_def)

lemma is_ascii_lower [simp]: "is_ascii (map ascii_lower s) = is_ascii s"
  by (induction s) (auto simp: is_ascii_def of_char_ascii_lower Let_def)

lemma ToLower_ascii: "is_ascii s \<Longrightarrow> strings_ToLower uni s = map ascii_lower s"
  by (simp add: strings_ToLower_def)

lemma ToLower_ascii_idem:
  "is_ascii s \<Longrightarrow> strings_ToLower uni (strings_ToLower uni s) = strings_ToLower uni s"
  by (simp add: strings_ToLower_def comp_def)

section \<open>Lemmas on maps, orders and results\<close>

lemma gm_get_put [gomap_simps]: "gm_get (gm_put k v m) k' = (if k' = k then Some v else gm_get m k')"
  by (simp add: update_conv)

lemma gm_get_del [gomap_simps]: "gm_get (gm_del k m) k' = (if k' = k then None else gm_get m k')"
  by (simp add: delete_conv)

lemma gm_dom_put: "dom (gm_get (gm_put k v m)) = insert k (dom (gm_get m))"
  by (auto simp: dom_def gm_get_put)

lemma gm_wf_Nil [simp]: "gm_wf []"
  by (simp add: gm_wf_def)

lemma gm_wf_put [simp]: "gm_wf m \<Longrightarrow> gm_wf (gm_put k v m)"
  by (simp add: gm_wf_def distinct_update)

lemma gm_wf_del [simp]: "gm_wf m \<Longrightarrow> gm_wf (gm_del k m)"
  by (simp add: gm_wf_def distinct_delete)

lemma gm_put_fresh: "k \<notin> fst ` set m \<Longrightarrow> gm_put k v m = m @ [(k, v)]"
  by (induction m) auto

lemma gm_get_in: "gm_wf m \<Longrightarrow> gm_get m k = Some v \<longleftrightarrow> (k, v) \<in> set m"
  by (simp add: gm_wf_def)

lemma gm_keys_put: "fst ` set (gm_put k v m) = insert k (fst ` set m)"
  by (induction m) auto

lemma gm_put_set: "set (gm_put k v m) \<subseteq> insert (k, v) (set m)"
  by (induction m) auto

lemma gm_all_Nil [simp]: "gm_all P []"
  by (simp add: gm_all_def)

lemma gm_all_put [intro, simp]: "P k v \<Longrightarrow> gm_all P m \<Longrightarrow> gm_all P (gm_put k v m)"
  using gm_put_set [of k v m] by (auto simp: gm_all_def)

lemma gm_all_mem: "gm_all P m \<Longrightarrow> (k, v) \<in> set m \<Longrightarrow> P k v"
  by (auto simp: gm_all_def)

lemma gm_all_get: "gm_all P m \<Longrightarrow> gm_get m k = Some v \<Longrightarrow> P k v"
  by (auto simp: gm_all_def dest: map_of_SomeD)

lemma map_order_set: "map_order ord \<Longrightarrow> set (ord xs) = set xs"
  by (metis map_order_def set_mset_mset)

lemma map_order_length: "map_order ord \<Longrightarrow> length (ord xs) = length xs"
  by (metis map_order_def size_mset)

lemma map_order_distinct: "map_order ord \<Longrightarrow> distinct (ord xs) = distinct xs"
  by (metis map_order_def mset_eq_imp_distinct_iff)

lemma map_order_id [simp]: "map_order (\<lambda>xs. xs)"
  by (simp add: map_order_def)

lemma map_order_rev [simp]: "map_order rev"
  by (simp add: map_order_def)

lemma result_ok_simps [simp]: "\<not> result_ok (Inl e)" "result_ok (Inr x)"
  by (simp_all add: result_ok_def)

text \<open>Signed 64-bit arithmetic without overflow.\<close>

lemma sint_word_of_int_small: "- (2 ^ 63) \<le> n \<Longrightarrow> n < 2 ^ 63 \<Longrightarrow> sint (word_of_int n :: u64) = n"
  by (simp add: signed_of_int signed_take_bit_int_eq_self)

lemma sint_times_small:
  fixes a b :: u64
  assumes "- (2 ^ 63) \<le> sint a * sint b" "sint a * sint b < 2 ^ 63"
  shows "sint (a * b) = sint a * sint b"
proof -
  have "a * b = word_of_int (sint a * sint b)" by simp
  with assms sint_word_of_int_small show ?thesis by metis
qed

lemma sint_plus_small:
  fixes a b :: u64
  assumes "- (2 ^ 63) \<le> sint a + sint b" "sint a + sint b < 2 ^ 63"
  shows "sint (a + b) = sint a + sint b"
proof -
  have "a + b = word_of_int (sint a + sint b)" by simp
  with assms sint_word_of_int_small show ?thesis by metis
qed

lemma sint_range64: "- (2 ^ 63) \<le> sint (a :: u64)" "sint (a :: u64) < 2 ^ 63"
  using sint_ge [of a] sint_lt [of a] by simp_all

lemma fold_concat_map: "fold (\<lambda>x. fold g (h x)) xs = fold g (concat (map h xs))"
  by (induction xs) simp_all

lemma map_result_Inl: "map_result f xs = Inl e \<Longrightarrow> \<exists>x \<in> set xs. f x = Inl e"
  by (induction xs) (auto split: sum.splits)

lemma map_result_Inr: "map_result f xs = Inr ys \<longleftrightarrow> list_all2 (\<lambda>x y. f x = Inr y) xs ys"
proof (induction xs arbitrary: ys)
  case (Cons x xs)
  then show ?case by (cases "f x"; cases "map_result f xs") (auto simp: list_all2_Cons1)
qed auto

lemma for_each_append:
  "for_each f (xs @ ys) s =
     (case for_each f xs s of (Some e, s') \<Rightarrow> (Some e, s') | (None, s') \<Rightarrow> for_each f ys s')"
  by (induction xs arbitrary: s) (auto split: prod.split option.split)

lemma for_each_concat:
  "for_each (\<lambda>x. for_each f (g x)) xs s = for_each f (concat (map g xs)) s"
  by (induction xs arbitrary: s) (auto simp: for_each_append split: prod.split option.split)

lemma for_each_ok_iff:
  assumes "\<And>x s. x \<in> set xs \<Longrightarrow> fst (f x s) = None \<longleftrightarrow> ok x"
  shows "fst (for_each f xs s) = None \<longleftrightarrow> (\<forall>x \<in> set xs. ok x)"
  using assms
proof (induction xs arbitrary: s)
  case (Cons x xs)
  obtain e s' where f: "f x s = (e, s')" by fastforce
  with Cons.prems [of x s] have "ok x \<longleftrightarrow> e = None" by simp
  with f Cons.IH Cons.prems show ?case by (cases e) simp_all
qed simp

lemma for_each_invariant:
  assumes "P s" and "\<And>x s. x \<in> set xs \<Longrightarrow> P s \<Longrightarrow> P (snd (f x s))"
  shows "P (snd (for_each f xs s))"
  using assms
proof (induction xs arbitrary: s)
  case (Cons x xs)
  obtain e s' where f: "f x s = (e, s')" by fastforce
  with Cons.prems(1) Cons.prems(2) [of x s] have "P s'" by simp
  with f Cons.IH [OF \<open>P s'\<close>] Cons.prems(2) show ?case by (cases e) simp_all
qed simp

section \<open>Transition systems\<close>

text \<open>The interface through which the components use an invariant of their goroutines: it holds initially and every step keeps it.\<close>

locale transition_invariant =
  fixes initial :: "'s \<Rightarrow> bool" and step :: "'s \<Rightarrow> 's \<Rightarrow> bool" and inv :: "'s \<Rightarrow> bool"
  assumes initial_inv: "initial s \<Longrightarrow> inv s"
    and step_inv: "inv s \<Longrightarrow> step s s' \<Longrightarrow> inv s'"
begin

lemma steps_inv: "step\<^sup>*\<^sup>* s s' \<Longrightarrow> inv s \<Longrightarrow> inv s'"
  by (induction rule: rtranclp_induct) (auto intro: step_inv)

lemma reachable_inv: "initial s \<Longrightarrow> step\<^sup>*\<^sup>* s s' \<Longrightarrow> inv s'"
  using steps_inv initial_inv by blast

end

text \<open>A system in which every step lowers a measure of the states that satisfy the invariant: its runs are bounded.\<close>

locale terminating_system = transition_invariant +
  fixes size_of :: "'a \<Rightarrow> nat"
  assumes step_decreases: "inv s \<Longrightarrow> step s s' \<Longrightarrow> size_of s' < size_of s"
begin

lemma run_bounded:
  assumes "initial s" "(step ^^ k) s s'"
  shows "k + size_of s' \<le> size_of s"
  using assms(2)
proof (induction k arbitrary: s')
  case (Suc k)
  then obtain t where t: "(step ^^ k) s t" "step t s'" by auto
  then have "inv t" using reachable_inv [OF assms(1)] relpowp_imp_rtranclp by metis
  with step_decreases [OF this t(2)] Suc.IH [OF t(1)] show ?case by simp
qed simp

end

lemmas go_string_defs = strings_HasPrefix_def strings_TrimPrefix_def strings_Cut_def
  strings_ToLower_def strings_ToUpper_def strings_EqualFold_def is_ascii_def

declare HasPrefix_iff [go_simps] Contains_iff [go_simps] gm_get_put [simp] gm_get_del [simp]

end
