(* ===== verification/Entity_Config.thy ===== *)
theory Entity_Config
  imports Go_Prelude
begin

text \<open>
  The configuration of the entity connector (\<open>connector/solarwindsentityconnector/config\<close>):
  the schema of entities and events with its validation, the expiration settings, and the
  parsing of the configured events into the metric and the log group.  The OTTL condition
  parsers and \<open>time.ParseDuration\<close> are arguments; a parsed condition sequence is the function
  that evaluates it.
\<close>

section \<open>Data\<close>

datatype cfg_error =
    EntityMandatory | IdMandatory
  | ActionMandatory | ActionInvalid string
  | ContextMandatory | ContextInvalid string
  | TypeMandatory | SourceMandatory | DestinationMandatory
  | NoEventsDefined | EntityUndefined string nat | SourceUndefined string nat | DestinationUndefined string nat
  | IntervalInvalid | MaxCapacityInvalid | TTLFormatInvalid | TTLTooSmall
  | UnsupportedContext string | ConditionsInvalid | ParserFailed
  | ConfigTypeInvalid

record entity_cfg =
  ec_Entity :: string
  ec_IDs :: "string list"
  ec_Attributes :: "string list"

record event_cfg =
  ev_Action :: string
  ev_Context :: string
  ev_Conditions :: "string list"

record relationship_event =
  re_Event :: event_cfg
  re_Type :: string
  re_Source :: string
  re_Destination :: string
  re_Attributes :: "string list"

record entity_event =
  ee_Event :: event_cfg
  ee_Entity :: string

record events_cfg =
  ev_Relationships :: "relationship_event list"
  ev_Entities :: "entity_event list"

record schema =
  sc_Entities :: "entity_cfg list"
  sc_Events :: events_cfg

record cache_configuration =
  cc_MaxCapacity :: u64
  cc_TTLCleanupInterval :: string

record expiration_settings =
  es_Enabled :: bool
  es_Interval :: string
  es_Cache :: cache_configuration

record expiration_policy =
  ep_Enabled :: bool
  ep_Interval :: u64
  ep_TTLCleanup :: u64
  ep_MaxCapacity :: u64

record config =
  cf_Schema :: schema
  cf_Expiration :: expiration_settings
  cf_SourcePrefix :: string
  cf_DestinationPrefix :: string

abbreviation EventUpdateAction :: string where "EventUpdateAction \<equiv> ''update''"
abbreviation EventDeleteAction :: string where "EventDeleteAction \<equiv> ''delete''"
abbreviation ottllog_ContextName :: string where "ottllog_ContextName \<equiv> ''log''"
abbreviation ottlmetric_ContextName :: string where "ottlmetric_ContextName \<equiv> ''metric''"

definition second_ns :: int where "second_ns = 1000000000"

section \<open>Validation\<close>

definition validate_entity :: "entity_cfg \<Rightarrow> cfg_error list" where
  "validate_entity e =
     (if ec_Entity e = [] then [EntityMandatory] else []) @
     (if ec_IDs e = [] then [IdMandatory] else [])"

definition validateActionAndContext :: "event_cfg \<Rightarrow> cfg_error list" where
  "validateActionAndContext e =
     (if ev_Action e = [] then [ActionMandatory]
      else if ev_Action e \<noteq> EventUpdateAction \<and> ev_Action e \<noteq> EventDeleteAction
      then [ActionInvalid (ev_Action e)] else []) @
     (if ev_Context e = [] then [ContextMandatory]
      else if ev_Context e \<noteq> ottllog_ContextName \<and> ev_Context e \<noteq> ottlmetric_ContextName
      then [ContextInvalid (ev_Context e)] else [])"

definition validate_relationship_event :: "relationship_event \<Rightarrow> cfg_error list" where
  "validate_relationship_event e =
     validateActionAndContext (re_Event e) @
     (if re_Type e = [] then [TypeMandatory] else []) @
     (if re_Source e = [] then [SourceMandatory] else []) @
     (if re_Destination e = [] then [DestinationMandatory] else [])"

definition validate_entity_event :: "entity_event \<Rightarrow> cfg_error list" where
  "validate_entity_event e =
     validateActionAndContext (ee_Event e) @
     (if ee_Entity e = [] then [EntityMandatory] else [])"

definition validate_schema :: "schema \<Rightarrow> cfg_error list" where
  "validate_schema s =
     (let evs = sc_Events s; types = map ec_Entity (sc_Entities s) in
      if ev_Entities evs = [] \<and> ev_Relationships evs = [] then [NoEventsDefined]
      else
        concat (map (\<lambda>(i, e). if ee_Entity e \<notin> set types then [EntityUndefined (ee_Entity e) i] else [])
                    (enumerate 0 (ev_Entities evs))) @
        concat (map (\<lambda>(i, r).
                       (if re_Source r \<notin> set types then [SourceUndefined (re_Source r) i] else []) @
                       (if re_Destination r \<notin> set types
                        then [DestinationUndefined (re_Destination r) i] else []))
                    (enumerate 0 (ev_Relationships evs))))"

definition evaluateWarnings :: "config \<Rightarrow> string list" where
  "evaluateWarnings c =
     (if sc_Entities (cf_Schema c) = []
      then [''no entities defined in schema::entities, there's nothing to do''] else []) @
     (if ev_Entities (sc_Events (cf_Schema c)) = [] \<and> ev_Relationships (sc_Events (cf_Schema c)) = []
      then [''no events defined in schema::events, there's nothing to do''] else [])"

section \<open>Expiration settings\<close>

definition getInterval :: "(string \<Rightarrow> u64 option) \<Rightarrow> expiration_settings \<Rightarrow> (cfg_error, u64) result" where
  "getInterval parseDuration e =
     (case parseDuration (es_Interval e) of None \<Rightarrow> Inl IntervalInvalid | Some d \<Rightarrow> Inr d)"

definition getMaxCapacity :: "expiration_settings \<Rightarrow> (cfg_error, u64) result" where
  "getMaxCapacity e =
     (if sint (cc_MaxCapacity (es_Cache e)) \<le> 0 then Inl MaxCapacityInvalid
      else Inr (cc_MaxCapacity (es_Cache e)))"

definition getTTLCleanupInterval ::
  "(string \<Rightarrow> u64 option) \<Rightarrow> expiration_settings \<Rightarrow> (cfg_error, u64) result" where
  "getTTLCleanupInterval parseDuration e =
     (case parseDuration (cc_TTLCleanupInterval (es_Cache e)) of
        None \<Rightarrow> Inl TTLFormatInvalid
      | Some d \<Rightarrow> if sint d < second_ns then Inl TTLTooSmall else Inr d)"

fun err_of :: "(cfg_error, 'a) result \<Rightarrow> cfg_error list" where
  "err_of (Inl e) = [e]"
| "err_of (Inr _) = []"

definition validate_expiration :: "(string \<Rightarrow> u64 option) \<Rightarrow> expiration_settings \<Rightarrow> cfg_error list" where
  "validate_expiration parseDuration e =
     (if \<not> es_Enabled e then []
      else err_of (getInterval parseDuration e) @ err_of (getMaxCapacity e) @
           err_of (getTTLCleanupInterval parseDuration e))"

definition disabled_policy :: expiration_policy where
  "disabled_policy = \<lparr>ep_Enabled = False, ep_Interval = 0, ep_TTLCleanup = 0, ep_MaxCapacity = 0\<rparr>"

definition unmarshal_expiration ::
  "(string \<Rightarrow> u64 option) \<Rightarrow> expiration_settings \<Rightarrow> (cfg_error, expiration_policy) result" where
  "unmarshal_expiration parseDuration e =
     (if \<not> es_Enabled e then Inr disabled_policy
      else case getInterval parseDuration e of Inl er \<Rightarrow> Inl er | Inr interval \<Rightarrow>
       (case getMaxCapacity e of Inl er \<Rightarrow> Inl er | Inr maxCapacity \<Rightarrow>
        (case getTTLCleanupInterval parseDuration e of Inl er \<Rightarrow> Inl er | Inr ttl \<Rightarrow>
           Inr \<lparr>ep_Enabled = True, ep_Interval = interval, ep_TTLCleanup = ttl,
                ep_MaxCapacity = maxCapacity\<rparr>)))"

definition default_expiration :: expiration_settings where
  "default_expiration =
     \<lparr>es_Enabled = False, es_Interval = ''5m0s'',
      es_Cache = \<lparr>cc_MaxCapacity = 1000000, cc_TTLCleanupInterval = ''5s''\<rparr>\<rparr>"

section \<open>Parsed events\<close>

record ('t, 'c) parsed_event =
  pe_Definition :: 't
  pe_ConditionSeq :: 'c

record 'c events_group =
  eg_Entities :: "(entity_event, 'c) parsed_event list"
  eg_Relationships :: "(relationship_event, 'c) parsed_event list"

record ('m, 'l) parsed_events =
  pe_MetricEvents :: "'m events_group"
  pe_LogEvents :: "'l events_group"

record ('m, 'l) parsed_schema =
  ps_Entities :: "(string, entity_cfg) gomap"
  ps_Events :: "('m, 'l) parsed_events"

type_synonym 'c parser = "string list \<Rightarrow> (cfg_error, 'c) result"

definition addEvent ::
  "('t, 'c) parsed_event list \<Rightarrow> 't \<Rightarrow> string list \<Rightarrow> 'c parser
   \<Rightarrow> (cfg_error, ('t, 'c) parsed_event list) result" where
  "addEvent parsedEvents event conditions parser =
     (case parser conditions of
        Inl er \<Rightarrow> Inl ConditionsInvalid
      | Inr seq \<Rightarrow> Inr (parsedEvents @ [\<lparr>pe_Definition = event, pe_ConditionSeq = seq\<rparr>]))"

definition processEvent ::
  "'t \<Rightarrow> string \<Rightarrow> string list \<Rightarrow> 'm parser \<Rightarrow> 'l parser
   \<Rightarrow> ('t, 'm) parsed_event list \<times> ('t, 'l) parsed_event list
   \<Rightarrow> (cfg_error, ('t, 'm) parsed_event list \<times> ('t, 'l) parsed_event list) result" where
  "processEvent event context conditions metricParser logParser acc =
     (let conditions = (if conditions = [] then [''true''] else conditions);
          (metricEvents, logEvents) = acc in
      if context = ottlmetric_ContextName
      then (case addEvent metricEvents event conditions metricParser of
              Inl er \<Rightarrow> Inl er | Inr ms \<Rightarrow> Inr (ms, logEvents))
      else if context = ottllog_ContextName
      then (case addEvent logEvents event conditions logParser of
              Inl er \<Rightarrow> Inl er | Inr ls \<Rightarrow> Inr (metricEvents, ls))
      else Inl (UnsupportedContext context))"

fun processEvents_loop ::
  "('t \<Rightarrow> event_cfg) \<Rightarrow> 'm parser \<Rightarrow> 'l parser \<Rightarrow> 't list
   \<Rightarrow> ('t, 'm) parsed_event list \<times> ('t, 'l) parsed_event list
   \<Rightarrow> (cfg_error, ('t, 'm) parsed_event list \<times> ('t, 'l) parsed_event list) result" where
  "processEvents_loop ev mp lp [] acc = Inr acc"
| "processEvents_loop ev mp lp (e # es) acc =
     (case processEvent e (ev_Context (ev e)) (ev_Conditions (ev e)) mp lp acc of
        Inl er \<Rightarrow> Inl er
      | Inr acc' \<Rightarrow> processEvents_loop ev mp lp es acc')"

definition createParsedEvents ::
  "(cfg_error, 'm parser) result \<Rightarrow> (cfg_error, 'l parser) result \<Rightarrow> schema
   \<Rightarrow> (cfg_error, ('m, 'l) parsed_events) result" where
  "createParsedEvents newMetricParser newLogParser s =
     (case newMetricParser of Inl er \<Rightarrow> Inl ParserFailed | Inr mp \<Rightarrow>
      (case newLogParser of Inl er \<Rightarrow> Inl ParserFailed | Inr lp \<Rightarrow>
       (case processEvents_loop ee_Event mp lp (ev_Entities (sc_Events s)) ([], []) of
          Inl er \<Rightarrow> Inl er
        | Inr (me, le) \<Rightarrow>
          (case processEvents_loop re_Event mp lp (ev_Relationships (sc_Events s)) ([], []) of
             Inl er \<Rightarrow> Inl er
           | Inr (mr, lr) \<Rightarrow>
               Inr \<lparr>pe_MetricEvents = \<lparr>eg_Entities = me, eg_Relationships = mr\<rparr>,
                    pe_LogEvents = \<lparr>eg_Entities = le, eg_Relationships = lr\<rparr>\<rparr>))))"

definition newEntities :: "schema \<Rightarrow> (string, entity_cfg) gomap" where
  "newEntities s = fold (\<lambda>e m. gm_put (ec_Entity e) e m) (sc_Entities s) []"

definition unmarshal_schema ::
  "(cfg_error, 'm parser) result \<Rightarrow> (cfg_error, 'l parser) result \<Rightarrow> schema
   \<Rightarrow> (cfg_error, ('m, 'l) parsed_schema) result" where
  "unmarshal_schema newMetricParser newLogParser s =
     (case createParsedEvents newMetricParser newLogParser s of
        Inl er \<Rightarrow> Inl er
      | Inr events \<Rightarrow> Inr \<lparr>ps_Entities = newEntities s, ps_Events = events\<rparr>)"

section \<open>Lemmas\<close>

lemmas validate_defs = validate_entity_def validateActionAndContext_def
  validate_relationship_event_def validate_entity_event_def

lemmas expiration_defs = getInterval_def getMaxCapacity_def getTTLCleanupInterval_def

lemma validateActionAndContext_Nil:
  "validateActionAndContext e = [] \<longleftrightarrow>
     ev_Action e \<in> {EventUpdateAction, EventDeleteAction} \<and>
     ev_Context e \<in> {ottllog_ContextName, ottlmetric_ContextName}"
  by (auto simp: validateActionAndContext_def)

lemma concat_enumerate_Nil:
  "concat (map f (enumerate n xs)) = [] \<longleftrightarrow> (\<forall>i < length xs. f (n + i, xs ! i) = [])"
  by (auto simp: in_set_enumerate_eq) (metis add.commute le_add_diff_inverse2 add_diff_cancel_left' le_add1 nat_add_left_cancel_less)+

lemma validate_schema_Nil:
  assumes "validate_schema s = []"
  shows "e \<in> set (ev_Entities (sc_Events s)) \<Longrightarrow> ee_Entity e \<in> ec_Entity ` set (sc_Entities s)"
    and "r \<in> set (ev_Relationships (sc_Events s)) \<Longrightarrow>
         re_Source r \<in> ec_Entity ` set (sc_Entities s) \<and>
         re_Destination r \<in> ec_Entity ` set (sc_Entities s)"
  using assms
  by (auto simp: validate_schema_def Let_def concat_enumerate_Nil in_set_conv_nth image_def
      simp del: concat_eq_Nil_conv split: if_splits)

lemma fold_put_get:
  "gm_get (fold (\<lambda>e m. gm_put (f e) e m) es m) t =
     (case find (\<lambda>e. f e = t) (rev es) of None \<Rightarrow> gm_get m t | Some e \<Rightarrow> Some e)"
proof (induction es rule: rev_induct)
  case (snoc e es)
  then show ?case by (auto split: option.splits)
qed simp

lemma newEntities_get: "gm_get (newEntities s) t = find (\<lambda>e. ec_Entity e = t) (rev (sc_Entities s))"
  by (simp add: newEntities_def fold_put_get split: option.splits)

lemma newEntities_key: "gm_get (newEntities s) t = Some cfg \<Longrightarrow> ec_Entity cfg = t"
  by (auto simp: newEntities_get find_Some_iff)

lemma newEntities_defined:
  assumes "t \<in> ec_Entity ` set (sc_Entities s)"
  obtains e where "gm_get (newEntities s) t = Some e" and "e \<in> set (sc_Entities s)" and "ec_Entity e = t"
proof -
  have "find (\<lambda>e. ec_Entity e = t) (rev (sc_Entities s)) \<noteq> None"
    using assms by (auto simp: find_None_iff)
  then obtain e where e: "find (\<lambda>e. ec_Entity e = t) (rev (sc_Entities s)) = Some e" by blast
  from e have "e \<in> set (sc_Entities s)" "ec_Entity e = t"
    by (auto simp: find_Some_iff) (metis nth_mem length_rev set_rev)
  with e that show ?thesis by (simp add: newEntities_get)
qed

lemma processEvent_Inr:
  assumes "processEvent e ctx cs mp lp (ms, ls) = Inr (ms', ls')"
  shows "map pe_Definition ms' = map pe_Definition ms @ (if ctx = ottlmetric_ContextName then [e] else [])"
    and "map pe_Definition ls' = map pe_Definition ls @ (if ctx = ottllog_ContextName then [e] else [])"
  using assms by (auto simp: processEvent_def addEvent_def Let_def split: if_splits sum.splits)

lemma processEvents_loop_Inr:
  assumes "processEvents_loop ev mp lp es (ms, ls) = Inr (ms', ls')"
  shows "map pe_Definition ms' =
           map pe_Definition ms @ filter (\<lambda>e. ev_Context (ev e) = ottlmetric_ContextName) es"
    and "map pe_Definition ls' =
           map pe_Definition ls @ filter (\<lambda>e. ev_Context (ev e) = ottllog_ContextName) es"
  using assms
proof (induction es arbitrary: ms ls)
  case (Cons e es)
  {
    case 1
    then show ?case
      by (cases "processEvent e (ev_Context (ev e)) (ev_Conditions (ev e)) mp lp (ms, ls)")
        (auto dest!: processEvent_Inr(1) Cons.IH(1))
  next
    case 2
    then show ?case
      by (cases "processEvent e (ev_Context (ev e)) (ev_Conditions (ev e)) mp lp (ms, ls)")
        (auto dest!: processEvent_Inr(2) Cons.IH(2))
  }
qed auto

text \<open>The conditions a parser is given: the configured ones, or the constant true.\<close>

definition effective_conditions :: "event_cfg \<Rightarrow> string list" where
  "effective_conditions e = (if ev_Conditions e = [] then [''true''] else ev_Conditions e)"

definition event_parses :: "'m parser \<Rightarrow> 'l parser \<Rightarrow> event_cfg \<Rightarrow> bool" where
  "event_parses mp lp e =
     (if ev_Context e = ottlmetric_ContextName then result_ok (mp (effective_conditions e))
      else ev_Context e = ottllog_ContextName \<and> result_ok (lp (effective_conditions e)))"

lemma processEvent_ok:
  "result_ok (processEvent e (ev_Context v) (ev_Conditions v) mp lp acc) \<longleftrightarrow> event_parses mp lp v"
  by (cases acc)
    (auto simp: processEvent_def addEvent_def event_parses_def effective_conditions_def result_ok_def
      Let_def split: sum.splits)

lemma processEvents_loop_ok:
  "result_ok (processEvents_loop ev mp lp es acc) \<longleftrightarrow> (\<forall>e \<in> set es. event_parses mp lp (ev e))"
proof (induction es arbitrary: acc)
  case (Cons e es)
  show ?case
    using processEvent_ok [of e "ev e" mp lp acc] Cons.IH
    by (cases "processEvent e (ev_Context (ev e)) (ev_Conditions (ev e)) mp lp acc") auto
qed simp

lemma createParsedEvents_ok:
  "result_ok (createParsedEvents (Inr mp) (Inr lp) s) \<longleftrightarrow>
     (\<forall>e \<in> set (ev_Entities (sc_Events s)). event_parses mp lp (ee_Event e)) \<and>
     (\<forall>r \<in> set (ev_Relationships (sc_Events s)). event_parses mp lp (re_Event r))"
  using processEvents_loop_ok [of ee_Event mp lp "ev_Entities (sc_Events s)" "([], [])"]
    processEvents_loop_ok [of re_Event mp lp "ev_Relationships (sc_Events s)" "([], [])"]
  by (auto simp: createParsedEvents_def result_ok_def split: sum.splits prod.splits)

lemma createParsedEvents_groups:
  assumes "createParsedEvents mp lp s = Inr pe"
  shows "map pe_Definition (eg_Entities (pe_MetricEvents pe)) =
           filter (\<lambda>e. ev_Context (ee_Event e) = ottlmetric_ContextName) (ev_Entities (sc_Events s)) \<and>
         map pe_Definition (eg_Entities (pe_LogEvents pe)) =
           filter (\<lambda>e. ev_Context (ee_Event e) = ottllog_ContextName) (ev_Entities (sc_Events s)) \<and>
         map pe_Definition (eg_Relationships (pe_MetricEvents pe)) =
           filter (\<lambda>r. ev_Context (re_Event r) = ottlmetric_ContextName) (ev_Relationships (sc_Events s)) \<and>
         map pe_Definition (eg_Relationships (pe_LogEvents pe)) =
           filter (\<lambda>r. ev_Context (re_Event r) = ottllog_ContextName) (ev_Relationships (sc_Events s))"
proof -
  obtain mp' lp' me le mr lr where
    e: "processEvents_loop ee_Event mp' lp' (ev_Entities (sc_Events s)) ([], []) = Inr (me, le)" and
    r: "processEvents_loop re_Event mp' lp' (ev_Relationships (sc_Events s)) ([], []) = Inr (mr, lr)" and
    p: "pe = \<lparr>pe_MetricEvents = \<lparr>eg_Entities = me, eg_Relationships = mr\<rparr>,
           pe_LogEvents = \<lparr>eg_Entities = le, eg_Relationships = lr\<rparr>\<rparr>"
    using assms by (auto simp: createParsedEvents_def split: sum.splits prod.splits)
  from processEvents_loop_Inr [OF e] processEvents_loop_Inr [OF r] p show ?thesis by simp
qed

section \<open>Properties\<close>

text \<open>Validation and unmarshalling of the expiration settings agree: the settings are
  accepted by \<open>Validate\<close> exactly when \<open>Unmarshal\<close> returns a policy.\<close>

theorem expiration_validate_iff_unmarshal:
  "validate_expiration parseDuration e = [] \<longleftrightarrow> result_ok (unmarshal_expiration parseDuration e)"
  by (auto simp: validate_expiration_def unmarshal_expiration_def result_ok_def split: sum.splits)

text \<open>Parsing distributes the configured events over the two signal groups: when it succeeds,
  the metric group holds exactly the events of context metric and the log group exactly those of
  context log, each in configuration order.\<close>

theorem createParsedEvents_partition:
  assumes "createParsedEvents mp lp s = Inr pe"
  shows "map pe_Definition (eg_Entities (pe_MetricEvents pe)) =
           filter (\<lambda>e. ev_Context (ee_Event e) = ottlmetric_ContextName) (ev_Entities (sc_Events s)) \<and>
         map pe_Definition (eg_Entities (pe_LogEvents pe)) =
           filter (\<lambda>e. ev_Context (ee_Event e) = ottllog_ContextName) (ev_Entities (sc_Events s)) \<and>
         map pe_Definition (eg_Relationships (pe_MetricEvents pe)) =
           filter (\<lambda>r. ev_Context (re_Event r) = ottlmetric_ContextName) (ev_Relationships (sc_Events s)) \<and>
         map pe_Definition (eg_Relationships (pe_LogEvents pe)) =
           filter (\<lambda>r. ev_Context (re_Event r) = ottllog_ContextName) (ev_Relationships (sc_Events s))"
  using assms by (rule createParsedEvents_groups)

definition wit_event :: "string \<Rightarrow> string \<Rightarrow> event_cfg" where
  "wit_event ctx act = \<lparr>ev_Action = act, ev_Context = ctx, ev_Conditions = []\<rparr>"

definition wit_schema :: schema where
  "wit_schema =
     \<lparr>sc_Entities = [\<lparr>ec_Entity = ''Host'', ec_IDs = [''id''], ec_Attributes = [''os'']\<rparr>,
                     \<lparr>ec_Entity = ''Pod'', ec_IDs = [''pod''], ec_Attributes = []\<rparr>],
      sc_Events = \<lparr>ev_Relationships =
                      [\<lparr>re_Event = wit_event ''log'' ''update'', re_Type = ''Has'', re_Source = ''Host'',
                        re_Destination = ''Pod'', re_Attributes = []\<rparr>],
                   ev_Entities = [\<lparr>ee_Event = wit_event ''log'' ''update'', ee_Entity = ''Host''\<rparr>,
                                  \<lparr>ee_Event = wit_event ''metric'' ''delete'', ee_Entity = ''Pod''\<rparr>]\<rparr>\<rparr>"

lemma createParsedEvents_partition_witness:
  "\<exists>pe. createParsedEvents (Inr Inr) (Inr Inr) wit_schema = Inr pe \<and>
     map pe_Definition (eg_Entities (pe_MetricEvents pe)) =
       [\<lparr>ee_Event = wit_event ''metric'' ''delete'', ee_Entity = ''Pod''\<rparr>]"
proof -
  obtain pe where pe: "createParsedEvents (Inr Inr) (Inr Inr) wit_schema = Inr pe"
    by (simp add: createParsedEvents_def processEvent_def addEvent_def wit_schema_def wit_event_def)
  from createParsedEvents_partition [OF pe] pe show ?thesis
    by (simp add: wit_schema_def wit_event_def)
qed

end
