(* ===== verification/Pdata.thy ===== *)
theory Pdata
  imports Go_Prelude
begin

text \<open>
  The telemetry data that the components pass on: attribute values (\<open>pcommon.Value\<close>),
  attribute maps (\<open>pcommon.Map\<close>, an ordered list of key/value pairs with one entry per key)
  and log batches (\<open>plog.Logs\<close>: resources, scopes, records).  These types belong to the
  collector's data library; here they are the data they hold, and the only operations on
  attribute maps are \<open>Get\<close>, \<open>Put...\<close> and \<open>Remove\<close> with the laws of the locale
  \<open>attribute_map\<close>, through which every lemma about attributes goes.
\<close>

section \<open>Values\<close>

text \<open>A 64-bit float as the programs use it: copied and compared, never computed with.\<close>

datatype float64 = Finite rat | Infinite bool | NaN

fun f64_gt :: "float64 \<Rightarrow> rat \<Rightarrow> bool" where
  "f64_gt (Finite r) q = (r > q)"
| "f64_gt (Infinite pos) q = pos"
| "f64_gt NaN q = False"

fun f64_ge :: "float64 \<Rightarrow> rat \<Rightarrow> bool" where
  "f64_ge (Finite r) q = (r \<ge> q)"
| "f64_ge (Infinite pos) q = pos"
| "f64_ge NaN q = False"

fun f64_le :: "float64 \<Rightarrow> rat \<Rightarrow> bool" where
  "f64_le (Finite r) q = (r \<le> q)"
| "f64_le (Infinite pos) q = (\<not> pos)"
| "f64_le NaN q = False"

datatype pvalue =
    VEmpty
  | VStr string
  | VInt int
  | VDouble float64
  | VBool bool
  | VMap "(string \<times> pvalue) list"
  | VSlice "pvalue list"
  | VBytes bytes

type_synonym pmap = "(string \<times> pvalue) list"

fun is_VStr :: "pvalue \<Rightarrow> bool" where
  "is_VStr (VStr s) = True"
| "is_VStr _ = False"

text \<open>\<open>Value.Str\<close>: the empty string for a value of another type and for the value of a failed \<open>Get\<close>.\<close>

fun v_str :: "pvalue option \<Rightarrow> string" where
  "v_str (Some (VStr s)) = s"
| "v_str _ = []"

section \<open>Attribute maps\<close>

definition p_get :: "pmap \<Rightarrow> string \<Rightarrow> pvalue option" where
  "p_get m k = gm_get m k"

definition p_put :: "string \<Rightarrow> pvalue \<Rightarrow> pmap \<Rightarrow> pmap" where
  "p_put k v m = gm_put k v m"

definition p_remove :: "string \<Rightarrow> pmap \<Rightarrow> pmap" where
  "p_remove k m = gm_del k m"

definition p_putStr :: "string \<Rightarrow> string \<Rightarrow> pmap \<Rightarrow> pmap" where
  "p_putStr k s m = p_put k (VStr s) m"

definition p_str :: "pmap \<Rightarrow> string \<Rightarrow> string" where
  "p_str m k = v_str (p_get m k)"

definition p_wf :: "pmap \<Rightarrow> bool" where
  "p_wf m = gm_wf m"

text \<open>\<open>Map.AsRaw\<close>: the Go map of the entries.\<close>

definition p_asRaw :: "pmap \<Rightarrow> (string \<rightharpoonup> pvalue)" where
  "p_asRaw m = p_get m"

section \<open>Log batches\<close>

record log_record =
  lr_observed :: u64
  lr_timestamp :: u64
  lr_body :: pvalue
  lr_attrs :: pmap

definition new_record :: log_record where
  "new_record = \<lparr>lr_observed = 0, lr_timestamp = 0, lr_body = VEmpty, lr_attrs = []\<rparr>"

record scope_logs =
  sl_attrs :: pmap
  sl_records :: "log_record list"

record resource_logs =
  rl_attrs :: pmap
  rl_scopes :: "scope_logs list"

type_synonym logs = "resource_logs list"

definition all_records :: "logs \<Rightarrow> log_record list" where
  "all_records ls = concat (map (\<lambda>rl. concat (map sl_records (rl_scopes rl))) ls)"

definition log_record_count :: "logs \<Rightarrow> nat" where
  "log_record_count ls = length (all_records ls)"

section \<open>Metric batches\<close>

text \<open>A data point is its attributes, start time, time and value (\<open>VEmpty\<close> where the kind of point has no
  single number); the kinds of metric data are those of \<open>pmetric\<close>.\<close>

record data_point =
  dp_attrs :: pmap
  dp_startTimestamp :: u64
  dp_timestamp :: u64
  dp_value :: pvalue

datatype metric_data =
    MEmpty
  | MGauge "data_point list"
  | MSum "data_point list"
  | MHistogram "data_point list"
  | MExponentialHistogram "data_point list"
  | MSummary "data_point list"

record metric =
  mt_name :: string
  mt_description :: string
  mt_unit :: string
  mt_metadata :: pmap
  mt_data :: metric_data

record scope_metrics =
  sm_name :: string
  sm_version :: string
  sm_attrs :: pmap
  sm_metrics :: "metric list"

record resource_metrics =
  rm_attrs :: pmap
  rm_scopes :: "scope_metrics list"

type_synonym metrics = "resource_metrics list"

section \<open>Trace batches\<close>

record span =
  sn_name :: string
  sn_attrs :: pmap

record scope_spans =
  ss_attrs :: pmap
  ss_spans :: "span list"

record resource_spans =
  rsp_attrs :: pmap
  rsp_scopes :: "scope_spans list"

type_synonym traces = "resource_spans list"

section \<open>The contract of an attribute map\<close>

locale attribute_map =
  fixes get :: "'m \<Rightarrow> string \<Rightarrow> pvalue option"
    and put :: "string \<Rightarrow> pvalue \<Rightarrow> 'm \<Rightarrow> 'm"
    and remove :: "string \<Rightarrow> 'm \<Rightarrow> 'm"
    and wf :: "'m \<Rightarrow> bool"
  assumes get_put: "get (put k v m) k' = (if k' = k then Some v else get m k')"
    and get_remove: "get (remove k m) k' = (if k' = k then None else get m k')"
    and wf_put: "wf m \<Longrightarrow> wf (put k v m)"
    and wf_remove: "wf m \<Longrightarrow> wf (remove k m)"
begin

lemma put_frame: "k' \<noteq> k \<Longrightarrow> get (put k v m) k' = get m k'"
  by (simp add: get_put)

lemma wf_put_all: "wf m \<Longrightarrow> wf (fold (\<lambda>(k, v). put k v) kvs m)"
  by (induction kvs arbitrary: m) (auto simp: wf_put)

lemma get_put_all:
  "get (fold (\<lambda>(k, v). put k v) kvs m) k' =
     (case map_of (rev kvs) k' of None \<Rightarrow> get m k' | Some v \<Rightarrow> Some v)"
proof (induction kvs arbitrary: m)
  case (Cons kv kvs)
  then show ?case
    by (cases kv) (auto simp: get_put map_add_def split: option.splits)
qed simp

lemma get_put_all_distinct:
  assumes "distinct (map fst kvs)"
  shows "get (fold (\<lambda>(k, v). put k v) kvs m) k' =
     (case map_of kvs k' of None \<Rightarrow> get m k' | Some v \<Rightarrow> Some v)"
proof -
  have "map_of (rev kvs) = map_of kvs"
    using assms by (simp add: map_of_inject_set rev_map [symmetric])
  then show ?thesis by (simp add: get_put_all)
qed

lemma put_all_order_irrelevant:
  assumes "distinct (map fst kvs)" and "mset kvs' = mset kvs"
  shows "get (fold (\<lambda>(k, v). put k v) kvs' m) k = get (fold (\<lambda>(k, v). put k v) kvs m) k"
proof -
  have d: "distinct (map fst kvs')"
    by (metis assms mset_eq_imp_distinct_iff mset_map)
  have "map_of kvs' = map_of kvs"
    by (metis assms d map_of_inject_set set_mset_mset)
  then show ?thesis by (simp add: get_put_all_distinct assms d)
qed

end

interpretation pm: attribute_map p_get p_put p_remove p_wf
  by unfold_locales (simp_all add: p_get_def p_put_def p_remove_def p_wf_def)

section \<open>Derived lemmas on attributes\<close>

lemmas p_get_simps [simp] = pm.get_put pm.get_remove

lemma p_get_Nil [simp]: "p_get [] k = None"
  by (simp add: p_get_def)

lemma p_wf_Nil [simp]: "p_wf []"
  by (simp add: p_wf_def)

lemma p_wf_put [simp]: "p_wf m \<Longrightarrow> p_wf (p_put k v m)"
  by (rule pm.wf_put)

lemma p_wf_putStr [simp]: "p_wf m \<Longrightarrow> p_wf (p_putStr k s m)"
  by (simp add: p_putStr_def)

lemma p_get_putStr [simp]: "p_get (p_putStr k s m) k' = (if k' = k then Some (VStr s) else p_get m k')"
  by (simp add: p_putStr_def)

lemma p_str_put [simp]:
  "p_str (p_put k v m) k' = (if k' = k then v_str (Some v) else p_str m k')"
  by (simp add: p_str_def)

lemma p_str_putStr [simp]: "p_str (p_putStr k s m) k' = (if k' = k then s else p_str m k')"
  by (simp add: p_putStr_def)

lemma p_str_remove [simp]: "p_str (p_remove k m) k' = (if k' = k then [] else p_str m k')"
  by (simp add: p_str_def)

lemma v_str_None [simp]: "v_str None = []"
  by simp

lemma v_str_nonempty: "v_str v \<noteq> [] \<longleftrightarrow> (\<exists>s. v = Some (VStr s) \<and> s \<noteq> [])"
  by (cases v rule: v_str.cases) auto

lemma p_str_nonempty: "p_str m k \<noteq> [] \<longleftrightarrow> (\<exists>s. p_get m k = Some (VStr s) \<and> s \<noteq> [])"
  by (simp add: p_str_def v_str_nonempty)

lemma p_get_mem: "p_get m k = Some v \<Longrightarrow> (k, v) \<in> set m"
  by (simp add: p_get_def map_of_SomeD)

lemma p_get_Some_mem: "p_wf m \<Longrightarrow> p_get m k = Some v \<longleftrightarrow> (k, v) \<in> set m"
  by (simp add: p_wf_def p_get_def gm_get_in)

lemma p_put_not_Nil [simp]: "p_put k v m \<noteq> []"
  by (cases m) (auto simp: p_put_def)

lemma all_records_append [simp]: "all_records (xs @ ys) = all_records xs @ all_records ys"
  by (simp add: all_records_def)

lemma all_records_Nil [simp]: "all_records [] = []"
  by (simp add: all_records_def)

section \<open>Writing a map of strings\<close>

text \<open>\<open>for key, value := range kvs { attributes.PutStr(key, value) }\<close>, the entries in the order given.\<close>

definition p_putStrs :: "(string, string) gomap \<Rightarrow> pmap \<Rightarrow> pmap" where
  "p_putStrs kvs m = fold (\<lambda>(k, s). p_putStr k s) kvs m"

lemma p_putStrs_Nil [simp]: "p_putStrs [] m = m"
  by (simp add: p_putStrs_def)

lemma p_putStrs_put_all: "p_putStrs kvs m = fold (\<lambda>(k, v). p_put k v) (map (\<lambda>(k, s). (k, VStr s)) kvs) m"
  by (induction kvs arbitrary: m) (auto simp: p_putStrs_def p_putStr_def)

lemma p_wf_putStrs [simp]: "p_wf m \<Longrightarrow> p_wf (p_putStrs kvs m)"
  by (simp add: p_putStrs_put_all pm.wf_put_all)

lemma map_of_VStr: "map_of (map (\<lambda>(k, s). (k, VStr s)) kvs) k = map_option VStr (map_of kvs k)"
  by (induction kvs) auto

lemma map_order_wf:
  assumes "map_order ord"
  shows "gm_wf (ord kvs) = gm_wf kvs"
proof -
  have "mset (map fst (ord kvs)) = mset (map fst kvs)" using assms by (simp add: map_order_def)
  then show ?thesis unfolding gm_wf_def by (rule mset_eq_imp_distinct_iff)
qed

lemma map_order_map_of: "map_order ord \<Longrightarrow> gm_wf kvs \<Longrightarrow> map_of (ord kvs) = map_of kvs"
  using map_order_wf [of ord kvs] by (simp add: gm_wf_def map_order_set map_of_inject_set)

text \<open>Whatever the iteration order, the entries of the map win and all other keys are untouched.\<close>

lemma p_get_putStrs:
  assumes "map_order ord" "gm_wf kvs"
  shows "p_get (p_putStrs (ord kvs) m) k = (case gm_get kvs k of None \<Rightarrow> p_get m k | Some s \<Rightarrow> Some (VStr s))"
proof -
  have "distinct (map fst (map (\<lambda>(k, s). (k, VStr s)) (ord kvs)))"
    using map_order_wf [of ord kvs] assms by (simp add: gm_wf_def case_prod_beta comp_def)
  from pm.get_put_all_distinct [OF this, of m k] assms show ?thesis
    by (simp add: p_putStrs_put_all map_of_VStr map_order_map_of split: option.split)
qed

section \<open>Batches of resources\<close>

text \<open>What \<open>ResourceLogs\<close>, \<open>ResourceMetrics\<close> and \<open>ResourceSpans\<close> have in common for a function that only
  touches the resource: its attributes can be read and changed, and nothing else depends on them.\<close>

locale resource_item =
  fixes attrs :: "'r \<Rightarrow> pmap" and upd :: "(pmap \<Rightarrow> pmap) \<Rightarrow> 'r \<Rightarrow> 'r"
  assumes attrs_upd: "attrs (upd f r) = f (attrs r)"
    and upd_upd: "upd f (upd g r) = upd (\<lambda>m. f (g m)) r"
    and upd_same: "f (attrs r) = attrs r \<Longrightarrow> upd f r = r"
begin

text \<open>Two resources that differ in their attributes at most.\<close>

definition same_rest :: "'r \<Rightarrow> 'r \<Rightarrow> bool" where
  "same_rest r r' = (upd (\<lambda>_. []) r = upd (\<lambda>_. []) r')"

lemma upd_same_rest: "same_rest r (upd f r)"
  by (simp add: same_rest_def upd_upd)

lemma upd_const: "upd f r = upd (\<lambda>_. f (attrs r)) r"
proof -
  have "upd (\<lambda>_. f (attrs r)) (upd f r) = upd f r" by (rule upd_same) (simp add: attrs_upd)
  then show ?thesis by (simp add: upd_upd)
qed

lemma upd_cong: "f (attrs r) = g (attrs r) \<Longrightarrow> upd f r = upd g r"
  using upd_const [of f r] upd_const [of g r] by simp

lemma upd_idem: "f (f (attrs r)) = f (attrs r) \<Longrightarrow> upd f (upd f r) = upd f r"
  by (simp add: attrs_upd upd_same)

end

interpretation lri: resource_item rl_attrs rl_attrs_update
  by unfold_locales simp_all

interpretation mri: resource_item rm_attrs rm_attrs_update
  by unfold_locales simp_all

interpretation tri: resource_item rsp_attrs rsp_attrs_update
  by unfold_locales simp_all

lemmas p_map_defs = p_get_def p_put_def p_remove_def p_putStr_def p_str_def

end
