(* ===== verification/Entity_Model.thy ===== *)
theory Entity_Model
  imports Entity_Config Pdata
begin

text \<open>
  The entities and relationships of the entity connector
  (\<open>connector/solarwindsentityconnector/internal\<close>): splitting resource attributes by prefix,
  building entities from attributes, and writing update and delete events as log records.
  The record written as number \<open>n\<close> of a slice is stamped with \<open>clk n\<close>, the value
  \<open>time.Now\<close> returns then.
\<close>

section \<open>Constants and data\<close>

abbreviation entityEventAsLog :: string where "entityEventAsLog \<equiv> ''otel.entity.event_as_log''"
abbreviation entityEventType :: string where "entityEventType \<equiv> ''otel.entity.event.type''"
abbreviation entityDeleteTypeAttrName :: string where "entityDeleteTypeAttrName \<equiv> ''otel.entity.delete.type''"
abbreviation entityUpdateEventType :: string where "entityUpdateEventType \<equiv> ''entity_state''"
abbreviation entityDeleteEventType :: string where "entityDeleteEventType \<equiv> ''entity_delete''"
abbreviation relationshipUpdateEventType :: string where "relationshipUpdateEventType \<equiv> ''entity_relationship_state''"
abbreviation relationshipDeleteEventType :: string where "relationshipDeleteEventType \<equiv> ''entity_relationship_delete''"
abbreviation entitySoftDelete :: string where "entitySoftDelete \<equiv> ''soft_delete''"
abbreviation entityType :: string where "entityType \<equiv> ''otel.entity.type''"
abbreviation entityIds :: string where "entityIds \<equiv> ''otel.entity.id''"
abbreviation entityAttributes :: string where "entityAttributes \<equiv> ''otel.entity.attributes''"
abbreviation relationshipSrcEntityIds :: string where "relationshipSrcEntityIds \<equiv> ''otel.entity_relationship.source_entity.id''"
abbreviation relationshipDestEntityIds :: string where "relationshipDestEntityIds \<equiv> ''otel.entity_relationship.destination_entity.id''"
abbreviation relationshipAttributes :: string where "relationshipAttributes \<equiv> ''otel.entity_relationship.attributes''"
abbreviation relationshipType :: string where "relationshipType \<equiv> ''otel.entity_relationship.type''"
abbreviation srcEntityType :: string where "srcEntityType \<equiv> ''otel.entity_relationship.source_entity.type''"
abbreviation destEntityType :: string where "destEntityType \<equiv> ''otel.entity_relationship.destination_entity.type''"

datatype conn_error =
    ActionUnknown string
  | RelationshipActionUnknown
  | EntityConfigMissing string
  | RequiredNotConfigured
  | RequiredMissing string
  | SameTypeWithoutPrefixes
  | KeyEncodingFailed
  | RelationshipTypeEmpty | SourceHashEmpty | DestHashEmpty
  | EntityKeyFailed
  | SourceNotCached string | DestNotCached string | RelationshipNotCached string
  | CacheIntervalInvalid int | EntityCacheFailed | RelationshipCacheFailed
  | StorageCreationFailed conn_error
  | ConditionFailed
  | ConsumerFailed

type_synonym attributes_map = "(string, pvalue) gomap"

record attributes =
  at_Source :: attributes_map
  at_Destination :: attributes_map
  at_Common :: attributes_map

record entity =
  en_Action :: string
  en_Type :: string
  en_IDs :: pmap
  en_Attributes :: pmap

record relationship =
  rs_Action :: string
  rs_Type :: string
  rs_Source :: entity
  rs_Destination :: entity
  rs_Attributes :: pmap

text \<open>The dynamic types an \<open>Event\<close> of the connector has: \<open>Entity\<close> and \<open>*Relationship\<close>.\<close>

datatype event = EvEntity entity | EvRelationship relationship

section \<open>Attributes\<close>

definition getWithoutPrefix :: "string \<Rightarrow> string \<Rightarrow> string" where
  "getWithoutPrefix pre key = strings_TrimPrefix key pre"

definition identify_step :: "string \<Rightarrow> string \<Rightarrow> string \<times> pvalue \<Rightarrow> attributes \<Rightarrow> attributes" where
  "identify_step srcPrefix destPrefix kv attrs =
     (let (k, v) = kv in
      if srcPrefix \<noteq> [] \<and> strings_HasPrefix k srcPrefix
      then attrs\<lparr>at_Source := gm_put (getWithoutPrefix srcPrefix k) v (at_Source attrs)\<rparr>
      else if destPrefix \<noteq> [] \<and> strings_HasPrefix k destPrefix
      then attrs\<lparr>at_Destination := gm_put (getWithoutPrefix destPrefix k) v (at_Destination attrs)\<rparr>
      else attrs\<lparr>at_Common := gm_put k v (at_Common attrs)\<rparr>)"

definition identifyAttributes :: "pmap \<Rightarrow> string \<Rightarrow> string \<Rightarrow> attributes" where
  "identifyAttributes resourceAttrs srcPrefix destPrefix =
     fold (identify_step srcPrefix destPrefix) resourceAttrs
       \<lparr>at_Source = [], at_Destination = [], at_Common = []\<rparr>"

fun putAttribute :: "pmap \<Rightarrow> string \<Rightarrow> pvalue \<Rightarrow> pmap" where
  "putAttribute dest key (VInt i) = p_put key (VInt i) dest"
| "putAttribute dest key (VDouble d) = p_put key (VDouble d) dest"
| "putAttribute dest key (VBool b) = p_put key (VBool b) dest"
| "putAttribute dest key (VBytes bs) = p_put key (VBytes bs) dest"
| "putAttribute dest key v = p_putStr key (v_str (Some v)) dest"

definition mergeMaps :: "attributes_map list \<Rightarrow> attributes_map" where
  "mergeMaps mapsToMerge = fold (\<lambda>m merged. fold (\<lambda>(k, v). gm_put k v) m merged) mapsToMerge []"

fun required_loop :: "attributes_map \<Rightarrow> string list \<Rightarrow> pmap \<Rightarrow> (conn_error, pmap) result" where
  "required_loop merged [] required = Inr required"
| "required_loop merged (key # keys) required =
     (case gm_get merged key of
        None \<Rightarrow> Inl (RequiredMissing key)
      | Some v \<Rightarrow> required_loop merged keys (putAttribute required key v))"

definition getRequiredAttributes :: "string list \<Rightarrow> attributes_map list \<Rightarrow> (conn_error, pmap) result" where
  "getRequiredAttributes requiredKeys actualAttributes =
     (if requiredKeys = [] then Inl RequiredNotConfigured
      else required_loop (mergeMaps actualAttributes) requiredKeys [])"

definition getOptionalAttributes :: "string list \<Rightarrow> attributes_map list \<Rightarrow> pmap" where
  "getOptionalAttributes optionalKeys actualAttributes =
     (let merged = mergeMaps actualAttributes in
      fold (\<lambda>key opt. case gm_get merged key of None \<Rightarrow> opt | Some v \<Rightarrow> putAttribute opt key v)
        optionalKeys [])"

definition createEntity :: "entity_cfg \<Rightarrow> attributes_map list \<Rightarrow> (conn_error, entity) result" where
  "createEntity cfg attrs =
     (case getRequiredAttributes (ec_IDs cfg) attrs of
        Inl er \<Rightarrow> Inl er
      | Inr ids \<Rightarrow> Inr \<lparr>en_Action = [], en_Type = ec_Entity cfg, en_IDs = ids,
                        en_Attributes = getOptionalAttributes (ec_Attributes cfg) attrs\<rparr>)"

type_synonym attribute_mapper = "(string, entity_cfg) gomap"

definition getEntity :: "attribute_mapper \<Rightarrow> string \<Rightarrow> attributes \<Rightarrow> (conn_error, entity) result" where
  "getEntity entityConfigs ty attrs =
     (case gm_get entityConfigs ty of
        None \<Rightarrow> Inl (EntityConfigMissing ty)
      | Some cfg \<Rightarrow> createEntity cfg [at_Common attrs])"

definition getRelationshipEntities ::
  "attribute_mapper \<Rightarrow> string \<Rightarrow> string \<Rightarrow> attributes \<Rightarrow> (conn_error, entity \<times> entity) result" where
  "getRelationshipEntities entityConfigs srcType dstType attrs =
     (if srcType = dstType \<and> at_Source attrs = [] \<and> at_Destination attrs = []
      then Inl SameTypeWithoutPrefixes
      else case gm_get entityConfigs srcType of
        None \<Rightarrow> Inl (EntityConfigMissing srcType)
      | Some srcCfg \<Rightarrow>
        (case createEntity srcCfg [at_Common attrs, at_Source attrs] of
           Inl er \<Rightarrow> Inl er
         | Inr source \<Rightarrow>
           (case gm_get entityConfigs dstType of
              None \<Rightarrow> Inl (EntityConfigMissing dstType)
            | Some dstCfg \<Rightarrow>
              (case createEntity dstCfg [at_Common attrs, at_Destination attrs] of
                 Inl er \<Rightarrow> Inl er
               | Inr dest \<Rightarrow> Inr (source, dest)))))"

section \<open>Events as log records\<close>

type_synonym clock = "nat \<Rightarrow> u64"

definition append_record :: "clock \<Rightarrow> pmap \<Rightarrow> log_record list \<Rightarrow> log_record list" where
  "append_record clk attrs lrs =
     lrs @ [new_record\<lparr>lr_observed := clk (length lrs), lr_attrs := attrs\<rparr>]"

definition entity_Update :: "clock \<Rightarrow> entity \<Rightarrow> log_record list \<Rightarrow> log_record list" where
  "entity_Update clk e lrs =
     (let attrs = p_putStr entityEventType entityUpdateEventType [];
          attrs = p_putStr entityType (en_Type e) attrs;
          attrs = p_put entityIds (VMap (en_IDs e)) attrs;
          attrs = (if en_Attributes e \<noteq> [] then p_put entityAttributes (VMap (en_Attributes e)) attrs else attrs)
      in append_record clk attrs lrs)"

definition entity_Delete :: "clock \<Rightarrow> entity \<Rightarrow> log_record list \<Rightarrow> log_record list" where
  "entity_Delete clk e lrs =
     (let attrs = p_putStr entityEventType entityDeleteEventType [];
          attrs = p_putStr entityDeleteTypeAttrName entitySoftDelete attrs;
          attrs = p_putStr entityType (en_Type e) attrs;
          attrs = p_put entityIds (VMap (en_IDs e)) attrs;
          attrs = p_put entityAttributes (VMap (en_Attributes e)) attrs
      in append_record clk attrs lrs)"

definition relationship_Update :: "clock \<Rightarrow> relationship \<Rightarrow> log_record list \<Rightarrow> log_record list" where
  "relationship_Update clk r lrs =
     (let attrs = p_putStr entityEventType relationshipUpdateEventType [];
          attrs = p_put relationshipSrcEntityIds (VMap (en_IDs (rs_Source r))) attrs;
          attrs = p_put relationshipDestEntityIds (VMap (en_IDs (rs_Destination r))) attrs;
          attrs = (if rs_Attributes r \<noteq> [] then p_put relationshipAttributes (VMap (rs_Attributes r)) attrs else attrs);
          attrs = p_putStr relationshipType (rs_Type r) attrs;
          attrs = p_putStr srcEntityType (en_Type (rs_Source r)) attrs;
          attrs = p_putStr destEntityType (en_Type (rs_Destination r)) attrs
      in append_record clk attrs lrs)"

definition relationship_Delete :: "clock \<Rightarrow> relationship \<Rightarrow> log_record list \<Rightarrow> log_record list" where
  "relationship_Delete clk r lrs =
     (let attrs = p_putStr entityEventType relationshipDeleteEventType [];
          attrs = p_put relationshipSrcEntityIds (VMap (en_IDs (rs_Source r))) attrs;
          attrs = p_put relationshipDestEntityIds (VMap (en_IDs (rs_Destination r))) attrs;
          attrs = p_putStr relationshipType (rs_Type r) attrs;
          attrs = p_putStr srcEntityType (en_Type (rs_Source r)) attrs;
          attrs = p_putStr destEntityType (en_Type (rs_Destination r)) attrs
      in append_record clk attrs lrs)"

fun event_Update :: "clock \<Rightarrow> event \<Rightarrow> log_record list \<Rightarrow> log_record list" where
  "event_Update clk (EvEntity e) lrs = entity_Update clk e lrs"
| "event_Update clk (EvRelationship r) lrs = relationship_Update clk r lrs"

fun event_Delete :: "clock \<Rightarrow> event \<Rightarrow> log_record list \<Rightarrow> log_record list" where
  "event_Delete clk (EvEntity e) lrs = entity_Delete clk e lrs"
| "event_Delete clk (EvRelationship r) lrs = relationship_Delete clk r lrs"

definition getActionString :: "string \<Rightarrow> (conn_error, string) result" where
  "getActionString input =
     (if input = EventUpdateAction then Inr EventUpdateAction
      else if input = EventDeleteAction then Inr EventDeleteAction
      else Inl (ActionUnknown input))"

fun getActionType :: "event \<Rightarrow> (conn_error, string) result" where
  "getActionType (EvEntity e) = getActionString (en_Action e)"
| "getActionType (EvRelationship r) = getActionString (rs_Action r)"

text \<open>A batch with one resource and one scope, marked as entity events.\<close>

definition createEventLog :: "log_record list \<Rightarrow> logs" where
  "createEventLog lrs =
     [\<lparr>rl_attrs = [], rl_scopes = [\<lparr>sl_attrs = p_put entityEventAsLog (VBool True) [], sl_records = lrs\<rparr>]\<rparr>]"

section \<open>Lemmas on attributes\<close>

text \<open>What \<open>putAttribute\<close> stores: scalars as they are, any other value as the empty string.\<close>

fun copied_value :: "pvalue \<Rightarrow> pvalue" where
  "copied_value (VMap m) = VStr []"
| "copied_value (VSlice xs) = VStr []"
| "copied_value VEmpty = VStr []"
| "copied_value v = v"

lemma putAttribute_eq: "putAttribute m k v = p_put k (copied_value v) m"
  by (cases v) (simp_all add: p_putStr_def)

lemma gm_put_all_get:
  "gm_wf m \<Longrightarrow> gm_get (fold (\<lambda>(k, v). gm_put k v) m acc) q =
     (case gm_get m q of None \<Rightarrow> gm_get acc q | Some v \<Rightarrow> Some v)"
proof (induction m arbitrary: acc)
  case (Cons kv m)
  obtain k v where kv: "kv = (k, v)" by (cases kv)
  with Cons.prems have "gm_wf m" and "gm_get m k = None"
    by (simp_all add: gm_wf_def map_of_eq_None_iff)
  with Cons.IH kv show ?case by (auto split: option.split)
qed simp

lemma mergeMaps1_get: "gm_wf a \<Longrightarrow> gm_get (mergeMaps [a]) k = gm_get a k"
  by (simp add: mergeMaps_def gm_put_all_get split: option.splits)

lemma mergeMaps2_get:
  "gm_wf a \<Longrightarrow> gm_wf b \<Longrightarrow> gm_get (mergeMaps [a, b]) k =
     (case gm_get b k of None \<Rightarrow> gm_get a k | Some v \<Rightarrow> Some v)"
  by (simp add: mergeMaps_def gm_put_all_get split: option.splits)

lemma required_loop_ok: "result_ok (required_loop merged keys m) \<longleftrightarrow> (\<forall>k \<in> set keys. gm_get merged k \<noteq> None)"
  by (induction keys arbitrary: m) (auto split: option.splits)

lemma required_loop_get:
  assumes "required_loop merged keys m = Inr ids"
  shows "p_get ids k =
     (if k \<in> set keys then map_option copied_value (gm_get merged k) else p_get m k)"
  using assms
proof (induction keys arbitrary: m)
  case (Cons key keys)
  then show ?case
    by (cases "gm_get merged key") (auto simp: putAttribute_eq split: if_splits)
qed simp

lemma required_loop_wf: "required_loop merged keys m = Inr ids \<Longrightarrow> p_wf m \<Longrightarrow> p_wf ids"
proof (induction keys arbitrary: m)
  case (Cons key keys)
  then show ?case
    by (cases "gm_get merged key") (auto simp: putAttribute_eq)
qed simp

lemma getRequired_ok:
  "result_ok (getRequiredAttributes keys ms) \<longleftrightarrow>
     keys \<noteq> [] \<and> (\<forall>k \<in> set keys. gm_get (mergeMaps ms) k \<noteq> None)"
  by (simp add: getRequiredAttributes_def required_loop_ok)

lemma getRequired_get:
  "getRequiredAttributes keys ms = Inr ids \<Longrightarrow>
   p_get ids k = (if k \<in> set keys then map_option copied_value (gm_get (mergeMaps ms) k) else None)"
  by (auto simp: getRequiredAttributes_def required_loop_get split: if_splits)

lemma getOptional_get:
  "p_get (getOptionalAttributes keys ms) k =
     (if k \<in> set keys then map_option copied_value (gm_get (mergeMaps ms) k) else None)"
proof -
  have "p_get (fold (\<lambda>key opt. case gm_get merged key of None \<Rightarrow> opt | Some v \<Rightarrow> putAttribute opt key v)
          keys m) k =
     (if k \<in> set keys \<and> gm_get merged k \<noteq> None then map_option copied_value (gm_get merged k) else p_get m k)"
    for merged m
    by (induction keys arbitrary: m) (auto simp: putAttribute_eq split: option.splits)
  then show ?thesis by (auto simp: getOptionalAttributes_def Let_def)
qed

lemma createEntity_Inr:
  assumes "createEntity cfg ms = Inr e"
  shows "en_Type e = ec_Entity cfg" "en_Action e = []"
    "getRequiredAttributes (ec_IDs cfg) ms = Inr (en_IDs e)"
    "en_Attributes e = getOptionalAttributes (ec_Attributes cfg) ms"
  using assms by (auto simp: createEntity_def split: sum.splits)

lemma createEntity_ok: "result_ok (createEntity cfg ms) = result_ok (getRequiredAttributes (ec_IDs cfg) ms)"
  by (auto simp: createEntity_def split: sum.splits)

section \<open>Lemmas on the prefix split\<close>

lemma identify_snoc:
  "identifyAttributes (xs @ [kv]) sp dp = identify_step sp dp kv (identifyAttributes xs sp dp)"
  by (simp add: identifyAttributes_def)

lemma p_get_snoc:
  "gm_wf (xs @ [(k, v)]) \<Longrightarrow> p_get (xs @ [(k, v)]) q = (if q = k then Some v else p_get xs q)"
proof -
  assume "gm_wf (xs @ [(k, v)])"
  then have "gm_get xs k = None" by (simp add: gm_wf_def map_of_eq_None_iff)
  then show ?thesis by (auto simp: p_get_def map_add_def split: option.split)
qed

lemma identify_source:
  "p_wf attrs \<Longrightarrow> gm_get (at_Source (identifyAttributes attrs sp dp)) q =
     (if sp = [] then None else p_get attrs (sp @ q))"
proof (induction attrs rule: rev_induct)
  case Nil
  show ?case by (simp add: identifyAttributes_def)
next
  case (snoc kv xs)
  obtain k v where kv: "kv = (k, v)" by (cases kv)
  from snoc.prems have wf: "p_wf xs" "gm_wf (xs @ [(k, v)])" by (simp_all add: p_wf_def gm_wf_def kv)
  show ?case
  proof (cases "sp \<noteq> [] \<and> strings_HasPrefix k sp")
    case True
    with snoc.IH [OF wf(1)] kv wf(2) show ?thesis
      by (simp add: identify_snoc identify_step_def getWithoutPrefix_def TrimPrefix_eq p_get_snoc)
  next
    case False
    with snoc.IH [OF wf(1)] kv wf(2) show ?thesis
      by (auto simp: identify_snoc identify_step_def p_get_snoc dest: append_HasPrefix)
  qed
qed

lemma identify_destination:
  "p_wf attrs \<Longrightarrow> gm_get (at_Destination (identifyAttributes attrs sp dp)) q =
     (if dp = [] \<or> (sp \<noteq> [] \<and> strings_HasPrefix (dp @ q) sp) then None else p_get attrs (dp @ q))"
proof (induction attrs rule: rev_induct)
  case Nil
  show ?case by (simp add: identifyAttributes_def)
next
  case (snoc kv xs)
  obtain k v where kv: "kv = (k, v)" by (cases kv)
  from snoc.prems have wf: "p_wf xs" "gm_wf (xs @ [(k, v)])" by (simp_all add: p_wf_def gm_wf_def kv)
  show ?case
  proof (cases "\<not> (sp \<noteq> [] \<and> strings_HasPrefix k sp) \<and> dp \<noteq> [] \<and> strings_HasPrefix k dp")
    case True
    with snoc.IH [OF wf(1)] kv wf(2) show ?thesis
      by (auto simp: identify_snoc identify_step_def getWithoutPrefix_def TrimPrefix_eq p_get_snoc)
  next
    case False
    with snoc.IH [OF wf(1)] kv wf(2) show ?thesis
      by (auto simp: identify_snoc identify_step_def p_get_snoc dest: append_HasPrefix)
  qed
qed

lemma identify_common:
  "p_wf attrs \<Longrightarrow> gm_get (at_Common (identifyAttributes attrs sp dp)) q =
     (if (sp \<noteq> [] \<and> strings_HasPrefix q sp) \<or> (dp \<noteq> [] \<and> strings_HasPrefix q dp) then None
      else p_get attrs q)"
proof (induction attrs rule: rev_induct)
  case Nil
  show ?case by (simp add: identifyAttributes_def)
next
  case (snoc kv xs)
  obtain k v where kv: "kv = (k, v)" by (cases kv)
  from snoc.prems have "p_wf xs" by (simp add: p_wf_def gm_wf_def)
  with snoc kv show ?case
    by (auto simp: identify_snoc identify_step_def p_get_snoc p_wf_def)
qed

lemma identify_wf:
  "gm_wf (at_Source (identifyAttributes attrs sp dp)) \<and>
   gm_wf (at_Destination (identifyAttributes attrs sp dp)) \<and>
   gm_wf (at_Common (identifyAttributes attrs sp dp))"
proof (induction attrs rule: rev_induct)
  case Nil
  show ?case by (simp add: identifyAttributes_def)
next
  case (snoc kv xs)
  then show ?case by (cases kv) (auto simp: identify_snoc identify_step_def)
qed

section \<open>Reading an event back from its log record\<close>

definition vmap :: "pvalue option \<Rightarrow> pmap" where
  "vmap v = (case v of Some (VMap m) \<Rightarrow> m | _ \<Rightarrow> [])"

definition decode_record :: "log_record \<Rightarrow> (string \<times> event) option" where
  "decode_record lr =
     (let a = lr_attrs lr; t = p_str a entityEventType;
          en = EvEntity \<lparr>en_Action = [], en_Type = p_str a entityType, en_IDs = vmap (p_get a entityIds),
                         en_Attributes = vmap (p_get a entityAttributes)\<rparr>;
          rs = EvRelationship \<lparr>rs_Action = [], rs_Type = p_str a relationshipType,
                 rs_Source = \<lparr>en_Action = [], en_Type = p_str a srcEntityType,
                              en_IDs = vmap (p_get a relationshipSrcEntityIds), en_Attributes = []\<rparr>,
                 rs_Destination = \<lparr>en_Action = [], en_Type = p_str a destEntityType,
                                   en_IDs = vmap (p_get a relationshipDestEntityIds), en_Attributes = []\<rparr>,
                 rs_Attributes = vmap (p_get a relationshipAttributes)\<rparr> in
      if t = entityUpdateEventType then Some (EventUpdateAction, en)
      else if t = entityDeleteEventType then Some (EventDeleteAction, en)
      else if t = relationshipUpdateEventType then Some (EventUpdateAction, rs)
      else if t = relationshipDeleteEventType then Some (EventDeleteAction, rs)
      else None)"

text \<open>The part of an event that a log record carries: no action string, no attributes of the
  two related entities, and no relationship attributes in a delete.\<close>

definition wire_entity :: "entity \<Rightarrow> entity" where
  "wire_entity e = e\<lparr>en_Action := [], en_Attributes := []\<rparr>"

fun wire :: "bool \<Rightarrow> event \<Rightarrow> event" where
  "wire update (EvEntity e) = EvEntity (e\<lparr>en_Action := []\<rparr>)"
| "wire update (EvRelationship r) =
     EvRelationship (r\<lparr>rs_Action := [], rs_Source := wire_entity (rs_Source r),
                       rs_Destination := wire_entity (rs_Destination r),
                       rs_Attributes := (if update then rs_Attributes r else [])\<rparr>)"

lemmas event_record_defs = entity_Update_def entity_Delete_def relationship_Update_def
  relationship_Delete_def append_record_def

lemma decode_Update: "decode_record (last (event_Update clk ev lrs)) = Some (EventUpdateAction, wire True ev)"
  by (cases ev) (simp_all add: event_record_defs decode_record_def Let_def vmap_def wire_entity_def)

lemma decode_Delete: "decode_record (last (event_Delete clk ev lrs)) = Some (EventDeleteAction, wire False ev)"
  by (cases ev) (simp_all add: event_record_defs decode_record_def Let_def vmap_def wire_entity_def)

lemma event_Update_append: "\<exists>lr. event_Update clk ev lrs = lrs @ [lr] \<and> lr_observed lr = clk (length lrs)"
  by (cases ev) (simp_all add: event_record_defs Let_def)

lemma event_Delete_append: "\<exists>lr. event_Delete clk ev lrs = lrs @ [lr] \<and> lr_observed lr = clk (length lrs)"
  by (cases ev) (simp_all add: event_record_defs Let_def)

lemma getActionString_ok: "result_ok (getActionString a) \<longleftrightarrow> a \<in> {EventUpdateAction, EventDeleteAction}"
  by (simp add: getActionString_def)

section \<open>Properties\<close>

text \<open>Splitting resource attributes by prefix loses and mixes nothing: a key is found among the
  source attributes exactly under its name without the (non-empty) source prefix, among the
  destination attributes under its name without the destination prefix unless the source prefix
  claims it first, and among the common attributes exactly when neither prefix applies.\<close>

theorem identifyAttributes_lookup:
  assumes "p_wf attrs"
  shows "gm_get (at_Source (identifyAttributes attrs sp dp)) q =
           (if sp = [] then None else p_get attrs (sp @ q)) \<and>
         gm_get (at_Destination (identifyAttributes attrs sp dp)) q =
           (if dp = [] \<or> (sp \<noteq> [] \<and> strings_HasPrefix (dp @ q) sp) then None else p_get attrs (dp @ q)) \<and>
         gm_get (at_Common (identifyAttributes attrs sp dp)) q =
           (if (sp \<noteq> [] \<and> strings_HasPrefix q sp) \<or> (dp \<noteq> [] \<and> strings_HasPrefix q dp) then None
            else p_get attrs q)"
  using assms by (simp add: identify_source identify_destination identify_common)

lemma identifyAttributes_lookup_witness:
  "p_wf [(''src.id'', VStr ''a''), (''dst.id'', VStr ''b''), (''os'', VStr ''c'')] \<and>
   gm_get (at_Source (identifyAttributes
     [(''src.id'', VStr ''a''), (''dst.id'', VStr ''b''), (''os'', VStr ''c'')] ''src.'' ''dst.'')) ''id'' =
     Some (VStr ''a'')"
proof -
  have h: "p_wf [(''src.id'', VStr ''a''), (''dst.id'', VStr ''b''), (''os'', VStr ''c'')]"
    by (simp add: p_wf_def gm_wf_def)
  show ?thesis
    using h identifyAttributes_lookup [OF h, of "''src.''" "''dst.''" "''id''"] by (simp add: p_get_def)
qed

text \<open>Round trip of events through log records: from the record that an update (or a delete)
  appends, the action, the entity or relationship types, the id maps and the transmitted
  attributes can be read back, and the records written before are left as they were.\<close>

theorem event_record_roundtrip:
  "butlast (event_Update clk ev lrs) = lrs \<and>
   decode_record (last (event_Update clk ev lrs)) = Some (EventUpdateAction, wire True ev) \<and>
   butlast (event_Delete clk ev lrs) = lrs \<and>
   decode_record (last (event_Delete clk ev lrs)) = Some (EventDeleteAction, wire False ev)"
  using event_Update_append [of clk ev lrs] event_Delete_append [of clk ev lrs]
  by (auto simp: decode_Update decode_Delete)

text \<open>An entity is created exactly when ids are configured and every configured id key has a
  value in the merged attributes; its id map then holds exactly the configured keys, with the
  values \<open>putAttribute\<close> copies, and later maps (the prefixed attributes) override earlier ones.\<close>

theorem createEntity_spec:
  assumes "gm_wf common" and "gm_wf prefixed"
  defines "merged k \<equiv> (case gm_get prefixed k of None \<Rightarrow> gm_get common k | Some v \<Rightarrow> Some v)"
  shows "(result_ok (createEntity cfg [common, prefixed]) \<longleftrightarrow>
            ec_IDs cfg \<noteq> [] \<and> (\<forall>k \<in> set (ec_IDs cfg). merged k \<noteq> None)) \<and>
         (\<forall>e. createEntity cfg [common, prefixed] = Inr e \<longrightarrow>
            en_Type e = ec_Entity cfg \<and>
            (\<forall>k. p_get (en_IDs e) k =
                   (if k \<in> set (ec_IDs cfg) then map_option copied_value (merged k) else None)) \<and>
            (\<forall>k. p_get (en_Attributes e) k =
                   (if k \<in> set (ec_Attributes cfg) then map_option copied_value (merged k) else None)))"
proof -
  have m: "gm_get (mergeMaps [common, prefixed]) k = merged k" for k
    using assms(1,2) by (simp add: mergeMaps2_get merged_def)
  have "p_get (en_IDs e) k =
      (if k \<in> set (ec_IDs cfg) then map_option copied_value (merged k) else None)"
    if "createEntity cfg [common, prefixed] = Inr e" for e k
    using getRequired_get [OF createEntity_Inr(3) [OF that]] by (simp add: m)
  then show ?thesis
    by (simp add: createEntity_ok getRequired_ok createEntity_Inr getOptional_get m cong: conj_cong)
qed

lemma createEntity_spec_witness:
  "gm_wf [(''id'', VStr ''c'')] \<and> gm_wf [(''id'', VInt 7)] \<and>
   (\<exists>e. createEntity \<lparr>ec_Entity = ''Host'', ec_IDs = [''id''], ec_Attributes = []\<rparr>
           [[(''id'', VStr ''c'')], [(''id'', VInt 7)]] = Inr e \<and>
        p_get (en_IDs e) ''id'' = Some (VInt 7))"
proof -
  let ?cfg = "\<lparr>ec_Entity = ''Host'', ec_IDs = [''id''], ec_Attributes = []\<rparr>"
  let ?ms = "[[(''id'', VStr ''c'')], [(''id'', VInt 7)]]"
  have w: "gm_wf [(''id'', VStr ''c'')]" "gm_wf [(''id'', VInt 7)]" by (simp_all add: gm_wf_def)
  from createEntity_spec [OF w, of ?cfg] have "result_ok (createEntity ?cfg ?ms)" by simp
  then obtain e where "createEntity ?cfg ?ms = Inr e" by (auto simp: result_ok_def split: sum.splits)
  with createEntity_spec [OF w, of ?cfg] w show ?thesis by auto
qed

end
