(* ===== verification/Entity_Keys.thy ===== *)
theory Entity_Keys
  imports Entity_Model
begin

unbundle bit_operations_syntax

text \<open>
  The keys of entities and relationships
  (\<open>connector/solarwindsentityconnector/internal/key_builder.go\<close>): the 64-bit FNV-1a hash of
  the JSON encoding of type and ids, printed in hexadecimal, and the composite relationship key.
  The JSON encoder \<open>marshal\<close> is an argument (\<open>None\<close> where \<open>json.Marshal\<close> fails); the locale
  \<open>key_builder\<close> is the interface \<open>KeyBuilder\<close> on which the detector and the storage rely.
\<close>

type_synonym marshaller = "string \<Rightarrow> (string \<rightharpoonup> pvalue) \<Rightarrow> bytes option"

section \<open>Hashing\<close>

definition fnv_offset64 :: u64 where "fnv_offset64 = 14695981039346656037"
definition fnv_prime64 :: u64 where "fnv_prime64 = 1099511628211"

text \<open>\<open>hash/fnv\<close>, \<open>New64a\<close>: xor with the byte, then multiply, modulo $2^{64}$.\<close>

definition fnv64a :: "bytes \<Rightarrow> u64" where
  "fnv64a bs = fold (\<lambda>b h. (h XOR ucast b) * fnv_prime64) bs fnv_offset64"

definition hex_digit :: "nat \<Rightarrow> char" where
  "hex_digit d = (if d < 10 then char_of (48 + d) else char_of (87 + d))"

text \<open>The verb \<open>%x\<close> on an unsigned integer: lower-case digits, no leading zeros.\<close>

fun fmt_hex :: "nat \<Rightarrow> string" where
  "fmt_hex n = (if n < 16 then [hex_digit n] else fmt_hex (n div 16) @ [hex_digit (n mod 16)])"

declare fmt_hex.simps [simp del]

definition hashObject :: "marshaller \<Rightarrow> string \<Rightarrow> (string \<rightharpoonup> pvalue) \<Rightarrow> (conn_error, string) result" where
  "hashObject marshal ty ids =
     (case marshal ty ids of
        None \<Rightarrow> Inl KeyEncodingFailed
      | Some bs \<Rightarrow> Inr (fmt_hex (unat (fnv64a bs))))"

section \<open>Keys\<close>

definition buildEntityKey :: "marshaller \<Rightarrow> entity \<Rightarrow> (conn_error, string) result" where
  "buildEntityKey marshal e = hashObject marshal (en_Type e) (p_asRaw (en_IDs e))"

definition buildRelationshipKey :: "string \<Rightarrow> string \<Rightarrow> string \<Rightarrow> (conn_error, string) result" where
  "buildRelationshipKey ty sourceHash destHash =
     (if ty = [] then Inl RelationshipTypeEmpty
      else if sourceHash = [] then Inl SourceHashEmpty
      else if destHash = [] then Inl DestHashEmpty
      else Inr (ty @ '':'' @ sourceHash @ '':'' @ destHash))"

section \<open>The interface KeyBuilder\<close>

locale key_builder =
  fixes ekey :: "entity \<Rightarrow> (conn_error, string) result"
    and rkey :: "string \<Rightarrow> string \<Rightarrow> string \<Rightarrow> (conn_error, string) result"
  assumes ekey_ids: "en_Type a = en_Type b \<Longrightarrow> p_get (en_IDs a) = p_get (en_IDs b) \<Longrightarrow> ekey a = ekey b"
    and ekey_nonempty: "ekey a = Inr h \<Longrightarrow> h \<noteq> []"
    and rkey_ok: "result_ok (rkey t s d) \<longleftrightarrow> t \<noteq> [] \<and> s \<noteq> [] \<and> d \<noteq> []"
    and rkey_inj: "ekey a = Inr s \<Longrightarrow> ekey b = Inr d \<Longrightarrow> ekey a' = Inr s' \<Longrightarrow> ekey b' = Inr d' \<Longrightarrow>
       rkey t s d = Inr k \<Longrightarrow> rkey t' s' d' = Inr k \<Longrightarrow> t = t' \<and> s = s' \<and> d = d'"
begin

lemma ekey_ignores_action_and_attributes:
  "ekey (e\<lparr>en_Action := a, en_Attributes := m\<rparr>) = ekey e"
  by (rule ekey_ids) simp_all

lemma ekey_ignores_action: "ekey (e\<lparr>en_Action := a\<rparr>) = ekey e"
  by (rule ekey_ids) simp_all

lemma ekey_wire_entity: "ekey (wire_entity e) = ekey e"
  by (simp add: wire_entity_def ekey_ignores_action_and_attributes)

lemma rkey_Inr:
  assumes "ekey a = Inr s" and "ekey b = Inr d" and "t \<noteq> []"
  obtains k where "rkey t s d = Inr k"
proof -
  have "result_ok (rkey t s d)" using assms by (simp add: rkey_ok ekey_nonempty)
  then show ?thesis using that by (auto simp: result_ok_def split: sum.splits)
qed

end

section \<open>Lemmas\<close>

lemma hex_digit_neq_colon: "d < 16 \<Longrightarrow> hex_digit d \<noteq> CHR '':''"
proof
  assume d: "d < 16" and eq: "hex_digit d = CHR '':''"
  have "of_char (hex_digit d) = (58 :: nat)" using eq by simp
  with d show False by (auto simp: hex_digit_def of_char_of split: if_splits)
qed

lemma fmt_hex_not_Nil: "fmt_hex n \<noteq> []"
  by (subst fmt_hex.simps) simp

lemma fmt_hex_not_Nil_sym: "[] \<noteq> fmt_hex n"
  using fmt_hex_not_Nil by metis

lemma fmt_hex_no_colon: "CHR '':'' \<notin> set (fmt_hex n)"
proof (induction n rule: fmt_hex.induct)
  case (1 n)
  show ?case
  proof (cases "n < 16")
    case True
    then show ?thesis
      using hex_digit_neq_colon [of n] by (simp add: fmt_hex.simps [of n])
  next
    case False
    with "1.IH" show ?thesis
      using hex_digit_neq_colon [of "n mod 16"] by (simp add: fmt_hex.simps [of n])
  qed
qed

lemma hex_digit_inj: "d < 16 \<Longrightarrow> e < 16 \<Longrightarrow> hex_digit d = hex_digit e \<Longrightarrow> d = e"
proof -
  assume d: "d < 16" and e: "e < 16" and "hex_digit d = hex_digit e"
  then have "of_char (hex_digit d) = (of_char (hex_digit e) :: nat)" by simp
  with d e show ?thesis by (auto simp: hex_digit_def of_char_of split: if_splits)
qed

lemma fmt_hex_inj: "fmt_hex m = fmt_hex n \<Longrightarrow> m = n"
proof (induction m arbitrary: n rule: fmt_hex.induct)
  case (1 m)
  show ?case
  proof (cases "m < 16"; cases "n < 16")
    assume "m < 16" "n < 16"
    with "1.prems" show ?thesis by (simp add: fmt_hex.simps [of m] fmt_hex.simps [of n] hex_digit_inj)
  next
    assume "m < 16" "\<not> n < 16"
    with "1.prems" show ?thesis
      by (simp add: fmt_hex.simps [of m] fmt_hex.simps [of n] fmt_hex_not_Nil fmt_hex_not_Nil_sym)
  next
    assume "\<not> m < 16" "n < 16"
    with "1.prems" show ?thesis
      by (simp add: fmt_hex.simps [of m] fmt_hex.simps [of n] fmt_hex_not_Nil fmt_hex_not_Nil_sym)
  next
    assume big: "\<not> m < 16" "\<not> n < 16"
    with "1.prems" have "fmt_hex (m div 16) = fmt_hex (n div 16)" and "hex_digit (m mod 16) = hex_digit (n mod 16)"
      by (simp_all add: fmt_hex.simps [of m] fmt_hex.simps [of n])
    with big "1.IH" have "m div 16 = n div 16" and "m mod 16 = n mod 16"
      by (simp_all add: hex_digit_inj)
    then show ?thesis by (metis div_mult_mod_eq)
  qed
qed

lemma buildEntityKey_Inr:
  "buildEntityKey marshal e = Inr h \<longleftrightarrow>
     (\<exists>bs. marshal (en_Type e) (p_asRaw (en_IDs e)) = Some bs \<and> h = fmt_hex (unat (fnv64a bs)))"
  by (auto simp: buildEntityKey_def hashObject_def split: option.splits)

lemma append_colon_inj:
  "CHR '':'' \<notin> set d \<Longrightarrow> CHR '':'' \<notin> set d' \<Longrightarrow> a @ CHR '':'' # d = a' @ CHR '':'' # d' \<Longrightarrow> a = a' \<and> d = d'"
  by (auto simp: append_eq_append_conv2 append_eq_Cons_conv Cons_eq_append_conv)

lemma relationship_key_inj:
  assumes "CHR '':'' \<notin> set s" "CHR '':'' \<notin> set d" "CHR '':'' \<notin> set s'" "CHR '':'' \<notin> set d'"
    and "buildRelationshipKey t s d = Inr k" "buildRelationshipKey t' s' d' = Inr k"
  shows "t = t' \<and> s = s' \<and> d = d'"
proof -
  have "(t @ CHR '':'' # s) @ CHR '':'' # d = (t' @ CHR '':'' # s') @ CHR '':'' # d'"
    using assms(5,6) by (auto simp: buildRelationshipKey_def split: if_splits)
  with assms(2,4) have "t @ CHR '':'' # s = t' @ CHR '':'' # s'" and "d = d'"
    using append_colon_inj by blast+
  with assms(1,3) show ?thesis using append_colon_inj by blast
qed

interpretation kb: key_builder "buildEntityKey marshal" buildRelationshipKey for marshal
proof
  fix a b :: entity
  assume "en_Type a = en_Type b" "p_get (en_IDs a) = p_get (en_IDs b)"
  then show "buildEntityKey marshal a = buildEntityKey marshal b"
    by (simp add: buildEntityKey_def p_asRaw_def)
next
  fix a h
  assume "buildEntityKey marshal a = Inr h"
  then show "h \<noteq> []" by (auto simp: buildEntityKey_Inr fmt_hex_not_Nil)
next
  fix t s d
  show "result_ok (buildRelationshipKey t s d) \<longleftrightarrow> t \<noteq> [] \<and> s \<noteq> [] \<and> d \<noteq> []"
    by (simp add: buildRelationshipKey_def)
next
  fix a s b d a' s' b' d' t k t'
  assume "buildEntityKey marshal a = Inr s" "buildEntityKey marshal b = Inr d"
    "buildEntityKey marshal a' = Inr s'" "buildEntityKey marshal b' = Inr d'"
    "buildRelationshipKey t s d = Inr k" "buildRelationshipKey t' s' d' = Inr k"
  then show "t = t' \<and> s = s' \<and> d = d'"
    by (intro relationship_key_inj [of s d s' d']) (auto simp: buildEntityKey_Inr fmt_hex_no_colon)
qed

section \<open>Properties\<close>

text \<open>C10: The relationship key identifies the relationship up to hash collisions of its entities: two
  relationships with the same key have the same type and the same source and destination hashes,
  even though a relationship type may itself contain the separator; the hashes are equal exactly
  when the FNV-1a values of the encodings are.\<close>

theorem relationship_key_identifies:
  assumes "buildEntityKey marshal src = Inr s" "buildEntityKey marshal dst = Inr d"
    "buildEntityKey marshal src' = Inr s'" "buildEntityKey marshal dst' = Inr d'"
    and "buildRelationshipKey t s d = Inr k" "buildRelationshipKey t' s' d' = Inr k"
  shows "t = t' \<and> s = s' \<and> d = d' \<and>
    map_option fnv64a (marshal (en_Type src) (p_asRaw (en_IDs src))) =
    map_option fnv64a (marshal (en_Type src') (p_asRaw (en_IDs src')))"
proof -
  have eq: "t = t' \<and> s = s' \<and> d = d'"
    by (rule kb.rkey_inj [OF assms])
  with assms(1,3) show ?thesis
    by (auto simp: buildEntityKey_Inr unsigned_word_eqI dest!: fmt_hex_inj)
qed

definition wit_marshal :: marshaller where
  "wit_marshal ty ids = Some (map (\<lambda>c. of_nat (of_char c)) (ty @ v_str (ids ''id'')))"

definition wit_entity :: "string \<Rightarrow> entity" where
  "wit_entity i = \<lparr>en_Action = [], en_Type = ''Host'', en_IDs = [(''id'', VStr i)], en_Attributes = []\<rparr>"

lemma relationship_key_identifies_witness:
  "\<exists>s d k. buildEntityKey wit_marshal (wit_entity ''a'') = Inr s \<and>
     buildEntityKey wit_marshal (wit_entity ''b'') = Inr d \<and>
     buildRelationshipKey ''Has:Part'' s d = Inr k \<and>
     map_option fnv64a (wit_marshal ''Host'' (p_asRaw [(''id'', VStr ''a'')])) = Some (fnv64a [72, 111, 115, 116, 97])"
proof -
  obtain s d where s: "buildEntityKey wit_marshal (wit_entity ''a'') = Inr s"
    and d: "buildEntityKey wit_marshal (wit_entity ''b'') = Inr d"
    by (simp add: buildEntityKey_Inr wit_marshal_def)
  obtain k where k: "buildRelationshipKey ''Has:Part'' s d = Inr k"
    by (rule kb.rkey_Inr [OF s d, of "''Has:Part''"]) simp_all
  from relationship_key_identifies [OF s d s d k k] s d k show ?thesis
    by (auto simp: wit_marshal_def p_asRaw_def p_get_def)
qed

text \<open>The key of an entity depends on nothing but its type and the contents of its id map: the
  action, the other attributes and the order of the ids do not matter.\<close>

theorem entity_key_depends_on_type_and_ids:
  assumes "p_wf (en_IDs e)" and "mset ids' = mset (en_IDs e)"
  shows "buildEntityKey marshal (e\<lparr>en_Action := a, en_IDs := ids', en_Attributes := m\<rparr>) =
         buildEntityKey marshal e"
proof (rule kb.ekey_ids)
  have "distinct (map fst (en_IDs e))" using assms(1) by (simp add: p_wf_def gm_wf_def)
  moreover from this assms(2) have "distinct (map fst ids')"
    by (metis mset_eq_imp_distinct_iff mset_map)
  ultimately have "map_of ids' = map_of (en_IDs e)"
    using assms(2) by (metis map_of_inject_set set_mset_mset)
  then show "p_get (en_IDs (e\<lparr>en_Action := a, en_IDs := ids', en_Attributes := m\<rparr>)) = p_get (en_IDs e)"
    by (simp add: p_get_def fun_eq_iff)
qed simp

lemma entity_key_depends_on_type_and_ids_witness:
  "p_wf (en_IDs \<lparr>en_Action = [], en_Type = ''T'', en_IDs = [(''a'', VInt 1), (''b'', VInt 2)], en_Attributes = []\<rparr>) \<and>
   buildEntityKey wit_marshal
     (\<lparr>en_Action = [], en_Type = ''T'', en_IDs = [(''a'', VInt 1), (''b'', VInt 2)], en_Attributes = []\<rparr>
        \<lparr>en_Action := ''update'', en_IDs := [(''b'', VInt 2), (''a'', VInt 1)], en_Attributes := []\<rparr>) =
   buildEntityKey wit_marshal
     \<lparr>en_Action = [], en_Type = ''T'', en_IDs = [(''a'', VInt 1), (''b'', VInt 2)], en_Attributes = []\<rparr>"
proof -
  let ?e = "\<lparr>en_Action = [], en_Type = ''T'', en_IDs = [(''a'', VInt 1), (''b'', VInt 2)], en_Attributes = []\<rparr>"
  have w: "p_wf (en_IDs ?e)" by (simp add: p_wf_def gm_wf_def)
  have m: "mset [(''b'', VInt 2), (''a'', VInt 1)] = mset (en_IDs ?e)" by simp
  from w entity_key_depends_on_type_and_ids [OF w m, where marshal = wit_marshal and a = "''update''" and m = "[]"] show ?thesis by blast
qed

end
