(* ===== verification/Entity_Detector.thy ===== *)
theory Entity_Detector
  imports Entity_Keys
begin

text \<open>
  The event detector (\<open>connector/solarwindsentityconnector/internal/event_detector.go\<close>): which
  configured events apply to a signal, the entities and relationships they produce, and the
  entities inferred from relationships.  A condition sequence is the function that evaluates it
  on the transform context (\<open>Inl\<close> where OTTL reports an error).  Ranging over the map of detected
  entities visits them in the order \<open>ord\<close>.
\<close>

type_synonym 'tc condition = "'tc \<Rightarrow> (conn_error, bool) result"

record 'tc detector =
  dt_attributeMapper :: attribute_mapper
  dt_events :: "'tc condition events_group"
  dt_keyBuilder :: "entity \<Rightarrow> (conn_error, string) result"

definition newEventDetector ::
  "marshaller \<Rightarrow> attribute_mapper \<Rightarrow> 'tc condition events_group \<Rightarrow> 'tc detector" where
  "newEventDetector marshal mapper events =
     \<lparr>dt_attributeMapper = mapper, dt_events = events, dt_keyBuilder = buildEntityKey marshal\<rparr>"

section \<open>Conditions\<close>

fun eval_events :: "('t, 'tc condition) parsed_event list \<Rightarrow> 'tc \<Rightarrow> 't list \<Rightarrow> (conn_error, 't list) result" where
  "eval_events [] tc acc = Inr acc"
| "eval_events (ev # evs) tc acc =
     (case pe_ConditionSeq ev tc of
        Inl er \<Rightarrow> Inl er
      | Inr ok \<Rightarrow> eval_events evs tc (if ok then acc @ [pe_Definition ev] else acc))"

definition processEvents ::
  "'tc detector \<Rightarrow> 'tc \<Rightarrow> (conn_error, entity_event list \<times> relationship_event list) result" where
  "processEvents d tc =
     (case eval_events (eg_Entities (dt_events d)) tc [] of
        Inl er \<Rightarrow> Inl er
      | Inr entityEvents \<Rightarrow>
        (case eval_events (eg_Relationships (dt_events d)) tc [] of
           Inl er \<Rightarrow> Inl er
         | Inr relationshipEvents \<Rightarrow> Inr (entityEvents, relationshipEvents)))"

section \<open>Entities and relationships\<close>

fun getEntityEvents_loop ::
  "'tc detector \<Rightarrow> attributes \<Rightarrow> entity_event list \<Rightarrow> (string, entity) gomap \<Rightarrow> (string, entity) gomap" where
  "getEntityEvents_loop d attrs [] acc = acc"
| "getEntityEvents_loop d attrs (ee # ees) acc =
     (case getEntity (dt_attributeMapper d) (ee_Entity ee) attrs of
        Inl er \<Rightarrow> getEntityEvents_loop d attrs ees acc
      | Inr e \<Rightarrow>
        (case dt_keyBuilder d e of
           Inl er \<Rightarrow> getEntityEvents_loop d attrs ees acc
         | Inr h \<Rightarrow> getEntityEvents_loop d attrs ees
                     (gm_put h (e\<lparr>en_Action := ev_Action (ee_Event ee)\<rparr>) acc)))"

definition getEntityEvents :: "'tc detector \<Rightarrow> attributes \<Rightarrow> entity_event list \<Rightarrow> (string, entity) gomap" where
  "getEntityEvents d attrs entityEvents = getEntityEvents_loop d attrs entityEvents []"

definition createRelationship ::
  "relationship_event \<Rightarrow> entity \<Rightarrow> entity \<Rightarrow> attributes \<Rightarrow> (conn_error, relationship) result" where
  "createRelationship re source dest attrs =
     (case getActionString (ev_Action (re_Event re)) of
        Inl er \<Rightarrow> Inl RelationshipActionUnknown
      | Inr action \<Rightarrow>
          Inr \<lparr>rs_Action = action, rs_Type = re_Type re, rs_Source = source, rs_Destination = dest,
               rs_Attributes = getOptionalAttributes (re_Attributes re) [at_Common attrs]\<rparr>)"

fun getRelationshipEvents :: "'tc detector \<Rightarrow> attributes \<Rightarrow> relationship_event list \<Rightarrow> relationship list" where
  "getRelationshipEvents d attrs [] = []"
| "getRelationshipEvents d attrs (re # res) =
     (case getRelationshipEntities (dt_attributeMapper d) (re_Source re) (re_Destination re) attrs of
        Inl er \<Rightarrow> getRelationshipEvents d attrs res
      | Inr (source, dest) \<Rightarrow>
        (case createRelationship re source dest attrs of
           Inl er \<Rightarrow> getRelationshipEvents d attrs res
         | Inr r \<Rightarrow> r # getRelationshipEvents d attrs res))"

definition validateRelationshipEntity ::
  "'tc detector \<Rightarrow> entity \<Rightarrow> entity_event list \<Rightarrow> (string, entity) gomap \<Rightarrow> (conn_error, entity option) result" where
  "validateRelationshipEntity d e validEntityEvents alreadyExisting =
     (case dt_keyBuilder d e of
        Inl er \<Rightarrow> Inl EntityKeyFailed
      | Inr h \<Rightarrow>
          if gm_get alreadyExisting h \<noteq> None then Inr None
          else (case find (\<lambda>ev. ee_Entity ev = en_Type e) validEntityEvents of
                  None \<Rightarrow> Inr None
                | Some ev \<Rightarrow> Inr (Some (e\<lparr>en_Action := ev_Action (ee_Event ev)\<rparr>))))"

fun validateEntityEvents ::
  "'tc detector \<Rightarrow> entity_event list \<Rightarrow> (string, entity) gomap \<Rightarrow> relationship list \<Rightarrow> entity list" where
  "validateEntityEvents d valid existing [] = []"
| "validateEntityEvents d valid existing (r # rs) =
     (case validateRelationshipEntity d (rs_Source r) valid existing of
        Inl er \<Rightarrow> validateEntityEvents d valid existing rs
      | Inr src \<Rightarrow>
          (case src of None \<Rightarrow> [] | Some e \<Rightarrow> [e]) @
          (case validateRelationshipEntity d (rs_Destination r) valid existing of
             Inl er \<Rightarrow> validateEntityEvents d valid existing rs
           | Inr dst \<Rightarrow> (case dst of None \<Rightarrow> [] | Some e \<Rightarrow> [e]) @ validateEntityEvents d valid existing rs))"

type_synonym entity_order = "(string \<times> entity) list \<Rightarrow> (string \<times> entity) list"

definition collectEvents ::
  "entity_order \<Rightarrow> 'tc detector \<Rightarrow> attributes \<Rightarrow> entity_event list \<Rightarrow> relationship_event list \<Rightarrow> event list" where
  "collectEvents ord d attrs configuredEvents configuredRelationships =
     (let entityEvents = getEntityEvents d attrs configuredEvents;
          relationshipEvents = getRelationshipEvents d attrs configuredRelationships;
          valid = validateEntityEvents d configuredEvents entityEvents relationshipEvents in
      map (\<lambda>(h, e). EvEntity e) (ord entityEvents) @ map EvRelationship relationshipEvents @ map EvEntity valid)"

definition detect :: "entity_order \<Rightarrow> 'tc detector \<Rightarrow> attributes \<Rightarrow> 'tc \<Rightarrow> (conn_error, event list) result" where
  "detect ord d attrs tc =
     (case processEvents d tc of
        Inl er \<Rightarrow> Inl er
      | Inr (ee, re) \<Rightarrow> Inr (collectEvents ord d attrs ee re))"

section \<open>Lemmas on conditions\<close>

definition holds_on :: "'tc condition \<Rightarrow> 'tc \<Rightarrow> bool" where
  "holds_on c tc = (c tc = Inr True)"

lemma eval_events_Inr:
  "eval_events evs tc acc = Inr res \<Longrightarrow>
   res = acc @ map pe_Definition (filter (\<lambda>ev. holds_on (pe_ConditionSeq ev) tc) evs)"
proof (induction evs arbitrary: acc)
  case (Cons ev evs)
  then obtain ok where "pe_ConditionSeq ev tc = Inr ok" by (auto split: sum.splits)
  with Cons.prems Cons.IH [of "if ok then acc @ [pe_Definition ev] else acc"] show ?case
    by (cases ok) (auto simp: holds_on_def)
qed simp

lemma eval_events_ok:
  "result_ok (eval_events evs tc acc) \<longleftrightarrow> (\<forall>ev \<in> set evs. result_ok (pe_ConditionSeq ev tc))"
  by (induction evs arbitrary: acc) (auto split: sum.splits)

lemma detect_ok:
  "result_ok (detect ord d attrs tc) \<longleftrightarrow>
     (\<forall>ev \<in> set (eg_Entities (dt_events d)). result_ok (pe_ConditionSeq ev tc)) \<and>
     (\<forall>ev \<in> set (eg_Relationships (dt_events d)). result_ok (pe_ConditionSeq ev tc))"
  using eval_events_ok [of "eg_Entities (dt_events d)" tc "[]"]
    eval_events_ok [of "eg_Relationships (dt_events d)" tc "[]"]
  by (auto simp: detect_def processEvents_def result_ok_def split: sum.splits)

lemma detect_Inr:
  assumes "detect ord d attrs tc = Inr evs"
  shows "evs = collectEvents ord d attrs
     (map pe_Definition (filter (\<lambda>ev. holds_on (pe_ConditionSeq ev) tc) (eg_Entities (dt_events d))))
     (map pe_Definition (filter (\<lambda>ev. holds_on (pe_ConditionSeq ev) tc) (eg_Relationships (dt_events d))))"
  using assms
  by (auto simp: detect_def processEvents_def dest!: eval_events_Inr split: sum.splits)

section \<open>Lemmas on entities\<close>

lemma getEntity_Inr:
  assumes "getEntity mapper ty attrs = Inr e"
  shows "\<exists>cfg. gm_get mapper ty = Some cfg \<and> createEntity cfg [at_Common attrs] = Inr e"
  using assms by (auto simp: getEntity_def split: option.splits)

lemma getEntityEvents_loop_sound:
  assumes "gm_all (\<lambda>h. P) acc"
    and "\<And>ee e. ee \<in> set ees \<Longrightarrow> getEntity (dt_attributeMapper d) (ee_Entity ee) attrs = Inr e \<Longrightarrow>
           P (e\<lparr>en_Action := ev_Action (ee_Event ee)\<rparr>)"
  shows "gm_all (\<lambda>h. P) (getEntityEvents_loop d attrs ees acc)"
  using assms
proof (induction ees arbitrary: acc)
  case (Cons ee ees)
  then show ?case by (auto split: sum.split)
qed simp

context key_builder
begin

lemma getEntityEvents_loop_keys:
  assumes "dt_keyBuilder d = ekey"
  shows "gm_wf acc \<Longrightarrow> gm_all (\<lambda>h e. ekey e = Inr h) acc \<Longrightarrow>
    gm_wf (getEntityEvents_loop d attrs ees acc) \<and>
    gm_all (\<lambda>h e. ekey e = Inr h) (getEntityEvents_loop d attrs ees acc)"
  by (induction ees arbitrary: acc) (auto simp: assms ekey_ignores_action split: sum.split)

lemma getEntityEvents_keys:
  assumes "dt_keyBuilder d = ekey"
  shows "gm_wf (getEntityEvents d attrs ees)"
    and "(h, e) \<in> set (getEntityEvents d attrs ees) \<Longrightarrow> ekey e = Inr h"
  using getEntityEvents_loop_keys [OF assms, of "[]" attrs ees]
  by (auto simp: getEntityEvents_def dest: gm_all_mem)

lemma entity_keys_distinct:
  assumes "dt_keyBuilder d = ekey" and "map_order ord"
  shows "distinct (map (\<lambda>(h, e). ekey e) (ord (getEntityEvents d attrs ees)))"
proof -
  let ?es = "getEntityEvents d attrs ees"
  have "map (\<lambda>(h, e). ekey e) (ord ?es) = map (Inr \<circ> fst) (ord ?es)"
    using getEntityEvents_keys(2) [OF assms(1)] map_order_set [OF assms(2)] by auto
  moreover have "distinct (map fst (ord ?es))"
    using getEntityEvents_keys(1) [OF assms(1), of attrs ees] assms(2)
    by (metis gm_wf_def map_order_def mset_eq_imp_distinct_iff mset_map)
  ultimately show ?thesis
    by (metis distinct_map inj_Inr inj_on_subset map_map subset_UNIV)
qed

end

text \<open>An entity that a relationship contributes: its key is new, and it takes the action of the
  first configured entity event of its type.\<close>

definition inferred_from :: "'tc detector \<Rightarrow> entity_event list \<Rightarrow> (string, entity) gomap \<Rightarrow> entity \<Rightarrow> entity \<Rightarrow> bool" where
  "inferred_from d valid existing e0 e =
     (\<exists>h ev. dt_keyBuilder d e0 = Inr h \<and> gm_get existing h = None \<and> ev \<in> set valid \<and>
        ee_Entity ev = en_Type e0 \<and> e = e0\<lparr>en_Action := ev_Action (ee_Event ev)\<rparr>)"

lemma validateRelationshipEntity_Some:
  "validateRelationshipEntity d e0 valid existing = Inr (Some e) \<Longrightarrow> inferred_from d valid existing e0 e"
  by (auto simp: validateRelationshipEntity_def inferred_from_def find_Some_iff
      split: sum.splits if_splits option.splits) (metis nth_mem)

lemma validateEntityEvents_inferred:
  "e \<in> set (validateEntityEvents d valid existing rs) \<Longrightarrow>
   \<exists>r \<in> set rs. inferred_from d valid existing (rs_Source r) e \<or> inferred_from d valid existing (rs_Destination r) e"
proof (induction rs)
  case (Cons r rs)
  then show ?case
    by (auto split: sum.splits option.splits dest!: validateRelationshipEntity_Some)
qed simp

lemma getRelationshipEvents_sound:
  "r \<in> set (getRelationshipEvents d attrs res) \<Longrightarrow>
   \<exists>re src dst. re \<in> set res \<and>
     getRelationshipEntities (dt_attributeMapper d) (re_Source re) (re_Destination re) attrs = Inr (src, dst) \<and>
     createRelationship re src dst attrs = Inr r"
proof (induction res)
  case (Cons re res)
  show ?case
  proof (cases "getRelationshipEntities (dt_attributeMapper d) (re_Source re) (re_Destination re) attrs")
    case (Inl er)
    with Cons show ?thesis by auto
  next
    case (Inr sd)
    obtain src dst where sd: "sd = (src, dst)" by (cases sd)
    with Cons Inr show ?thesis
      by (cases "createRelationship re src dst attrs") (auto intro: Cons.IH)
  qed
qed simp

lemma createRelationship_Inr:
  assumes "createRelationship re src dst attrs = Inr r"
  shows "rs_Action r = ev_Action (re_Event re)" "rs_Type r = re_Type re"
    "rs_Source r = src" "rs_Destination r = dst" "result_ok (getActionString (rs_Action r))"
  using assms by (auto simp: createRelationship_def getActionString_def split: sum.splits if_splits)

lemma set_collectEvents:
  "map_order ord \<Longrightarrow> set (collectEvents ord d attrs ee re) =
     EvEntity ` snd ` set (getEntityEvents d attrs ee) \<union>
     EvRelationship ` set (getRelationshipEvents d attrs re) \<union>
     EvEntity ` set (validateEntityEvents d ee (getEntityEvents d attrs ee) (getRelationshipEvents d attrs re))"
  by (force simp: collectEvents_def Let_def map_order_set)

lemma detect_configured:
  assumes "map_order ord" and "detect ord d attrs tc = Inr evs"
    and "\<And>t cfg. gm_get (dt_attributeMapper d) t = Some cfg \<Longrightarrow> ec_Entity cfg = t"
  shows "(\<forall>e. EvEntity e \<in> set evs \<longrightarrow>
            (\<exists>pe \<in> set (eg_Entities (dt_events d)). holds_on (pe_ConditionSeq pe) tc \<and>
               ee_Entity (pe_Definition pe) = en_Type e \<and>
               ev_Action (ee_Event (pe_Definition pe)) = en_Action e)) \<and>
         (\<forall>r. EvRelationship r \<in> set evs \<longrightarrow>
            (\<exists>pe \<in> set (eg_Relationships (dt_events d)). holds_on (pe_ConditionSeq pe) tc \<and>
               re_Type (pe_Definition pe) = rs_Type r \<and>
               ev_Action (re_Event (pe_Definition pe)) = rs_Action r))"
proof (intro conjI allI impI)
  let ?ee = "map pe_Definition (filter (\<lambda>ev. holds_on (pe_ConditionSeq ev) tc) (eg_Entities (dt_events d)))"
  let ?re = "map pe_Definition (filter (\<lambda>ev. holds_on (pe_ConditionSeq ev) tc) (eg_Relationships (dt_events d)))"
  let ?P = "\<lambda>e. \<exists>ev \<in> set ?ee. ee_Entity ev = en_Type e \<and> ev_Action (ee_Event ev) = en_Action e"
  have evs: "evs = collectEvents ord d attrs ?ee ?re" by (rule detect_Inr [OF assms(2)])
  have "?P (e\<lparr>en_Action := ev_Action (ee_Event ev)\<rparr>)"
    if "ev \<in> set ?ee" "getEntity (dt_attributeMapper d) (ee_Entity ev) attrs = Inr e" for ev e
    using that(1) getEntity_Inr [OF that(2)] createEntity_Inr(1) assms(3) by fastforce
  then have P: "gm_all (\<lambda>h. ?P) (getEntityEvents d attrs ?ee)"
    unfolding getEntityEvents_def by (intro getEntityEvents_loop_sound) simp_all
  {
    fix e assume "EvEntity e \<in> set evs"
    then consider h where "(h, e) \<in> set (getEntityEvents d attrs ?ee)"
      | "e \<in> set (validateEntityEvents d ?ee (getEntityEvents d attrs ?ee) (getRelationshipEvents d attrs ?re))"
      by (auto simp: evs set_collectEvents [OF assms(1)])
    then have "?P e"
    proof cases
      case 1
      with P show ?thesis by (rule gm_all_mem)
    next
      case 2
      then obtain e0 where "inferred_from d ?ee (getEntityEvents d attrs ?ee) e0 e"
        by (blast dest: validateEntityEvents_inferred)
      then show ?thesis unfolding inferred_from_def by auto
    qed
    then show "\<exists>pe \<in> set (eg_Entities (dt_events d)). holds_on (pe_ConditionSeq pe) tc \<and>
        ee_Entity (pe_Definition pe) = en_Type e \<and> ev_Action (ee_Event (pe_Definition pe)) = en_Action e"
      by auto
  next
    fix r assume "EvRelationship r \<in> set evs"
    then have "r \<in> set (getRelationshipEvents d attrs ?re)"
      by (auto simp: evs set_collectEvents [OF assms(1)])
    then obtain re src dst where "re \<in> set ?re" "createRelationship re src dst attrs = Inr r"
      using getRelationshipEvents_sound by blast
    then show "\<exists>pe \<in> set (eg_Relationships (dt_events d)). holds_on (pe_ConditionSeq pe) tc \<and>
        re_Type (pe_Definition pe) = rs_Type r \<and> ev_Action (re_Event (pe_Definition pe)) = rs_Action r"
      using createRelationship_Inr(1,2) by fastforce
  }
qed

section \<open>Properties\<close>

text \<open>Detection fails exactly when the evaluation of some configured condition fails.\<close>

theorem detect_fails_iff_condition_fails:
  "result_ok (detect ord d attrs tc) \<longleftrightarrow>
     list_all (\<lambda>ev. result_ok (pe_ConditionSeq ev tc)) (eg_Entities (dt_events d)) \<and>
     list_all (\<lambda>ev. result_ok (pe_ConditionSeq ev tc)) (eg_Relationships (dt_events d))"
  by (simp add: detect_ok list_all_iff)

text \<open>C6: Detection reports each entity of the entity events once, and never infers from a
  relationship an entity that an entity event has already reported: the keys of the entity
  events are distinct and the key of every inferred entity differs from all of them.\<close>

theorem detected_entities_unique:
  fixes marshal :: marshaller and mapper :: attribute_mapper and evs :: "'tc condition events_group"
    and attrs :: attributes and ee :: "entity_event list"
  defines "d \<equiv> newEventDetector marshal mapper evs"
  defines "ents \<equiv> getEntityEvents d attrs ee"
  assumes ord: "map_order ord"
  shows "\<exists>rels inferred.
     collectEvents ord d attrs ee re =
       map (\<lambda>(h, e). EvEntity e) (ord ents) @ map EvRelationship rels @ map EvEntity inferred \<and>
     distinct (map (\<lambda>(h, e). buildEntityKey marshal e) (ord ents)) \<and>
     (\<forall>e \<in> set inferred. \<forall>(h, e') \<in> set (ord ents). buildEntityKey marshal e \<noteq> buildEntityKey marshal e')"
proof (intro exI conjI ballI)
  let ?rels = "getRelationshipEvents d attrs re"
  let ?inf = "validateEntityEvents d ee ents ?rels"
  have kb: "dt_keyBuilder d = buildEntityKey marshal" by (simp add: d_def newEventDetector_def)
  show "collectEvents ord d attrs ee re =
      map (\<lambda>(h, e). EvEntity e) (ord ents) @ map EvRelationship ?rels @ map EvEntity ?inf"
    by (simp add: collectEvents_def ents_def Let_def)
  show "distinct (map (\<lambda>(h, e). buildEntityKey marshal e) (ord ents))"
    unfolding ents_def by (rule kb.entity_keys_distinct [OF kb ord])
  fix e x
  assume e: "e \<in> set ?inf" and x: "x \<in> set (ord ents)"
  from e obtain h where h: "buildEntityKey marshal e = Inr h" "gm_get ents h = None"
    by (auto simp: inferred_from_def kb kb.ekey_ignores_action dest!: validateEntityEvents_inferred)
  from x have "buildEntityKey marshal (snd x) = Inr (fst x)"
    using kb.getEntityEvents_keys(2) [OF kb, of "fst x" "snd x" attrs ee]
    by (simp add: ents_def map_order_set [OF ord])
  moreover have "fst x \<noteq> h"
    using x h(2) by (force simp: map_order_set [OF ord] map_of_eq_None_iff)
  ultimately show "case x of (h, e') \<Rightarrow> buildEntityKey marshal e \<noteq> buildEntityKey marshal e'"
    using h(1) by (auto split: prod.split)
qed

definition wit_attrs :: attributes where
  "wit_attrs = \<lparr>at_Source = [], at_Destination = [], at_Common = [(''id'', VStr ''h1''), (''pod'', VStr ''p1'')]\<rparr>"

definition wit_detector :: "unit detector" where
  "wit_detector = newEventDetector wit_marshal (newEntities wit_schema)
     \<lparr>eg_Entities = map (\<lambda>e. \<lparr>pe_Definition = e, pe_ConditionSeq = \<lambda>_. Inr True\<rparr>) (ev_Entities (sc_Events wit_schema)),
      eg_Relationships = map (\<lambda>e. \<lparr>pe_Definition = e, pe_ConditionSeq = \<lambda>_. Inr True\<rparr>) (ev_Relationships (sc_Events wit_schema))\<rparr>"

lemma detected_entities_unique_witness:
  "map_order rev \<and>
   (\<exists>rels inferred. \<exists>ents :: (string \<times> entity) list.
     collectEvents rev wit_detector wit_attrs (ev_Entities (sc_Events wit_schema)) (ev_Relationships (sc_Events wit_schema)) =
       map (\<lambda>(h, e). EvEntity e) (rev ents) @ map EvRelationship rels @ map EvEntity inferred \<and>
     distinct (map (\<lambda>(h, e). buildEntityKey wit_marshal e) (rev ents)))"
proof -
  have d: "wit_detector = newEventDetector wit_marshal (newEntities wit_schema) (dt_events wit_detector)"
    by (simp add: wit_detector_def newEventDetector_def)
  note u = detected_entities_unique [OF map_order_rev, where marshal = wit_marshal and
      mapper = "newEntities wit_schema" and evs = "dt_events wit_detector" and attrs = wit_attrs and
      ee = "ev_Entities (sc_Events wit_schema)" and re = "ev_Relationships (sc_Events wit_schema)",
      folded d]
  then obtain rels inferred where
    "collectEvents rev wit_detector wit_attrs (ev_Entities (sc_Events wit_schema)) (ev_Relationships (sc_Events wit_schema)) =
       map (\<lambda>(h, e). EvEntity e) (rev (getEntityEvents wit_detector wit_attrs (ev_Entities (sc_Events wit_schema)))) @
       map EvRelationship rels @ map EvEntity inferred"
    "distinct (map (\<lambda>(h, e). buildEntityKey wit_marshal e)
       (rev (getEntityEvents wit_detector wit_attrs (ev_Entities (sc_Events wit_schema)))))" by blast
  then show ?thesis by (intro conjI map_order_rev exI) assumption+
qed

text \<open>C7: Every detected event has a reason: an entity comes from an entity event (of its type, with
  its action) whose condition holds, and a relationship from a relationship event (with its type
  and action) whose condition holds.\<close>

theorem detected_events_configured:
  assumes "map_order ord" and "detect ord d attrs tc = Inr evs"
    and "\<And>t cfg. gm_get (dt_attributeMapper d) t = Some cfg \<Longrightarrow> ec_Entity cfg = t"
  shows "(\<forall>e. EvEntity e \<in> set evs \<longrightarrow>
            (\<exists>pe \<in> set (eg_Entities (dt_events d)). holds_on (pe_ConditionSeq pe) tc \<and>
               ee_Entity (pe_Definition pe) = en_Type e \<and>
               ev_Action (ee_Event (pe_Definition pe)) = en_Action e)) \<and>
         (\<forall>r. EvRelationship r \<in> set evs \<longrightarrow>
            (\<exists>pe \<in> set (eg_Relationships (dt_events d)). holds_on (pe_ConditionSeq pe) tc \<and>
               re_Type (pe_Definition pe) = rs_Type r \<and>
               ev_Action (re_Event (pe_Definition pe)) = rs_Action r))"
  using assms by (rule detect_configured)

lemma detected_events_configured_witness:
  "\<exists>evs. detect rev wit_detector wit_attrs () = Inr evs \<and>
     (\<forall>e. EvEntity e \<in> set evs \<longrightarrow> en_Type e \<in> {''Host'', ''Pod''})"
proof -
  have "result_ok (detect rev wit_detector wit_attrs ())"
    by (simp add: detect_ok wit_detector_def newEventDetector_def)
  then obtain evs where evs: "detect rev wit_detector wit_attrs () = Inr evs"
    by (auto simp: result_ok_def split: sum.splits)
  have "ec_Entity cfg = t" if "gm_get (dt_attributeMapper wit_detector) t = Some cfg" for t cfg
    using that by (simp add: wit_detector_def newEventDetector_def newEntities_key)
  from detected_events_configured [OF map_order_rev evs this]
  have "\<forall>e. EvEntity e \<in> set evs \<longrightarrow> en_Type e \<in> {''Host'', ''Pod''}"
    by (fastforce simp: wit_detector_def newEventDetector_def wit_schema_def)
  with evs show ?thesis by blast
qed

end
