(* ===== verification/Entity_Storage.thy ===== *)
theory Entity_Storage
  imports Entity_Keys
begin

text \<open>
  The expiration storage (\<open>connector/solarwindsentityconnector/internal/storage\<close>) and the
  consumer of expired events: two TTL caches, for entities and relationships, the eviction
  callback, and the goroutine that batches expired relationships.  The cache itself (ristretto)
  is an argument: its operations \<open>cache_ops\<close> over an abstract cache state, and its constructor.
  The law the storage relies on is the predicate \<open>cache_sound\<close>: a cache only gives back what it was handed.
  It may refuse a value, show it later, lose it, or keep it after its time to live without showing it.
\<close>

section \<open>Caches\<close>

record ('c, 'v) cache_ops =
  ca_Get :: "'c \<Rightarrow> string \<Rightarrow> 'v option"
  ca_SetWithTTL :: "'c \<Rightarrow> string \<Rightarrow> 'v \<Rightarrow> int \<Rightarrow> u64 \<Rightarrow> 'c \<times> bool"
  ca_Del :: "'c \<Rightarrow> string \<Rightarrow> 'c"
  ca_Holds :: "'c \<Rightarrow> string \<Rightarrow> 'v \<Rightarrow> bool"

text \<open>
  The library applies a write asynchronously, may drop it, and evicts entries on its own: what a cache \<open>holds\<close> are the
  entries anywhere inside it, whether a lookup shows them or not.  A write adds at most its own entry, the other operations
  add none; a lookup shows only what is held, and nothing under a key that was just deleted.
\<close>

record ristretto_config =
  rc_NumCounters :: u64
  rc_MaxCost :: u64
  rc_TtlTickerDurationInSec :: u64
  rc_BufferItems :: u64

definition cache_sound :: "('c, 'v) cache_ops \<Rightarrow> bool" where
  "cache_sound ops \<longleftrightarrow>
     (\<forall>c k v. ca_Get ops c k = Some v \<longrightarrow> ca_Holds ops c k v) \<and>
     (\<forall>c k v cost ttl k' v'. ca_Holds ops (fst (ca_SetWithTTL ops c k v cost ttl)) k' v' \<longrightarrow>
        (k' = k \<and> v' = v) \<or> ca_Holds ops c k' v') \<and>
     (\<forall>c k k' v'. ca_Holds ops (ca_Del ops c k) k' v' \<longrightarrow> ca_Holds ops c k' v') \<and>
     (\<forall>c k k' v'. ca_Get ops (ca_Del ops c k) k' = Some v' \<longrightarrow> k' \<noteq> k \<and> ca_Get ops c k' = Some v')"

section \<open>The storage\<close>

record stored_entity =
  se_Type :: string
  se_IDs :: pmap

record stored_relationship =
  sr_sourceHash :: string
  sr_destHash :: string
  sr_relationshipType :: string

definition itemCost :: int where "itemCost = 1"
definition entityCapacityFactor :: u64 where "entityCapacityFactor = 2"
definition entityTTLCleanupFactor :: u64 where "entityTTLCleanupFactor = 10"
definition entityTTLFactor :: u64 where "entityTTLFactor = 5"
definition bufferItems :: u64 where "bufferItems = 64"

record ('ce, 'cr) internal_storage =
  is_entities :: 'ce
  is_relationships :: 'cr
  is_relationshipTtl :: u64
  is_entityTtl :: u64

text \<open>\<open>int64(d.Seconds())\<close>: the seconds as a 64-bit float (\<open>rnd\<close> rounds to one), truncated.\<close>

definition go_div :: "int \<Rightarrow> int \<Rightarrow> int" where
  "go_div a b = sgn a * sgn b * (\<bar>a\<bar> div \<bar>b\<bar>)"

definition go_trunc :: "rat \<Rightarrow> int" where
  "go_trunc r = (if r \<ge> 0 then \<lfloor>r\<rfloor> else - \<lfloor>- r\<rfloor>)"

definition duration_Seconds :: "(rat \<Rightarrow> rat) \<Rightarrow> int \<Rightarrow> rat" where
  "duration_Seconds rnd d =
     (let s = go_div d second_ns; n = d - s * second_ns in
      rnd (rnd (of_int s) + rnd (rnd (of_int n) / of_int second_ns)))"

definition newInternalStorage ::
  "(rat \<Rightarrow> rat) \<Rightarrow> (ristretto_config \<Rightarrow> 'ce option) \<Rightarrow> (ristretto_config \<Rightarrow> 'cr option) \<Rightarrow> expiration_policy
   \<Rightarrow> (conn_error, ('ce, 'cr) internal_storage) result" where
  "newInternalStorage rnd newEntityCache newRelationshipCache cfg =
     (let maxCost = ep_MaxCapacity cfg;
          numCounters = ep_MaxCapacity cfg * 10;
          ttlCleanupSeconds = go_trunc (duration_Seconds rnd (sint (ep_TTLCleanup cfg))) in
      if ttlCleanupSeconds \<le> 0 then Inl (CacheIntervalInvalid ttlCleanupSeconds)
      else case newEntityCache
             \<lparr>rc_NumCounters = numCounters, rc_MaxCost = maxCost * entityCapacityFactor,
              rc_TtlTickerDurationInSec = word_of_int ttlCleanupSeconds * entityTTLCleanupFactor,
              rc_BufferItems = bufferItems\<rparr> of
        None \<Rightarrow> Inl EntityCacheFailed
      | Some entityCache \<Rightarrow>
        (case newRelationshipCache
             \<lparr>rc_NumCounters = numCounters, rc_MaxCost = maxCost,
              rc_TtlTickerDurationInSec = word_of_int ttlCleanupSeconds, rc_BufferItems = bufferItems\<rparr> of
           None \<Rightarrow> Inl RelationshipCacheFailed
         | Some relationshipCache \<Rightarrow>
             Inr \<lparr>is_entities = entityCache, is_relationships = relationshipCache,
                  is_relationshipTtl = ep_Interval cfg,
                  is_entityTtl = (ep_Interval cfg + ep_TTLCleanup cfg) * entityTTLFactor\<rparr>))"

definition NewStorageManager ::
  "(rat \<Rightarrow> rat) \<Rightarrow> (ristretto_config \<Rightarrow> 'ce option) \<Rightarrow> (ristretto_config \<Rightarrow> 'cr option) \<Rightarrow> expiration_policy
   \<Rightarrow> (conn_error, ('ce, 'cr) internal_storage) result" where
  "NewStorageManager rnd newEntityCache newRelationshipCache cfg =
     (case newInternalStorage rnd newEntityCache newRelationshipCache cfg of
        Inl err \<Rightarrow> Inl (StorageCreationFailed err)
      | Inr cache \<Rightarrow> Inr cache)"

text \<open>The callback for an evicted relationship: the event it sends to the channel, if any.\<close>

definition onRelationshipEvict ::
  "('ce, stored_entity) cache_ops \<Rightarrow> 'ce \<Rightarrow> stored_relationship \<Rightarrow> event option" where
  "onRelationshipEvict eops entityCache item =
     (case ca_Get eops entityCache (sr_sourceHash item) of
        None \<Rightarrow> None
      | Some source \<Rightarrow>
        (case ca_Get eops entityCache (sr_destHash item) of
           None \<Rightarrow> None
         | Some dest \<Rightarrow>
             Some (EvRelationship
               \<lparr>rs_Action = [], rs_Type = sr_relationshipType item,
                rs_Source = \<lparr>en_Action = [], en_Type = se_Type source, en_IDs = se_IDs source, en_Attributes = []\<rparr>,
                rs_Destination = \<lparr>en_Action = [], en_Type = se_Type dest, en_IDs = se_IDs dest, en_Attributes = []\<rparr>,
                rs_Attributes = []\<rparr>)))"

definition stored_of :: "entity \<Rightarrow> stored_entity" where
  "stored_of e = \<lparr>se_Type = en_Type e, se_IDs = en_IDs e\<rparr>"

type_synonym entity_key = "entity \<Rightarrow> (conn_error, string) result"

text \<open>The error of an operation, if any, and the storage it leaves.\<close>

definition storage_delete ::
  "('cr, stored_relationship) cache_ops \<Rightarrow> entity_key \<Rightarrow> relationship \<Rightarrow> ('ce, 'cr) internal_storage
   \<Rightarrow> conn_error option \<times> ('ce, 'cr) internal_storage" where
  "storage_delete rops ekey r st =
     (case ekey (rs_Source r) of Inl er \<Rightarrow> (Some er, st) | Inr sourceHash \<Rightarrow>
      (case ekey (rs_Destination r) of Inl er \<Rightarrow> (Some er, st) | Inr destHash \<Rightarrow>
       (case buildRelationshipKey (rs_Type r) sourceHash destHash of
          Inl er \<Rightarrow> (Some er, st)
        | Inr key \<Rightarrow>
            if ca_Get rops (is_relationships st) key \<noteq> None
            then (None, st\<lparr>is_relationships := ca_Del rops (is_relationships st) key\<rparr>)
            else (None, st))))"

definition storage_update ::
  "('ce, stored_entity) cache_ops \<Rightarrow> ('cr, stored_relationship) cache_ops \<Rightarrow> entity_key \<Rightarrow> relationship
   \<Rightarrow> ('ce, 'cr) internal_storage \<Rightarrow> conn_error option \<times> ('ce, 'cr) internal_storage" where
  "storage_update eops rops ekey r st =
     (case ekey (rs_Source r) of Inl er \<Rightarrow> (Some er, st) | Inr sourceHash \<Rightarrow>
      (case ekey (rs_Destination r) of Inl er \<Rightarrow> (Some er, st) | Inr destHash \<Rightarrow>
       (let (ents, sourceUpdated) =
              ca_SetWithTTL eops (is_entities st) sourceHash (stored_of (rs_Source r)) itemCost (is_entityTtl st);
            st = st\<lparr>is_entities := ents\<rparr> in
        if \<not> sourceUpdated then (Some (SourceNotCached (en_Type (rs_Source r))), st)
        else
        (let (ents, destUpdated) =
               ca_SetWithTTL eops (is_entities st) destHash (stored_of (rs_Destination r)) itemCost (is_entityTtl st);
             st = st\<lparr>is_entities := ents\<rparr> in
         if \<not> destUpdated then (Some (DestNotCached (en_Type (rs_Destination r))), st)
         else case buildRelationshipKey (rs_Type r) sourceHash destHash of
           Inl er \<Rightarrow> (Some er, st)
         | Inr key \<Rightarrow>
             (let (rels, relUpdated) =
                    ca_SetWithTTL rops (is_relationships st) key
                      \<lparr>sr_sourceHash = sourceHash, sr_destHash = destHash, sr_relationshipType = rs_Type r\<rparr>
                      itemCost (is_relationshipTtl st);
                  st = st\<lparr>is_relationships := rels\<rparr> in
              (if \<not> relUpdated then Some (RelationshipNotCached (rs_Type r)) else None, st))))))"

section \<open>The manager\<close>

fun manager_Update ::
  "('ce, stored_entity) cache_ops \<Rightarrow> ('cr, stored_relationship) cache_ops \<Rightarrow> entity_key \<Rightarrow> event
   \<Rightarrow> ('ce, 'cr) internal_storage \<Rightarrow> conn_error option \<times> ('ce, 'cr) internal_storage" where
  "manager_Update eops rops ekey (EvRelationship r) st = storage_update eops rops ekey r st"
| "manager_Update eops rops ekey (EvEntity e) st = (None, st)"

fun manager_Delete ::
  "('cr, stored_relationship) cache_ops \<Rightarrow> entity_key \<Rightarrow> event \<Rightarrow> ('ce, 'cr) internal_storage
   \<Rightarrow> conn_error option \<times> ('ce, 'cr) internal_storage" where
  "manager_Delete rops ekey (EvRelationship r) st = storage_delete rops ekey r st"
| "manager_Delete rops ekey (EvEntity e) st = (None, st)"

text \<open>\<open>SendExpiredEvents\<close>: the batch handed to the consumer (which panics when that fails).\<close>

definition sendExpiredEvents :: "clock \<Rightarrow> event list \<Rightarrow> logs" where
  "sendExpiredEvents clk events = createEventLog (fold (event_Delete clk) events [])"

text \<open>
  The goroutine \<open>receiveExpired\<close>: its variables \<open>batch\<close> (\<open>None\<close> for nil) and whether the one-second
  timer channel is set, the batches the consumer has accepted, the events of the batch that was pending when the
  context ended, which the source does not send, whether it has stopped and closed the channel, and whether it
  has panicked because the consumer refused a batch.
\<close>

record batcher =
  ba_batch :: "event list option"
  ba_timer :: bool
  ba_sent :: "event list list"
  ba_dropped :: "event list"
  ba_stopped :: bool
  ba_failed :: bool

definition batcher_init :: batcher where
  "batcher_init = \<lparr>ba_batch = None, ba_timer = False, ba_sent = [], ba_dropped = [], ba_stopped = False, ba_failed = False\<rparr>"

definition pending :: "batcher \<Rightarrow> event list" where
  "pending b = (case ba_batch b of None \<Rightarrow> [] | Some evs \<Rightarrow> evs)"

text \<open>An expired event, the timer, with what the consumer answers (\<open>True\<close> for no error), or the end of the context.\<close>

datatype batcher_event = Expired event | TimerFired bool | ContextDone

definition ba_running :: "batcher \<Rightarrow> bool" where
  "ba_running b \<longleftrightarrow> \<not> ba_stopped b \<and> \<not> ba_failed b"

inductive batcher_step :: "batcher \<Rightarrow> batcher_event \<Rightarrow> batcher \<Rightarrow> bool" where
  ctx_done: "ba_running b \<Longrightarrow>
     batcher_step b ContextDone (b\<lparr>ba_batch := None, ba_timer := False, ba_dropped := pending b, ba_stopped := True\<rparr>)"
| expired_first: "ba_running b \<Longrightarrow> ba_batch b = None \<Longrightarrow>
     batcher_step b (Expired ev) (b\<lparr>ba_batch := Some [ev], ba_timer := True\<rparr>)"
| expired_more: "ba_running b \<Longrightarrow> ba_batch b = Some evs \<Longrightarrow>
     batcher_step b (Expired ev) (b\<lparr>ba_batch := Some (evs @ [ev])\<rparr>)"
| timer_send: "ba_running b \<Longrightarrow> ba_timer b \<Longrightarrow> ba_batch b = Some evs \<Longrightarrow> evs \<noteq> [] \<Longrightarrow>
     batcher_step b (TimerFired True) (b\<lparr>ba_batch := None, ba_timer := False, ba_sent := ba_sent b @ [evs]\<rparr>)"
| timer_refused: "ba_running b \<Longrightarrow> ba_timer b \<Longrightarrow> ba_batch b = Some evs \<Longrightarrow> evs \<noteq> [] \<Longrightarrow>
     batcher_step b (TimerFired False) (b\<lparr>ba_failed := True\<rparr>)"
| timer_idle: "ba_running b \<Longrightarrow> ba_timer b \<Longrightarrow> (ba_batch b = None \<or> ba_batch b = Some []) \<Longrightarrow>
     batcher_step b (TimerFired accepted) b"

inductive batcher_run :: "batcher_event list \<Rightarrow> batcher \<Rightarrow> bool" where
  run_init: "batcher_run [] batcher_init"
| run_step: "batcher_run tr b \<Longrightarrow> batcher_step b a b' \<Longrightarrow> batcher_run (tr @ [a]) b'"

inductive_cases batcher_stepE: "batcher_step b a b'"

section \<open>Histories of the storage\<close>

text \<open>
  A history: the relationships updated so far, the events the eviction callback has emitted and the
  storage.  Besides the two operations, the caches work in the background: they may show or lose what they
  hold at any time, and evict a relationship they hold, which calls the callback.
\<close>

definition forgets :: "('c, 'v) cache_ops \<Rightarrow> 'c \<Rightarrow> 'c \<Rightarrow> bool" where
  "forgets ops c c' \<longleftrightarrow> (\<forall>k v. ca_Get ops c' k = Some v \<longrightarrow> ca_Get ops c k = Some v)"

definition holds_less :: "('c, 'v) cache_ops \<Rightarrow> 'c \<Rightarrow> 'c \<Rightarrow> bool" where
  "holds_less ops c c' \<longleftrightarrow> (\<forall>k v. ca_Holds ops c' k v \<longrightarrow> ca_Holds ops c k v)"

inductive storage_run ::
  "('ce, stored_entity) cache_ops \<Rightarrow> ('cr, stored_relationship) cache_ops \<Rightarrow> entity_key
   \<Rightarrow> relationship list \<Rightarrow> event list \<Rightarrow> ('ce, 'cr) internal_storage \<Rightarrow> bool"
  for eops rops ekey where
  sr_start: "(\<And>k v. \<not> ca_Holds eops (is_entities st) k v) \<Longrightarrow> (\<And>k v. \<not> ca_Holds rops (is_relationships st) k v) \<Longrightarrow>
     storage_run eops rops ekey [] [] st"
| sr_update: "storage_run eops rops ekey us es st \<Longrightarrow>
     storage_run eops rops ekey (us @ [r]) es (snd (storage_update eops rops ekey r st))"
| sr_delete: "storage_run eops rops ekey us es st \<Longrightarrow>
     storage_run eops rops ekey us es (snd (storage_delete rops ekey r st))"
| sr_entities: "storage_run eops rops ekey us es st \<Longrightarrow> holds_less eops (is_entities st) c \<Longrightarrow>
     storage_run eops rops ekey us es (st\<lparr>is_entities := c\<rparr>)"
| sr_relationships: "storage_run eops rops ekey us es st \<Longrightarrow> holds_less rops (is_relationships st) c \<Longrightarrow>
     storage_run eops rops ekey us es (st\<lparr>is_relationships := c\<rparr>)"
| sr_evict: "storage_run eops rops ekey us es st \<Longrightarrow> ca_Holds rops (is_relationships st) k item \<Longrightarrow>
     holds_less rops (is_relationships st) c \<Longrightarrow>
     storage_run eops rops ekey us
       (es @ (case onRelationshipEvict eops (is_entities st) item of None \<Rightarrow> [] | Some ev \<Rightarrow> [ev]))
       (st\<lparr>is_relationships := c\<rparr>)"

text \<open>The invariant: what the caches hold comes from an update, under the key it was computed for.\<close>

definition entity_cached_from :: "entity_key \<Rightarrow> relationship list \<Rightarrow> string \<Rightarrow> stored_entity \<Rightarrow> bool" where
  "entity_cached_from ekey us h se \<longleftrightarrow>
     (\<exists>r e. r \<in> set us \<and> (e = rs_Source r \<or> e = rs_Destination r) \<and> ekey e = Inr h \<and> se = stored_of e)"

definition relationship_cached_from :: "entity_key \<Rightarrow> relationship list \<Rightarrow> string \<Rightarrow> stored_relationship \<Rightarrow> bool" where
  "relationship_cached_from ekey us k sr \<longleftrightarrow>
     (\<exists>r. r \<in> set us \<and> ekey (rs_Source r) = Inr (sr_sourceHash sr) \<and>
        ekey (rs_Destination r) = Inr (sr_destHash sr) \<and> sr_relationshipType sr = rs_Type r \<and>
        buildRelationshipKey (rs_Type r) (sr_sourceHash sr) (sr_destHash sr) = Inr k)"

definition storage_inv ::
  "('ce, stored_entity) cache_ops \<Rightarrow> ('cr, stored_relationship) cache_ops \<Rightarrow> entity_key \<Rightarrow> relationship list
   \<Rightarrow> ('ce, 'cr) internal_storage \<Rightarrow> bool" where
  "storage_inv eops rops ekey us st \<longleftrightarrow>
     (\<forall>h se. ca_Holds eops (is_entities st) h se \<longrightarrow> entity_cached_from ekey us h se) \<and>
     (\<forall>k sr. ca_Holds rops (is_relationships st) k sr \<longrightarrow> relationship_cached_from ekey us k sr)"

text \<open>An emitted event names a relationship that was updated, with endpoints that were cached under
  that relationship's keys.\<close>

fun justified :: "entity_key \<Rightarrow> relationship list \<Rightarrow> event \<Rightarrow> bool" where
  "justified ekey us (EvEntity e) = False"
| "justified ekey us (EvRelationship x) =
     (\<exists>r s d. r \<in> set us \<and> rs_Type x = rs_Type r \<and>
        ekey (rs_Source r) = Inr s \<and> ekey (rs_Destination r) = Inr d \<and>
        entity_cached_from ekey us s (stored_of (rs_Source x)) \<and>
        entity_cached_from ekey us d (stored_of (rs_Destination x)))"

section \<open>Lemmas on the storage\<close>

lemma cached_from_mono:
  "entity_cached_from ekey us h se \<Longrightarrow> entity_cached_from ekey (us @ vs) h se"
  "relationship_cached_from ekey us k sr \<Longrightarrow> relationship_cached_from ekey (us @ vs) k sr"
  unfolding entity_cached_from_def relationship_cached_from_def by fastforce+

lemma justified_mono: "justified ekey us ev \<Longrightarrow> justified ekey (us @ vs) ev"
  by (cases ev) (fastforce intro: cached_from_mono)+

lemma storage_inv_mono: "storage_inv eops rops ekey us st \<Longrightarrow> storage_inv eops rops ekey (us @ vs) st"
  unfolding storage_inv_def using cached_from_mono by blast

lemma cache_sound_get: "cache_sound ops \<Longrightarrow> ca_Get ops c k = Some v \<Longrightarrow> ca_Holds ops c k v"
  unfolding cache_sound_def by metis

lemma cache_sound_set:
  "cache_sound ops \<Longrightarrow> ca_SetWithTTL ops c k v cost ttl = (c', ok) \<Longrightarrow> ca_Holds ops c' k' v' \<Longrightarrow>
   (k' = k \<and> v' = v) \<or> ca_Holds ops c k' v'"
  unfolding cache_sound_def by (metis fst_conv)

lemma cache_sound_del:
  "cache_sound ops \<Longrightarrow> ca_Get ops (ca_Del ops c k) k' = Some v' \<Longrightarrow> k' \<noteq> k \<and> ca_Get ops c k' = Some v'"
  unfolding cache_sound_def by metis

lemma entity_cached_new:
  "ekey (rs_Source r) = Inr h \<Longrightarrow> entity_cached_from ekey (us @ [r]) h (stored_of (rs_Source r))"
  "ekey (rs_Destination r) = Inr h \<Longrightarrow> entity_cached_from ekey (us @ [r]) h (stored_of (rs_Destination r))"
  unfolding entity_cached_from_def by (metis in_set_conv_decomp)+

lemma relationship_cached_new:
  assumes "ekey (rs_Source r) = Inr s" "ekey (rs_Destination r) = Inr d" "buildRelationshipKey (rs_Type r) s d = Inr k"
  shows "relationship_cached_from ekey (us @ [r]) k \<lparr>sr_sourceHash = s, sr_destHash = d, sr_relationshipType = rs_Type r\<rparr>"
  unfolding relationship_cached_from_def using assms by (intro exI [of _ r]) simp

lemma storage_inv_forget:
  assumes "storage_inv eops rops ekey us st"
  shows "holds_less eops (is_entities st) c \<Longrightarrow> storage_inv eops rops ekey us (st\<lparr>is_entities := c\<rparr>)"
    and "holds_less rops (is_relationships st) c' \<Longrightarrow> storage_inv eops rops ekey us (st\<lparr>is_relationships := c'\<rparr>)"
  using assms by (simp_all add: storage_inv_def holds_less_def)

lemma forgets_Del: "cache_sound ops \<Longrightarrow> forgets ops c (ca_Del ops c k)" "cache_sound ops \<Longrightarrow> holds_less ops c (ca_Del ops c k)"
  unfolding forgets_def holds_less_def cache_sound_def by metis+

lemma storage_inv_set_entity:
  assumes "cache_sound eops" "storage_inv eops rops ekey us st" "entity_cached_from ekey us h se"
    and "ca_SetWithTTL eops (is_entities st) h se cost ttl = (c, ok)"
  shows "storage_inv eops rops ekey us (st\<lparr>is_entities := c\<rparr>)"
  using assms(2,3) cache_sound_set [OF assms(1,4)] unfolding storage_inv_def by simp metis

lemma storage_inv_set_relationship:
  assumes "cache_sound rops" "storage_inv eops rops ekey us st" "relationship_cached_from ekey us k sr"
    and "ca_SetWithTTL rops (is_relationships st) k sr cost ttl = (c, ok)"
  shows "storage_inv eops rops ekey us (st\<lparr>is_relationships := c\<rparr>)"
  using assms(2,3) cache_sound_set [OF assms(1,4)] unfolding storage_inv_def by simp metis

lemma storage_inv_update:
  assumes snd: "cache_sound eops" "cache_sound rops" and inv: "storage_inv eops rops ekey us st"
  shows "storage_inv eops rops ekey (us @ [r]) (snd (storage_update eops rops ekey r st))"
proof (cases "ekey (rs_Source r)"; cases "ekey (rs_Destination r)")
  fix s d assume k: "ekey (rs_Source r) = Inr s" "ekey (rs_Destination r) = Inr d"
  obtain e1 ok1 where e1: "ca_SetWithTTL eops (is_entities st) s (stored_of (rs_Source r)) itemCost (is_entityTtl st) = (e1, ok1)"
    by fastforce
  obtain e2 ok2 where e2: "ca_SetWithTTL eops e1 d (stored_of (rs_Destination r)) itemCost (is_entityTtl st) = (e2, ok2)"
    by fastforce
  have i1: "storage_inv eops rops ekey (us @ [r]) (st\<lparr>is_entities := e1\<rparr>)"
    by (rule storage_inv_set_entity [OF snd(1) storage_inv_mono [OF inv] entity_cached_new(1) [of ekey, OF k(1)] e1])
  have i2: "storage_inv eops rops ekey (us @ [r]) (st\<lparr>is_entities := e2\<rparr>)"
    using storage_inv_set_entity [OF snd(1) i1 entity_cached_new(2) [of ekey, OF k(2)]] e2 by simp
  have i3: "storage_inv eops rops ekey (us @ [r]) (st\<lparr>is_entities := e2, is_relationships := c\<rparr>)"
    if "ca_SetWithTTL rops (is_relationships st) key
          \<lparr>sr_sourceHash = s, sr_destHash = d, sr_relationshipType = rs_Type r\<rparr> itemCost (is_relationshipTtl st) = (c, ok)"
      and "buildRelationshipKey (rs_Type r) s d = Inr key" for key c ok
    using storage_inv_set_relationship [OF snd(2) i2 relationship_cached_new [of ekey, OF k that(2)]] that(1) by simp
  show ?thesis
    using k e1 e2 i1 i2 i3 by (auto simp: storage_update_def Let_def split: sum.split prod.split)
qed (use inv in \<open>auto simp: storage_update_def intro: storage_inv_mono\<close>)

lemma storage_inv_delete:
  assumes "cache_sound rops" and "storage_inv eops rops ekey us st"
  shows "storage_inv eops rops ekey us (snd (storage_delete rops ekey r st))"
  using assms(2) storage_inv_forget(2) [OF assms(2) forgets_Del(2) [OF assms(1)]]
  by (simp add: storage_delete_def split: sum.split)

lemma stored_of_se [simp]:
  "stored_of \<lparr>en_Action = a, en_Type = se_Type se, en_IDs = se_IDs se, en_Attributes = m\<rparr> = se"
  by (simp add: stored_of_def)

lemma onRelationshipEvict_justified:
  assumes "cache_sound eops" "storage_inv eops rops ekey us st" "ca_Holds rops (is_relationships st) k item"
    and "onRelationshipEvict eops (is_entities st) item = Some ev"
  shows "justified ekey us ev"
proof -
  obtain src dst where ends: "ca_Get eops (is_entities st) (sr_sourceHash item) = Some src"
    "ca_Get eops (is_entities st) (sr_destHash item) = Some dst"
    and ev: "ev = EvRelationship
               \<lparr>rs_Action = [], rs_Type = sr_relationshipType item,
                rs_Source = \<lparr>en_Action = [], en_Type = se_Type src, en_IDs = se_IDs src, en_Attributes = []\<rparr>,
                rs_Destination = \<lparr>en_Action = [], en_Type = se_Type dst, en_IDs = se_IDs dst, en_Attributes = []\<rparr>,
                rs_Attributes = []\<rparr>"
    using assms(4) by (auto simp: onRelationshipEvict_def split: option.splits)
  have "entity_cached_from ekey us (sr_sourceHash item) src" "entity_cached_from ekey us (sr_destHash item) dst"
    "relationship_cached_from ekey us k item"
    using assms(2,3) ends [THEN cache_sound_get [OF assms(1)]] unfolding storage_inv_def by blast+
  moreover from this(3) obtain r where "r \<in> set us" "ekey (rs_Source r) = Inr (sr_sourceHash item)"
    "ekey (rs_Destination r) = Inr (sr_destHash item)" "sr_relationshipType item = rs_Type r"
    by (auto simp: relationship_cached_from_def)
  ultimately show ?thesis
    unfolding ev justified.simps by (intro exI [of _ r] exI conjI) simp_all
qed

lemma storage_run_inv:
  assumes "cache_sound eops" "cache_sound rops" "storage_run eops rops ekey us es st"
  shows "storage_inv eops rops ekey us st \<and> (\<forall>ev \<in> set es. justified ekey us ev)"
  using assms(3)
proof induction
  case (sr_start st)
  then show ?case by (simp add: storage_inv_def)
next
  case (sr_update us es st r)
  then show ?case using storage_inv_update [OF assms(1,2)] justified_mono by blast
next
  case (sr_delete us es st r)
  then show ?case using storage_inv_delete [OF assms(2)] by blast
next
  case (sr_entities us es st c)
  then show ?case by (simp add: storage_inv_forget(1))
next
  case (sr_relationships us es st c)
  then show ?case by (simp add: storage_inv_forget(2))
next
  case (sr_evict us es st k item c)
  then have "justified ekey us ev" if "onRelationshipEvict eops (is_entities st) item = Some ev" for ev
    using that by (blast intro: onRelationshipEvict_justified [OF assms(1)])
  with sr_evict show ?case by (auto simp: storage_inv_forget(2) split: option.splits)
qed

section \<open>Lemmas on the batching goroutine\<close>

definition expired_of :: "batcher_event list \<Rightarrow> event list" where
  "expired_of tr = concat (map (\<lambda>a. case a of Expired ev \<Rightarrow> [ev] | _ \<Rightarrow> []) tr)"

lemma batcher_run_inv:
  assumes "batcher_run tr b"
  shows "concat (ba_sent b) @ pending b @ ba_dropped b = expired_of tr \<and> (ba_timer b \<longleftrightarrow> ba_batch b \<noteq> None) \<and>
    ba_batch b \<noteq> Some [] \<and> [] \<notin> set (ba_sent b) \<and> (ba_stopped b \<longleftrightarrow> ContextDone \<in> set tr) \<and>
    (ba_stopped b \<longrightarrow> ba_batch b = None \<and> \<not> ba_failed b) \<and> (\<not> ba_stopped b \<longrightarrow> ba_dropped b = [])"
  using assms
proof induction
  case run_init
  then show ?case by (simp add: batcher_init_def pending_def expired_of_def)
next
  case (run_step tr b a b')
  from run_step.hyps(2) run_step.IH show ?case
    by cases (auto simp: pending_def expired_of_def ba_running_def split: option.splits)
qed

lemma fold_event_Delete_decode:
  "map decode_record (fold (event_Delete clk) evs lrs) =
     map decode_record lrs @ map (\<lambda>ev. Some (EventDeleteAction, wire False ev)) evs"
proof (induction evs arbitrary: lrs)
  case (Cons ev evs)
  obtain lr where "event_Delete clk ev lrs = lrs @ [lr]" using event_Delete_append by blast
  with decode_Delete [of clk ev lrs] Cons.IH show ?case by simp
qed simp

lemma sendExpiredEvents_decode:
  "map decode_record (all_records (sendExpiredEvents clk evs)) = map (\<lambda>ev. Some (EventDeleteAction, wire False ev)) evs"
  by (simp add: sendExpiredEvents_def createEventLog_def all_records_def fold_event_Delete_decode)

section \<open>What an eviction reports\<close>

text \<open>Two relationships are the same when their types are and their ends have the same types and identifiers.\<close>

definition same_entity :: "entity \<Rightarrow> entity \<Rightarrow> bool" where
  "same_entity a b \<longleftrightarrow> en_Type a = en_Type b \<and> p_get (en_IDs a) = p_get (en_IDs b)"

definition same_relationship :: "relationship \<Rightarrow> relationship \<Rightarrow> bool" where
  "same_relationship x r \<longleftrightarrow> rs_Type x = rs_Type r \<and> same_entity (rs_Source x) (rs_Source r) \<and>
     same_entity (rs_Destination x) (rs_Destination r)"

text \<open>The 64-bit hashes of the entities of a history do not collide: entities with one key are the same entity.\<close>

definition collision_free :: "entity_key \<Rightarrow> relationship list \<Rightarrow> bool" where
  "collision_free ekey us \<longleftrightarrow>
     (let es = concat (map (\<lambda>r. [rs_Source r, rs_Destination r]) us) in
      \<forall>a \<in> set es. \<forall>b \<in> set es. result_ok (ekey a) \<and> ekey a = ekey b \<longrightarrow> same_entity a b)"

lemma collision_freeD:
  assumes "collision_free ekey us" "entity_cached_from ekey us h se" "r \<in> set us" "e = rs_Source r \<or> e = rs_Destination r" "ekey e = Inr h"
  shows "se_Type se = en_Type e" "p_get (se_IDs se) = p_get (en_IDs e)"
proof -
  obtain r' e' where e': "r' \<in> set us" "e' = rs_Source r' \<or> e' = rs_Destination r'" "ekey e' = Inr h" "se = stored_of e'"
    using assms(2) unfolding entity_cached_from_def by blast
  let ?es = "concat (map (\<lambda>r. [rs_Source r, rs_Destination r]) us)"
  have "e' \<in> set ?es" "e \<in> set ?es" using e'(1,2) assms(3,4) by auto
  moreover have "result_ok (ekey e')" "ekey e' = ekey e" using e'(3) assms(5) by simp_all
  ultimately have "same_entity e' e" using assms(1) unfolding collision_free_def Let_def by blast
  then show "se_Type se = en_Type e" "p_get (se_IDs se) = p_get (en_IDs e)" by (simp_all add: e'(4) stored_of_def same_entity_def)
qed

section \<open>Properties\<close>

text \<open>C3: Expiry never invents a relationship: in every history of updates, deletions, evictions and whatever the caches do with what they hold in the
  background, each emitted delete event is for a relationship type that was
  updated, with source and destination data that were stored by an update under the keys of that
  relationship's source and destination.\<close>

theorem expired_events_justified:
  assumes "cache_sound eops" "cache_sound rops"
    and "storage_run eops rops (buildEntityKey marshal) us es st"
  shows "list_all (justified (buildEntityKey marshal) us) es \<and>
    storage_inv eops rops (buildEntityKey marshal) us st"
  using storage_run_inv [OF assms] by (simp add: list_all_iff)

definition alist_cache :: "((string, 'v) gomap, 'v) cache_ops" where
  "alist_cache = \<lparr>ca_Get = gm_get, ca_SetWithTTL = (\<lambda>c k v cost ttl. (gm_put k v c, True)),
                  ca_Del = (\<lambda>c k. gm_del k c), ca_Holds = (\<lambda>c k v. gm_get c k = Some v)\<rparr>"

lemma alist_cache_sound: "cache_sound alist_cache"
  by (simp add: cache_sound_def alist_cache_def)

definition wit_relationship :: relationship where
  "wit_relationship = \<lparr>rs_Action = ''update'', rs_Type = ''Has'', rs_Source = wit_entity ''a'',
     rs_Destination = wit_entity ''b'', rs_Attributes = []\<rparr>"

definition wit_storage :: "((string, stored_entity) gomap, (string, stored_relationship) gomap) internal_storage" where
  "wit_storage = \<lparr>is_entities = [], is_relationships = [], is_relationshipTtl = 5, is_entityTtl = 50\<rparr>"

lemma expired_events_justified_witness:
  "cache_sound (alist_cache :: (_, stored_entity) cache_ops) \<and>
   cache_sound (alist_cache :: (_, stored_relationship) cache_ops) \<and>
   storage_inv alist_cache alist_cache (buildEntityKey wit_marshal) [wit_relationship]
     (snd (storage_update alist_cache alist_cache (buildEntityKey wit_marshal) wit_relationship wit_storage))"
proof -
  have "storage_run alist_cache alist_cache (buildEntityKey wit_marshal) [] [] wit_storage"
    by (rule sr_start) (simp_all add: wit_storage_def alist_cache_def)
  from sr_update [OF this, of wit_relationship]
  have r: "storage_run alist_cache alist_cache (buildEntityKey wit_marshal) [wit_relationship] []
    (snd (storage_update alist_cache alist_cache (buildEntityKey wit_marshal) wit_relationship wit_storage))" by simp
  from expired_events_justified [OF alist_cache_sound alist_cache_sound r]
  show ?thesis by (simp add: alist_cache_sound)
qed

text \<open>C5: Expiry reports the right relationship.  In every history of the storage whose entity hashes do not collide, and with caches that only
  give back what they were handed, evicting the entry of an updated relationship, which may happen whenever the cache
  holds it, reports nothing exactly when one of the two entities can no longer be read, and
  otherwise a single delete record from which exactly that relationship is read back.\<close>

theorem evicted_relationship_reported:
  assumes "cache_sound eops" "cache_sound rops"
    and "storage_run eops rops (buildEntityKey marshal) us es st" "collision_free (buildEntityKey marshal) us"
    and "r \<in> set us" "buildEntityKey marshal (rs_Source r) = Inr s" "buildEntityKey marshal (rs_Destination r) = Inr d"
    and "buildRelationshipKey (rs_Type r) s d = Inr k" "ca_Holds rops (is_relationships st) k item"
  shows "case onRelationshipEvict eops (is_entities st) item of
      None \<Rightarrow> ca_Get eops (is_entities st) s = None \<or> ca_Get eops (is_entities st) d = None
    | Some ev \<Rightarrow> ca_Get eops (is_entities st) s \<noteq> None \<and> ca_Get eops (is_entities st) d \<noteq> None \<and>
        (\<exists>x. map decode_record (all_records (sendExpiredEvents clk [ev])) = [Some (''delete'', EvRelationship x)] \<and> same_relationship x r)"
proof -
  have inv: "storage_inv eops rops (buildEntityKey marshal) us st" using storage_run_inv [OF assms(1-3)] by blast
  obtain r' where r': "r' \<in> set us" "buildEntityKey marshal (rs_Source r') = Inr (sr_sourceHash item)"
    "buildEntityKey marshal (rs_Destination r') = Inr (sr_destHash item)" "sr_relationshipType item = rs_Type r'"
    "buildRelationshipKey (rs_Type r') (sr_sourceHash item) (sr_destHash item) = Inr k"
    using inv assms(9) unfolding storage_inv_def relationship_cached_from_def by blast
  from kb.rkey_inj [OF r'(2,3) assms(6,7) r'(5) assms(8)]
  have item: "sr_relationshipType item = rs_Type r" "sr_sourceHash item = s" "sr_destHash item = d" using r'(4) by simp_all
  show ?thesis
  proof (cases "ca_Get eops (is_entities st) s"; cases "ca_Get eops (is_entities st) d")
    fix src dst assume ends: "ca_Get eops (is_entities st) s = Some src" "ca_Get eops (is_entities st) d = Some dst"
    have "entity_cached_from (buildEntityKey marshal) us s src" "entity_cached_from (buildEntityKey marshal) us d dst"
      using inv ends [THEN cache_sound_get [OF assms(1)]] unfolding storage_inv_def by blast+
    note same = collision_freeD [OF assms(4) this(1) assms(5) _ assms(6), OF disjI1 [OF refl]]
      collision_freeD [OF assms(4) this(2) assms(5) _ assms(7), OF disjI2 [OF refl]]
    show ?thesis
      by (simp add: onRelationshipEvict_def item ends sendExpiredEvents_decode wire_entity_def same_relationship_def same_entity_def same)
  qed (simp_all add: onRelationshipEvict_def item)
qed

lemma evicted_relationship_reported_witness:
  "\<exists>k item ev x. ca_Holds alist_cache (is_relationships (snd (storage_update alist_cache alist_cache (buildEntityKey wit_marshal)
        wit_relationship wit_storage))) k item \<and>
     onRelationshipEvict alist_cache (is_entities (snd (storage_update alist_cache alist_cache (buildEntityKey wit_marshal)
        wit_relationship wit_storage))) item = Some ev \<and>
     map decode_record (all_records (sendExpiredEvents of_nat [ev])) = [Some (''delete'', EvRelationship x)] \<and> same_relationship x wit_relationship"
proof -
  let ?ekey = "buildEntityKey wit_marshal"
  let ?st = "snd (storage_update alist_cache alist_cache ?ekey wit_relationship wit_storage)"
  have "storage_run alist_cache alist_cache ?ekey [] [] wit_storage"
    by (rule sr_start) (simp_all add: wit_storage_def alist_cache_def)
  from sr_update [OF this, of wit_relationship]
  have run: "storage_run alist_cache alist_cache ?ekey [wit_relationship] [] ?st" by simp
  obtain s d where k: "?ekey (rs_Source wit_relationship) = Inr s" "?ekey (rs_Destination wit_relationship) = Inr d"
    by (simp add: buildEntityKey_Inr wit_marshal_def)
  have neq: "?ekey (wit_entity ''a'') \<noteq> ?ekey (wit_entity ''b'')"
    by (simp add: buildEntityKey_def hashObject_def wit_marshal_def wit_entity_def p_asRaw_def p_get_def)
      (rule notI, drule fmt_hex_inj, simp add: fnv64a_def fnv_offset64_def fnv_prime64_def)
  then have cf: "collision_free ?ekey [wit_relationship]"
    using not_sym [OF neq] by (simp add: collision_free_def wit_relationship_def same_entity_def)
  obtain key where key: "buildRelationshipKey (rs_Type wit_relationship) s d = Inr key"
    by (rule kb.rkey_Inr [OF k, of "rs_Type wit_relationship"]) (simp_all add: wit_relationship_def)
  have sd: "s \<noteq> d" using k neq by (auto simp: wit_relationship_def)
  let ?item = "\<lparr>sr_sourceHash = s, sr_destHash = d, sr_relationshipType = rs_Type wit_relationship\<rparr>"
  have held: "ca_Holds alist_cache (is_relationships ?st) key ?item"
    and ends: "ca_Get alist_cache (is_entities ?st) s \<noteq> None" "ca_Get alist_cache (is_entities ?st) d \<noteq> None"
    using k key sd by (simp_all add: storage_update_def alist_cache_def wit_storage_def Let_def gomap_simps)
  have "wit_relationship \<in> set [wit_relationship]" by simp
  note report = evicted_relationship_reported [OF alist_cache_sound alist_cache_sound run cf this k key held, of of_nat]
  show ?thesis
  proof (cases "onRelationshipEvict alist_cache (is_entities ?st) ?item")
    case None
    with report ends show ?thesis by simp
  next
    case (Some ev)
    from report [unfolded Some option.case, THEN conjunct2, THEN conjunct2] obtain x
      where "map decode_record (all_records (sendExpiredEvents of_nat [ev])) = [Some (''delete'', EvRelationship x)] \<and>
        same_relationship x wit_relationship" ..
    then show ?thesis using held Some by (elim conjE) (intro exI conjI, assumption+)
  qed
qed

text \<open>Deleting a relationship whose keys can be computed succeeds, leaves no entry under its key,
  touches neither the cached entities nor the time-to-live settings, never creates or changes another
  relationship, and does nothing at all when the relationship is not cached.\<close>

theorem delete_forgets:
  assumes "cache_sound rops"
    and "buildEntityKey marshal (rs_Source r) = Inr s" "buildEntityKey marshal (rs_Destination r) = Inr d"
    and "buildRelationshipKey (rs_Type r) s d = Inr k"
  shows "\<exists>st'. storage_delete rops (buildEntityKey marshal) r st = (None, st') \<and>
     ca_Get rops (is_relationships st') k = None \<and> forgets rops (is_relationships st) (is_relationships st') \<and>
     st' = st\<lparr>is_relationships := is_relationships st'\<rparr> \<and>
     (ca_Get rops (is_relationships st) k = None \<longrightarrow> st' = st)"
proof (cases "ca_Get rops (is_relationships st) k = None")
  case True
  with assms show ?thesis by (simp add: storage_delete_def forgets_def)
next
  case False
  have "ca_Get rops (ca_Del rops (is_relationships st) k) k = None"
    using cache_sound_del [OF assms(1)] by (metis not_None_eq)
  with False assms show ?thesis by (auto simp: storage_delete_def forgets_Del(1))
qed

lemma delete_forgets_witness:
  "\<exists>s d k st'. buildEntityKey wit_marshal (rs_Source wit_relationship) = Inr s \<and>
     buildEntityKey wit_marshal (rs_Destination wit_relationship) = Inr d \<and>
     buildRelationshipKey (rs_Type wit_relationship) s d = Inr k \<and>
     storage_delete alist_cache (buildEntityKey wit_marshal) wit_relationship
       (wit_storage\<lparr>is_relationships := [(k, \<lparr>sr_sourceHash = s, sr_destHash = d, sr_relationshipType = ''Has''\<rparr>)]\<rparr>) =
       (None, st') \<and> ca_Get alist_cache (is_relationships st') k = None"
proof -
  obtain s d where k: "buildEntityKey wit_marshal (rs_Source wit_relationship) = Inr s"
    "buildEntityKey wit_marshal (rs_Destination wit_relationship) = Inr d"
    by (simp add: buildEntityKey_Inr wit_marshal_def)
  obtain key where key: "buildRelationshipKey (rs_Type wit_relationship) s d = Inr key"
    by (rule kb.rkey_Inr [OF k, of "rs_Type wit_relationship"]) (simp_all add: wit_relationship_def)
  show ?thesis
    using k key delete_forgets [OF alist_cache_sound k key] by blast
qed

definition go_rounding :: "(rat \<Rightarrow> rat) \<Rightarrow> bool" where
  "go_rounding rnd \<longleftrightarrow> mono rnd \<and> (\<forall>n. \<bar>n\<bar> \<le> 2 ^ 53 \<longrightarrow> rnd (of_int n) = of_int n)"

lemma go_rounding_int: "go_rounding rnd \<Longrightarrow> \<bar>n\<bar> \<le> 2 ^ 53 \<Longrightarrow> rnd (of_int n) = of_int n"
  by (simp add: go_rounding_def)

lemma go_rounding_between:
  assumes "go_rounding rnd" "\<bar>m\<bar> \<le> 2 ^ 53" "\<bar>n\<bar> \<le> 2 ^ 53" "of_int m \<le> x" "x \<le> of_int n"
  shows "of_int m \<le> rnd x" "rnd x \<le> of_int n"
proof -
  have "rnd (of_int m) \<le> rnd x" "rnd x \<le> rnd (of_int n)"
    using assms by (auto simp: go_rounding_def dest: monoD)
  then show "of_int m \<le> rnd x" "rnd x \<le> of_int n" using assms(1-3) by (simp_all add: go_rounding_int)
qed

lemma cleanup_seconds_bounds:
  assumes rnd: "go_rounding rnd" and d: "second_ns \<le> d" "d < 2 ^ 63"
  shows "d div second_ns \<le> go_trunc (duration_Seconds rnd d) \<and>
    go_trunc (duration_Seconds rnd d) \<le> d div second_ns + 1"
proof -
  define s n where "s = d div second_ns" and "n = d mod second_ns"
  have s: "1 \<le> s" "s + 1 \<le> 2 ^ 53" and n: "0 \<le> n" "n < second_ns"
    using d by (auto simp: s_def n_def second_ns_def zdiv_mono1 [of 1000000000 d 1000000000, simplified])
  have gd: "go_div d second_ns = s" and gn: "d - s * second_ns = n"
    using d by (simp_all add: go_div_def s_def n_def second_ns_def minus_div_mult_eq_mod)
  have "rnd (of_int n) = of_int n" using n by (intro go_rounding_int [OF rnd]) (simp add: second_ns_def)
  moreover have "of_int 0 \<le> (of_int n / of_int second_ns :: rat)" "(of_int n / of_int second_ns :: rat) \<le> of_int 1"
    using n by (simp_all add: second_ns_def)
  ultimately have f: "0 \<le> rnd (rnd (of_int n) / of_int second_ns)" "rnd (rnd (of_int n) / of_int second_ns) \<le> 1"
    using go_rounding_between [OF rnd, of 0 1 "of_int n / of_int second_ns"] by simp_all
  have "rnd (of_int s) = of_int s" using s by (intro go_rounding_int [OF rnd]) simp
  with f have "of_int s \<le> duration_Seconds rnd d \<and> duration_Seconds rnd d \<le> of_int (s + 1)"
    unfolding duration_Seconds_def Let_def gd gn
    using s by (intro conjI go_rounding_between [OF rnd, of s "s + 1"]) simp_all
  moreover from this have "0 \<le> duration_Seconds rnd d" using s by linarith
  ultimately show ?thesis
    unfolding go_trunc_def s_def [symmetric] by (simp add: le_floor_iff floor_le_iff)
qed

lemma unmarshal_expiration_bounds:
  assumes "unmarshal_expiration parseDuration e = Inr pol" "ep_Enabled pol"
  shows "second_ns \<le> sint (ep_TTLCleanup pol)" "0 < sint (ep_MaxCapacity pol)"
  using assms
  by (auto simp: unmarshal_expiration_def disabled_policy_def getTTLCleanupInterval_def getMaxCapacity_def
      split: sum.splits option.splits if_splits)

text \<open>C9: A validated expiration policy always gives usable caches: the cleanup interval, computed in
  floating point (any monotone rounding that is exact on integers below $2^{53}$), is never rejected
  and is the configured number of seconds up to rounding; the constructor fails only when the cache
  library does; and where the products stay within 64 bits, the cache limits are the documented
  multiples of the capacity and an entity outlives the relationships that name it.\<close>

theorem newInternalStorage_total:
  assumes "go_rounding rnd" "unmarshal_expiration parseDuration e = Inr pol" "ep_Enabled pol"
    and "sint (ep_MaxCapacity pol) * 10 < 2 ^ 63"
    and "0 \<le> sint (ep_Interval pol)" "(sint (ep_Interval pol) + sint (ep_TTLCleanup pol)) * 5 < 2 ^ 63"
  shows "\<exists>ec rc ttl. newInternalStorage rnd newE newR pol =
       (case newE ec of None \<Rightarrow> Inl EntityCacheFailed | Some ce \<Rightarrow>
        (case newR rc of None \<Rightarrow> Inl RelationshipCacheFailed | Some cr \<Rightarrow>
           Inr \<lparr>is_entities = ce, is_relationships = cr, is_relationshipTtl = ep_Interval pol, is_entityTtl = ttl\<rparr>)) \<and>
     sint (rc_NumCounters ec) = 10 * sint (ep_MaxCapacity pol) \<and> rc_NumCounters rc = rc_NumCounters ec \<and>
     sint (rc_MaxCost ec) = 2 * sint (ep_MaxCapacity pol) \<and> rc_MaxCost rc = ep_MaxCapacity pol \<and>
     sint (rc_TtlTickerDurationInSec rc) - sint (ep_TTLCleanup pol) div second_ns \<in> {0, 1} \<and>
     sint (rc_TtlTickerDurationInSec ec) = 10 * sint (rc_TtlTickerDurationInSec rc) \<and>
     sint ttl = 5 * (sint (ep_Interval pol) + sint (ep_TTLCleanup pol)) \<and>
     sint (ep_Interval pol) + sint (ep_TTLCleanup pol) < sint ttl"
proof -
  define secs where "secs = go_trunc (duration_Seconds rnd (sint (ep_TTLCleanup pol)))"
  define dv where "dv = sint (ep_TTLCleanup pol) div second_ns"
  note b = unmarshal_expiration_bounds [OF assms(2,3)]
  have dv: "1 \<le> dv" "dv \<le> 2 ^ 40" and secs: "dv \<le> secs" "secs \<le> dv + 1"
    using cleanup_seconds_bounds [OF assms(1) b(1)] sint_range64(2) [of "ep_TTLCleanup pol"] b(1)
      zdiv_mono1 [of second_ns "sint (ep_TTLCleanup pol)" second_ns]
    by (auto simp: secs_def dv_def second_ns_def)
  have w: "sint (word_of_int secs :: u64) = secs" using dv secs by (intro sint_word_of_int_small) auto
  have k: "sint (10 :: u64) = 10" "sint (2 :: u64) = 2" "sint (5 :: u64) = 5" by simp_all
  have "sint (ep_MaxCapacity pol * 10) = 10 * sint (ep_MaxCapacity pol)"
    "sint (ep_MaxCapacity pol * 2) = 2 * sint (ep_MaxCapacity pol)"
    "sint (word_of_int secs * 10 :: u64) = 10 * secs"
    using assms(4) b(2) dv secs w k by (simp_all add: sint_times_small)
  moreover have "sint (ep_Interval pol + ep_TTLCleanup pol) = sint (ep_Interval pol) + sint (ep_TTLCleanup pol)"
    using assms(5,6) b(1) by (intro sint_plus_small) (auto simp: second_ns_def)
  moreover from this have "sint ((ep_Interval pol + ep_TTLCleanup pol) * 5) =
      5 * (sint (ep_Interval pol) + sint (ep_TTLCleanup pol))"
    using assms(5,6) b(1) k by (subst sint_times_small) (auto simp: second_ns_def)
  moreover have "secs - dv \<in> {0, 1}" "0 < secs" using secs dv by auto
  moreover have "sint (ep_Interval pol) + sint (ep_TTLCleanup pol) < 5 * (sint (ep_Interval pol) + sint (ep_TTLCleanup pol))"
    using assms(5) b(1) by (simp add: second_ns_def)
  ultimately show ?thesis
    unfolding newInternalStorage_def Let_def secs_def [symmetric] dv_def [symmetric]
      entityCapacityFactor_def entityTTLCleanupFactor_def entityTTLFactor_def
    by (simp only: not_le [symmetric] if_False simp_thms) (intro exI conjI, rule refl, simp_all add: w)
qed

lemma newInternalStorage_total_witness:
  "\<exists>pol st. unmarshal_expiration (\<lambda>s. Some 300000000000) (default_expiration\<lparr>es_Enabled := True\<rparr>) = Inr pol \<and>
     newInternalStorage id Some Some pol = Inr st \<and> sint (rc_NumCounters (is_entities st)) = 10000000"
proof -
  let ?pol = "\<lparr>ep_Enabled = True, ep_Interval = 300000000000, ep_TTLCleanup = 300000000000, ep_MaxCapacity = 1000000\<rparr>"
  have pol: "unmarshal_expiration (\<lambda>s. Some 300000000000) (default_expiration\<lparr>es_Enabled := True\<rparr>) = Inr ?pol"
    by (simp add: unmarshal_expiration_def default_expiration_def getInterval_def getMaxCapacity_def
        getTTLCleanupInterval_def second_ns_def)
  have "go_rounding id" by (simp add: go_rounding_def mono_def)
  from newInternalStorage_total [OF this pol, of Some Some] pol show ?thesis by auto
qed

text \<open>What a run of the batching goroutine guarantees: the batches sent, the pending batch and what was dropped are the received
  events in order, no empty batch is sent, the timer is armed exactly when a batch is pending, only the end of the
  context drops a batch, and while the goroutine runs an accepted batch at the timer leaves nothing unsent.\<close>

lemma batcher_delivers:
  assumes "batcher_run tr b"
  shows "concat (ba_sent b) @ pending b @ ba_dropped b = expired_of tr" "[] \<notin> set (ba_sent b)" "ba_timer b \<longleftrightarrow> pending b \<noteq> []"
    "ba_stopped b \<longrightarrow> pending b = [] \<and> \<not> ba_failed b" "\<not> ba_stopped b \<longrightarrow> ba_dropped b = []"
    "ba_running b \<Longrightarrow> pending b \<noteq> [] \<Longrightarrow>
       \<exists>b'. batcher_step b (TimerFired True) b' \<and> \<not> ba_failed b' \<and> concat (ba_sent b') = expired_of tr"
proof -
  note inv = batcher_run_inv [OF assms]
  then have p: "pending b \<noteq> [] \<longleftrightarrow> ba_batch b \<noteq> None" by (auto simp: pending_def split: option.split)
  show "concat (ba_sent b) @ pending b @ ba_dropped b = expired_of tr" "[] \<notin> set (ba_sent b)" "ba_timer b \<longleftrightarrow> pending b \<noteq> []"
    "ba_stopped b \<longrightarrow> pending b = [] \<and> \<not> ba_failed b" "\<not> ba_stopped b \<longrightarrow> ba_dropped b = []"
    using inv p by auto
  assume nd: "ba_running b" and "pending b \<noteq> []"
  then obtain evs where "ba_batch b = Some evs" "evs \<noteq> []" using p inv by auto
  with timer_send [of b evs] nd inv
  show "\<exists>b'. batcher_step b (TimerFired True) b' \<and> \<not> ba_failed b' \<and> concat (ba_sent b') = expired_of tr"
    by (fastforce simp: pending_def ba_running_def)
qed

text \<open>Expired events are sent as one delete record each, in order: reading back the records of the
  batch gives the deletions of exactly the given events.\<close>

theorem expired_batch_records:
  "map decode_record (all_records (sendExpiredEvents clk evs)) =
     map (\<lambda>ev. Some (EventDeleteAction, wire False ev)) evs"
  by (rule sendExpiredEvents_decode)

end
