(* ===== verification/Entity_Connector.thy ===== *)
theory Entity_Connector
  imports Entity_Detector Entity_Storage
begin

text \<open>
  The entity connector itself (\<open>connector/solarwindsentityconnector/connector.go\<close>,
  \<open>factory.go\<close>): construction from the configuration, start with or without expiration, and
  the consumption of metrics and logs, which detects events, writes their log records, mirrors
  relationships in the expiration storage and hands the records to the next consumer.
\<close>

section \<open>State and environment\<close>

type_synonym log_context = "resource_logs \<times> scope_logs \<times> log_record"
type_synonym metric_context = "resource_metrics \<times> scope_metrics \<times> metric"

record ('ce, 'cr) connector =
  cn_metricEventDetector :: "metric_context detector"
  cn_logEventDetector :: "log_context detector"
  cn_sourcePrefix :: string
  cn_destPrefix :: string
  cn_expirationPolicy :: expiration_policy
  cn_storageManager :: "('ce, 'cr) internal_storage option"

text \<open>What the connector is given: the caches, the JSON encoder, the clock, the iteration order of
  maps, and whether the next consumer accepts a batch.\<close>

record ('ce, 'cr) environment =
  nv_eops :: "('ce, stored_entity) cache_ops"
  nv_rops :: "('cr, stored_relationship) cache_ops"
  nv_marshal :: marshaller
  nv_clock :: clock
  nv_order :: entity_order
  nv_consume :: "logs \<Rightarrow> bool"

section \<open>Construction, start and shutdown\<close>

definition createConnector ::
  "marshaller \<Rightarrow> (string \<Rightarrow> u64 option) \<Rightarrow> (cfg_error, metric_context condition parser) result
   \<Rightarrow> (cfg_error, log_context condition parser) result \<Rightarrow> config option
   \<Rightarrow> (cfg_error, ('ce, 'cr) connector) result" where
  "createConnector marshal parseDuration newMetricParser newLogParser cfg =
     (case cfg of
        None \<Rightarrow> Inl ConfigTypeInvalid
      | Some baseConfig \<Rightarrow>
        (case unmarshal_expiration parseDuration (cf_Expiration baseConfig) of
           Inl er \<Rightarrow> Inl er
         | Inr expirationSettings \<Rightarrow>
           (case unmarshal_schema newMetricParser newLogParser (cf_Schema baseConfig) of
              Inl er \<Rightarrow> Inl er
            | Inr schema \<Rightarrow>
                Inr \<lparr>cn_metricEventDetector =
                       newEventDetector marshal (ps_Entities schema) (pe_MetricEvents (ps_Events schema)),
                     cn_logEventDetector =
                       newEventDetector marshal (ps_Entities schema) (pe_LogEvents (ps_Events schema)),
                     cn_sourcePrefix = cf_SourcePrefix baseConfig,
                     cn_destPrefix = cf_DestinationPrefix baseConfig,
                     cn_expirationPolicy = expirationSettings,
                     cn_storageManager = None\<rparr>)))"

definition connector_Start ::
  "(rat \<Rightarrow> rat) \<Rightarrow> (ristretto_config \<Rightarrow> 'ce option) \<Rightarrow> (ristretto_config \<Rightarrow> 'cr option)
   \<Rightarrow> ('ce, 'cr) connector \<Rightarrow> conn_error option \<times> ('ce, 'cr) connector" where
  "connector_Start rnd newE newR c =
     (if ep_Enabled (cn_expirationPolicy c)
      then case NewStorageManager rnd newE newR (cn_expirationPolicy c) of
             Inl er \<Rightarrow> (Some er, c)
           | Inr sm \<Rightarrow> (None, c\<lparr>cn_storageManager := Some sm\<rparr>)
      else (None, c))"

section \<open>Consumption\<close>

type_synonym ('ce, 'cr) sink = "('ce, 'cr) connector \<times> log_record list"

definition handleEvent ::
  "('ce, 'cr) environment \<Rightarrow> event \<Rightarrow> ('ce, 'cr) sink \<Rightarrow> conn_error option \<times> ('ce, 'cr) sink" where
  "handleEvent nv event sink =
     (let (c, eventLogs) = sink; ekey = buildEntityKey (nv_marshal nv) in
      case getActionType event of
        Inl er \<Rightarrow> (Some er, c, eventLogs)
      | Inr action \<Rightarrow>
        if action = EventUpdateAction
        then (let eventLogs = event_Update (nv_clock nv) event eventLogs in
              case cn_storageManager c of
                None \<Rightarrow> (None, c, eventLogs)
              | Some sm \<Rightarrow> (let (er, sm) = manager_Update (nv_eops nv) (nv_rops nv) ekey event sm in
                            (er, c\<lparr>cn_storageManager := Some sm\<rparr>, eventLogs)))
        else if action = EventDeleteAction
        then (let eventLogs = event_Delete (nv_clock nv) event eventLogs in
              case cn_storageManager c of
                None \<Rightarrow> (None, c, eventLogs)
              | Some sm \<Rightarrow> (let (er, sm) = manager_Delete (nv_rops nv) ekey event sm in
                            (er, c\<lparr>cn_storageManager := Some sm\<rparr>, eventLogs)))
        else (None, c, eventLogs))"

text \<open>One record or metric: detect, then handle every detected event.\<close>

definition consume_item ::
  "('ce, 'cr) environment \<Rightarrow> (('ce, 'cr) connector \<Rightarrow> 'tc detector) \<Rightarrow> attributes \<Rightarrow> 'tc \<Rightarrow> ('ce, 'cr) sink
   \<Rightarrow> conn_error option \<times> ('ce, 'cr) sink" where
  "consume_item nv detector attrs tc sink =
     (case detect (nv_order nv) (detector (fst sink)) attrs tc of
        Inl er \<Rightarrow> (Some er, sink)
      | Inr events \<Rightarrow> for_each (handleEvent nv) events sink)"

text \<open>The end of both consumers: nothing is sent when no record was written.\<close>

definition finish_consume ::
  "('ce, 'cr) environment \<Rightarrow> conn_error option \<times> ('ce, 'cr) sink
   \<Rightarrow> conn_error option \<times> ('ce, 'cr) connector \<times> logs option" where
  "finish_consume nv res =
     (case res of
        (Some er, c, lrs) \<Rightarrow> (Some er, c, None)
      | (None, c, lrs) \<Rightarrow>
          if log_record_count (createEventLog lrs) = 0 then (None, c, None)
          else (if nv_consume nv (createEventLog lrs) then None else Some ConsumerFailed,
                c, Some (createEventLog lrs)))"

definition consumeMetrics ::
  "('ce, 'cr) environment \<Rightarrow> metrics \<Rightarrow> ('ce, 'cr) connector
   \<Rightarrow> conn_error option \<times> ('ce, 'cr) connector \<times> logs option" where
  "consumeMetrics nv ms c =
     finish_consume nv
       (for_each (\<lambda>rm. let attrs = identifyAttributes (rm_attrs rm) (cn_sourcePrefix c) (cn_destPrefix c) in
          for_each (\<lambda>sm. for_each (\<lambda>m. consume_item nv cn_metricEventDetector attrs (rm, sm, m)) (sm_metrics sm))
            (rm_scopes rm)) ms (c, []))"

definition consumeLogs ::
  "('ce, 'cr) environment \<Rightarrow> logs \<Rightarrow> ('ce, 'cr) connector
   \<Rightarrow> conn_error option \<times> ('ce, 'cr) connector \<times> logs option" where
  "consumeLogs nv ls c =
     finish_consume nv
       (for_each (\<lambda>rl. let attrs = identifyAttributes (rl_attrs rl) (cn_sourcePrefix c) (cn_destPrefix c) in
          for_each (\<lambda>sl. for_each (\<lambda>lr. consume_item nv cn_logEventDetector attrs (rl, sl, lr)) (sl_records sl))
            (rl_scopes rl)) ls (c, []))"

section \<open>The traversal as a list\<close>

text \<open>The records (metrics) of a batch in the order of the nested loops, with the split attributes of
  their resource.\<close>

definition log_items :: "('ce, 'cr) connector \<Rightarrow> logs \<Rightarrow> (attributes \<times> log_context) list" where
  "log_items c ls =
     [(identifyAttributes (rl_attrs rl) (cn_sourcePrefix c) (cn_destPrefix c), rl, sl, lr).
        rl \<leftarrow> ls, sl \<leftarrow> rl_scopes rl, lr \<leftarrow> sl_records sl]"

definition metric_items :: "('ce, 'cr) connector \<Rightarrow> metrics \<Rightarrow> (attributes \<times> metric_context) list" where
  "metric_items c ms =
     [(identifyAttributes (rm_attrs rm) (cn_sourcePrefix c) (cn_destPrefix c), rm, sm, m).
        rm \<leftarrow> ms, sm \<leftarrow> rm_scopes rm, m \<leftarrow> sm_metrics sm]"

definition consume_items ::
  "('ce, 'cr) environment \<Rightarrow> (('ce, 'cr) connector \<Rightarrow> 'tc detector) \<Rightarrow> (attributes \<times> 'tc) list \<Rightarrow> ('ce, 'cr) connector
   \<Rightarrow> conn_error option \<times> ('ce, 'cr) connector \<times> logs option" where
  "consume_items nv det items c =
     finish_consume nv (for_each (\<lambda>(attrs, tc). consume_item nv det attrs tc) items (c, []))"

lemma for_each_map: "for_each f (map g xs) = for_each (\<lambda>x. f (g x)) xs"
proof
  fix s show "for_each f (map g xs) s = for_each (\<lambda>x. f (g x)) xs s"
    by (induction xs arbitrary: s) (auto split: prod.split option.split)
qed

lemma for_each_concat_fun: "for_each f (concat (map g xs)) = for_each (\<lambda>x. for_each f (g x)) xs"
  by (simp add: fun_eq_iff for_each_concat)

lemmas for_each_flatten = for_each_concat_fun for_each_map

lemma consumeLogs_items: "consumeLogs nv ls c = consume_items nv cn_logEventDetector (log_items c ls) c"
  by (simp add: consumeLogs_def consume_items_def log_items_def for_each_flatten Let_def)

lemma consumeMetrics_items: "consumeMetrics nv ms c = consume_items nv cn_metricEventDetector (metric_items c ms) c"
  by (simp add: consumeMetrics_def consume_items_def metric_items_def for_each_flatten Let_def)

section \<open>Lemmas on consumption\<close>

text \<open>What the record of an event reads back as, and the events of a batch.\<close>

definition event_action :: "event \<Rightarrow> string" where
  "event_action ev = (case ev of EvEntity e \<Rightarrow> en_Action e | EvRelationship r \<Rightarrow> rs_Action r)"

definition event_entry :: "event \<Rightarrow> (string \<times> event) option" where
  "event_entry ev = Some (event_action ev, wire (event_action ev = EventUpdateAction) ev)"

definition events_of :: "entity_order \<Rightarrow> 'tc detector \<Rightarrow> (attributes \<times> 'tc) list \<Rightarrow> event list" where
  "events_of ord d items =
     concat (map (\<lambda>(attrs, tc). case detect ord d attrs tc of Inl er \<Rightarrow> [] | Inr evs \<Rightarrow> evs) items)"

definition same_but_storage :: "('ce, 'cr) connector \<Rightarrow> ('ce, 'cr) connector \<Rightarrow> bool" where
  "same_but_storage c c' \<longleftrightarrow> c' = c\<lparr>cn_storageManager := cn_storageManager c'\<rparr>"

lemma same_but_storage_refl [simp]: "same_but_storage c c"
  by (simp add: same_but_storage_def)

lemma same_but_storage_upd [simp]: "same_but_storage c (c\<lparr>cn_storageManager := sm\<rparr>)"
  by (simp add: same_but_storage_def)

lemma same_but_storage_trans: "same_but_storage a b \<Longrightarrow> same_but_storage b c \<Longrightarrow> same_but_storage a c"
  unfolding same_but_storage_def by (metis connector.update_convs(6) connector.surjective)

lemma same_but_storage_detectors:
  assumes "same_but_storage c c'"
  shows "cn_logEventDetector c' = cn_logEventDetector c" "cn_metricEventDetector c' = cn_metricEventDetector c"
proof -
  have c': "c' = c\<lparr>cn_storageManager := cn_storageManager c'\<rparr>" using assms by (simp add: same_but_storage_def)
  show "cn_logEventDetector c' = cn_logEventDetector c" by (subst c') simp
  show "cn_metricEventDetector c' = cn_metricEventDetector c" by (subst c') simp
qed

lemma handleEvent_effect:
  assumes "handleEvent nv ev (c, lrs) = (er, c', lrs')"
  shows "same_but_storage c c'"
    and "er = None \<Longrightarrow> map decode_record lrs' = map decode_record lrs @ [event_entry ev]"
proof -
  have act: "getActionType ev = getActionString (event_action ev)"
    by (cases ev) (simp_all add: event_action_def)
  show "same_but_storage c c'"
    using assms by (auto simp: handleEvent_def Let_def split: sum.splits if_splits option.splits prod.splits)
  obtain lu where "event_Update (nv_clock nv) ev lrs = lrs @ [lu]" using event_Update_append by blast
  with decode_Update [of "nv_clock nv" ev lrs] have u: "map decode_record (event_Update (nv_clock nv) ev lrs) =
      map decode_record lrs @ [Some (EventUpdateAction, wire True ev)]" by simp
  obtain ld where "event_Delete (nv_clock nv) ev lrs = lrs @ [ld]" using event_Delete_append by blast
  with decode_Delete [of "nv_clock nv" ev lrs] have d: "map decode_record (event_Delete (nv_clock nv) ev lrs) =
      map decode_record lrs @ [Some (EventDeleteAction, wire False ev)]" by simp
  show "map decode_record lrs' = map decode_record lrs @ [event_entry ev]" if "er = None"
    using assms that u d
    by (auto simp: handleEvent_def act getActionString_def event_entry_def Let_def
        split: sum.splits if_splits option.splits prod.splits)
qed

lemma handle_events_effect:
  assumes "for_each (handleEvent nv) evs (c, lrs) = (er, c', lrs')"
  shows "same_but_storage c c' \<and>
    (er = None \<longrightarrow> map decode_record lrs' = map decode_record lrs @ map event_entry evs)"
  using assms
proof (induction evs arbitrary: c lrs)
  case (Cons ev evs)
  obtain e1 c1 l1 where h: "handleEvent nv ev (c, lrs) = (e1, c1, l1)" by (metis prod.exhaust)
  note eff = handleEvent_effect [OF h]
  show ?case
  proof (cases e1)
    case None
    with h Cons.prems have "for_each (handleEvent nv) evs (c1, l1) = (er, c', lrs')" by simp
    with Cons.IH eff None same_but_storage_trans show ?thesis by fastforce
  next
    case (Some e)
    with h Cons.prems eff(1) show ?thesis by auto
  qed
qed simp

text \<open>A detector that does not depend on the storage manager.\<close>

definition stable :: "(('ce, 'cr) connector \<Rightarrow> 'tc detector) \<Rightarrow> bool" where
  "stable det \<longleftrightarrow> (\<forall>c c'. same_but_storage c c' \<longrightarrow> det c' = det c)"

lemma stable_detectors: "stable cn_logEventDetector" "stable cn_metricEventDetector"
  by (simp_all add: stable_def same_but_storage_detectors)

lemma consume_item_effect:
  assumes "consume_item nv det attrs tc (c, lrs) = (er, c', lrs')"
  shows "same_but_storage c c'"
    and "er = None \<Longrightarrow> map decode_record lrs' =
      map decode_record lrs @ map event_entry (events_of (nv_order nv) (det c) [(attrs, tc)])"
  using assms handle_events_effect [of nv _ c lrs er c' lrs']
  by (auto simp: consume_item_def events_of_def split: sum.splits)

lemma consume_loop_effect:
  assumes "stable det"
    and "for_each (\<lambda>(attrs, tc). consume_item nv det attrs tc) items (c, lrs) = (er, c', lrs')"
  shows "same_but_storage c c' \<and>
    (er = None \<longrightarrow> map decode_record lrs' = map decode_record lrs @ map event_entry (events_of (nv_order nv) (det c) items))"
  using assms(2)
proof (induction items arbitrary: c lrs)
  case Nil
  then show ?case by (simp add: events_of_def)
next
  case (Cons it items)
  obtain attrs tc where it: "it = (attrs, tc)" by fastforce
  obtain e1 c1 l1 where h: "consume_item nv det attrs tc (c, lrs) = (e1, c1, l1)" by (metis prod.exhaust)
  note eff = consume_item_effect [OF h]
  show ?case
  proof (cases e1)
    case None
    with h it Cons.prems have "for_each (\<lambda>(attrs, tc). consume_item nv det attrs tc) items (c1, l1) = (er, c', lrs')" by simp
    moreover have "det c1 = det c" using assms(1) eff(1) by (simp add: stable_def)
    moreover have "events_of ord d (it # items) = events_of ord d [(attrs, tc)] @ events_of ord d items" for ord d
      by (simp add: events_of_def it)
    ultimately show ?thesis
      using Cons.IH [of c1 l1] eff None same_but_storage_trans by fastforce
  next
    case (Some e)
    with h it Cons.prems eff(1) show ?thesis by auto
  qed
qed

lemma consume_items_effect:
  assumes "stable det" and "consume_items nv det items c = (er, c', out)"
  shows "same_but_storage c c' \<and>
    (case out of
       None \<Rightarrow> er = None \<longrightarrow> events_of (nv_order nv) (det c) items = []
     | Some ls \<Rightarrow> events_of (nv_order nv) (det c) items \<noteq> [] \<and>
         map decode_record (all_records ls) = map event_entry (events_of (nv_order nv) (det c) items))"
proof -
  obtain e1 c1 l1 where l: "for_each (\<lambda>(attrs, tc). consume_item nv det attrs tc) items (c, []) = (e1, c1, l1)"
    by (metis prod.exhaust)
  have rec: "all_records (createEventLog lrs) = lrs" for lrs
    by (simp add: createEventLog_def all_records_def)
  from consume_loop_effect [OF assms(1) l] assms(2) l show ?thesis
    by (cases e1) (auto simp: consume_items_def finish_consume_def log_record_count_def rec split: if_splits)
qed

section \<open>Lemmas on totality\<close>

text \<open>The collector validates every part of the configuration that has a \<open>Validate\<close> method.\<close>

definition valid_config :: "(string \<Rightarrow> u64 option) \<Rightarrow> config \<Rightarrow> bool" where
  "valid_config parseDuration cfg \<longleftrightarrow>
     validate_schema (cf_Schema cfg) = [] \<and> validate_expiration parseDuration (cf_Expiration cfg) = [] \<and>
     list_all (\<lambda>e. validate_entity e = []) (sc_Entities (cf_Schema cfg)) \<and>
     list_all (\<lambda>e. validate_entity_event e = []) (ev_Entities (sc_Events (cf_Schema cfg))) \<and>
     list_all (\<lambda>r. validate_relationship_event r = []) (ev_Relationships (sc_Events (cf_Schema cfg)))"

text \<open>An event the storage can take: a known action and, for a relationship, a type.\<close>

definition storable :: "event \<Rightarrow> bool" where
  "storable ev \<longleftrightarrow> event_action ev \<in> {EventUpdateAction, EventDeleteAction} \<and>
     (case ev of EvEntity e \<Rightarrow> True | EvRelationship r \<Rightarrow> rs_Type r \<noteq> [])"

definition accepting :: "('c, 'v) cache_ops \<Rightarrow> bool" where
  "accepting ops \<longleftrightarrow> (\<forall>c k v cost ttl. snd (ca_SetWithTTL ops c k v cost ttl))"

definition total_marshal :: "marshaller \<Rightarrow> bool" where
  "total_marshal marshal \<longleftrightarrow> (\<forall>ty ids. marshal ty ids \<noteq> None)"

lemma entity_key_total: "total_marshal marshal \<Longrightarrow> \<exists>h. buildEntityKey marshal e = Inr h"
  by (simp add: buildEntityKey_Inr total_marshal_def)

lemma relationship_keys_total:
  assumes "total_marshal marshal" "rs_Type r \<noteq> []"
  obtains s d k where "buildEntityKey marshal (rs_Source r) = Inr s"
    "buildEntityKey marshal (rs_Destination r) = Inr d" "buildRelationshipKey (rs_Type r) s d = Inr k"
proof -
  obtain s d where k: "buildEntityKey marshal (rs_Source r) = Inr s" "buildEntityKey marshal (rs_Destination r) = Inr d"
    using entity_key_total [OF assms(1)] by blast
  obtain k where "buildRelationshipKey (rs_Type r) s d = Inr k" by (rule kb.rkey_Inr [OF k assms(2)])
  with k show ?thesis by (rule that)
qed

lemma storage_total:
  assumes "total_marshal marshal" "rs_Type r \<noteq> []" "accepting eops" "accepting rops"
  shows "fst (storage_update eops rops (buildEntityKey marshal) r st) = None"
    and "fst (storage_delete rops' (buildEntityKey marshal) r st) = None"
proof -
  obtain s d k where "buildEntityKey marshal (rs_Source r) = Inr s"
    "buildEntityKey marshal (rs_Destination r) = Inr d" "buildRelationshipKey (rs_Type r) s d = Inr k"
    by (rule relationship_keys_total [OF assms(1,2)])
  then show "fst (storage_update eops rops (buildEntityKey marshal) r st) = None"
    "fst (storage_delete rops' (buildEntityKey marshal) r st) = None"
    using assms(3,4)
    by (simp_all add: storage_update_def storage_delete_def accepting_def Let_def case_prod_beta)
qed

lemma handleEvent_total:
  assumes "total_marshal (nv_marshal nv)" "accepting (nv_eops nv)" "accepting (nv_rops nv)" "storable ev"
  shows "fst (handleEvent nv ev sink) = None"
proof -
  have "fst (manager_Update (nv_eops nv) (nv_rops nv) (buildEntityKey (nv_marshal nv)) ev sm) = None"
    "fst (manager_Delete (nv_rops nv) (buildEntityKey (nv_marshal nv)) ev sm) = None" for sm
    using assms by (cases ev; simp add: storable_def storage_total)+
  moreover have "getActionType ev = Inr (event_action ev)"
    using assms(4) by (cases ev) (auto simp: storable_def event_action_def getActionString_def)
  ultimately show ?thesis
    by (simp add: handleEvent_def Let_def case_prod_beta split: option.split)
qed

lemma detected_storable:
  assumes "map_order ord" "detect ord d attrs tc = Inr evs"
    and "\<And>t cfg. gm_get (dt_attributeMapper d) t = Some cfg \<Longrightarrow> ec_Entity cfg = t"
    and "\<And>pe. pe \<in> set (eg_Entities (dt_events d)) \<Longrightarrow> validate_entity_event (pe_Definition pe) = []"
    and "\<And>pe. pe \<in> set (eg_Relationships (dt_events d)) \<Longrightarrow> validate_relationship_event (pe_Definition pe) = []"
    and "ev \<in> set evs"
  shows "storable ev"
proof (cases ev)
  case (EvEntity e)
  with detect_configured [OF assms(1-3)] assms(6) obtain pe where
    "pe \<in> set (eg_Entities (dt_events d))" "ev_Action (ee_Event (pe_Definition pe)) = en_Action e" by blast
  with assms(4) [of pe] EvEntity show ?thesis
    by (auto simp: storable_def event_action_def validate_entity_event_def validateActionAndContext_Nil)
next
  case (EvRelationship r)
  with detect_configured [OF assms(1-3)] assms(6) obtain pe where
    "pe \<in> set (eg_Relationships (dt_events d))" "re_Type (pe_Definition pe) = rs_Type r"
    "ev_Action (re_Event (pe_Definition pe)) = rs_Action r" by blast
  with assms(5) [of pe] EvRelationship show ?thesis
    by (auto simp: storable_def event_action_def validate_relationship_event_def validateActionAndContext_Nil split: if_splits)
qed

lemma createConnector_Inr:
  assumes "createConnector marshal pd mp lp (Some cfg) = Inr c"
  obtains pol pe where "unmarshal_expiration pd (cf_Expiration cfg) = Inr pol"
    "createParsedEvents mp lp (cf_Schema cfg) = Inr pe"
    "cn_metricEventDetector c = newEventDetector marshal (newEntities (cf_Schema cfg)) (pe_MetricEvents pe)"
    "cn_logEventDetector c = newEventDetector marshal (newEntities (cf_Schema cfg)) (pe_LogEvents pe)"
    "cn_expirationPolicy c = pol" "cn_storageManager c = None"
  using assms by (auto simp: createConnector_def unmarshal_schema_def split: sum.splits)

lemma group_definitions:
  assumes "map pe_Definition (g :: ('t, 'c) parsed_event list) = filter P es" "pe \<in> set g"
  shows "pe_Definition pe \<in> set es"
proof -
  have "pe_Definition pe \<in> set (map pe_Definition g)" using assms(2) by simp
  then show ?thesis unfolding assms(1) by simp
qed

lemma created_detectors_valid:
  assumes "valid_config pd cfg" "createConnector marshal pd mp lp (Some cfg) = Inr c"
    and "d = cn_logEventDetector c"
  shows "\<And>t ec. gm_get (dt_attributeMapper d) t = Some ec \<Longrightarrow> ec_Entity ec = t"
    and "\<And>pe. pe \<in> set (eg_Entities (dt_events d)) \<Longrightarrow> validate_entity_event (pe_Definition pe) = []"
    and "\<And>pe. pe \<in> set (eg_Relationships (dt_events d)) \<Longrightarrow> validate_relationship_event (pe_Definition pe) = []"
proof -
  obtain pol ps where ps: "createParsedEvents mp lp (cf_Schema cfg) = Inr ps"
    and d: "d = newEventDetector marshal (newEntities (cf_Schema cfg)) (pe_LogEvents ps)"
    using createConnector_Inr [OF assms(2)] assms(3) by metis
  note g = createParsedEvents_groups [OF ps]
  show "ec_Entity ec = t" if "gm_get (dt_attributeMapper d) t = Some ec" for t ec
    using that by (simp add: d newEventDetector_def newEntities_key)
  show "validate_entity_event (pe_Definition pe) = []" if "pe \<in> set (eg_Entities (dt_events d))" for pe
    using that g assms(1) group_definitions [of "eg_Entities (pe_LogEvents ps)"]
    by (auto simp: d newEventDetector_def valid_config_def list_all_iff)
  show "validate_relationship_event (pe_Definition pe) = []" if "pe \<in> set (eg_Relationships (dt_events d))" for pe
    using that g assms(1) group_definitions [of "eg_Relationships (pe_LogEvents ps)"]
    by (auto simp: d newEventDetector_def valid_config_def list_all_iff)
qed

lemma newInternalStorage_fails_only_by_library:
  assumes "go_rounding rnd" "unmarshal_expiration pd e = Inr pol" "ep_Enabled pol"
    and "\<And>cfg. newE cfg \<noteq> None" "\<And>cfg. newR cfg \<noteq> None"
  obtains st where "newInternalStorage rnd newE newR pol = Inr st"
proof -
  have "second_ns \<le> sint (ep_TTLCleanup pol)" by (rule unmarshal_expiration_bounds [OF assms(2,3)])
  from cleanup_seconds_bounds [OF assms(1) this] sint_range64(2) [of "ep_TTLCleanup pol"] this
  have "0 < go_trunc (duration_Seconds rnd (sint (ep_TTLCleanup pol)))"
    using zdiv_mono1 [of second_ns "sint (ep_TTLCleanup pol)" second_ns] by (simp add: second_ns_def)
  with assms(4,5) have "result_ok (newInternalStorage rnd newE newR pol)"
    by (simp add: newInternalStorage_def Let_def del: not_None_eq split: option.split)
  then show ?thesis using that by (auto simp: result_ok_def split: sum.splits)
qed

section \<open>Properties\<close>

text \<open>C1: What the connector emits for a batch of logs is exactly what was detected: a batch that is
  sent reads back, record by record and in traversal order, as the detected events with their
  actions; nothing is sent when an error is returned by detection or storage; and when no error is
  returned and nothing is sent, there was no event.  The connector itself only changes its storage.\<close>

theorem consumeLogs_emits_detected:
  assumes "consumeLogs nv ls c = (er, c', out)"
  shows "same_but_storage c c' \<and>
    (case out of
       None \<Rightarrow> er = None \<longrightarrow> events_of (nv_order nv) (cn_logEventDetector c) (log_items c ls) = []
     | Some sent \<Rightarrow> er \<in> {None, Some ConsumerFailed} \<and> all_records sent \<noteq> [] \<and>
         map decode_record (all_records sent) =
           map event_entry (events_of (nv_order nv) (cn_logEventDetector c) (log_items c ls)))"
proof -
  have "er \<in> {None, Some ConsumerFailed}" if "out = Some sent" for sent
    using assms that by (auto simp: consumeLogs_def finish_consume_def split: option.splits prod.splits if_splits)
  with consume_items_effect [OF stable_detectors(1) assms [unfolded consumeLogs_items]] show ?thesis
    by (auto split: option.splits)
qed

definition wit_config :: config where
  "wit_config = \<lparr>cf_Schema = wit_schema, cf_Expiration = default_expiration, cf_SourcePrefix = ''src.'', cf_DestinationPrefix = ''dst.''\<rparr>"

definition wit_env :: "((string, stored_entity) gomap, (string, stored_relationship) gomap) environment" where
  "wit_env = \<lparr>nv_eops = alist_cache, nv_rops = alist_cache, nv_marshal = wit_marshal, nv_clock = of_nat,
              nv_order = (\<lambda>xs. xs), nv_consume = (\<lambda>_. True)\<rparr>"

definition wit_parser :: "'tc condition parser" where
  "wit_parser cs = Inr (\<lambda>tc. Inr True)"

definition wit_connector :: "((string, stored_entity) gomap, (string, stored_relationship) gomap) connector" where
  "wit_connector =
     (case createConnector wit_marshal (\<lambda>_. None) (Inr wit_parser) (Inr wit_parser) (Some wit_config) of Inr c \<Rightarrow> c)"

definition wit_logs :: logs where
  "wit_logs = [\<lparr>rl_attrs = [(''id'', VStr ''h1''), (''pod'', VStr ''p1'')],
               rl_scopes = [\<lparr>sl_attrs = [], sl_records = [new_record]\<rparr>]\<rparr>]"

lemma wit_connector_created:
  "createConnector wit_marshal (\<lambda>_. None) (Inr wit_parser) (Inr wit_parser) (Some wit_config) = Inr wit_connector"
proof -
  have "result_ok (createParsedEvents (Inr wit_parser) (Inr wit_parser) wit_schema :: (cfg_error, (metric_context condition, log_context condition) parsed_events) result)"
    by (simp add: createParsedEvents_ok wit_schema_def wit_event_def event_parses_def wit_parser_def)
  then show ?thesis
    by (auto simp: wit_connector_def createConnector_def wit_config_def unmarshal_expiration_def
        default_expiration_def unmarshal_schema_def result_ok_def split: sum.splits)
qed

lemma consumeLogs_emits_detected_witness:
  "\<exists>er c' out. consumeLogs wit_env wit_logs wit_connector = (er, c', out) \<and> same_but_storage wit_connector c'"
proof -
  obtain er c' out where r: "consumeLogs wit_env wit_logs wit_connector = (er, c', out)" by (metis prod.exhaust)
  from r consumeLogs_emits_detected [OF r] show ?thesis by blast
qed

text \<open>C2: A validated configuration leaves no internal failure: when the JSON encoder is total, the
  caches accept entries, the conditions evaluate and the next consumer accepts the batch, consuming
  logs returns no error, whatever the batch and whether or not expiration was started.\<close>

theorem validated_connector_never_fails:
  assumes "valid_config pd cfg" "createConnector marshal pd mp lp (Some cfg) = Inr c0" "same_but_storage c0 c"
    and "map_order (nv_order nv)" "total_marshal (nv_marshal nv)" "accepting (nv_eops nv)" "accepting (nv_rops nv)"
    and "\<And>b. nv_consume nv b" "\<And>attrs tc. result_ok (detect (nv_order nv) (cn_logEventDetector c) attrs tc)"
  shows "fst (consumeLogs nv ls c) = None"
proof -
  have det: "cn_logEventDetector c = cn_logEventDetector c0"
    by (rule same_but_storage_detectors [OF assms(3)])
  note v = created_detectors_valid [OF assms(1,2) det]
  have item: "fst (consume_item nv cn_logEventDetector attrs tc (c', lrs)) = None"
    if "same_but_storage c c'" for attrs tc c' lrs
  proof -
    obtain evs where evs: "detect (nv_order nv) (cn_logEventDetector c) attrs tc = Inr evs"
      using assms(9) [of attrs tc] by (auto simp: result_ok_def split: sum.splits)
    have "fst (for_each (handleEvent nv) evs s) = None" for s
      using for_each_ok_iff [of evs "handleEvent nv" "\<lambda>_. True" s]
        handleEvent_total [OF assms(5-7) detected_storable [OF assms(4) evs v]] by simp
    with evs same_but_storage_detectors(1) [OF that] show ?thesis by (simp add: consume_item_def)
  qed
  have "fst (for_each (\<lambda>(attrs, tc). consume_item nv cn_logEventDetector attrs tc) items (c', lrs)) = None"
    if "same_but_storage c c'" for items c' lrs
    using that
  proof (induction items arbitrary: c' lrs)
    case (Cons it items)
    obtain attrs tc where it: "it = (attrs, tc)" by (cases it)
    obtain e1 c1 l1 where h: "consume_item nv cn_logEventDetector attrs tc (c', lrs) = (e1, c1, l1)"
      by (metis prod.exhaust)
    with item [OF Cons.prems, of attrs tc lrs] have "e1 = None" by simp
    with h it Cons.IH [OF same_but_storage_trans [OF Cons.prems consume_item_effect(1) [OF h]]] show ?case by simp
  qed simp
  from this [of c "log_items c ls" "[]"] assms(8) show ?thesis
    by (auto simp: consumeLogs_items consume_items_def finish_consume_def split: prod.splits option.splits)
qed

lemma validated_connector_never_fails_witness:
  "fst (consumeLogs wit_env wit_logs wit_connector) = None"
proof (rule validated_connector_never_fails [OF _ wit_connector_created same_but_storage_refl])
  show "valid_config (\<lambda>_. None) wit_config"
    by (simp add: valid_config_def wit_config_def validate_defs validate_schema_def wit_schema_def wit_event_def
        validate_expiration_def default_expiration_def)
  show "result_ok (detect (nv_order wit_env) (cn_logEventDetector wit_connector) attrs tc)" for attrs tc
    by (simp add: detect_ok wit_connector_def createConnector_def wit_config_def unmarshal_expiration_def
        default_expiration_def unmarshal_schema_def createParsedEvents_def processEvent_def addEvent_def
        newEventDetector_def wit_schema_def wit_event_def wit_parser_def)
qed (simp_all add: wit_env_def total_marshal_def wit_marshal_def accepting_def alist_cache_def)

text \<open>Starting a connector built from its configuration fails only when the cache library does,
  and attaches an expiration storage exactly when expiration is enabled.\<close>

theorem start_attaches_storage:
  assumes "go_rounding rnd" "createConnector marshal pd mp lp (Some cfg) = Inr c"
    and "\<And>rc. newE rc \<noteq> None" "\<And>rc. newR rc \<noteq> None"
  shows "\<exists>c'. connector_Start rnd newE newR c = (None, c') \<and> same_but_storage c c' \<and>
     (cn_storageManager c' \<noteq> None \<longleftrightarrow> es_Enabled (cf_Expiration cfg))"
proof -
  obtain pol where pol: "unmarshal_expiration pd (cf_Expiration cfg) = Inr pol"
    and c: "cn_expirationPolicy c = pol" "cn_storageManager c = None"
    by (rule createConnector_Inr [OF assms(2)])
  have en: "ep_Enabled pol \<longleftrightarrow> es_Enabled (cf_Expiration cfg)"
    using pol by (auto simp: unmarshal_expiration_def disabled_policy_def split: if_splits sum.splits)
  show ?thesis
  proof (cases "ep_Enabled pol")
    case True
    obtain st where "newInternalStorage rnd newE newR pol = Inr st"
      by (rule newInternalStorage_fails_only_by_library [OF assms(1) pol True assms(3,4)])
    with True c en show ?thesis by (simp add: connector_Start_def NewStorageManager_def)
  next
    case False
    with c en show ?thesis by (simp add: connector_Start_def)
  qed
qed

lemma start_attaches_storage_witness:
  "\<exists>c'. connector_Start id (\<lambda>_. Some [] :: (string, stored_entity) gomap option) (\<lambda>_. Some [] :: (string, stored_relationship) gomap option) wit_connector = (None, c') \<and>
     cn_storageManager c' = None"
proof -
  have "go_rounding id" by (simp add: go_rounding_def mono_def)
  from start_attaches_storage [OF this wit_connector_created, of "\<lambda>_. Some []" "\<lambda>_. Some []"]
  show ?thesis by (auto simp: wit_config_def default_expiration_def)
qed

end
