(* ===== verification/Entity_Lifecycle.thy ===== *)
theory Entity_Lifecycle
  imports Entity_Connector
begin

text \<open>
  The life of the expiration storage (\<open>internal/storage/storage_manager.go\<close>): starting and shutting down its
  manager while the cache evicts relationships and the batching goroutine receives them from the
  unbuffered channel \<open>expiredCh\<close>.  The cache library is a parameter: \<open>waits\<close> says that closing a cache returns only when its eviction
  callback is not running, as its documentation promises (\<open>Close\<close> stops all its goroutines).
\<close>

section \<open>The manager and its goroutines\<close>

text \<open>What \<open>Shutdown\<close> does, in order.\<close>

datatype shutdown_action = CloseCaches | CancelBatcher

definition storage_Shutdown :: "shutdown_action list" where
  "storage_Shutdown = [CloseCaches, CancelBatcher]"

definition connector_Shutdown :: "('ce, 'cr) connector \<Rightarrow> shutdown_action list" where
  "connector_Shutdown c = (case cn_storageManager c of None \<Rightarrow> [] | Some _ \<Rightarrow> storage_Shutdown)"

text \<open>
  Whether the caches are open; the event that the eviction callback is sending, if it runs; the
  cancel function of the manager (\<open>None\<close> for nil) and whether it was called; the goroutine \<open>receiveExpired\<close>, which
  closes the channel when it stops; what is left of a call of \<open>Shutdown\<close>; the events that the goroutine has received;
  and whether something panicked.
\<close>

record lifecycle =
  lc_open :: bool
  lc_sending :: "event option"
  lc_cancelBatcher :: "bool option"
  lc_batcher :: "batcher option"
  lc_shutdown :: "shutdown_action list"
  lc_received :: "event list"
  lc_panic :: bool

definition lc_initial :: lifecycle where
  "lc_initial = \<lparr>lc_open = True, lc_sending = None, lc_cancelBatcher = None, lc_batcher = None, lc_shutdown = [],
     lc_received = [], lc_panic = False\<rparr>"

definition lc_closed :: "lifecycle \<Rightarrow> bool" where
  "lc_closed s = (case lc_batcher s of None \<Rightarrow> False | Some b \<Rightarrow> ba_stopped b)"

definition storage_Start :: "lifecycle \<Rightarrow> lifecycle" where
  "storage_Start s = s\<lparr>lc_batcher := Some batcher_init, lc_cancelBatcher := Some False\<rparr>"

text \<open>Calling a nil function panics, and so does a send on a closed channel, also one that already waits when the channel is closed.\<close>

definition cancelBatcher :: "lifecycle \<Rightarrow> lifecycle" where
  "cancelBatcher s = (case lc_cancelBatcher s of None \<Rightarrow> s\<lparr>lc_panic := True\<rparr> | Some _ \<Rightarrow> s\<lparr>lc_cancelBatcher := Some True\<rparr>)"

definition begin_send :: "event \<Rightarrow> lifecycle \<Rightarrow> lifecycle" where
  "begin_send ev s = (if lc_closed s then s\<lparr>lc_panic := True\<rparr> else s\<lparr>lc_sending := Some ev\<rparr>)"

definition stop_batcher :: "batcher \<Rightarrow> lifecycle \<Rightarrow> lifecycle" where
  "stop_batcher b s = s\<lparr>lc_batcher := Some b, lc_panic := (lc_panic s \<or> lc_sending s \<noteq> None)\<rparr>"

text \<open>The collector shuts a connector down after its start returned; a panic ends the process.\<close>

inductive lc_step :: "bool \<Rightarrow> lifecycle \<Rightarrow> lifecycle \<Rightarrow> bool" for waits where
  lc_Start: "\<not> lc_panic s \<Longrightarrow> lc_batcher s = None \<Longrightarrow> lc_step waits s (storage_Start s)"
| lc_Shutdown: "\<not> lc_panic s \<Longrightarrow> lc_batcher s \<noteq> None \<Longrightarrow> lc_shutdown s = [] \<Longrightarrow> lc_step waits s (s\<lparr>lc_shutdown := storage_Shutdown\<rparr>)"
| lc_close: "\<not> lc_panic s \<Longrightarrow> lc_shutdown s = CloseCaches # as \<Longrightarrow> (waits \<Longrightarrow> lc_sending s = None) \<Longrightarrow>
     lc_step waits s (s\<lparr>lc_open := False, lc_shutdown := as\<rparr>)"
| lc_cancel: "\<not> lc_panic s \<Longrightarrow> lc_shutdown s = CancelBatcher # as \<Longrightarrow> lc_step waits s (cancelBatcher (s\<lparr>lc_shutdown := as\<rparr>))"
| lc_evict: "\<not> lc_panic s \<Longrightarrow> lc_open s \<Longrightarrow> lc_sending s = None \<Longrightarrow> lc_step waits s (begin_send ev s)"
| lc_receive: "\<not> lc_panic s \<Longrightarrow> lc_sending s = Some ev \<Longrightarrow> lc_batcher s = Some b \<Longrightarrow> batcher_step b (Expired ev) b' \<Longrightarrow>
     lc_step waits s (s\<lparr>lc_sending := None, lc_batcher := Some b', lc_received := lc_received s @ [ev]\<rparr>)"
| lc_timer: "\<not> lc_panic s \<Longrightarrow> lc_batcher s = Some b \<Longrightarrow> batcher_step b (TimerFired accepted) b' \<Longrightarrow>
     lc_step waits s (s\<lparr>lc_batcher := Some b', lc_panic := ba_failed b'\<rparr>)"
| lc_done: "\<not> lc_panic s \<Longrightarrow> lc_cancelBatcher s = Some True \<Longrightarrow> lc_batcher s = Some b \<Longrightarrow> batcher_step b ContextDone b' \<Longrightarrow>
     lc_step waits s (stop_batcher b' s)"

inductive_cases lc_step_cases: "lc_step waits s s'"

section \<open>The invariant\<close>

text \<open>The goroutine of a started manager has followed a run, and it stops only when it was cancelled.\<close>

definition batcher_follows :: "lifecycle \<Rightarrow> bool" where
  "batcher_follows s \<longleftrightarrow>
     (case lc_batcher s of
        None \<Rightarrow> lc_cancelBatcher s = None \<and> lc_shutdown s = [] \<and> lc_received s = []
      | Some b \<Rightarrow> lc_cancelBatcher s \<noteq> None \<and> (ba_stopped b \<longrightarrow> lc_cancelBatcher s = Some True) \<and>
          (\<exists>tr. batcher_run tr b \<and> expired_of tr = lc_received s))"

definition lc_refused :: "lifecycle \<Rightarrow> bool" where
  "lc_refused s \<longleftrightarrow> (\<exists>b. lc_batcher s = Some b \<and> ba_failed b)"

definition lc_inv :: "lifecycle \<Rightarrow> bool" where
  "lc_inv s \<longleftrightarrow>
     (lc_panic s \<longleftrightarrow> lc_refused s) \<and> batcher_follows s \<and>
     (\<not> lc_open s \<longrightarrow> lc_sending s = None) \<and> (lc_cancelBatcher s = Some True \<longrightarrow> \<not> lc_open s) \<and>
     (lc_shutdown s = [] \<or> lc_shutdown s = storage_Shutdown \<or> lc_shutdown s = [CancelBatcher] \<and> \<not> lc_open s)"

lemma batcher_step_stopped:
  "batcher_step b a b' \<Longrightarrow> ba_running b \<and> (ba_stopped b' \<longleftrightarrow> a = ContextDone) \<and> (ba_failed b' \<longrightarrow> (\<exists>ok. a = TimerFired ok))"
  by (auto elim!: batcher_stepE simp: ba_running_def)

lemma batcher_run_extend:
  assumes "batcher_step b a b'" "\<exists>tr. batcher_run tr b \<and> expired_of tr = evs"
  shows "\<exists>tr. batcher_run tr b' \<and> expired_of tr = evs @ expired_of [a]"
proof -
  obtain tr where tr: "batcher_run tr b" "expired_of tr = evs" using assms(2) by blast
  with run_step [OF tr(1) assms(1)] show ?thesis by (intro exI [of _ "tr @ [a]"]) (simp add: expired_of_def)
qed

lemma lc_inv_initial: "lc_inv lc_initial"
  by (simp add: lc_inv_def lc_refused_def lc_initial_def batcher_follows_def)

lemma lc_inv_step:
  assumes "lc_step True s s'" "lc_inv s"
  shows "lc_inv s'"
  using assms
proof (cases rule: lc_step.cases)
  case lc_Start
  moreover have "\<exists>tr. batcher_run tr batcher_init \<and> expired_of tr = []" using run_init by (auto simp: expired_of_def intro: exI [of _ "[]"])
  ultimately show ?thesis using assms(2)
    by (auto simp: lc_inv_def lc_refused_def storage_Start_def batcher_follows_def batcher_init_def)
next
  case (lc_receive ev b b')
  note batcher = batcher_step_stopped [OF lc_receive(5)] batcher_run_extend [OF lc_receive(5), of "lc_received s"]
  show ?thesis using lc_receive(1-4) batcher assms(2)
    by (auto simp: lc_inv_def lc_refused_def batcher_follows_def expired_of_def ba_running_def)
next
  case (lc_timer b accepted b')
  note batcher = batcher_step_stopped [OF lc_timer(4)] batcher_run_extend [OF lc_timer(4), of "lc_received s"]
  show ?thesis using lc_timer(1-3) batcher assms(2)
    by (auto simp: lc_inv_def lc_refused_def batcher_follows_def expired_of_def ba_running_def)
next
  case (lc_done b b')
  note batcher = batcher_step_stopped [OF lc_done(5)] batcher_run_extend [OF lc_done(5), of "lc_received s"]
  show ?thesis using lc_done(1-4) batcher assms(2)
    by (auto simp: lc_inv_def lc_refused_def stop_batcher_def batcher_follows_def expired_of_def ba_running_def)
next
  case lc_evict
  with assms(2) show ?thesis by (auto simp: lc_inv_def lc_refused_def begin_send_def lc_closed_def batcher_follows_def split: option.splits)
qed (auto simp: lc_inv_def lc_refused_def storage_Shutdown_def cancelBatcher_def batcher_follows_def split: option.splits)

interpretation lc: transition_invariant "\<lambda>s. s = lc_initial" "lc_step True" lc_inv
  by unfold_locales (auto intro: lc_inv_initial lc_inv_step)

section \<open>Shutting down\<close>

lemma finish_cancel:
  assumes "lc_inv s" "\<not> lc_panic s" "lc_shutdown s = [CancelBatcher]"
  shows "\<exists>s'. (lc_step True)\<^sup>*\<^sup>* s s' \<and> lc_shutdown s' = [] \<and> lc_closed s' \<and> \<not> lc_panic s'"
proof -
  obtain b where b: "lc_batcher s = Some b" "lc_cancelBatcher s \<noteq> None" "\<not> ba_failed b"
    using assms by (auto simp: lc_inv_def lc_refused_def batcher_follows_def split: option.splits)
  let ?s = "s\<lparr>lc_shutdown := [], lc_cancelBatcher := Some True\<rparr>"
  have step: "lc_step True s ?s" using lc_cancel [OF assms(2,3), of True] b(2) by (auto simp: cancelBatcher_def)
  show ?thesis
  proof (cases "ba_stopped b")
    case True
    with b(1) step assms(2) show ?thesis by (intro exI [of _ ?s]) (auto simp: lc_closed_def)
  next
    case False
    then have run: "ba_running b" using b(3) by (simp add: ba_running_def)
    have "lc_sending s = None" using assms by (auto simp: lc_inv_def storage_Shutdown_def)
    then have idle: "lc_sending ?s = None" by simp
    let ?b = "b\<lparr>ba_batch := None, ba_timer := False, ba_dropped := pending b, ba_stopped := True\<rparr>"
    have "lc_step True ?s (stop_batcher ?b ?s)"
      by (rule lc_done [OF _ _ _ ctx_done [OF run]]) (simp_all add: b(1) assms(2))
    with step idle assms(2) show ?thesis
      by (intro exI [of _ "stop_batcher ?b ?s"]) (auto simp: lc_closed_def stop_batcher_def)
  qed
qed

lemma finish_send:
  assumes "lc_inv s" "\<not> lc_panic s" "lc_shutdown s \<noteq> []"
  shows "\<exists>s'. (lc_step True)\<^sup>*\<^sup>* s s' \<and> lc_sending s' = None \<and> lc_shutdown s' = lc_shutdown s \<and> \<not> lc_panic s'"
proof (cases "lc_sending s")
  case (Some ev)
  with assms obtain b where b: "lc_batcher s = Some b" "ba_running b"
    by (auto simp: lc_inv_def lc_refused_def ba_running_def batcher_follows_def split: option.splits)
  obtain b' where "batcher_step b (Expired ev) b'"
    using expired_first [OF b(2)] expired_more [OF b(2)] by (cases "ba_batch b") blast+
  from lc_receive [OF assms(2) Some b(1) this, of True] show ?thesis
    by (intro exI conjI) (rule r_into_rtranclp, assumption, simp_all add: assms(2))
qed (use assms(2) in auto)

text \<open>What the goroutine has done with the events it received.\<close>

definition batches_account_for :: "batcher \<Rightarrow> event list \<Rightarrow> bool" where
  "batches_account_for b received \<longleftrightarrow>
     concat (ba_sent b) @ pending b @ ba_dropped b = received \<and> [] \<notin> set (ba_sent b) \<and> (ba_timer b \<longleftrightarrow> pending b \<noteq> []) \<and>
     (ba_stopped b \<longrightarrow> pending b = []) \<and> (\<not> ba_stopped b \<longrightarrow> ba_dropped b = [])"

text \<open>C4: Shutting the expiration storage down is safe. However the start, the evictions of the cache, the batching
  goroutine and calls of \<open>Shutdown\<close> interleave, and provided that closing a cache waits for its callback, nothing is
  ever sent on the closed channel, no callback waits once it is closed, and the process panics exactly when the
  consumer has refused a batch of expired events; otherwise a call of \<open>Shutdown\<close> can always finish, after which the channel is
  closed.  The batches sent, then the pending batch, then what was dropped, are always the received events in
  order: none of the batches is empty, the timer is armed exactly when a batch is pending, the goroutine, while it runs, sends everything
  received so far when the timer fires and the consumer accepts, and only the end of its context drops the pending batch, as the source announces.
\<close>

theorem storage_shutdown_safe:
  assumes "waits" "(lc_step waits)\<^sup>*\<^sup>* lc_initial s"
  shows "(lc_panic s \<longleftrightarrow> (\<exists>b. lc_batcher s = Some b \<and> ba_failed b)) \<and> (lc_closed s \<longrightarrow> lc_sending s = None \<and> \<not> lc_open s) \<and>
    (\<forall>b. lc_batcher s = Some b \<longrightarrow> batches_account_for b (lc_received s) \<and>
       (\<not> lc_panic s \<and> \<not> ba_stopped b \<and> pending b \<noteq> [] \<longrightarrow>
          (\<exists>b'. lc_step waits s (s\<lparr>lc_batcher := Some b'\<rparr>) \<and> concat (ba_sent b') = lc_received s))) \<and>
    (\<not> lc_panic s \<and> lc_shutdown s \<noteq> [] \<longrightarrow>
       (\<exists>s'. (lc_step waits)\<^sup>*\<^sup>* s s' \<and> lc_shutdown s' = [] \<and> lc_closed s' \<and> \<not> lc_panic s'))"
proof -
  have inv: "lc_inv s" using assms lc.reachable_inv [OF refl] by simp
  have delivered: "batches_account_for b (lc_received s) \<and> (\<not> lc_panic s \<and> \<not> ba_stopped b \<and> pending b \<noteq> [] \<longrightarrow>
      (\<exists>b'. lc_step waits s (s\<lparr>lc_batcher := Some b'\<rparr>) \<and> concat (ba_sent b') = lc_received s))"
    if b: "lc_batcher s = Some b" for b
  proof -
    obtain tr where tr: "batcher_run tr b" "expired_of tr = lc_received s" using inv b by (auto simp: lc_inv_def batcher_follows_def)
    note run = batcher_delivers [OF tr(1), unfolded tr(2)]
    have "\<exists>b'. lc_step waits s (s\<lparr>lc_batcher := Some b'\<rparr>) \<and> concat (ba_sent b') = lc_received s"
      if ok: "\<not> lc_panic s" "\<not> ba_stopped b" "pending b \<noteq> []"
    proof -
      have "ba_running b" using ok inv b by (auto simp: ba_running_def lc_inv_def lc_refused_def)
      from run(6) [OF this ok(3)] obtain b' where b': "batcher_step b (TimerFired True) b'" "\<not> ba_failed b'"
        "concat (ba_sent b') = lc_received s" by blast
      moreover have "s\<lparr>lc_batcher := Some b', lc_panic := ba_failed b'\<rparr> = s\<lparr>lc_batcher := Some b'\<rparr>" using ok(1) b'(2) by simp
      ultimately show ?thesis using lc_timer [OF ok(1) b b'(1), of waits] by auto
    qed
    with run(1-5) show ?thesis by (auto simp: batches_account_for_def)
  qed
  have "\<exists>s'. (lc_step True)\<^sup>*\<^sup>* s s' \<and> lc_shutdown s' = [] \<and> lc_closed s' \<and> \<not> lc_panic s'" if todo: "\<not> lc_panic s" "lc_shutdown s \<noteq> []"
  proof (cases "lc_shutdown s = [CancelBatcher]")
    case True
    then show ?thesis using finish_cancel inv todo(1) by blast
  next
    case False
    obtain s1 where s1: "(lc_step True)\<^sup>*\<^sup>* s s1" "lc_sending s1 = None" "lc_shutdown s1 = lc_shutdown s" "\<not> lc_panic s1"
      using finish_send [OF inv todo] by blast
    then have as: "lc_shutdown s1 = CloseCaches # [CancelBatcher]"
      using inv todo False by (auto simp: lc_inv_def storage_Shutdown_def)
    let ?s2 = "s1\<lparr>lc_open := False, lc_shutdown := [CancelBatcher]\<rparr>"
    have "lc_step True s1 ?s2" by (rule lc_close [OF s1(4) as]) (rule s1(2))
    with s1(1) have s2: "(lc_step True)\<^sup>*\<^sup>* s ?s2" by (rule rtranclp.rtrancl_into_rtrancl)
    have reach: "(lc_step True)\<^sup>*\<^sup>* lc_initial s" using assms by simp
    have "lc_inv ?s2" by (rule lc.reachable_inv [OF refl rtranclp_trans [OF reach s2]])
    then obtain s' where "(lc_step True)\<^sup>*\<^sup>* ?s2 s'" "lc_shutdown s' = []" "lc_closed s'" "\<not> lc_panic s'"
      using finish_cancel [of ?s2] s1(4) by auto
    with rtranclp_trans [OF s2] show ?thesis by blast
  qed
  moreover have "lc_panic s \<longleftrightarrow> (\<exists>b. lc_batcher s = Some b \<and> ba_failed b)" "lc_closed s \<longrightarrow> lc_sending s = None \<and> \<not> lc_open s"
    using inv by (auto simp: lc_inv_def lc_refused_def lc_closed_def batcher_follows_def split: option.splits)
  ultimately show ?thesis using assms(1) delivered by simp
qed

text \<open>A shutdown while the callback sends: the event is received, the caches are closed and the goroutine is cancelled.\<close>

theorem storage_shutdown_safe_witness:
  "\<exists>s s'. (lc_step True)\<^sup>*\<^sup>* lc_initial s \<and> lc_sending s = Some (EvRelationship wit_relationship) \<and> lc_shutdown s = storage_Shutdown \<and>
     \<not> lc_panic s \<and> (lc_step True)\<^sup>*\<^sup>* s s' \<and> lc_shutdown s' = [] \<and> lc_closed s' \<and> \<not> lc_panic s'"
proof -
  let ?ev = "EvRelationship wit_relationship"
  let ?a = "storage_Start lc_initial"
  let ?b = "begin_send ?ev ?a"
  let ?c = "?b\<lparr>lc_shutdown := storage_Shutdown\<rparr>"
  note defs = storage_Start_def lc_initial_def begin_send_def lc_closed_def batcher_init_def storage_Shutdown_def
  have "lc_step True lc_initial ?a" by (rule lc_Start) (simp_all add: defs)
  moreover have "lc_step True ?a ?b" by (rule lc_evict) (simp_all add: defs)
  moreover have "lc_step True ?b ?c" by (rule lc_Shutdown) (simp_all add: defs)
  ultimately have reach: "(lc_step True)\<^sup>*\<^sup>* lc_initial ?c" by (meson rtranclp.rtrancl_into_rtrancl rtranclp.rtrancl_refl)
  have c: "lc_sending ?c = Some ?ev" "lc_shutdown ?c = storage_Shutdown" "lc_shutdown ?c \<noteq> []" "\<not> lc_panic ?c" by (simp_all add: defs)
  from storage_shutdown_safe [OF TrueI reach] c(3,4) obtain s' where "(lc_step True)\<^sup>*\<^sup>* ?c s'" "lc_shutdown s' = []" "lc_closed s'" "\<not> lc_panic s'"
    by blast
  with reach c(1,2,4) show ?thesis by blast
qed

text \<open>The promise of the cache library is needed: if closing did not wait, a callback could be caught sending when the channel is closed.\<close>

theorem shutdown_needs_waiting: "\<exists>s. (lc_step False)\<^sup>*\<^sup>* lc_initial s \<and> lc_panic s"
proof -
  let ?ev = "EvRelationship wit_relationship"
  let ?a = "storage_Start lc_initial"
  let ?b = "begin_send ?ev ?a"
  let ?c = "?b\<lparr>lc_shutdown := storage_Shutdown\<rparr>"
  let ?d = "?c\<lparr>lc_open := False, lc_shutdown := [CancelBatcher]\<rparr>"
  let ?e = "cancelBatcher (?d\<lparr>lc_shutdown := []\<rparr>)"
  let ?f = "stop_batcher (batcher_init\<lparr>ba_batch := None, ba_timer := False, ba_dropped := pending batcher_init, ba_stopped := True\<rparr>) ?e"
  note defs = storage_Start_def lc_initial_def begin_send_def lc_closed_def batcher_init_def storage_Shutdown_def cancelBatcher_def
  have "lc_step False lc_initial ?a" by (rule lc_Start) (simp_all add: defs)
  moreover have "lc_step False ?a ?b" by (rule lc_evict) (simp_all add: defs)
  moreover have "lc_step False ?b ?c" by (rule lc_Shutdown) (simp_all add: defs)
  moreover have "lc_step False ?c ?d" by (rule lc_close) (simp_all add: defs)
  moreover have "lc_step False ?d ?e" by (rule lc_cancel) (simp_all add: defs)
  moreover have "lc_step False ?e ?f" by (rule lc_done [OF _ _ _ ctx_done]) (simp_all add: defs ba_running_def)
  ultimately have "(lc_step False)\<^sup>*\<^sup>* lc_initial ?f" by (meson rtranclp.rtrancl_into_rtrancl rtranclp.rtrancl_refl)
  moreover have "lc_panic ?f" by (simp add: defs stop_batcher_def)
  ultimately show ?thesis by blast
qed

end
