(* ===== verification/Workload_Lookup.thy ===== *)
theory Workload_Lookup
  imports Go_Prelude
begin

text \<open>
  The lookup of Kubernetes workloads
  (\<open>processor/swok8sworkloadtypeprocessor/internal\<close>): what the informers cache and how they
  index it (\<open>cache.go\<close>), the lookups by name, owner, IP and hostname (\<open>lookup.go\<close>) and by
  OpenTelemetry service name (\<open>otel_instrumentation_lookup.go\<close>).  An informer (client-go) is an
  argument, the two functions the code calls on it.  Following owner references recurses through
  the cached ReplicaSets and need not end, so it takes fuel; a lookup that runs out of fuel, or
  that calls a method of an informer that is not there, aborts.
\<close>

section \<open>Objects\<close>

record owner_ref =
  or_APIVersion :: string
  or_Kind :: string
  or_Name :: string
  or_UID :: string

record object_meta =
  om_Name :: string
  om_Namespace :: string
  om_OwnerReferences :: "owner_ref list"
  om_Labels :: "(string, string) gomap"
  om_Annotations :: "(string, string) gomap"

text \<open>
  The dynamic types an object of a cache can have: pods and services, any other type (with the
  name \<open>%T\<close> prints) that implements both, only the first, only the second or none of
  \<open>runtime.Object\<close> and \<open>metav1.Object\<close>.  The first string of an object is the kind of its
  \<open>TypeMeta\<close>.
\<close>

datatype workload =
    Pod string object_meta bool "string list"
  | Service string object_meta "string list" "string list"
  | Workload_Object string string object_meta
  | Runtime_Only string string
  | Meta_Only string object_meta
  | Unexpected string

fun runtime_kind :: "workload \<Rightarrow> string option" where
  "runtime_kind (Pod k m h ips) = Some k"
| "runtime_kind (Service k m cips eips) = Some k"
| "runtime_kind (Workload_Object t k m) = Some k"
| "runtime_kind (Runtime_Only t k) = Some k"
| "runtime_kind _ = None"

fun meta_object :: "workload \<Rightarrow> object_meta option" where
  "meta_object (Pod k m h ips) = Some m"
| "meta_object (Service k m cips eips) = Some m"
| "meta_object (Workload_Object t k m) = Some m"
| "meta_object (Meta_Only t m) = Some m"
| "meta_object _ = None"

fun type_name :: "workload \<Rightarrow> string" where
  "type_name (Pod k m h ips) = ''*v1.Pod''"
| "type_name (Service k m cips eips) = ''*v1.Service''"
| "type_name (Workload_Object t k m) = t"
| "type_name (Runtime_Only t k) = t"
| "type_name (Meta_Only t m) = t"
| "type_name (Unexpected t) = t"

abbreviation ServiceKind :: string where "ServiceKind \<equiv> ''Service''"
abbreviation PodKind :: string where "PodKind \<equiv> ''Pod''"
abbreviation ReplicaSetKind :: string where "ReplicaSetKind \<equiv> ''ReplicaSet''"
abbreviation serviceTypeShort :: string where "serviceTypeShort \<equiv> ''svc''"
abbreviation podTypeShort :: string where "podTypeShort \<equiv> ''pod''"
abbreviation PodsWorkloadType :: string where "PodsWorkloadType \<equiv> ''pods''"
abbreviation ServicesWorkloadType :: string where "ServicesWorkloadType \<equiv> ''services''"
abbreviation ReplicaSetsWorkloadType :: string where "ReplicaSetsWorkloadType \<equiv> ''replicasets''"

abbreviation PodIpIndex :: string where "PodIpIndex \<equiv> ''podIpIndex''"
abbreviation ServiceIpIndex :: string where "ServiceIpIndex \<equiv> ''serviceIpIndex''"
abbreviation ServiceNameFromPodLabelIndex :: string where "ServiceNameFromPodLabelIndex \<equiv> ''serviceNameFromPodLabelIndex''"
abbreviation ServiceNameFromPodAnnotationIndex :: string where "ServiceNameFromPodAnnotationIndex \<equiv> ''serviceNameFromPodAnnotationIndex''"

abbreviation OtelServiceNameAnnotation :: string where "OtelServiceNameAnnotation \<equiv> ''resource.opentelemetry.io/service.name''"
abbreviation OtelServiceNamespaceAnnotation :: string where "OtelServiceNamespaceAnnotation \<equiv> ''resource.opentelemetry.io/service.namespace''"
abbreviation KubernetesAppNameLabel :: string where "KubernetesAppNameLabel \<equiv> ''app.kubernetes.io/name''"
abbreviation KubernetesAppPartofLabel :: string where "KubernetesAppPartofLabel \<equiv> ''app.kubernetes.io/part-of''"

section \<open>What the caches keep\<close>

definition filterMap :: "('k, 'v) gomap \<Rightarrow> 'k list \<Rightarrow> ('k, 'v) gomap" where
  "filterMap input keysToKeep =
     (if keysToKeep = [] then [] else filter (\<lambda>(k, v). k \<in> set keysToKeep) input)"

definition copyOwnerReferences :: "object_meta \<Rightarrow> owner_ref list" where
  "copyOwnerReferences m =
     map (\<lambda>ref. \<lparr>or_APIVersion = [], or_Kind = or_Kind ref, or_Name = or_Name ref, or_UID = []\<rparr>)
       (om_OwnerReferences m)"

fun podTransform :: "bool \<Rightarrow> workload \<Rightarrow> workload" where
  "podTransform keepOwnerReferences (Pod k m hostNetwork podIPs) =
     Pod PodKind
       \<lparr>om_Name = om_Name m, om_Namespace = om_Namespace m,
        om_OwnerReferences = (if keepOwnerReferences then copyOwnerReferences m else []),
        om_Labels = filterMap (om_Labels m) [KubernetesAppNameLabel, KubernetesAppPartofLabel],
        om_Annotations = filterMap (om_Annotations m) [OtelServiceNameAnnotation, OtelServiceNamespaceAnnotation]\<rparr>
       hostNetwork podIPs"
| "podTransform keepOwnerReferences obj = obj"

definition bare_meta :: "object_meta \<Rightarrow> owner_ref list \<Rightarrow> object_meta" where
  "bare_meta m owners =
     \<lparr>om_Name = om_Name m, om_Namespace = om_Namespace m, om_OwnerReferences = owners, om_Labels = [], om_Annotations = []\<rparr>"

fun serviceTransform :: "workload \<Rightarrow> workload" where
  "serviceTransform (Service k m clusterIPs externalIPs) = Service ServiceKind (bare_meta m []) clusterIPs externalIPs"
| "serviceTransform obj = obj"

definition genericTransform :: "string \<Rightarrow> bool \<Rightarrow> workload \<Rightarrow> workload" where
  "genericTransform kind keepOwnerReferences obj =
     (case meta_object obj of
        None \<Rightarrow> obj
      | Some m \<Rightarrow> Workload_Object ''*v1.PartialObjectMetadata'' kind
                    (bare_meta m (if keepOwnerReferences then copyOwnerReferences m else [])))"

fun podIpIndexer :: "workload \<Rightarrow> string list" where
  "podIpIndexer (Pod k m hostNetwork podIPs) = (if \<not> hostNetwork then podIPs else [])"
| "podIpIndexer obj = []"

fun serviceIpIndexer :: "workload \<Rightarrow> string list" where
  "serviceIpIndexer (Service k m clusterIPs externalIPs) =
     filter (\<lambda>ip. ip \<noteq> [] \<and> ip \<noteq> ''None'') clusterIPs @ filter (\<lambda>ip. ip \<noteq> [] \<and> ip \<noteq> ''None'') externalIPs"
| "serviceIpIndexer obj = []"

definition get_or_empty :: "(string, string) gomap \<Rightarrow> string \<Rightarrow> string" where
  "get_or_empty m k = (case gm_get m k of None \<Rightarrow> [] | Some v \<Rightarrow> v)"

fun serviceNameFromPodLabelIndexer :: "workload \<Rightarrow> string list" where
  "serviceNameFromPodLabelIndexer (Pod k m h ips) = [get_or_empty (om_Labels m) KubernetesAppNameLabel]"
| "serviceNameFromPodLabelIndexer obj = []"

fun serviceNameFromPodAnnotationIndexer :: "workload \<Rightarrow> string list" where
  "serviceNameFromPodAnnotationIndexer (Pod k m h ips) = [get_or_empty (om_Annotations m) OtelServiceNameAnnotation]"
| "serviceNameFromPodAnnotationIndexer obj = []"

section \<open>Informers and results\<close>

text \<open>The functions of an informer; the outer \<open>None\<close> is the error they return.\<close>

record informer =
  inf_GetByKey :: "string \<Rightarrow> workload option option"
  inf_ByIndex :: "string \<Rightarrow> string \<Rightarrow> workload list option"

type_synonym informers = "(string, informer) gomap"

record lookup_result =
  lk_Name :: string
  lk_Namespace :: string
  lk_Kind :: string

definition EmptyLookupResult :: lookup_result where
  "EmptyLookupResult = \<lparr>lk_Name = [], lk_Namespace = [], lk_Kind = []\<rparr>"

datatype abort = OutOfFuel | NilInformer

type_synonym lookup = "(abort, lookup_result) result"

section \<open>Lookup by name and by owner\<close>

definition workloadKey :: "string \<Rightarrow> string \<Rightarrow> string" where
  "workloadKey name namespace = (if namespace \<noteq> [] then namespace @ ''/'' @ name else name)"

fun lookup_types :: "string \<Rightarrow> informers \<Rightarrow> string list \<Rightarrow> workload option" where
  "lookup_types key infs [] = None"
| "lookup_types key infs (ty # types) =
     (case gm_get infs ty of
        None \<Rightarrow> lookup_types key infs types
      | Some informer \<Rightarrow>
        (case inf_GetByKey informer key of
           Some (Some w) \<Rightarrow> Some w
         | _ \<Rightarrow> lookup_types key infs types))"

definition lookupWorkloadByNameAndNamespace :: "string \<Rightarrow> string \<Rightarrow> string list \<Rightarrow> informers \<Rightarrow> workload option" where
  "lookupWorkloadByNameAndNamespace name namespace expectedTypes infs =
     lookup_types (workloadKey name namespace) infs expectedTypes"

definition lookupOwnerKindByNameAndNamespace ::
  "(workload \<Rightarrow> lookup) \<Rightarrow> string \<Rightarrow> string \<Rightarrow> string \<Rightarrow> informers \<Rightarrow> lookup" where
  "lookupOwnerKindByNameAndNamespace lookupOwner name namespace workloadType infs =
     (case lookupWorkloadByNameAndNamespace name namespace [workloadType] infs of
        None \<Rightarrow> Inr EmptyLookupResult
      | Some w \<Rightarrow> lookupOwner w)"

text \<open>The loop over the owner references; \<open>lookup_rs\<close> looks up the owner of a ReplicaSet.\<close>

fun owners_loop :: "(string \<Rightarrow> lookup) \<Rightarrow> string \<Rightarrow> owner_ref list \<Rightarrow> lookup" where
  "owners_loop lookup_rs ns [] = Inr EmptyLookupResult"
| "owners_loop lookup_rs ns (ow # ows) =
     (let continue =
            (if or_Kind ow \<noteq> [] then Inr \<lparr>lk_Name = or_Name ow, lk_Namespace = ns, lk_Kind = or_Kind ow\<rparr>
             else owners_loop lookup_rs ns ows) in
      if or_Kind ow = ReplicaSetKind
      then (case lookup_rs (or_Name ow) of
              Inl ab \<Rightarrow> Inl ab
            | Inr res \<Rightarrow> if res \<noteq> EmptyLookupResult then Inr res else continue)
      else continue)"

primrec lookupOwnerForWorkload :: "nat \<Rightarrow> informers \<Rightarrow> workload \<Rightarrow> lookup" where
  "lookupOwnerForWorkload 0 infs w = Inl OutOfFuel"
| "lookupOwnerForWorkload (Suc n) infs w =
     (case meta_object w of
        None \<Rightarrow> Inr EmptyLookupResult
      | Some m \<Rightarrow>
          owners_loop
            (\<lambda>name. lookupOwnerKindByNameAndNamespace (lookupOwnerForWorkload n infs) name (om_Namespace m)
                      ReplicaSetsWorkloadType infs)
            (om_Namespace m) (om_OwnerReferences m))"

definition kind_of :: "workload \<Rightarrow> string \<Rightarrow> string" where
  "kind_of w kind =
     (if kind \<noteq> [] then kind
      else case w of
        Service _ _ _ _ \<Rightarrow> ServiceKind
      | Pod _ _ _ _ \<Rightarrow> PodKind
      | _ \<Rightarrow>
          let typeName = type_name w in
          if strings_Contains typeName ''.Service'' then ServiceKind
          else if strings_Contains typeName ''.Pod'' then PodKind
          else if strings_Contains typeName ''.Deployment'' then ''Deployment''
          else if strings_Contains typeName ''.StatefulSet'' then ''StatefulSet''
          else if strings_Contains typeName ''.ReplicaSet'' then ReplicaSetKind
          else [])"

definition extractWorkloadKind :: "nat \<Rightarrow> workload \<Rightarrow> informers \<Rightarrow> bool \<Rightarrow> lookup" where
  "extractWorkloadKind n w infs preferPodOwner =
     (case runtime_kind w of
        None \<Rightarrow> Inr EmptyLookupResult
      | Some k \<Rightarrow>
          let kind = kind_of w k;
              itself = (if kind \<noteq> []
                        then case meta_object w of
                               None \<Rightarrow> Inr EmptyLookupResult
                             | Some m \<Rightarrow> Inr \<lparr>lk_Name = om_Name m, lk_Namespace = om_Namespace m, lk_Kind = kind\<rparr>
                        else Inr EmptyLookupResult) in
          if preferPodOwner \<and> kind = PodKind
          then (case lookupOwnerForWorkload n infs w of
                  Inl ab \<Rightarrow> Inl ab
                | Inr ownerKind \<Rightarrow> if ownerKind \<noteq> EmptyLookupResult then Inr ownerKind else itself)
          else itself)"

definition lookupWorkloadKindByNameAndNamespace ::
  "nat \<Rightarrow> string \<Rightarrow> string \<Rightarrow> string list \<Rightarrow> informers \<Rightarrow> bool \<Rightarrow> lookup" where
  "lookupWorkloadKindByNameAndNamespace n name namespace expectedTypes infs preferPodOwner =
     (case lookupWorkloadByNameAndNamespace name namespace expectedTypes infs of
        None \<Rightarrow> Inr EmptyLookupResult
      | Some w \<Rightarrow> extractWorkloadKind n w infs preferPodOwner)"

section \<open>Lookup by IP and by hostname\<close>

text \<open>\<open>url.Parse\<close> is the argument \<open>urlHost\<close>: the host of the URL, \<open>None\<close> for an error.\<close>

definition extractHostFromAddress :: "(string \<Rightarrow> string option) \<Rightarrow> string \<Rightarrow> string" where
  "extractHostFromAddress urlHost addr =
     (let host = (if strings_Contains addr ''://''
                  then case urlHost addr of Some h \<Rightarrow> if h \<noteq> [] then h else addr | None \<Rightarrow> addr
                  else addr) in
      case net_SplitHostPort host of Some (h, _) \<Rightarrow> h | None \<Rightarrow> host)"

fun lookupWorkloadKindByIp :: "nat \<Rightarrow> string \<Rightarrow> string list \<Rightarrow> informers \<Rightarrow> bool \<Rightarrow> lookup" where
  "lookupWorkloadKindByIp n ip [] infs preferPodOwner = Inr EmptyLookupResult"
| "lookupWorkloadKindByIp n ip (ty # types) infs preferPodOwner =
     (let continue = lookupWorkloadKindByIp n ip types infs preferPodOwner;
          search = (\<lambda>indexerName.
            case gm_get infs ty of
              None \<Rightarrow> Inl NilInformer
            | Some informer \<Rightarrow>
              (case inf_ByIndex informer indexerName ip of
                 Some [w] \<Rightarrow> extractWorkloadKind n w infs preferPodOwner
               | _ \<Rightarrow> continue)) in
      if ty = PodsWorkloadType then search PodIpIndex
      else if ty = ServicesWorkloadType then search ServiceIpIndex
      else continue)"

definition extractNameAndNamespaceAndType :: "string \<Rightarrow> string \<times> string \<times> string" where
  "extractNameAndNamespaceAndType host =
     (case rev (strings_Split host CHR ''.'') of
        [a] \<Rightarrow> (a, [], [])
      | [a, b] \<Rightarrow> (b, a, [])
      | [a, b, c] \<Rightarrow> if a = serviceTypeShort \<or> a = podTypeShort then (c, b, a) else ([], [], [])
      | [a, b, c, d, e] \<Rightarrow>
          if (c = serviceTypeShort \<or> c = podTypeShort) \<and> b = ''cluster'' \<and> a = ''local'' then (e, d, c)
          else ([], [], [])
      | [a, b, c, d, e, f] \<Rightarrow>
          if (d = serviceTypeShort \<or> d = podTypeShort) \<and> c = ''cluster'' \<and> b = ''local'' \<and> a = []
          then (f, e, d) else ([], [], [])
      | _ \<Rightarrow> ([], [], []))"

definition lookupWorkloadKindByHostname ::
  "nat \<Rightarrow> string \<Rightarrow> string \<Rightarrow> string list \<Rightarrow> informers \<Rightarrow> bool \<Rightarrow> lookup" where
  "lookupWorkloadKindByHostname n hostname namespaceFromAttr expectedTypes infs preferPodOwner =
     (let (name, ns, short) = extractNameAndNamespaceAndType hostname in
      if short = podTypeShort
      then if name = [] \<or> ns = [] then Inr EmptyLookupResult
           else let itself = Inr \<lparr>lk_Name = name, lk_Namespace = ns, lk_Kind = PodKind\<rparr> in
                if preferPodOwner
                then (case lookupOwnerKindByNameAndNamespace (lookupOwnerForWorkload n infs) name ns PodsWorkloadType infs of
                        Inl ab \<Rightarrow> Inl ab
                      | Inr ownerKind \<Rightarrow> if ownerKind \<noteq> EmptyLookupResult then Inr ownerKind else itself)
                else itself
      else if short = serviceTypeShort
      then if name = [] \<or> ns = [] then Inr EmptyLookupResult
           else Inr \<lparr>lk_Name = name, lk_Namespace = ns, lk_Kind = ServiceKind\<rparr>
      else
        case (if name \<noteq> [] \<and> ns \<noteq> []
              then lookupWorkloadKindByNameAndNamespace n name ns expectedTypes infs preferPodOwner
              else Inr EmptyLookupResult) of
          Inl ab \<Rightarrow> Inl ab
        | Inr res \<Rightarrow>
          (case (if res = EmptyLookupResult \<and> name \<noteq> [] \<and> ns = [] \<and> namespaceFromAttr \<noteq> []
                 then lookupWorkloadKindByNameAndNamespace n name namespaceFromAttr expectedTypes infs preferPodOwner
                 else Inr res) of
             Inl ab \<Rightarrow> Inl ab
           | Inr res \<Rightarrow>
               if res = EmptyLookupResult \<and> hostname \<noteq> [] \<and> namespaceFromAttr \<noteq> []
               then lookupWorkloadKindByNameAndNamespace n hostname namespaceFromAttr expectedTypes infs preferPodOwner
               else Inr res))"

section \<open>Lookup by service name\<close>

fun owners_of_pods :: "nat \<Rightarrow> informers \<Rightarrow> workload list \<Rightarrow> (abort, lookup_result list) result" where
  "owners_of_pods n infs [] = Inr []"
| "owners_of_pods n infs (p # ps) =
     (case lookupOwnerForWorkload n infs p of
        Inl ab \<Rightarrow> Inl ab
      | Inr owner \<Rightarrow>
        (case owners_of_pods n infs ps of
           Inl ab \<Rightarrow> Inl ab
         | Inr owners \<Rightarrow> Inr (if owner \<noteq> EmptyLookupResult then List.insert owner owners else owners)))"

text \<open>The closure \<open>lookupByIndex\<close>; a failing index query is logged and finds no pod.\<close>

definition lookupByIndex ::
  "nat \<Rightarrow> informer \<Rightarrow> informers \<Rightarrow> bool \<Rightarrow> string \<Rightarrow> string \<Rightarrow> string \<Rightarrow> string \<Rightarrow> (object_meta \<Rightarrow> string) \<Rightarrow> lookup" where
  "lookupByIndex n podInformer infs preferPodOwner name ns namespaceFromAttr indexName getNamespace =
     (let pods = (case inf_ByIndex podInformer indexName name of None \<Rightarrow> [] | Some ps \<Rightarrow> ps);
          foundPods = filter (\<lambda>p. case meta_object p of
              None \<Rightarrow> False
            | Some m \<Rightarrow> ns = [] \<or> getNamespace m = ns \<or> namespaceFromAttr = ns) pods in
      case foundPods of
        [] \<Rightarrow> Inr EmptyLookupResult
      | [p] \<Rightarrow> extractWorkloadKind n p infs preferPodOwner
      | _ \<Rightarrow>
          if \<not> preferPodOwner then Inr EmptyLookupResult
          else (case owners_of_pods n infs foundPods of
                  Inl ab \<Rightarrow> Inl ab
                | Inr [owner] \<Rightarrow> Inr owner
                | Inr _ \<Rightarrow> Inr EmptyLookupResult))"

definition lookupWorkloadByOtelInstrumentationServiceName ::
  "nat \<Rightarrow> string \<Rightarrow> string \<Rightarrow> string list \<Rightarrow> informers \<Rightarrow> bool \<Rightarrow> lookup" where
  "lookupWorkloadByOtelInstrumentationServiceName n serviceName namespaceFromAttr expectedTypes infs preferPodOwner =
     (let (name, ns, _) = extractNameAndNamespaceAndType serviceName in
      if name = [] then Inr EmptyLookupResult
      else case gm_get infs PodsWorkloadType of
        None \<Rightarrow> Inr EmptyLookupResult
      | Some podInformer \<Rightarrow>
          if PodsWorkloadType \<notin> set expectedTypes then Inr EmptyLookupResult
          else
            case lookupByIndex n podInformer infs preferPodOwner name ns namespaceFromAttr ServiceNameFromPodLabelIndex
                   (\<lambda>m. get_or_empty (om_Labels m) KubernetesAppPartofLabel) of
              Inl ab \<Rightarrow> Inl ab
            | Inr res \<Rightarrow>
                if res \<noteq> EmptyLookupResult then Inr res
                else lookupByIndex n podInformer infs preferPodOwner name ns namespaceFromAttr ServiceNameFromPodAnnotationIndex
                       (\<lambda>m. get_or_empty (om_Annotations m) OtelServiceNamespaceAnnotation))"

section \<open>Lemmas on owner lookup\<close>

text \<open>One step from a workload to a cached ReplicaSet that owns it.\<close>

definition rs_owner :: "informers \<Rightarrow> workload \<Rightarrow> workload \<Rightarrow> bool" where
  "rs_owner infs w w' \<longleftrightarrow>
     (\<exists>m ow. meta_object w = Some m \<and> ow \<in> set (om_OwnerReferences m) \<and> or_Kind ow = ReplicaSetKind \<and>
        lookupWorkloadByNameAndNamespace (or_Name ow) (om_Namespace m) [ReplicaSetsWorkloadType] infs = Some w')"

lemma owners_loop_returns:
  assumes "\<And>ow. ow \<in> set ows \<Longrightarrow> or_Kind ow = ReplicaSetKind \<Longrightarrow> \<exists>r. rec (or_Name ow) = Inr r"
  shows "\<exists>r. owners_loop rec ns ows = Inr r"
  using assms
proof (induction ows)
  case (Cons ow ows)
  then have "\<exists>r. owners_loop rec ns ows = Inr r" by simp
  moreover have "\<exists>r. rec (or_Name ow) = Inr r" if "or_Kind ow = ReplicaSetKind" using Cons.prems that by simp
  ultimately show ?case by (auto simp: Let_def)
qed simp

lemma owners_loop_cong:
  assumes "\<And>ow. ow \<in> set ows \<Longrightarrow> or_Kind ow = ReplicaSetKind \<Longrightarrow> rec (or_Name ow) = rec' (or_Name ow)"
  shows "owners_loop rec ns ows = owners_loop rec' ns ows"
  using assms by (induction ows) (simp_all add: Let_def)

lemma owners_loop_mono:
  assumes "\<And>nm q. rec nm = Inr q \<Longrightarrow> rec' nm = Inr q"
  shows "owners_loop rec ns ows = Inr r \<Longrightarrow> owners_loop rec' ns ows = Inr r"
  using assms by (induction ows) (auto simp: Let_def split: if_splits sum.splits)

text \<open>Only the first owner with a kind decides.\<close>

lemma owners_loop_first:
  "owners_loop rec ns ows =
     (case find (\<lambda>ow. or_Kind ow \<noteq> []) ows of
        None \<Rightarrow> Inr EmptyLookupResult
      | Some ow \<Rightarrow>
          let itself = Inr \<lparr>lk_Name = or_Name ow, lk_Namespace = ns, lk_Kind = or_Kind ow\<rparr> in
          if or_Kind ow = ReplicaSetKind
          then case rec (or_Name ow) of Inl ab \<Rightarrow> Inl ab | Inr res \<Rightarrow> if res = EmptyLookupResult then itself else Inr res
          else itself)"
  by (induction ows) (auto simp: Let_def split: sum.split)

lemma lookup_owner_fuel:
  assumes rank: "\<And>w w'. rs_owner infs w w' \<Longrightarrow> rank w' < (rank w :: nat)"
  shows "rank w < n \<Longrightarrow> \<exists>r. lookupOwnerForWorkload n infs w = Inr r"
proof (induction n arbitrary: w)
  case (Suc n)
  show ?case
  proof (cases "meta_object w")
    case (Some m)
    have "\<exists>r. lookupOwnerKindByNameAndNamespace (lookupOwnerForWorkload n infs) (or_Name ow) (om_Namespace m)
        ReplicaSetsWorkloadType infs = Inr r"
      if "ow \<in> set (om_OwnerReferences m)" "or_Kind ow = ReplicaSetKind" for ow
    proof (cases "lookupWorkloadByNameAndNamespace (or_Name ow) (om_Namespace m) [ReplicaSetsWorkloadType] infs")
      case (Some w')
      with that \<open>meta_object w = Some m\<close> have "rs_owner infs w w'" unfolding rs_owner_def by blast
      with rank [of w w'] Suc.prems have "rank w' < n" by linarith
      with Suc.IH Some show ?thesis by (simp add: lookupOwnerKindByNameAndNamespace_def)
    qed (simp add: lookupOwnerKindByNameAndNamespace_def)
    with Some show ?thesis by (simp add: owners_loop_returns)
  qed simp
qed simp

lemma lookup_owner_mono:
  "lookupOwnerForWorkload n infs w = Inr r \<Longrightarrow> lookupOwnerForWorkload (Suc n) infs w = Inr r"
proof (induction n arbitrary: w r)
  case (Suc n)
  show ?case
  proof (cases "meta_object w")
    case (Some m)
    have "lookupOwnerKindByNameAndNamespace (lookupOwnerForWorkload (Suc n) infs) nm (om_Namespace m)
        ReplicaSetsWorkloadType infs = Inr q"
      if "lookupOwnerKindByNameAndNamespace (lookupOwnerForWorkload n infs) nm (om_Namespace m)
        ReplicaSetsWorkloadType infs = Inr q" for nm q
      using that Suc.IH
      by (simp add: lookupOwnerKindByNameAndNamespace_def del: lookupOwnerForWorkload.simps split: option.splits)
    with Some Suc.prems show ?thesis
      by (simp del: lookupOwnerForWorkload.simps add: lookupOwnerForWorkload.simps(2) [of "Suc n"])
        (rule owners_loop_mono, auto)
  qed (use Suc.prems in simp)
qed simp

text \<open>
  The owner of a workload as it is meant, by big-step rules that do not mention the code: the first owner reference
  with a kind decides; an owner that is not a ReplicaSet is the answer, and a ReplicaSet is replaced by its own owner when it is cached and has one.
  \<open>None\<close> means that the workload has no owner.
\<close>

definition owned_by :: "object_meta \<Rightarrow> owner_ref option" where
  "owned_by m = find (\<lambda>ow. or_Kind ow \<noteq> []) (om_OwnerReferences m)"

definition owner_result :: "object_meta \<Rightarrow> owner_ref \<Rightarrow> lookup_result" where
  "owner_result m ow = \<lparr>lk_Name = or_Name ow, lk_Namespace = om_Namespace m, lk_Kind = or_Kind ow\<rparr>"

definition cached_replicaset :: "informers \<Rightarrow> string \<Rightarrow> string \<Rightarrow> workload option" where
  "cached_replicaset infs namespace name =
     (case gm_get infs ''replicasets'' of
        None \<Rightarrow> None
      | Some i \<Rightarrow> Option.bind (inf_GetByKey i (if namespace = [] then name else namespace @ ''/'' @ name)) (\<lambda>w. w))"

inductive top_owner :: "informers \<Rightarrow> workload \<Rightarrow> lookup_result option \<Rightarrow> bool" for infs where
  no_metadata: "meta_object w = None \<Longrightarrow> top_owner infs w None"
| not_owned: "meta_object w = Some m \<Longrightarrow> owned_by m = None \<Longrightarrow> top_owner infs w None"
| other_owner: "meta_object w = Some m \<Longrightarrow> owned_by m = Some ow \<Longrightarrow> or_Kind ow \<noteq> ''ReplicaSet'' \<Longrightarrow>
     top_owner infs w (Some (owner_result m ow))"
| replicaset_owned: "meta_object w = Some m \<Longrightarrow> owned_by m = Some ow \<Longrightarrow> or_Kind ow = ''ReplicaSet'' \<Longrightarrow>
     cached_replicaset infs (om_Namespace m) (or_Name ow) = Some rs \<Longrightarrow> top_owner infs rs (Some r) \<Longrightarrow> top_owner infs w (Some r)"
| replicaset_unowned: "meta_object w = Some m \<Longrightarrow> owned_by m = Some ow \<Longrightarrow> or_Kind ow = ''ReplicaSet'' \<Longrightarrow>
     cached_replicaset infs (om_Namespace m) (or_Name ow) = Some rs \<Longrightarrow> top_owner infs rs None \<Longrightarrow>
     top_owner infs w (Some (owner_result m ow))"
| replicaset_unknown: "meta_object w = Some m \<Longrightarrow> owned_by m = Some ow \<Longrightarrow> or_Kind ow = ''ReplicaSet'' \<Longrightarrow>
     cached_replicaset infs (om_Namespace m) (or_Name ow) = None \<Longrightarrow> top_owner infs w (Some (owner_result m ow))"

inductive_cases top_ownerE: "top_owner infs w r"

lemma top_owner_unique: "top_owner infs w r \<Longrightarrow> top_owner infs w r' \<Longrightarrow> r' = r"
proof (induction arbitrary: r' rule: top_owner.induct)
  case (replicaset_owned w m ow rs r)
  from replicaset_owned.prems show ?case
    by (rule top_ownerE) (use replicaset_owned.hyps(1-4) replicaset_owned.IH in \<open>simp_all, blast+\<close>)
next
  case (replicaset_unowned w m ow rs)
  from replicaset_unowned.prems show ?case
    by (rule top_ownerE) (use replicaset_unowned.hyps(1-4) replicaset_unowned.IH in \<open>simp_all, blast+\<close>)
qed (auto elim: top_ownerE)

lemma owned_by_kind: "owned_by m = Some ow \<Longrightarrow> or_Kind ow \<noteq> []"
  by (auto simp: owned_by_def find_Some_iff)

lemma top_owner_kind: "top_owner infs w r \<Longrightarrow> r = Some x \<Longrightarrow> lk_Kind x \<noteq> []"
  by (induction arbitrary: x rule: top_owner.induct) (auto simp: owner_result_def dest: owned_by_kind)

lemma top_owner_None:
  "top_owner infs w r \<Longrightarrow> r = None \<longleftrightarrow> \<not> (\<exists>m. meta_object w = Some m \<and> (\<exists>ow \<in> set (om_OwnerReferences m). or_Kind ow \<noteq> []))"
  by (induction rule: top_owner.induct) (auto simp: owned_by_def find_None_iff find_Some_iff dest: nth_mem)

lemma cached_replicaset_lookup:
  "lookupWorkloadByNameAndNamespace name namespace [ReplicaSetsWorkloadType] infs = cached_replicaset infs namespace name"
  by (simp add: lookupWorkloadByNameAndNamespace_def workloadKey_def cached_replicaset_def split: option.split)

definition lookup_of :: "lookup_result option \<Rightarrow> lookup_result" where
  "lookup_of r = (case r of None \<Rightarrow> EmptyLookupResult | Some x \<Rightarrow> x)"

lemma lookup_owner_sound:
  "lookupOwnerForWorkload n infs w = Inr q \<Longrightarrow> \<exists>r. top_owner infs w r \<and> q = lookup_of r"
proof (induction n arbitrary: w q)
  case (Suc n)
  show ?case
  proof (cases "meta_object w")
    case None
    with Suc.prems show ?thesis using no_metadata [OF None] by (intro exI [of _ None]) (simp add: lookup_of_def)
  next
    case m: (Some m)
    let ?rs = "\<lambda>ow. cached_replicaset infs (om_Namespace m) (or_Name ow)"
    note run = Suc.prems [unfolded lookupOwnerForWorkload.simps m option.case owners_loop_first, folded owned_by_def]
    show ?thesis
    proof (cases "owned_by m")
      case None
      with run show ?thesis using not_owned [OF m None] by (intro exI [of _ None]) (simp add: lookup_of_def)
    next
      case ow: (Some ow)
      consider "or_Kind ow \<noteq> ''ReplicaSet''" | "or_Kind ow = ''ReplicaSet''" "?rs ow = None"
        | rs where "or_Kind ow = ''ReplicaSet''" "?rs ow = Some rs" by (cases "?rs ow") blast+
      then show ?thesis
      proof cases
        case 1
        with run ow show ?thesis using other_owner [OF m ow 1]
          by (intro exI [of _ "Some (owner_result m ow)"]) (simp add: lookup_of_def owner_result_def Let_def)
      next
        case 2
        with run ow show ?thesis using replicaset_unknown [OF m ow 2]
          by (intro exI [of _ "Some (owner_result m ow)"])
            (simp add: lookup_of_def owner_result_def Let_def lookupOwnerKindByNameAndNamespace_def cached_replicaset_lookup)
      next
        case 3
        with run ow obtain q' where q': "lookupOwnerForWorkload n infs rs = Inr q'"
          and q: "q = (if q' = EmptyLookupResult then owner_result m ow else q')"
          by (auto simp: owner_result_def Let_def lookupOwnerKindByNameAndNamespace_def cached_replicaset_lookup split: sum.splits if_splits)
        from Suc.IH [OF q'] obtain r where r: "top_owner infs rs r" "q' = lookup_of r" by blast
        show ?thesis
        proof (cases r)
          case None
          with r q replicaset_unowned [OF m ow 3] show ?thesis by (intro exI [of _ "Some (owner_result m ow)"]) (simp add: lookup_of_def)
        next
          case (Some x)
          with top_owner_kind [OF r(1)] have "x \<noteq> EmptyLookupResult" by (auto simp: EmptyLookupResult_def)
          with Some r q replicaset_owned [OF m ow 3] show ?thesis by (intro exI [of _ "Some x"]) (simp add: lookup_of_def)
        qed
      qed
    qed
  qed
qed simp

lemma lookup_owner_le:
  assumes "lookupOwnerForWorkload n infs w = Inr r" "n \<le> k"
  shows "lookupOwnerForWorkload k infs w = Inr r"
  using assms(2,1) by (induction k rule: dec_induct) (auto intro: lookup_owner_mono simp del: lookupOwnerForWorkload.simps)

text \<open>A result that is not the panic of a missing informer.\<close>

definition no_nil :: "(abort, 'a) result \<Rightarrow> bool" where
  "no_nil r \<longleftrightarrow> r \<noteq> Inl NilInformer"

lemma no_nil_Inr [simp]: "no_nil (Inr x)" "no_nil (Inl OutOfFuel)"
  by (simp_all add: no_nil_def)

lemma no_nil_bind: "no_nil x \<Longrightarrow> (\<And>r. no_nil (f r)) \<Longrightarrow> no_nil (case x of Inl ab \<Rightarrow> Inl ab | Inr r \<Rightarrow> f r)"
  by (auto simp: no_nil_def split: sum.split)

lemma no_nil_if: "no_nil x \<Longrightarrow> no_nil y \<Longrightarrow> no_nil (if c then x else y)"
  by simp

lemma no_nil_option: "no_nil x \<Longrightarrow> (\<And>v. no_nil (f v)) \<Longrightarrow> no_nil (case o1 of None \<Rightarrow> x | Some v \<Rightarrow> f v)"
  by (simp split: option.split)

lemmas no_nil_intros = no_nil_bind no_nil_if no_nil_option no_nil_Inr

lemma owners_loop_not_nil: "(\<And>nm. no_nil (rec nm)) \<Longrightarrow> no_nil (owners_loop rec ns ows)"
  by (induction ows) (simp_all add: Let_def no_nil_intros)

lemma lookup_owner_not_nil: "no_nil (lookupOwnerForWorkload n infs w)"
  by (induction n arbitrary: w)
    (simp_all add: lookupOwnerKindByNameAndNamespace_def owners_loop_not_nil no_nil_intros)

lemma extract_not_nil: "no_nil (extractWorkloadKind n w infs b)"
  unfolding extractWorkloadKind_def Let_def by (intro no_nil_intros lookup_owner_not_nil)

lemma by_name_not_nil: "no_nil (lookupWorkloadKindByNameAndNamespace n nm ns tys infs b)"
  unfolding lookupWorkloadKindByNameAndNamespace_def by (intro no_nil_intros extract_not_nil)

lemma by_ip_not_nil:
  "(\<And>ty. ty \<in> set tys \<Longrightarrow> gm_get infs ty \<noteq> None) \<Longrightarrow> no_nil (lookupWorkloadKindByIp n ip tys infs b)"
proof (induction tys)
  case (Cons ty tys)
  then obtain i where "gm_get infs ty = Some i" by fastforce
  with Cons show ?case by (auto simp: Let_def extract_not_nil split: option.split list.split)
qed simp

lemma by_hostname_not_nil: "no_nil (lookupWorkloadKindByHostname n h nsa tys infs b)"
  unfolding lookupWorkloadKindByHostname_def lookupOwnerKindByNameAndNamespace_def Let_def
  by (cases "extractNameAndNamespaceAndType h")
    (simp only: prod.case, intro no_nil_intros lookup_owner_not_nil by_name_not_nil)

lemma owners_of_pods_not_nil: "no_nil (owners_of_pods n infs ps)"
  by (induction ps) (simp_all add: no_nil_intros lookup_owner_not_nil)

lemma by_index_not_nil: "no_nil (lookupByIndex n pinf infs b nm ns nsa idx gns)"
  using owners_of_pods_not_nil extract_not_nil unfolding no_nil_def
  by (auto simp: lookupByIndex_def Let_def simp del: owners_of_pods.simps split: list.split sum.splits)

lemma by_service_name_not_nil: "no_nil (lookupWorkloadByOtelInstrumentationServiceName n h nsa tys infs b)"
  unfolding lookupWorkloadByOtelInstrumentationServiceName_def Let_def
  by (cases "extractNameAndNamespaceAndType h")
    (simp only: prod.case, intro no_nil_intros by_index_not_nil)

section \<open>Lemmas on host names and cached objects\<close>

lemma filterMap_get: "k \<in> set ks \<Longrightarrow> gm_get (filterMap m ks) k = gm_get m k"
  by (induction m) (auto simp: filterMap_def split: if_splits)

lemma owners_loop_copied:
  "owners_loop rec ns (copyOwnerReferences m) = owners_loop rec ns (om_OwnerReferences m)"
proof -
  have "owners_loop rec ns (map (\<lambda>ref. \<lparr>or_APIVersion = [], or_Kind = or_Kind ref, or_Name = or_Name ref, or_UID = []\<rparr>) ows) =
    owners_loop rec ns ows" for ows
    by (induction ows) (simp_all add: Let_def split: sum.split)
  then show ?thesis by (simp add: copyOwnerReferences_def)
qed

lemma dotted_split:
  assumes "rev (strings_Split h c) = ws"
  shows "strings_Join (rev ws) [c] = h" "\<And>w. w \<in> set ws \<Longrightarrow> c \<notin> set w"
  using Join_Split [of h c] Split_parts [of _ h c] assms by auto

text \<open>The three forms of a cluster DNS name.\<close>

definition dns_names :: "string \<Rightarrow> string \<Rightarrow> string \<Rightarrow> string set" where
  "dns_names n ns t =
     {n @ ''.'' @ ns @ ''.'' @ t, n @ ''.'' @ ns @ ''.'' @ t @ ''.cluster.local'',
      n @ ''.'' @ ns @ ''.'' @ t @ ''.cluster.local.''}"

lemma dns_name_split:
  assumes "CHR ''.'' \<notin> set n" "CHR ''.'' \<notin> set ns" "t = serviceTypeShort \<or> t = podTypeShort" "h \<in> dns_names n ns t"
  shows "strings_Split h CHR ''.'' \<in> {[n, ns, t], [n, ns, t, ''cluster'', ''local''], [n, ns, t, ''cluster'', ''local'', []]}"
  using assms by (auto simp: dns_names_def Split_append_sep)

lemma dns_name_parse:
  assumes "extractNameAndNamespaceAndType h = (n, ns, t)" "t \<noteq> []"
  shows "CHR ''.'' \<notin> set n" "CHR ''.'' \<notin> set ns" "t = serviceTypeShort \<or> t = podTypeShort" "h \<in> dns_names n ns t"
proof -
  have "rev (strings_Split h CHR ''.'') \<in> {[t, ns, n], [''local'', ''cluster'', t, ns, n], [[], ''local'', ''cluster'', t, ns, n]}"
    and t: "t = serviceTypeShort \<or> t = podTypeShort"
    using assms by (auto simp: extractNameAndNamespaceAndType_def split: list.splits if_splits)
  then consider "rev (strings_Split h CHR ''.'') = [t, ns, n]"
    | "rev (strings_Split h CHR ''.'') = [''local'', ''cluster'', t, ns, n]"
    | "rev (strings_Split h CHR ''.'') = [[], ''local'', ''cluster'', t, ns, n]" by blast
  then have "CHR ''.'' \<notin> set n \<and> CHR ''.'' \<notin> set ns \<and> h \<in> dns_names n ns t"
  proof cases
    case 1
    from dotted_split [OF this] show ?thesis by (auto simp: dns_names_def)
  next
    case 2
    from dotted_split [OF this] show ?thesis by (auto simp: dns_names_def)
  next
    case 3
    from dotted_split [OF this] show ?thesis by (auto simp: dns_names_def)
  qed
  with t show "CHR ''.'' \<notin> set n" "CHR ''.'' \<notin> set ns" "t = serviceTypeShort \<or> t = podTypeShort" "h \<in> dns_names n ns t"
    by blast+
qed

lemma plain_name_parse:
  assumes "extractNameAndNamespaceAndType h = (n, ns, [])" "n \<noteq> []"
  shows "CHR ''.'' \<notin> set n" "CHR ''.'' \<notin> set ns" "ns = [] \<and> h = n \<or> h = n @ ''.'' @ ns"
proof -
  consider "rev (strings_Split h CHR ''.'') = [n]" "ns = []" | "rev (strings_Split h CHR ''.'') = [ns, n]"
    using assms by (auto simp: extractNameAndNamespaceAndType_def split: list.splits if_splits)
  then have "CHR ''.'' \<notin> set n \<and> CHR ''.'' \<notin> set ns \<and> (ns = [] \<and> h = n \<or> h = n @ ''.'' @ ns)"
  proof cases
    case 1
    from dotted_split [OF this(1)] \<open>ns = []\<close> show ?thesis by auto
  next
    case 2
    from dotted_split [OF this] show ?thesis by auto
  qed
  then show "CHR ''.'' \<notin> set n" "CHR ''.'' \<notin> set ns" "ns = [] \<and> h = n \<or> h = n @ ''.'' @ ns" by blast+
qed

lemma plain_name_split:
  assumes "CHR ''.'' \<notin> set n" "CHR ''.'' \<notin> set ns" "ns = [] \<and> h = n \<or> h = n @ ''.'' @ ns"
  shows "extractNameAndNamespaceAndType h = (n, ns, [])"
  using assms by (auto simp: extractNameAndNamespaceAndType_def Split_append_sep Split_no_sep)

section \<open>Properties\<close>

text \<open>C11: Host names are split exactly. A type is extracted from a host if and only if the host
  is \<open>name.namespace.type\<close>, possibly followed by \<open>.cluster.local\<close> and a final dot, with the type \<open>svc\<close>
  or \<open>pod\<close> and no dot in name and namespace, and then name, namespace and type are the extracted ones;
  a name without a type is extracted if and only if the host is that name or \<open>name.namespace\<close>.\<close>

theorem dns_names_recognised:
  "(extractNameAndNamespaceAndType h = (n, ns, t) \<and> t \<noteq> [] \<longleftrightarrow>
     CHR ''.'' \<notin> set n \<and> CHR ''.'' \<notin> set ns \<and> (t = ''svc'' \<or> t = ''pod'') \<and> h \<in> dns_names n ns t) \<and>
   (extractNameAndNamespaceAndType h = (n, ns, []) \<and> n \<noteq> [] \<longleftrightarrow>
     n \<noteq> [] \<and> CHR ''.'' \<notin> set n \<and> CHR ''.'' \<notin> set ns \<and> (ns = [] \<and> h = n \<or> h = n @ ''.'' @ ns))"
proof -
  have "extractNameAndNamespaceAndType h = (n, ns, t) \<and> t \<noteq> []"
    if "CHR ''.'' \<notin> set n \<and> CHR ''.'' \<notin> set ns \<and> (t = ''svc'' \<or> t = ''pod'') \<and> h \<in> dns_names n ns t"
    using that dns_name_split [of n ns t h] by (auto simp: extractNameAndNamespaceAndType_def)
  then show ?thesis using dns_name_parse [of h n ns t] plain_name_parse [of h n ns] plain_name_split [of n ns h] by blast
qed

text \<open>C12: The owner lookup ends and is right when the cached ReplicaSets do not own one another in a
  cycle: with fuel above the length of the longest chain it returns, more fuel changes nothing, and its
  result is the one that the rules of ownership determine: the owner is found, through every cached ReplicaSet that has an owner itself,
  and the result is empty exactly when the workload has no owner with a kind.\<close>

theorem owner_lookup_correct:
  assumes rank: "\<And>w w'. rs_owner infs w w' \<Longrightarrow> rank w' < (rank w :: nat)" and fuel: "rank w < n"
  shows "\<exists>r. (\<forall>k \<ge> n. lookupOwnerForWorkload k infs w = Inr (case r of None \<Rightarrow> EmptyLookupResult | Some x \<Rightarrow> x)) \<and>
    (\<forall>r'. top_owner infs w r' \<longleftrightarrow> r' = r) \<and>
    (r = None \<longleftrightarrow> \<not> (\<exists>m. meta_object w = Some m \<and> (\<exists>ow \<in> set (om_OwnerReferences m). or_Kind ow \<noteq> []))) \<and>
    r \<noteq> Some EmptyLookupResult"
proof -
  obtain q where q: "lookupOwnerForWorkload n infs w = Inr q" using lookup_owner_fuel [of infs rank, OF rank fuel] by blast
  then obtain r where r: "top_owner infs w r" "q = lookup_of r" using lookup_owner_sound by blast
  then have "r \<noteq> Some EmptyLookupResult" using top_owner_kind [OF r(1)] by (auto simp: EmptyLookupResult_def)
  with r q lookup_owner_le [OF q] top_owner_unique [OF r(1)] top_owner_None [OF r(1)] show ?thesis
    unfolding lookup_of_def by blast
qed

definition index_values :: "string \<Rightarrow> workload \<Rightarrow> string list" where
  "index_values idx w =
     (if idx = PodIpIndex then podIpIndexer w
      else if idx = ServiceIpIndex then serviceIpIndexer w
      else if idx = ServiceNameFromPodLabelIndex then serviceNameFromPodLabelIndexer w
      else if idx = ServiceNameFromPodAnnotationIndex then serviceNameFromPodAnnotationIndexer w
      else [])"

definition store_informer :: "(string \<times> workload) list \<Rightarrow> informer" where
  "store_informer objs =
     \<lparr>inf_GetByKey = (\<lambda>k. Some (gm_get objs k)),
      inf_ByIndex = (\<lambda>idx v. Some (filter (\<lambda>w. v \<in> set (index_values idx w)) (map snd objs)))\<rparr>"

definition wit_owner :: "string \<Rightarrow> string \<Rightarrow> owner_ref" where
  "wit_owner k n = \<lparr>or_APIVersion = ''apps/v1'', or_Kind = k, or_Name = n, or_UID = ''1''\<rparr>"

definition wit_meta :: "string \<Rightarrow> owner_ref list \<Rightarrow> object_meta" where
  "wit_meta n ows = \<lparr>om_Name = n, om_Namespace = ''ns'', om_OwnerReferences = ows, om_Labels = [], om_Annotations = []\<rparr>"

definition wit_pod :: workload where
  "wit_pod = Pod ''Pod'' (wit_meta ''p'' [wit_owner ''ReplicaSet'' ''rs'']) False [''10.0.0.1'']"

definition wit_rs :: "string \<Rightarrow> string \<Rightarrow> workload" where
  "wit_rs k n = Workload_Object ''*v1.PartialObjectMetadata'' ''ReplicaSet'' (wit_meta ''rs'' [wit_owner k n])"

definition wit_informers :: "workload \<Rightarrow> informers" where
  "wit_informers rs = [(''pods'', store_informer [(''ns/p'', wit_pod)]), (''services'', store_informer []),
                       (''replicasets'', store_informer [(''ns/rs'', rs)])]"

lemma wit_rs_owner:
  "rs_owner (wit_informers rs) w w' \<Longrightarrow> w' = rs"
  by (auto simp: rs_owner_def lookupWorkloadByNameAndNamespace_def wit_informers_def store_informer_def split: if_splits)

lemma owner_lookup_correct_witness:
  "\<forall>k. lookupOwnerForWorkload (k + 2) (wit_informers (wit_rs ''Deployment'' ''d'')) wit_pod =
     Inr \<lparr>lk_Name = ''d'', lk_Namespace = ''ns'', lk_Kind = ''Deployment''\<rparr>"
proof
  fix k
  let ?rs = "wit_rs ''Deployment'' ''d''"
  let ?infs = "wit_informers ?rs"
  have "\<not> rs_owner ?infs ?rs w" for w
    by (simp add: rs_owner_def wit_rs_def wit_meta_def wit_owner_def)
  then have "(if w' = ?rs then 0 else 1 :: nat) < (if w = ?rs then 0 else 1)" if "rs_owner ?infs w w'" for w w'
    using that wit_rs_owner [OF that] by auto
  note r = this
  have "(if wit_pod = ?rs then 0 else 1 :: nat) < 2" by simp
  from owner_lookup_correct [where rank = "\<lambda>w. if w = ?rs then 0 else 1" and infs = "?infs", OF r this]
  obtain r where r: "\<forall>k \<ge> 2. lookupOwnerForWorkload k ?infs wit_pod = Inr (case r of None \<Rightarrow> EmptyLookupResult | Some x \<Rightarrow> x)"
    "\<forall>r'. top_owner ?infs wit_pod r' \<longleftrightarrow> r' = r" by blast
  have rs: "top_owner ?infs ?rs (Some (owner_result (wit_meta ''rs'' [wit_owner ''Deployment'' ''d'']) (wit_owner ''Deployment'' ''d'')))"
    by (rule other_owner) (simp_all add: wit_rs_def wit_meta_def wit_owner_def owned_by_def)
  have "top_owner ?infs wit_pod (Some (owner_result (wit_meta ''rs'' [wit_owner ''Deployment'' ''d'']) (wit_owner ''Deployment'' ''d'')))"
    by (rule replicaset_owned [where m = "wit_meta ''p'' [wit_owner ''ReplicaSet'' ''rs'']" and ow = "wit_owner ''ReplicaSet'' ''rs''", OF _ _ _ _ rs])
      (simp_all add: wit_pod_def wit_meta_def wit_owner_def owned_by_def cached_replicaset_def wit_informers_def store_informer_def)
  with r(2) have "r = Some \<lparr>lk_Name = ''d'', lk_Namespace = ''ns'', lk_Kind = ''Deployment''\<rparr>"
    by (simp add: owner_result_def wit_meta_def wit_owner_def)
  with r(1) show "lookupOwnerForWorkload (k + 2) ?infs wit_pod = Inr \<lparr>lk_Name = ''d'', lk_Namespace = ''ns'', lk_Kind = ''Deployment''\<rparr>"
    by (simp del: lookupOwnerForWorkload.simps)
qed

text \<open>Nothing bounds the owner lookup when a cached ReplicaSet names itself as its first owner: no
  amount of fuel lets it return.\<close>

theorem owner_lookup_self_owned:
  assumes "meta_object w = Some m" "om_OwnerReferences m = ow # ows" "or_Kind ow = ''ReplicaSet''"
    and "lookupWorkloadByNameAndNamespace (or_Name ow) (om_Namespace m) [''replicasets''] infs = Some w"
  shows "lookupOwnerForWorkload n infs w = Inl OutOfFuel"
  using assms by (induction n) (simp_all add: lookupOwnerKindByNameAndNamespace_def)

lemma owner_lookup_self_owned_witness:
  "\<forall>n. lookupOwnerForWorkload n (wit_informers (wit_rs ''ReplicaSet'' ''rs'')) (wit_rs ''ReplicaSet'' ''rs'') = Inl OutOfFuel"
proof
  fix n
  show "lookupOwnerForWorkload n (wit_informers (wit_rs ''ReplicaSet'' ''rs'')) (wit_rs ''ReplicaSet'' ''rs'') = Inl OutOfFuel"
    by (rule owner_lookup_self_owned [where m = "wit_meta ''rs'' [wit_owner ''ReplicaSet'' ''rs'']" and ow = "wit_owner ''ReplicaSet'' ''rs''"])
      (simp_all add: wit_rs_def wit_meta_def wit_owner_def lookupWorkloadByNameAndNamespace_def workloadKey_def wit_informers_def store_informer_def)
qed

text \<open>What the caches drop, no lookup reads: the trimmed pods and services have the same index values
  as the originals, and with owner references kept, the same owner; a trimmed object of the kind the
  cluster reports is also named the same.\<close>

theorem transforms_preserve_lookups:
  "podIpIndexer (podTransform keep w) = podIpIndexer w \<and>
   serviceNameFromPodLabelIndexer (podTransform keep w) = serviceNameFromPodLabelIndexer w \<and>
   serviceNameFromPodAnnotationIndexer (podTransform keep w) = serviceNameFromPodAnnotationIndexer w \<and>
   serviceIpIndexer (serviceTransform w) = serviceIpIndexer w \<and>
   lookupOwnerForWorkload n infs (podTransform True w) = lookupOwnerForWorkload n infs w \<and>
   lookupOwnerForWorkload n infs (genericTransform kind True w) = lookupOwnerForWorkload n infs w \<and>
   extractWorkloadKind n (podTransform True (Pod ''Pod'' m h ips)) infs b = extractWorkloadKind n (Pod ''Pod'' m h ips) infs b \<and>
   extractWorkloadKind n (serviceTransform (Service ''Service'' m ips ips')) infs b = extractWorkloadKind n (Service ''Service'' m ips ips') infs b"
proof -
  have own: "lookupOwnerForWorkload n infs (podTransform True w) = lookupOwnerForWorkload n infs w" for w
    by (cases n; cases w) (simp_all add: owners_loop_copied)
  have gen: "lookupOwnerForWorkload n infs (genericTransform kind True w) = lookupOwnerForWorkload n infs w"
    by (cases n; cases "meta_object w") (simp_all add: genericTransform_def bare_meta_def owners_loop_copied)
  have lab: "serviceNameFromPodLabelIndexer (podTransform keep w) = serviceNameFromPodLabelIndexer w"
    "serviceNameFromPodAnnotationIndexer (podTransform keep w) = serviceNameFromPodAnnotationIndexer w"
    by (cases w; simp add: get_or_empty_def filterMap_get)+
  have ip: "podIpIndexer (podTransform keep w) = podIpIndexer w" "serviceIpIndexer (serviceTransform w) = serviceIpIndexer w"
    by (cases w; simp)+
  have ex: "extractWorkloadKind n (podTransform True (Pod ''Pod'' m h ips)) infs b = extractWorkloadKind n (Pod ''Pod'' m h ips) infs b"
    using own [of "Pod ''Pod'' m h ips"] by (simp add: extractWorkloadKind_def kind_of_def Let_def split: sum.split)
  have sx: "extractWorkloadKind n (serviceTransform (Service ''Service'' m ips ips')) infs b = extractWorkloadKind n (Service ''Service'' m ips ips') infs b"
    by (simp add: extractWorkloadKind_def kind_of_def Let_def bare_meta_def)
  show ?thesis using own gen lab ip ex sx by blast
qed

text \<open>The lookup by address over pods and services, when the informers index what they store: the pod
  that alone has the address (never one on the host network) is named, else the service that alone
  has it, else nothing; several pods with one address do not hide the service.\<close>

theorem ip_lookup_spec:
  assumes "gm_get infs ''pods'' = Some pinf" "gm_get infs ''services'' = Some sinf"
    and "inf_ByIndex pinf PodIpIndex ip = Some (filter (\<lambda>w. ip \<in> set (podIpIndexer w)) pods)"
    and "inf_ByIndex sinf ServiceIpIndex ip = Some (filter (\<lambda>w. ip \<in> set (serviceIpIndexer w)) svcs)"
  shows "lookupWorkloadKindByIp n ip [''pods'', ''services''] infs prefer =
     (case (filter (\<lambda>w. ip \<in> set (podIpIndexer w)) pods, filter (\<lambda>w. ip \<in> set (serviceIpIndexer w)) svcs) of
        ([p], _) \<Rightarrow> extractWorkloadKind n p infs prefer
      | (_, [s]) \<Rightarrow> extractWorkloadKind n s infs prefer
      | _ \<Rightarrow> Inr EmptyLookupResult)"
  using assms by (auto simp: Let_def split: list.split)

lemma ip_lookup_spec_witness:
  "lookupWorkloadKindByIp 5 ''10.0.0.1'' [''pods'', ''services''] (wit_informers (wit_rs ''Deployment'' ''d'')) False =
     Inr \<lparr>lk_Name = ''p'', lk_Namespace = ''ns'', lk_Kind = ''Pod''\<rparr>"
proof -
  let ?infs = "wit_informers (wit_rs ''Deployment'' ''d'')"
  have h: "gm_get ?infs ''pods'' = Some (store_informer [(''ns/p'', wit_pod)])" "gm_get ?infs ''services'' = Some (store_informer [])"
    "inf_ByIndex (store_informer [(''ns/p'', wit_pod)]) PodIpIndex ''10.0.0.1'' =
       Some (filter (\<lambda>w. ''10.0.0.1'' \<in> set (podIpIndexer w)) [wit_pod])"
    "inf_ByIndex (store_informer []) ServiceIpIndex ''10.0.0.1'' =
       Some (filter (\<lambda>w. ''10.0.0.1'' \<in> set (serviceIpIndexer w)) [])"
    by (simp_all add: wit_informers_def store_informer_def index_values_def)
  show ?thesis
    by (subst ip_lookup_spec [OF h]) (simp add: wit_pod_def wit_meta_def extractWorkloadKind_def kind_of_def)
qed

end
