(* ===== verification/Workload_Type.thy ===== *)
theory Workload_Type
  imports Workload_Lookup Pdata
begin

text \<open>
  The workload type processor (\<open>processor/swok8sworkloadtypeprocessor\<close>): validation of the
  workload mappings against the API resources of the cluster (\<open>config.go\<close>), the informers that
  \<open>Start\<close> creates, and the enrichment of metrics (\<open>processor.go\<close>).  The discovery client and the
  informer factory are arguments, as are \<open>url.Parse\<close> and \<open>net.ParseIP\<close>.
\<close>

section \<open>Configuration\<close>

record gvrk =
  gv_Group :: string
  gv_Version :: string
  gv_Resource :: string
  gv_kind :: string

record workload_mapping =
  wm_NameAttr :: string
  wm_NamespaceAttr :: string
  wm_AddressAttr :: string
  wm_WorkloadNameAttr :: string
  wm_WorkloadNamespaceAttr :: string
  wm_WorkloadTypeAttr :: string
  wm_ExpectedTypes :: "string list"
  wm_PreferOwnerForPods :: bool
  wm_context :: string

abbreviation ResourceContext :: string where "ResourceContext \<equiv> ''resource''"
abbreviation ScopeContext :: string where "ScopeContext \<equiv> ''scope''"
abbreviation MetricContext :: string where "MetricContext \<equiv> ''metric''"
abbreviation DataPointContext :: string where "DataPointContext \<equiv> ''datapoint''"

datatype wt_error =
    MappingsEmpty | ClientFailed | DiscoveryFailed | DiscoveryPanic | NilMapping
  | TypeAttrEmpty | NameOrAddressMissing | NameAndAddress | InconsistentContext
  | ExpectedTypesEmpty | InvalidExpectedType string
  | InformerFailed string | SyncFailed

type_synonym gvrk_map = "(string, gvrk) gomap"
type_synonym valid_objects = "(string, gvrk list) gomap"

definition extractContext :: "string \<Rightarrow> string \<times> string" where
  "extractContext attrName =
     (case strings_Cut attrName CHR ''.'' of
        Some (before, after) \<Rightarrow>
          if before \<in> {DataPointContext, MetricContext, ScopeContext, ResourceContext}
          then (before, after) else ([], attrName)
      | None \<Rightarrow> ([], attrName))"

fun map_expected_types :: "valid_objects \<Rightarrow> string list \<Rightarrow> gvrk_map \<Rightarrow> (wt_error, gvrk_map) result" where
  "map_expected_types validObjects [] mapped = Inr mapped"
| "map_expected_types validObjects (ty # types) mapped =
     (if gm_get mapped ty \<noteq> None then map_expected_types validObjects types mapped
      else case gm_get validObjects ty of
             None \<Rightarrow> Inl (InvalidExpectedType ty)
           | Some [] \<Rightarrow> Inl DiscoveryPanic
           | Some (g # gs) \<Rightarrow> map_expected_types validObjects types (gm_put ty g mapped))"

text \<open>The first half of \<open>validate\<close>: the attribute names without their context and the context itself.\<close>

definition resolve_context :: "workload_mapping \<Rightarrow> (wt_error, workload_mapping) result" where
  "resolve_context m =
     (let (nameCtx, nameAttr) = extractContext (wm_NameAttr m);
          (workloadTypeCtx, workloadTypeAttr) = extractContext (wm_WorkloadTypeAttr m);
          (namespaceCtx, namespaceAttr) = extractContext (wm_NamespaceAttr m);
          (addressCtx, addressAttr) = extractContext (wm_AddressAttr m);
          (workloadNameCtx, workloadNameAttr) = extractContext (wm_WorkloadNameAttr m);
          (workloadNamespaceCtx, workloadNamespaceAttr) = extractContext (wm_WorkloadNamespaceAttr m) in
      if nameAttr = [] \<and> addressAttr = [] then Inl NameOrAddressMissing
      else if nameAttr \<noteq> [] \<and> addressAttr \<noteq> [] then Inl NameAndAddress
      else
        let ctx = (if nameAttr \<noteq> [] then nameCtx else addressCtx) in
        if ctx \<noteq> workloadTypeCtx \<or> (namespaceAttr \<noteq> [] \<and> namespaceCtx \<noteq> ctx) \<or>
           (workloadNameAttr \<noteq> [] \<and> workloadNameCtx \<noteq> ctx) \<or>
           (workloadNamespaceAttr \<noteq> [] \<and> workloadNamespaceCtx \<noteq> ctx)
        then Inl InconsistentContext
        else Inr (m\<lparr>wm_NameAttr := nameAttr, wm_NamespaceAttr := namespaceAttr, wm_AddressAttr := addressAttr,
                    wm_WorkloadNameAttr := workloadNameAttr, wm_WorkloadNamespaceAttr := workloadNamespaceAttr,
                    wm_WorkloadTypeAttr := workloadTypeAttr,
                    wm_context := (if ctx = [] then DataPointContext else ctx)\<rparr>))"

definition allExpectedTypes :: "valid_objects \<Rightarrow> workload_mapping \<Rightarrow> string list" where
  "allExpectedTypes validObjects m =
     (if gm_get validObjects ReplicaSetsWorkloadType \<noteq> None \<and> wm_PreferOwnerForPods m \<and>
         PodsWorkloadType \<in> set (wm_ExpectedTypes m)
      then wm_ExpectedTypes m @ [ReplicaSetsWorkloadType] else wm_ExpectedTypes m)"

definition mapping_validate ::
  "valid_objects \<Rightarrow> workload_mapping \<Rightarrow> gvrk_map \<Rightarrow> (wt_error, workload_mapping \<times> gvrk_map) result" where
  "mapping_validate validObjects m mapped =
     (if wm_WorkloadTypeAttr m = [] then Inl TypeAttrEmpty
      else case resolve_context m of
        Inl er \<Rightarrow> Inl er
      | Inr m' \<Rightarrow>
          if wm_ExpectedTypes m' = [] then Inl ExpectedTypesEmpty
          else case map_expected_types validObjects (allExpectedTypes validObjects m') mapped of
                 Inl er \<Rightarrow> Inl er
               | Inr mapped' \<Rightarrow> Inr (m', mapped'))"

record api_group =
  ag_GroupVersion :: string
  ag_APIResources :: "(string \<times> string) list"

text \<open>The answer of the discovery client: the groups, and whether the error it returned (if any) is
  a failed group discovery.\<close>

record discovered =
  dc_groups :: "api_group list option"
  dc_error :: "bool option"

fun add_resources :: "string list \<Rightarrow> (string \<times> string) list \<Rightarrow> valid_objects \<Rightarrow> (wt_error, valid_objects) result" where
  "add_resources split [] objs = Inr objs"
| "add_resources split ((name, kind) # rs) objs =
     (if kind = [] then add_resources split rs objs
      else case split of
        grp # version # _ \<Rightarrow>
          add_resources split rs
            (gm_put name ((case gm_get objs name of None \<Rightarrow> [] | Some gs \<Rightarrow> gs) @
               [\<lparr>gv_Group = grp, gv_Version = version, gv_Resource = name, gv_kind = kind\<rparr>]) objs)
      | _ \<Rightarrow> Inl DiscoveryPanic)"

fun add_groups :: "api_group list \<Rightarrow> valid_objects \<Rightarrow> (wt_error, valid_objects) result" where
  "add_groups [] objs = Inr objs"
| "add_groups (g # gs) objs =
     (let split = strings_Split (ag_GroupVersion g) CHR ''/'';
          split = (if length split = 1 \<and> ag_GroupVersion g = ''v1'' then [[], ''v1''] else split) in
      case add_resources split (ag_APIResources g) objs of
        Inl er \<Rightarrow> Inl er
      | Inr objs' \<Rightarrow> add_groups gs objs')"

definition getValidObjects :: "discovered option \<Rightarrow> (wt_error, valid_objects) result" where
  "getValidObjects client =
     (case client of
        None \<Rightarrow> Inl ClientFailed
      | Some d \<Rightarrow>
          if dc_groups d \<noteq> None \<and> dc_error d = Some False then Inl DiscoveryFailed
          else add_groups (case dc_groups d of None \<Rightarrow> [] | Some gs \<Rightarrow> gs) [])"

fun validate_mappings ::
  "valid_objects \<Rightarrow> workload_mapping option list \<Rightarrow> gvrk_map \<Rightarrow> (wt_error, workload_mapping list \<times> gvrk_map) result" where
  "validate_mappings objs [] mapped = Inr ([], mapped)"
| "validate_mappings objs (None # ms) mapped = Inl NilMapping"
| "validate_mappings objs (Some m # ms) mapped =
     (case mapping_validate objs m mapped of
        Inl er \<Rightarrow> Inl er
      | Inr (m', mapped') \<Rightarrow>
        (case validate_mappings objs ms mapped' of
           Inl er \<Rightarrow> Inl er
         | Inr (ms', mapped'') \<Rightarrow> Inr (m' # ms', mapped'')))"

text \<open>The configuration after \<open>Validate\<close>: the rewritten mappings and the expected types with the
  API resources they are served by.\<close>

record wt_config =
  wc_WorkloadMappings :: "workload_mapping list"
  wc_mappedExpectedTypes :: gvrk_map

definition config_Validate :: "discovered option \<Rightarrow> workload_mapping option list \<Rightarrow> (wt_error, wt_config) result" where
  "config_Validate client mappings =
     (if mappings = [] then Inl MappingsEmpty
      else case getValidObjects client of
        Inl er \<Rightarrow> Inl er
      | Inr objs \<Rightarrow>
        (case validate_mappings objs mappings [] of
           Inl er \<Rightarrow> Inl er
         | Inr (ms, mapped) \<Rightarrow> Inr \<lparr>wc_WorkloadMappings = ms, wc_mappedExpectedTypes = mapped\<rparr>))"

section \<open>Start\<close>

type_synonym index_function = "workload \<Rightarrow> string list"

definition transform_for :: "bool \<Rightarrow> string \<Rightarrow> workload \<Rightarrow> workload" where
  "transform_for copyOwners kind =
     (if kind = PodKind then podTransform copyOwners
      else if kind = ServiceKind then serviceTransform
      else if kind = ReplicaSetKind then genericTransform kind copyOwners
      else genericTransform kind False)"

definition indexers_for :: "string \<Rightarrow> (string \<times> index_function) list" where
  "indexers_for kind =
     (if kind = PodKind
      then [(PodIpIndex, podIpIndexer), (ServiceNameFromPodLabelIndex, serviceNameFromPodLabelIndexer),
            (ServiceNameFromPodAnnotationIndex, serviceNameFromPodAnnotationIndexer)]
      else if kind = ServiceKind then [(ServiceIpIndex, serviceIpIndexer)]
      else [])"

text \<open>The informer factory: an informer for a resource with a transform and indexers, or an error.\<close>

type_synonym informer_factory = "gvrk \<Rightarrow> (workload \<Rightarrow> workload) \<Rightarrow> (string \<times> index_function) list \<Rightarrow> informer option"

fun start_informers :: "informer_factory \<Rightarrow> bool \<Rightarrow> (string \<times> gvrk) list \<Rightarrow> informers \<Rightarrow> (wt_error, informers) result" where
  "start_informers factory copyOwners [] infs = Inr infs"
| "start_informers factory copyOwners ((ty, g) # rest) infs =
     (case factory g (transform_for copyOwners (gv_kind g)) (indexers_for (gv_kind g)) of
        None \<Rightarrow> Inl (InformerFailed ty)
      | Some informer \<Rightarrow> start_informers factory copyOwners rest (gm_put ty informer infs))"

definition wt_Start ::
  "informer_factory option \<Rightarrow> ((string \<times> gvrk) list \<Rightarrow> (string \<times> gvrk) list) \<Rightarrow> bool \<Rightarrow> wt_config
   \<Rightarrow> (wt_error, informers) result" where
  "wt_Start client ord synced cfg =
     (case client of
        None \<Rightarrow> Inl ClientFailed
      | Some factory \<Rightarrow>
          let copyOwners = list_ex (\<lambda>m. wm_PreferOwnerForPods m \<and> PodsWorkloadType \<in> set (wm_ExpectedTypes m))
                             (wc_WorkloadMappings cfg) in
          case start_informers factory copyOwners (ord (wc_mappedExpectedTypes cfg)) [] of
            Inl er \<Rightarrow> Inl er
          | Inr infs \<Rightarrow> if synced then Inr infs else Inl SyncFailed)"

section \<open>Processing\<close>

record wt_processor =
  wp_fuel :: nat
  wp_urlHost :: "string \<Rightarrow> string option"
  wp_isIP :: "string \<Rightarrow> bool"
  wp_informers :: informers
  wp_mappings :: "workload_mapping list"

definition getAttribute :: "pmap \<Rightarrow> string \<Rightarrow> string" where
  "getAttribute attributes attrName =
     (case p_get attributes attrName of Some (VStr s) \<Rightarrow> s | _ \<Rightarrow> [])"

definition getAttributeWithResourceFallback :: "pmap \<Rightarrow> pmap \<Rightarrow> string \<Rightarrow> string" where
  "getAttributeWithResourceFallback attributes resourceAttributes attrName =
     (let namespace = getAttribute attributes attrName in
      if namespace = [] then getAttribute resourceAttributes attrName else namespace)"

definition lookupWorkloadTypeByNameAttr :: "wt_processor \<Rightarrow> workload_mapping \<Rightarrow> pmap \<Rightarrow> pmap \<Rightarrow> lookup" where
  "lookupWorkloadTypeByNameAttr cp m attributes resourceAttributes =
     (let name = getAttribute attributes (wm_NameAttr m) in
      if name = [] then Inr EmptyLookupResult
      else lookupWorkloadKindByNameAndNamespace (wp_fuel cp) name
             (getAttributeWithResourceFallback attributes resourceAttributes (wm_NamespaceAttr m))
             (wm_ExpectedTypes m) (wp_informers cp) (wm_PreferOwnerForPods m))"

definition lookupWorkloadTypeByAddressAttr :: "wt_processor \<Rightarrow> workload_mapping \<Rightarrow> pmap \<Rightarrow> pmap \<Rightarrow> lookup" where
  "lookupWorkloadTypeByAddressAttr cp m attributes resourceAttributes =
     (let addr = getAttribute attributes (wm_AddressAttr m) in
      if addr = [] then Inr EmptyLookupResult
      else
        let host = extractHostFromAddress (wp_urlHost cp) addr in
        if wp_isIP cp host
        then lookupWorkloadKindByIp (wp_fuel cp) host (wm_ExpectedTypes m) (wp_informers cp) (wm_PreferOwnerForPods m)
        else
          let namespace = getAttributeWithResourceFallback attributes resourceAttributes (wm_NamespaceAttr m);
              namespaceFromHostname = fst (snd (extractNameAndNamespaceAndType host)) in
          if wm_NamespaceAttr m \<noteq> [] \<and> namespace = [] \<and> namespaceFromHostname = [] then Inr EmptyLookupResult
          else case lookupWorkloadKindByHostname (wp_fuel cp) host namespace (wm_ExpectedTypes m) (wp_informers cp)
                      (wm_PreferOwnerForPods m) of
                 Inl ab \<Rightarrow> Inl ab
               | Inr result \<Rightarrow>
                   if result \<noteq> EmptyLookupResult then Inr result
                   else lookupWorkloadByOtelInstrumentationServiceName (wp_fuel cp) host namespace
                          (wm_ExpectedTypes m) (wp_informers cp) (wm_PreferOwnerForPods m))"

text \<open>What a lookup result adds to the attributes.\<close>

definition put_result :: "workload_mapping \<Rightarrow> lookup_result \<Rightarrow> pmap \<Rightarrow> pmap" where
  "put_result m res attributes =
     (let attributes = (if lk_Kind res \<noteq> [] then p_putStr (wm_WorkloadTypeAttr m) (lk_Kind res) attributes else attributes);
          attributes = (if lk_Name res \<noteq> [] \<and> wm_WorkloadNameAttr m \<noteq> []
                        then p_putStr (wm_WorkloadNameAttr m) (lk_Name res) attributes else attributes) in
      if lk_Namespace res \<noteq> [] \<and> wm_WorkloadNamespaceAttr m \<noteq> []
      then p_putStr (wm_WorkloadNamespaceAttr m) (lk_Namespace res) attributes else attributes)"

definition process_mapping :: "wt_processor \<Rightarrow> string \<Rightarrow> pmap \<Rightarrow> workload_mapping \<Rightarrow> pmap \<Rightarrow> (abort, pmap) result" where
  "process_mapping cp statementContext resourceAttributes m attributes =
     (if wm_context m \<noteq> statementContext then Inr attributes
      else if getAttribute attributes (wm_WorkloadTypeAttr m) \<noteq> [] then Inr attributes
      else if wm_NameAttr m \<noteq> []
      then (case lookupWorkloadTypeByNameAttr cp m attributes resourceAttributes of
              Inl ab \<Rightarrow> Inl ab | Inr res \<Rightarrow> Inr (put_result m res attributes))
      else if wm_AddressAttr m \<noteq> []
      then (case lookupWorkloadTypeByAddressAttr cp m attributes resourceAttributes of
              Inl ab \<Rightarrow> Inl ab | Inr res \<Rightarrow> Inr (put_result m res attributes))
      else Inr attributes)"

fun process_mappings :: "wt_processor \<Rightarrow> string \<Rightarrow> pmap \<Rightarrow> workload_mapping list \<Rightarrow> pmap \<Rightarrow> (abort, pmap) result" where
  "process_mappings cp ctx resourceAttributes [] attributes = Inr attributes"
| "process_mappings cp ctx resourceAttributes (m # ms) attributes =
     (case process_mapping cp ctx resourceAttributes m attributes of
        Inl ab \<Rightarrow> Inl ab
      | Inr attributes' \<Rightarrow> process_mappings cp ctx resourceAttributes ms attributes')"

definition processAttributesWithResourceFallback :: "wt_processor \<Rightarrow> pmap \<Rightarrow> string \<Rightarrow> pmap \<Rightarrow> (abort, pmap) result" where
  "processAttributesWithResourceFallback cp attributes statementContext resourceAttributes =
     process_mappings cp statementContext resourceAttributes (wp_mappings cp) attributes"

definition processAttributes :: "wt_processor \<Rightarrow> pmap \<Rightarrow> string \<Rightarrow> (abort, pmap) result" where
  "processAttributes cp attributes statementContext =
     processAttributesWithResourceFallback cp attributes statementContext []"

definition processDatapoints :: "wt_processor \<Rightarrow> pmap \<Rightarrow> data_point list \<Rightarrow> (abort, data_point list) result" where
  "processDatapoints cp resourceAttributes =
     map_result (\<lambda>dp. case processAttributesWithResourceFallback cp (dp_attrs dp) DataPointContext resourceAttributes of
       Inl ab \<Rightarrow> Inl ab | Inr attrs \<Rightarrow> Inr (dp\<lparr>dp_attrs := attrs\<rparr>))"

fun process_data :: "wt_processor \<Rightarrow> pmap \<Rightarrow> metric_data \<Rightarrow> (abort, metric_data) result" where
  "process_data cp ra (MGauge dps) = map_sum id MGauge (processDatapoints cp ra dps)"
| "process_data cp ra (MSum dps) = map_sum id MSum (processDatapoints cp ra dps)"
| "process_data cp ra (MHistogram dps) = map_sum id MHistogram (processDatapoints cp ra dps)"
| "process_data cp ra (MExponentialHistogram dps) = map_sum id MExponentialHistogram (processDatapoints cp ra dps)"
| "process_data cp ra (MSummary dps) = map_sum id MSummary (processDatapoints cp ra dps)"
| "process_data cp ra MEmpty = Inr MEmpty"

definition process_metric :: "wt_processor \<Rightarrow> pmap \<Rightarrow> metric \<Rightarrow> (abort, metric) result" where
  "process_metric cp ra m =
     (case processAttributes cp (mt_metadata m) MetricContext of
        Inl ab \<Rightarrow> Inl ab
      | Inr md \<Rightarrow>
        (case process_data cp ra (mt_data m) of
           Inl ab \<Rightarrow> Inl ab
         | Inr dat \<Rightarrow> Inr (m\<lparr>mt_metadata := md, mt_data := dat\<rparr>)))"

definition process_scope :: "wt_processor \<Rightarrow> pmap \<Rightarrow> scope_metrics \<Rightarrow> (abort, scope_metrics) result" where
  "process_scope cp ra sm =
     (case processAttributes cp (sm_attrs sm) ScopeContext of
        Inl ab \<Rightarrow> Inl ab
      | Inr attrs \<Rightarrow>
        (case map_result (process_metric cp ra) (sm_metrics sm) of
           Inl ab \<Rightarrow> Inl ab
         | Inr ms \<Rightarrow> Inr (sm\<lparr>sm_attrs := attrs, sm_metrics := ms\<rparr>)))"

definition process_resource :: "wt_processor \<Rightarrow> resource_metrics \<Rightarrow> (abort, resource_metrics) result" where
  "process_resource cp rm =
     (case processAttributes cp (rm_attrs rm) ResourceContext of
        Inl ab \<Rightarrow> Inl ab
      | Inr attrs \<Rightarrow>
        (case map_result (process_scope cp attrs) (rm_scopes rm) of
           Inl ab \<Rightarrow> Inl ab
         | Inr sms \<Rightarrow> Inr (rm\<lparr>rm_attrs := attrs, rm_scopes := sms\<rparr>)))"

definition wt_processMetrics :: "wt_processor \<Rightarrow> metrics \<Rightarrow> (abort, metrics) result" where
  "wt_processMetrics cp md = map_result (process_resource cp) md"

section \<open>Lemmas on validation and start\<close>

lemma map_expected_types_Inr:
  assumes "map_expected_types objs tys mapped = Inr mapped'"
  shows "set tys \<union> dom (gm_get mapped) \<subseteq> dom (gm_get mapped')"
  using assms
proof (induction objs tys mapped rule: map_expected_types.induct)
  case (2 objs ty tys mapped)
  show ?case
  proof (cases "gm_get mapped ty")
    case None
    then obtain g gs where "gm_get objs ty = Some (g # gs)"
      using "2.prems" by (auto split: option.splits list.splits)
    with None "2.prems" have "map_expected_types objs tys (gm_put ty g mapped) = Inr mapped'" by simp
    from "2.IH"(2) [OF _ \<open>gm_get objs ty = Some (g # gs)\<close> refl this, unfolded gm_dom_put] None show ?thesis
      by auto
  qed (use 2 in auto)
qed simp

text \<open>A mapping that passed validation.\<close>

definition valid_mapping :: "gvrk_map \<Rightarrow> workload_mapping \<Rightarrow> bool" where
  "valid_mapping mapped m \<longleftrightarrow>
     (wm_NameAttr m = []) \<noteq> (wm_AddressAttr m = []) \<and>
     wm_context m \<in> {ResourceContext, ScopeContext, MetricContext, DataPointContext} \<and>
     wm_ExpectedTypes m \<noteq> [] \<and> set (wm_ExpectedTypes m) \<subseteq> dom (gm_get mapped)"

lemma extractContext_ctx: "extractContext a = (c, b) \<Longrightarrow>
    c \<in> {[], ResourceContext, ScopeContext, MetricContext, DataPointContext} \<and> a = (if c = [] then b else c @ ''.'' @ b)"
  by (auto simp: extractContext_def dest: Cut_Some split: option.splits if_splits)

lemma resolve_context_Inr:
  assumes "resolve_context m = Inr m'"
  shows "(wm_NameAttr m' = []) \<noteq> (wm_AddressAttr m' = []) \<and>
    wm_context m' \<in> {ResourceContext, ScopeContext, MetricContext, DataPointContext}"
proof -
  obtain nc na where n: "extractContext (wm_NameAttr m) = (nc, na)" by (cases "extractContext (wm_NameAttr m)")
  obtain ac aa where a: "extractContext (wm_AddressAttr m) = (ac, aa)" by (cases "extractContext (wm_AddressAttr m)")
  have m': "wm_NameAttr m' = na" "wm_AddressAttr m' = aa" "(na = []) \<noteq> (aa = [])"
    "wm_context m' = (if (if na \<noteq> [] then nc else ac) = [] then DataPointContext else if na \<noteq> [] then nc else ac)"
    using assms by (simp_all add: resolve_context_def n a Let_def case_prod_beta split: if_split_asm) (hypsubst, simp)+
  from extractContext_ctx [OF n] extractContext_ctx [OF a] m' show ?thesis by auto
qed

lemma mapping_validate_Inr:
  assumes "mapping_validate objs m mapped = Inr (m', mapped')"
  shows "valid_mapping mapped' m' \<and> dom (gm_get mapped) \<subseteq> dom (gm_get mapped')"
proof -
  have r: "resolve_context m = Inr m'" and e: "wm_ExpectedTypes m' \<noteq> []"
    and t: "map_expected_types objs (allExpectedTypes objs m') mapped = Inr mapped'"
    using assms by (auto simp: mapping_validate_def split: if_splits sum.splits)
  have "set (wm_ExpectedTypes m') \<subseteq> set (allExpectedTypes objs m')" by (auto simp: allExpectedTypes_def)
  with resolve_context_Inr [OF r] e map_expected_types_Inr [OF t] show ?thesis
    unfolding valid_mapping_def by blast
qed

lemma valid_mapping_mono: "valid_mapping mapped m \<Longrightarrow> dom (gm_get mapped) \<subseteq> dom (gm_get mapped') \<Longrightarrow> valid_mapping mapped' m"
  unfolding valid_mapping_def by blast

lemma validate_mappings_Inr:
  assumes "validate_mappings objs ms mapped = Inr (ms', mapped')"
  shows "list_all (valid_mapping mapped') ms' \<and> dom (gm_get mapped) \<subseteq> dom (gm_get mapped')"
  using assms
proof (induction objs ms mapped arbitrary: ms' mapped' rule: validate_mappings.induct)
  case (3 objs m ms mapped)
  then obtain m1 mapped1 ms1 where v: "mapping_validate objs m mapped = Inr (m1, mapped1)"
    and r: "validate_mappings objs ms mapped1 = Inr (ms1, mapped')" and ms': "ms' = m1 # ms1"
    by (auto split: sum.splits prod.splits)
  from mapping_validate_Inr [OF v] "3.IH" [OF v refl r] show ?case
    unfolding ms' using valid_mapping_mono [of mapped1 m1 mapped'] by (simp del: gm_dom_put) blast
qed simp_all

lemma config_Validate_Inr:
  assumes "config_Validate client ms = Inr cfg"
  shows "list_all (valid_mapping (wc_mappedExpectedTypes cfg)) (wc_WorkloadMappings cfg)"
  using assms by (auto simp: config_Validate_def dest!: validate_mappings_Inr split: if_splits sum.splits prod.splits)

lemma start_informers_Inr:
  "start_informers factory co tys infs = Inr infs' \<Longrightarrow>
   dom (gm_get infs') = fst ` set tys \<union> dom (gm_get infs)"
proof (induction factory co tys infs rule: start_informers.induct)
  case (2 factory co ty g rest infs)
  then show ?case by (auto simp: gm_get_put split: option.splits)
qed simp

lemma started_informers:
  assumes "wt_Start client ord synced cfg = Inr infs" "map_order ord"
  shows "dom (gm_get infs) = dom (gm_get (wc_mappedExpectedTypes cfg))"
proof -
  obtain factory co where "start_informers factory co (ord (wc_mappedExpectedTypes cfg)) [] = Inr infs"
    using assms(1) by (auto simp: wt_Start_def Let_def split: option.splits sum.splits if_splits)
  from start_informers_Inr [OF this] show ?thesis
    by (simp add: map_order_set [OF assms(2)] dom_map_of_conv_image_fst)
qed

section \<open>Lemmas on processing\<close>

lemma process_mapping_no_nil:
  assumes "valid_mapping mapped m" "dom (gm_get (wp_informers cp)) = dom (gm_get mapped)"
  shows "no_nil (process_mapping cp ctx ra m attrs)"
proof -
  have "\<And>ty. ty \<in> set (wm_ExpectedTypes m) \<Longrightarrow> gm_get (wp_informers cp) ty \<noteq> None"
    using assms unfolding valid_mapping_def by blast
  then have ip: "no_nil (lookupWorkloadKindByIp n ip (wm_ExpectedTypes m) (wp_informers cp) b)" for n ip b
    by (rule by_ip_not_nil)
  have "no_nil (lookupWorkloadTypeByAddressAttr cp m attrs ra)"
    unfolding lookupWorkloadTypeByAddressAttr_def Let_def
    by (intro no_nil_intros ip by_hostname_not_nil by_service_name_not_nil)
  moreover have "no_nil (lookupWorkloadTypeByNameAttr cp m attrs ra)"
    unfolding lookupWorkloadTypeByNameAttr_def Let_def by (intro no_nil_intros by_name_not_nil)
  ultimately show ?thesis
    unfolding process_mapping_def by (intro no_nil_intros) simp_all
qed

lemma process_mappings_no_nil:
  assumes "list_all (valid_mapping mapped) ms" "dom (gm_get (wp_informers cp)) = dom (gm_get mapped)"
  shows "no_nil (process_mappings cp ctx ra ms attrs)"
  using assms(1)
proof (induction ms arbitrary: attrs)
  case (Cons m ms)
  then show ?case using process_mapping_no_nil [OF _ assms(2), of m] by (simp add: no_nil_bind)
qed simp

lemma map_result_no_nil: "(\<And>x. no_nil (f x)) \<Longrightarrow> no_nil (map_result f xs)"
  by (induction xs) (simp_all add: no_nil_intros)

lemma no_nil_map_sum: "no_nil x \<Longrightarrow> no_nil (map_sum id f x)"
  by (cases x) (simp_all add: no_nil_def)

lemma wt_processMetrics_no_nil:
  assumes "\<And>ctx ra attrs. no_nil (process_mappings cp ctx ra (wp_mappings cp) attrs)"
  shows "no_nil (wt_processMetrics cp md)"
proof -
  have a: "no_nil (processAttributesWithResourceFallback cp attrs ctx ra)" for attrs ctx ra
    by (simp add: processAttributesWithResourceFallback_def assms)
  then have dps: "no_nil (processDatapoints cp ra dps)" for ra dps
    by (simp add: processDatapoints_def map_result_no_nil no_nil_bind)
  then have "no_nil (process_data cp ra d)" for ra d
    by (cases d) (simp_all add: no_nil_map_sum)
  with a have "no_nil (process_metric cp ra m)" for ra m
    by (simp add: process_metric_def processAttributes_def no_nil_bind)
  with a have "no_nil (process_scope cp ra sm)" for ra sm
    by (simp add: process_scope_def processAttributes_def no_nil_bind map_result_no_nil)
  with a show ?thesis
    by (simp add: wt_processMetrics_def process_resource_def processAttributes_def no_nil_bind map_result_no_nil)
qed

text \<open>The attributes the mappings of a context write.\<close>

definition output_attrs :: "string \<Rightarrow> workload_mapping list \<Rightarrow> string set" where
  "output_attrs ctx ms =
     (\<Union>m \<in> {m \<in> set ms. wm_context m = ctx}.
        {wm_WorkloadTypeAttr m, wm_WorkloadNameAttr m, wm_WorkloadNamespaceAttr m})"

lemma process_mapping_frame:
  assumes "process_mapping cp ctx ra m attrs = Inr attrs'"
    and "wm_context m = ctx \<Longrightarrow> k \<notin> {wm_WorkloadTypeAttr m, wm_WorkloadNameAttr m, wm_WorkloadNamespaceAttr m}"
  shows "p_get attrs' k = p_get attrs k"
  using assms by (auto simp: process_mapping_def put_result_def Let_def split: if_splits sum.splits)

lemma process_mappings_frame:
  assumes "process_mappings cp ctx ra ms attrs = Inr attrs'" "k \<notin> output_attrs ctx ms"
  shows "p_get attrs' k = p_get attrs k"
  using assms
proof (induction ms arbitrary: attrs)
  case (Cons m ms)
  then obtain a where a: "process_mapping cp ctx ra m attrs = Inr a" "process_mappings cp ctx ra ms a = Inr attrs'"
    by (auto split: sum.splits)
  from Cons.prems(2) have k: "k \<notin> output_attrs ctx ms"
    "wm_context m = ctx \<Longrightarrow> k \<notin> {wm_WorkloadTypeAttr m, wm_WorkloadNameAttr m, wm_WorkloadNamespaceAttr m}"
    by (auto simp: output_attrs_def)
  from process_mapping_frame [OF a(1) k(2)] Cons.IH [OF a(2) k(1)] show ?case by simp
qed simp

lemma process_mapping_kept:
  assumes "process_mapping cp ctx ra m attrs = Inr attrs'" "getAttribute attrs (wm_WorkloadTypeAttr m) \<noteq> []"
  shows "attrs' = attrs"
  using assms by (simp add: process_mapping_def split: if_splits)

lemma process_mapping_wf:
  "process_mapping cp ctx ra m attrs = Inr attrs' \<Longrightarrow> p_wf attrs \<Longrightarrow> p_wf attrs'"
  by (auto simp: process_mapping_def put_result_def Let_def split: if_splits sum.splits)

text \<open>A batch without its attributes.\<close>

fun strip_points :: "data_point list \<Rightarrow> data_point list" where
  "strip_points dps = map (dp_attrs_update (\<lambda>_. [])) dps"

fun strip_data :: "metric_data \<Rightarrow> metric_data" where
  "strip_data MEmpty = MEmpty"
| "strip_data (MGauge dps) = MGauge (strip_points dps)"
| "strip_data (MSum dps) = MSum (strip_points dps)"
| "strip_data (MHistogram dps) = MHistogram (strip_points dps)"
| "strip_data (MExponentialHistogram dps) = MExponentialHistogram (strip_points dps)"
| "strip_data (MSummary dps) = MSummary (strip_points dps)"

definition strip_metric :: "metric \<Rightarrow> metric" where
  "strip_metric m = m\<lparr>mt_metadata := [], mt_data := strip_data (mt_data m)\<rparr>"

definition strip_scope :: "scope_metrics \<Rightarrow> scope_metrics" where
  "strip_scope sm = sm\<lparr>sm_attrs := [], sm_metrics := map strip_metric (sm_metrics sm)\<rparr>"

definition strip_resource :: "resource_metrics \<Rightarrow> resource_metrics" where
  "strip_resource rm = rm\<lparr>rm_attrs := [], rm_scopes := map strip_scope (rm_scopes rm)\<rparr>"

lemma map_result_strip:
  assumes "map_result f xs = Inr ys" "\<And>x y. f x = Inr y \<Longrightarrow> g y = g x"
  shows "map g ys = map g xs"
proof -
  have "list_all2 (\<lambda>x y. f x = Inr y) xs ys" using assms(1) by (simp add: map_result_Inr)
  then show ?thesis by induction (simp_all add: assms(2))
qed

lemma processDatapoints_strip: "processDatapoints cp ra dps = Inr dps' \<Longrightarrow> strip_points dps' = strip_points dps"
  by (simp only: processDatapoints_def strip_points.simps)
    (erule map_result_strip, auto split: sum.splits)

lemma map_sum_Inr: "map_sum id f x = Inr y \<longleftrightarrow> (\<exists>z. x = Inr z \<and> y = f z)"
  by (cases x) auto

lemma process_data_strip: "process_data cp ra d = Inr d' \<Longrightarrow> strip_data d' = strip_data d"
  by (cases d) (auto simp: map_sum_Inr simp del: strip_points.simps dest!: processDatapoints_strip)

lemma process_metric_strip: "process_metric cp ra m = Inr m' \<Longrightarrow> strip_metric m' = strip_metric m"
  by (auto simp: process_metric_def strip_metric_def dest: process_data_strip split: sum.splits)

lemma process_scope_strip: "process_scope cp ra sm = Inr sm' \<Longrightarrow> strip_scope sm' = strip_scope sm"
  by (auto simp: process_scope_def strip_scope_def dest!: map_result_strip [OF _ process_metric_strip] split: sum.splits)

lemma process_resource_strip: "process_resource cp rm = Inr rm' \<Longrightarrow> strip_resource rm' = strip_resource rm"
  by (auto simp: process_resource_def strip_resource_def dest!: map_result_strip [OF _ process_scope_strip] split: sum.splits)

text \<open>Validation rewrites the mapping it validates, so it is not repeatable: validating the result of a
  resource mapping again reads the stripped names and falls back to the data point context.\<close>

lemma revalidation_changes_context:
  "\<exists>m m' m''. resolve_context m = Inr m' \<and> wm_context m' = ResourceContext \<and>
     resolve_context m' = Inr m'' \<and> wm_context m'' = DataPointContext"
proof -
  let ?m = "\<lparr>wm_NameAttr = ''resource.n'', wm_NamespaceAttr = [], wm_AddressAttr = [], wm_WorkloadNameAttr = [],
     wm_WorkloadNamespaceAttr = [], wm_WorkloadTypeAttr = ''resource.t'', wm_ExpectedTypes = [''pods''],
     wm_PreferOwnerForPods = False, wm_context = []\<rparr>"
  show ?thesis
    by (rule exI [of _ ?m]) (simp add: resolve_context_def extractContext_def strings_Cut_def)
qed

section \<open>Properties\<close>

text \<open>C13: A processor with a validated configuration never calls a missing informer: every type a mapping
  expects was mapped by validation to a resource of the cluster, and start has created an informer
  for it, so processing metrics cannot panic on one.\<close>

theorem validated_processor_has_informers:
  assumes "config_Validate client ms = Inr cfg" "wt_Start factory ord synced cfg = Inr infs" "map_order ord"
    and "wp_informers cp = infs" "wp_mappings cp = wc_WorkloadMappings cfg"
  shows "wt_processMetrics cp md \<noteq> Inl NilInformer"
proof -
  have "dom (gm_get (wp_informers cp)) = dom (gm_get (wc_mappedExpectedTypes cfg))"
    using started_informers [OF assms(2,3)] assms(4) by simp
  with config_Validate_Inr [OF assms(1)] assms(5) have "no_nil (wt_processMetrics cp md)"
    by (intro wt_processMetrics_no_nil) (simp add: process_mappings_no_nil)
  then show ?thesis by (simp add: no_nil_def)
qed

definition wit_mapping :: workload_mapping where
  "wit_mapping = \<lparr>wm_NameAttr = [], wm_NamespaceAttr = [], wm_AddressAttr = ''datapoint.peer'', wm_WorkloadNameAttr = [],
     wm_WorkloadNamespaceAttr = [], wm_WorkloadTypeAttr = ''datapoint.kind'', wm_ExpectedTypes = [''pods''],
     wm_PreferOwnerForPods = False, wm_context = []\<rparr>"

definition wit_discovered :: discovered where
  "wit_discovered = \<lparr>dc_groups = Some [\<lparr>ag_GroupVersion = ''v1'', ag_APIResources = [(''pods'', ''Pod'')]\<rparr>], dc_error = None\<rparr>"

definition wit_gvrk :: gvrk where
  "wit_gvrk = \<lparr>gv_Group = [], gv_Version = ''v1'', gv_Resource = ''pods'', gv_kind = ''Pod''\<rparr>"

definition wit_wt_config :: wt_config where
  "wit_wt_config = \<lparr>wc_WorkloadMappings = [wit_mapping\<lparr>wm_AddressAttr := ''peer'', wm_WorkloadTypeAttr := ''kind'', wm_context := ''datapoint''\<rparr>],
     wc_mappedExpectedTypes = [(''pods'', wit_gvrk)]\<rparr>"

lemma wit_wt_validated: "config_Validate (Some wit_discovered) [Some wit_mapping] = Inr wit_wt_config"
  by (simp add: config_Validate_def getValidObjects_def wit_discovered_def mapping_validate_def resolve_context_def
      extractContext_def strings_Cut_def wit_mapping_def allExpectedTypes_def wit_wt_config_def wit_gvrk_def)

definition wit_processor :: wt_processor where
  "wit_processor = \<lparr>wp_fuel = 3, wp_urlHost = (\<lambda>_. None), wp_isIP = (\<lambda>h. h = ''10.0.0.1''),
     wp_informers = [(''pods'', store_informer [(''ns/p'', wit_pod)])], wp_mappings = wc_WorkloadMappings wit_wt_config\<rparr>"

definition wit_metrics :: metrics where
  "wit_metrics = [\<lparr>rm_attrs = [], rm_scopes = [\<lparr>sm_name = [], sm_version = [], sm_attrs = [], sm_metrics = [\<lparr>mt_name = ''m'', mt_description = [], mt_unit = [], mt_metadata = [],
     mt_data = MGauge [\<lparr>dp_attrs = [(''peer'', VStr ''10.0.0.1:80'')], dp_startTimestamp = 0, dp_timestamp = 1, dp_value = VInt 5\<rparr>]\<rparr>]\<rparr>]\<rparr>]"

lemma validated_processor_has_informers_witness:
  "wt_processMetrics wit_processor wit_metrics \<noteq> Inl NilInformer"
proof -
  let ?f = "\<lambda>g t i. Some (store_informer [(''ns/p'', wit_pod)])"
  have "wt_Start (Some ?f) (\<lambda>xs. xs) True wit_wt_config = Inr [(''pods'', store_informer [(''ns/p'', wit_pod)])]"
    by (simp add: wt_Start_def wit_wt_config_def)
  from validated_processor_has_informers [OF wit_wt_validated this map_order_id, of wit_processor] show ?thesis
    by (simp add: wit_processor_def)
qed

text \<open>Validation accepts a mapping only in one consistent reading: it has a name or an address
  attribute but not both, one of the four contexts, and at least one expected type, each of which is
  served by the cluster.\<close>

theorem validated_mappings_consistent:
  assumes "config_Validate client ms = Inr cfg"
  shows "list_all (\<lambda>m. (wm_NameAttr m = []) \<noteq> (wm_AddressAttr m = []) \<and>
      wm_context m \<in> {''resource'', ''scope'', ''metric'', ''datapoint''} \<and>
      wm_ExpectedTypes m \<noteq> [] \<and> set (wm_ExpectedTypes m) \<subseteq> dom (gm_get (wc_mappedExpectedTypes cfg)))
    (wc_WorkloadMappings cfg)"
  using config_Validate_Inr [OF assms] by (auto simp: list_all_iff valid_mapping_def)

lemma validated_mappings_consistent_witness:
  "list_all (\<lambda>m. set (wm_ExpectedTypes m) \<subseteq> dom (gm_get (wc_mappedExpectedTypes wit_wt_config))) (wc_WorkloadMappings wit_wt_config)"
  using validated_mappings_consistent [OF wit_wt_validated] by (simp add: list_all_iff)

text \<open>Enrichment only adds what is configured: attributes that no mapping of the context writes keep
  their values, the map stays well formed, and a mapping whose type attribute is already set changes
  nothing.\<close>

theorem enrichment_frame:
  assumes "p_wf attrs" "processAttributesWithResourceFallback cp attrs ctx ra = Inr attrs'"
  shows "p_wf attrs' \<and> (\<forall>k. k \<notin> output_attrs ctx (wp_mappings cp) \<longrightarrow> p_get attrs' k = p_get attrs k) \<and>
    (\<forall>m. wp_mappings cp = [m] \<and> getAttribute attrs (wm_WorkloadTypeAttr m) \<noteq> [] \<longrightarrow> attrs' = attrs)"
proof -
  have r: "process_mappings cp ctx ra (wp_mappings cp) attrs = Inr attrs'"
    using assms(2) by (simp add: processAttributesWithResourceFallback_def)
  have "process_mappings cp ctx ra ms a = Inr a' \<Longrightarrow> p_wf a \<Longrightarrow> p_wf a'" for ms a a'
    by (induction ms arbitrary: a) (auto split: sum.splits dest: process_mapping_wf)
  moreover have "attrs' = attrs" if "wp_mappings cp = [m]" "getAttribute attrs (wm_WorkloadTypeAttr m) \<noteq> []" for m
    using r that process_mapping_kept by (auto split: sum.splits)
  ultimately show ?thesis using r assms(1) process_mappings_frame [OF r] by blast
qed

lemma enrichment_frame_witness:
  "p_wf [(''peer'', VStr ''10.0.0.1:80'')] \<and>
   (\<exists>attrs'. processAttributesWithResourceFallback wit_processor [(''peer'', VStr ''10.0.0.1:80'')] ''datapoint'' [] = Inr attrs' \<and>
      p_get attrs' ''peer'' = Some (VStr ''10.0.0.1:80''))"
proof -
  let ?a = "[(''peer'', VStr ''10.0.0.1:80'')]"
  have w: "p_wf ?a" by (simp add: p_wf_def gm_wf_def)
  obtain attrs' where r: "processAttributesWithResourceFallback wit_processor ?a ''datapoint'' [] = Inr attrs'"
    by (simp add: processAttributesWithResourceFallback_def wit_processor_def wit_wt_config_def wit_mapping_def
        process_mapping_def lookupWorkloadTypeByAddressAttr_def getAttribute_def extractHostFromAddress_def
        net_SplitHostPort_def strings_LastIndex_def p_get_def store_informer_def index_values_def wit_pod_def wit_meta_def
        extractWorkloadKind_def kind_of_def)
  from enrichment_frame [OF w r] w r show ?thesis
    by (auto simp: output_attrs_def wit_processor_def wit_wt_config_def wit_mapping_def p_get_def)
qed

text \<open>Processing metrics changes attributes only: resources, scopes, metrics and data points stay in
  number and order, with their names, kinds of data, times and values.\<close>

theorem processMetrics_changes_attributes_only:
  assumes "wt_processMetrics cp md = Inr md'"
  shows "map strip_resource md' = map strip_resource md"
  using assms unfolding wt_processMetrics_def by (rule map_result_strip) (rule process_resource_strip)

lemma processMetrics_changes_attributes_only_witness:
  "\<exists>md'. wt_processMetrics (wit_processor\<lparr>wp_mappings := []\<rparr>) wit_metrics = Inr md' \<and> map strip_resource md' = map strip_resource wit_metrics"
proof -
  obtain md' where r: "wt_processMetrics (wit_processor\<lparr>wp_mappings := []\<rparr>) wit_metrics = Inr md'"
    by (simp add: wt_processMetrics_def wit_metrics_def process_resource_def process_scope_def process_metric_def
        processAttributes_def processAttributesWithResourceFallback_def processDatapoints_def)
  from r processMetrics_changes_attributes_only [OF r] show ?thesis by blast
qed

end
