(* ===== verification/Workload_Status.thy ===== *)
theory Workload_Status
  imports Workload_Lookup Pdata
begin

text \<open>
  The workload status processor (\<open>processor/swok8sworkloadstatusprocessor\<close>): the status of
  Deployments from their manifests and of DaemonSets and StatefulSets from the phases of the pods
  they own.  \<open>json.Unmarshal\<close> is an argument (what the manifest's fields are, \<open>None\<close> for an
  error), and so is the pod informer.
\<close>

section \<open>Cached pods\<close>

abbreviation DeploymentKind :: string where "DeploymentKind \<equiv> ''Deployment''"
abbreviation StatefulSetKind :: string where "StatefulSetKind \<equiv> ''StatefulSet''"
abbreviation DaemonSetKind :: string where "DaemonSetKind \<equiv> ''DaemonSet''"
abbreviation WorkloadOwnerIndex :: string where "WorkloadOwnerIndex \<equiv> ''workloadOwnerIndex''"

record cached_pod =
  cp_Kind :: string
  cp_Meta :: object_meta
  cp_Phase :: string

datatype cached_object = CachedPod cached_pod | OtherObject string

definition copyPodOwnerReferences :: "object_meta \<Rightarrow> owner_ref list" where
  "copyPodOwnerReferences m =
     map (\<lambda>ref. \<lparr>or_APIVersion = [], or_Kind = or_Kind ref, or_Name = or_Name ref, or_UID = []\<rparr>)
       (om_OwnerReferences m)"

fun statusPodTransform :: "cached_object \<Rightarrow> cached_object" where
  "statusPodTransform (CachedPod p) =
     CachedPod \<lparr>cp_Kind = PodKind, cp_Meta = bare_meta (cp_Meta p) (copyPodOwnerReferences (cp_Meta p)),
                cp_Phase = cp_Phase p\<rparr>"
| "statusPodTransform obj = obj"

definition ownerKey :: "string \<Rightarrow> string \<Rightarrow> string \<Rightarrow> string" where
  "ownerKey ns kind name = ns @ ''/'' @ kind @ ''/'' @ name"

fun workloadOwnerIndexer :: "cached_object \<Rightarrow> string list" where
  "workloadOwnerIndexer (CachedPod p) =
     map (\<lambda>ow. ownerKey (om_Namespace (cp_Meta p)) (or_Kind ow) (or_Name ow)) (om_OwnerReferences (cp_Meta p))"
| "workloadOwnerIndexer (OtherObject t) = []"

section \<open>Status\<close>

record condition_status =
  cs_Type :: string
  cs_Status :: string

record deployment_status =
  ds_Replicas :: int
  ds_Conditions :: "condition_status list"

text \<open>What the processor is given: the two decodings of a manifest and the pod informer's
  \<open>ByIndex\<close> (the outer \<open>None\<close> when there is no informer, the inner one for an error).\<close>

record status_processor =
  sp_decodeStatus :: "string \<Rightarrow> deployment_status option"
  sp_decodeMeta :: "string \<Rightarrow> (string \<times> string) option"
  sp_podInformer :: "(string \<Rightarrow> string \<Rightarrow> cached_object list option) option"

definition computeDeploymentStatus :: "status_processor \<Rightarrow> string \<Rightarrow> string option" where
  "computeDeploymentStatus p body =
     (case sp_decodeStatus p body of
        None \<Rightarrow> None
      | Some st \<Rightarrow>
          if ds_Replicas st = 0 then Some []
          else
            let (available, progressing) =
                  fold (\<lambda>cond (available, progressing).
                    (available \<or> cs_Type cond = ''Available'' \<and> cs_Status cond = ''True'',
                     progressing \<or> cs_Type cond = ''Progressing'' \<and> cs_Status cond = ''True''))
                  (ds_Conditions st) (False, False) in
            if available \<and> progressing then Some ''AVAILABLE''
            else if available \<and> \<not> progressing then Some ''OUTDATED''
            else if \<not> available then Some ''UNAVAILABLE''
            else Some ''OTHER'')"

definition getPodsForWorkload :: "status_processor \<Rightarrow> string \<Rightarrow> string \<Rightarrow> string \<Rightarrow> cached_pod list" where
  "getPodsForWorkload p workloadName namespace kind =
     (case sp_podInformer p of
        None \<Rightarrow> []
      | Some byIndex \<Rightarrow>
        (case byIndex WorkloadOwnerIndex (ownerKey namespace kind workloadName) of
           None \<Rightarrow> []
         | Some objs \<Rightarrow> concat (map (\<lambda>obj. case obj of CachedPod pod \<Rightarrow> [pod] | OtherObject _ \<Rightarrow> []) objs)))"

record phase_counts =
  pc_running :: nat
  pc_succeeded :: nat
  pc_failed :: nat
  pc_unknown :: nat

definition count_phase :: "cached_pod \<Rightarrow> phase_counts \<Rightarrow> phase_counts" where
  "count_phase pod c =
     (if cp_Phase pod = ''Running'' then c\<lparr>pc_running := pc_running c + 1\<rparr>
      else if cp_Phase pod = ''Succeeded'' then c\<lparr>pc_succeeded := pc_succeeded c + 1\<rparr>
      else if cp_Phase pod = ''Failed'' then c\<lparr>pc_failed := pc_failed c + 1\<rparr>
      else if cp_Phase pod = ''Unknown'' then c\<lparr>pc_unknown := pc_unknown c + 1\<rparr>
      else c)"

definition computePodAggregateStatus :: "status_processor \<Rightarrow> string \<Rightarrow> string \<Rightarrow> string \<Rightarrow> string option" where
  "computePodAggregateStatus p workloadName namespace kind =
     (let pods = getPodsForWorkload p workloadName namespace kind; total = length pods in
      if total = 0 then Some []
      else
        let c = fold count_phase pods \<lparr>pc_running = 0, pc_succeeded = 0, pc_failed = 0, pc_unknown = 0\<rparr> in
        if pc_running c + pc_succeeded c = total then Some ''RUNNING''
        else if pc_failed c + pc_unknown c = total then Some ''FAILED''
        else Some ''PENDING'')"

section \<open>Processing\<close>

definition status_record :: "status_processor \<Rightarrow> log_record \<Rightarrow> log_record" where
  "status_record p lr =
     (case p_get (lr_attrs lr) ''k8s.object.kind'' of
        None \<Rightarrow> lr
      | Some kindAttr \<Rightarrow>
        (case lr_body lr of
           VStr body \<Rightarrow>
             let kind = v_str (Some kindAttr) in
             if kind = DeploymentKind
             then (case computeDeploymentStatus p body of
                     None \<Rightarrow> lr
                   | Some status \<Rightarrow> lr\<lparr>lr_attrs := p_putStr ''sw.k8s.deployment.status'' status (lr_attrs lr)\<rparr>)
             else if kind = DaemonSetKind \<or> kind = StatefulSetKind
             then (case sp_decodeMeta p body of
                     None \<Rightarrow> lr
                   | Some (wlName, wlNamespace) \<Rightarrow>
                     (case computePodAggregateStatus p wlName wlNamespace kind of
                        None \<Rightarrow> lr
                      | Some status \<Rightarrow>
                          lr\<lparr>lr_attrs := p_putStr (''sw.k8s.'' @ strings_ToLower id kind @ ''.status'') status (lr_attrs lr)\<rparr>))
             else lr
         | _ \<Rightarrow> lr))"

definition status_processLogs :: "status_processor \<Rightarrow> logs \<Rightarrow> logs" where
  "status_processLogs p ld =
     map (\<lambda>rl. rl\<lparr>rl_scopes := map (\<lambda>sl. sl\<lparr>sl_records := map (status_record p) (sl_records sl)\<rparr>) (rl_scopes rl)\<rparr>) ld"

section \<open>Lemmas\<close>

definition holds_condition :: "deployment_status \<Rightarrow> string \<Rightarrow> bool" where
  "holds_condition st ty \<longleftrightarrow> list_ex (\<lambda>c. cs_Type c = ty \<and> cs_Status c = ''True'') (ds_Conditions st)"

lemma fold_conditions:
  "fold (\<lambda>cond (available, progressing).
      (available \<or> cs_Type cond = ''Available'' \<and> cs_Status cond = ''True'',
       progressing \<or> cs_Type cond = ''Progressing'' \<and> cs_Status cond = ''True'')) conds (a, b) =
   (a \<or> list_ex (\<lambda>c. cs_Type c = ''Available'' \<and> cs_Status c = ''True'') conds,
    b \<or> list_ex (\<lambda>c. cs_Type c = ''Progressing'' \<and> cs_Status c = ''True'') conds)"
  by (induction conds arbitrary: a b) auto

definition phase_in :: "string list \<Rightarrow> cached_pod \<Rightarrow> bool" where
  "phase_in phases pod \<longleftrightarrow> cp_Phase pod \<in> set phases"

lemma fold_count_phase:
  "pc_running (fold count_phase pods c) + pc_succeeded (fold count_phase pods c) =
     pc_running c + pc_succeeded c + length (filter (phase_in [''Running'', ''Succeeded'']) pods) \<and>
   pc_failed (fold count_phase pods c) + pc_unknown (fold count_phase pods c) =
     pc_failed c + pc_unknown c + length (filter (phase_in [''Failed'', ''Unknown'']) pods)"
  by (induction pods arbitrary: c) (auto simp: count_phase_def phase_in_def)

lemma length_filter_all: "length (filter P xs) = length xs \<longleftrightarrow> list_all P xs"
proof (induction xs)
  case (Cons x xs)
  have "length (filter P xs) \<noteq> Suc (length xs)" by (metis Suc_n_not_le_n length_filter_le)
  with Cons show ?case by (cases "P x") simp_all
qed simp

lemma ownerKey_inj:
  assumes "CHR ''/'' \<notin> set ns" "CHR ''/'' \<notin> set ns'" "CHR ''/'' \<notin> set kind" "CHR ''/'' \<notin> set kind'"
    and "ownerKey ns kind name = ownerKey ns' kind' name'"
  shows "ns = ns' \<and> kind = kind' \<and> name = name'"
proof -
  have c: "strings_Cut (ownerKey ns kind name) CHR ''/'' = Some (ns, kind @ ''/'' @ name)"
    "strings_Cut (ownerKey ns' kind' name') CHR ''/'' = Some (ns', kind' @ ''/'' @ name')"
    using assms(1,2) by (simp_all add: ownerKey_def Cut_append)
  have k: "strings_Cut (kind @ ''/'' @ name) CHR ''/'' = Some (kind, name)"
    "strings_Cut (kind' @ ''/'' @ name') CHR ''/'' = Some (kind', name')"
    using assms(3,4) by (simp_all add: Cut_append)
  from c k assms(5) show ?thesis by (metis option.inject prod.inject)
qed

text \<open>The pods a workload owns.\<close>

definition owned_pods :: "string \<Rightarrow> string \<Rightarrow> string \<Rightarrow> cached_pod list \<Rightarrow> cached_pod list" where
  "owned_pods ns kind name pods =
     filter (\<lambda>pod. om_Namespace (cp_Meta pod) = ns \<and>
       list_ex (\<lambda>ow. or_Kind ow = kind \<and> or_Name ow = name) (om_OwnerReferences (cp_Meta pod))) pods"

lemma statusPodTransform_index: "workloadOwnerIndexer (statusPodTransform obj) = workloadOwnerIndexer obj"
  by (cases obj) (simp_all add: copyPodOwnerReferences_def bare_meta_def)

section \<open>Properties\<close>

text \<open>The status of a Deployment is determined by its replicas and two conditions: empty without
  replicas, \<open>AVAILABLE\<close> when it is available and progressing, \<open>OUTDATED\<close> when it is only available,
  \<open>UNAVAILABLE\<close> otherwise; \<open>OTHER\<close> never occurs.\<close>

theorem deployment_status_table:
  "computeDeploymentStatus p body =
     (case sp_decodeStatus p body of
        None \<Rightarrow> None
      | Some st \<Rightarrow> Some (if ds_Replicas st = 0 then []
                         else if \<not> holds_condition st ''Available'' then ''UNAVAILABLE''
                         else if holds_condition st ''Progressing'' then ''AVAILABLE'' else ''OUTDATED''))"
  unfolding computeDeploymentStatus_def fold_conditions holds_condition_def by (auto split: option.split)

text \<open>C17: The status of a DaemonSet or StatefulSet agrees with its documented formula on exactly the pods
  it owns: when the informer indexes the cached pods and no namespace or kind contains the separator,
  the pods looked up are those with a matching owner reference, and the status is empty without pods,
  \<open>RUNNING\<close> when all have run or run, \<open>FAILED\<close> when all have failed or are unknown, else \<open>PENDING\<close>.\<close>

theorem pod_aggregate_status_spec:
  assumes "sp_podInformer p = Some (\<lambda>idx key. Some (filter (\<lambda>obj. key \<in> set (workloadOwnerIndexer obj)) (map CachedPod pods)))"
    and "\<And>pod. pod \<in> set pods \<Longrightarrow> CHR ''/'' \<notin> set (om_Namespace (cp_Meta pod)) \<and>
           (\<forall>ow \<in> set (om_OwnerReferences (cp_Meta pod)). CHR ''/'' \<notin> set (or_Kind ow))"
    and "CHR ''/'' \<notin> set ns" "CHR ''/'' \<notin> set kind"
  shows "computePodAggregateStatus p name ns kind =
     Some (let owned = owned_pods ns kind name pods in
           if owned = [] then []
           else if list_all (phase_in [''Running'', ''Succeeded'']) owned then ''RUNNING''
           else if list_all (phase_in [''Failed'', ''Unknown'']) owned then ''FAILED'' else ''PENDING'')"
proof -
  define owned where "owned = owned_pods ns kind name pods"
  have idx: "ownerKey ns kind name \<in> set (workloadOwnerIndexer (CachedPod pod)) \<longleftrightarrow>
      om_Namespace (cp_Meta pod) = ns \<and> list_ex (\<lambda>ow. or_Kind ow = kind \<and> or_Name ow = name) (om_OwnerReferences (cp_Meta pod))"
    if "pod \<in> set pods" for pod
  proof
    assume "ownerKey ns kind name \<in> set (workloadOwnerIndexer (CachedPod pod))"
    then obtain ow where ow: "ow \<in> set (om_OwnerReferences (cp_Meta pod))"
      "ownerKey ns kind name = ownerKey (om_Namespace (cp_Meta pod)) (or_Kind ow) (or_Name ow)" by auto
    from ownerKey_inj [OF assms(3) _ assms(4) _ ow(2)] assms(2) [OF that] ow(1)
    show "om_Namespace (cp_Meta pod) = ns \<and> list_ex (\<lambda>ow. or_Kind ow = kind \<and> or_Name ow = name) (om_OwnerReferences (cp_Meta pod))"
      by (auto simp: list_ex_iff)
  qed (auto simp: list_ex_iff)
  have pods: "getPodsForWorkload p name ns kind = owned"
  proof -
    have "getPodsForWorkload p name ns kind = filter (\<lambda>pod. ownerKey ns kind name \<in> set (workloadOwnerIndexer (CachedPod pod))) pods"
      unfolding getPodsForWorkload_def assms(1) by (simp add: filter_map o_def)
    also have "\<dots> = owned" unfolding owned_def owned_pods_def by (rule filter_cong) (use idx in auto)
    finally show ?thesis .
  qed
  let ?c = "fold count_phase owned \<lparr>pc_running = 0, pc_succeeded = 0, pc_failed = 0, pc_unknown = 0\<rparr>"
  have "pc_running ?c + pc_succeeded ?c = length owned \<longleftrightarrow> list_all (phase_in [''Running'', ''Succeeded'']) owned"
    "pc_failed ?c + pc_unknown ?c = length owned \<longleftrightarrow> list_all (phase_in [''Failed'', ''Unknown'']) owned"
    using fold_count_phase [of owned "\<lparr>pc_running = 0, pc_succeeded = 0, pc_failed = 0, pc_unknown = 0\<rparr>"]
    by (simp_all add: length_filter_all)
  then show ?thesis by (simp add: computePodAggregateStatus_def pods Let_def owned_def [symmetric])
qed

definition wit_cached_pod :: "string \<Rightarrow> cached_pod" where
  "wit_cached_pod phase = \<lparr>cp_Kind = ''Pod'', cp_Meta = wit_meta ''p'' [wit_owner ''DaemonSet'' ''d''], cp_Phase = phase\<rparr>"

definition wit_status_processor :: "cached_pod list \<Rightarrow> status_processor" where
  "wit_status_processor pods = \<lparr>sp_decodeStatus = (\<lambda>_. None), sp_decodeMeta = (\<lambda>_. Some (''d'', ''ns'')),
     sp_podInformer = Some (\<lambda>idx key. Some (filter (\<lambda>obj. key \<in> set (workloadOwnerIndexer obj)) (map CachedPod pods)))\<rparr>"

lemma pod_aggregate_status_spec_witness:
  "computePodAggregateStatus (wit_status_processor [wit_cached_pod ''Running'', wit_cached_pod ''Succeeded'']) ''d'' ''ns'' ''DaemonSet'' = Some ''RUNNING''"
proof -
  let ?pods = "[wit_cached_pod ''Running'', wit_cached_pod ''Succeeded'']"
  have i: "sp_podInformer (wit_status_processor ?pods) =
      Some (\<lambda>idx key. Some (filter (\<lambda>obj. key \<in> set (workloadOwnerIndexer obj)) (map CachedPod ?pods)))"
    by (simp add: wit_status_processor_def)
  have s: "CHR ''/'' \<notin> set (om_Namespace (cp_Meta pod)) \<and> (\<forall>ow \<in> set (om_OwnerReferences (cp_Meta pod)). CHR ''/'' \<notin> set (or_Kind ow))"
    if "pod \<in> set ?pods" for pod
    using that by (auto simp: wit_cached_pod_def wit_meta_def wit_owner_def)
  show ?thesis
    by (subst pod_aggregate_status_spec [OF i s])
      (simp_all add: wit_cached_pod_def wit_meta_def wit_owner_def phase_in_def owned_pods_def)
qed

lemma status_record_frame:
  assumes "k \<notin> {''sw.k8s.deployment.status'', ''sw.k8s.daemonset.status'', ''sw.k8s.statefulset.status''}"
  shows "p_get (lr_attrs (status_record p lr)) k = p_get (lr_attrs lr) k"
proof -
  have "strings_ToLower id DaemonSetKind = ''daemonset''" "strings_ToLower id StatefulSetKind = ''statefulset''"
    by code_simp+
  with assms show ?thesis
    by (auto simp: status_record_def Let_def split: option.split pvalue.split)
qed

lemma status_record_rest: "(status_record p lr)\<lparr>lr_attrs := []\<rparr> = lr\<lparr>lr_attrs := []\<rparr>"
  by (auto simp: status_record_def Let_def split: option.split pvalue.split)

lemma all_records_map:
  "all_records (map (\<lambda>rl. rl\<lparr>rl_scopes := map (\<lambda>sl. sl\<lparr>sl_records := map f (sl_records sl)\<rparr>) (rl_scopes rl)\<rparr>) ld) =
     map f (all_records ld)"
  by (simp add: all_records_def map_concat o_def)

definition strip_logs :: "logs \<Rightarrow> logs" where
  "strip_logs ld =
     map (\<lambda>rl. rl\<lparr>rl_scopes := map (\<lambda>sl. sl\<lparr>sl_records := map (\<lambda>lr. lr\<lparr>lr_attrs := []\<rparr>) (sl_records sl)\<rparr>) (rl_scopes rl)\<rparr>) ld"

text \<open>Processing logs writes status attributes and nothing else: bodies, times, resources and scopes
  stay, records stay in number and order, and every attribute other than the three status attributes
  keeps its value.\<close>

theorem status_logs_frame:
  "strip_logs (status_processLogs p ld) = strip_logs ld \<and>
   list_all2 (\<lambda>lr lr'. \<forall>k. p_get (lr_attrs lr') k = p_get (lr_attrs lr) k \<or>
       k \<in> {''sw.k8s.deployment.status'', ''sw.k8s.daemonset.status'', ''sw.k8s.statefulset.status''})
     (all_records ld) (all_records (status_processLogs p ld))"
proof
  show "strip_logs (status_processLogs p ld) = strip_logs ld"
    by (simp add: strip_logs_def status_processLogs_def o_def status_record_rest)
  show "list_all2 (\<lambda>lr lr'. \<forall>k. p_get (lr_attrs lr') k = p_get (lr_attrs lr) k \<or>
       k \<in> {''sw.k8s.deployment.status'', ''sw.k8s.daemonset.status'', ''sw.k8s.statefulset.status''})
     (all_records ld) (all_records (status_processLogs p ld))"
    unfolding status_processLogs_def all_records_map list.rel_map
    by (rule list.rel_refl) (use status_record_frame in blast)
qed

end
