(* ===== verification/K8s_Manifests.thy ===== *)
theory K8s_Manifests
  imports Pdata
begin

text \<open>
  The manifests the event generation processor reads
  (\<open>processor/k8seventgenerationprocessor/internal/manifests\<close>): pods with their containers,
  endpoints, endpoint slices and vulnerability reports, as the records that \<open>json.Unmarshal\<close>
  fills.  Parsing an image reference (go-containerregistry) is an argument: the full repository
  name, and the tag unless the reference is a digest.  The keys of a Go map are listed in the
  order in which ranging over it visits them.
\<close>

section \<open>Pods\<close>

type_synonym reference_parser = "string \<Rightarrow> (string \<times> string option) option"

record spec_container =
  sc_Name :: string
  sc_Image :: string

record status_container =
  st_Name :: string
  st_ContainerId :: string
  st_State :: "string list"
  st_ImageID :: string

record pod_metadata =
  pm_Name :: string
  pm_Namespace :: string
  pm_Labels :: "(string, string) gomap"

record pod_manifest =
  po_Metadata :: pod_metadata
  po_Containers :: "spec_container list"
  po_InitContainers :: "(spec_container \<times> string) list"
  po_ContainerStatuses :: "status_container list"
  po_InitContainerStatuses :: "status_container list"

record container_image =
  im_ImageID :: string
  im_Name :: string
  im_Tag :: string

record container =
  ct_Name :: string
  ct_ContainerId :: string
  ct_State :: string
  ct_IsInitContainer :: bool
  ct_IsSidecarContainer :: bool
  ct_Image :: container_image
  ct_IsDeployedByK8sCollector :: bool

type_synonym containers = "(string, container) gomap"

definition new_container :: "string \<Rightarrow> bool \<Rightarrow> bool \<Rightarrow> bool \<Rightarrow> container" where
  "new_container name initc sidecar deployed =
     \<lparr>ct_Name = name, ct_ContainerId = [], ct_State = [], ct_IsInitContainer = initc, ct_IsSidecarContainer = sidecar,
      ct_Image = \<lparr>im_ImageID = [], im_Name = [], im_Tag = []\<rparr>, ct_IsDeployedByK8sCollector = deployed\<rparr>"

definition parseImageNameAndTag :: "reference_parser \<Rightarrow> string \<Rightarrow> (string \<times> string) option" where
  "parseImageNameAndTag parseReference imageRef =
     (case parseReference imageRef of
        None \<Rightarrow> None
      | Some (imageName, tag) \<Rightarrow> Some (imageName, case tag of Some t \<Rightarrow> t | None \<Rightarrow> ''latest''))"

definition getState :: "string list \<Rightarrow> string" where
  "getState state = (case state of [] \<Rightarrow> [] | key # _ \<Rightarrow> key)"

text \<open>Changing the container of a name, if there is one.\<close>

definition update_container :: "string \<Rightarrow> (container \<Rightarrow> container) \<Rightarrow> containers \<Rightarrow> containers" where
  "update_container name f cs = (case gm_get cs name of None \<Rightarrow> cs | Some c \<Rightarrow> gm_put name (f c) cs)"

definition processSpec :: "reference_parser \<Rightarrow> spec_container \<Rightarrow> containers \<Rightarrow> containers" where
  "processSpec parseReference sc cs =
     update_container (sc_Name sc)
       (\<lambda>c. case parseImageNameAndTag parseReference (sc_Image sc) of
          None \<Rightarrow> c
        | Some (name, tag) \<Rightarrow> c\<lparr>ct_Image := (ct_Image c)\<lparr>im_Name := name, im_Tag := tag\<rparr>\<rparr>) cs"

definition processStatus :: "status_container \<Rightarrow> containers \<Rightarrow> containers" where
  "processStatus sc cs =
     update_container (st_Name sc) (\<lambda>c. c\<lparr>ct_Image := (ct_Image c)\<lparr>im_ImageID := st_ImageID sc\<rparr>\<rparr>) cs"

definition fillContainerImages :: "reference_parser \<Rightarrow> pod_manifest \<Rightarrow> containers \<Rightarrow> containers" where
  "fillContainerImages parseReference m cs =
     fold processStatus (po_InitContainerStatuses m)
       (fold processStatus (po_ContainerStatuses m)
         (fold (\<lambda>(sc, restartPolicy). processSpec parseReference sc) (po_InitContainers m)
           (fold (processSpec parseReference) (po_Containers m) cs)))"

definition fillContainer :: "status_container \<Rightarrow> containers \<Rightarrow> containers" where
  "fillContainer sc cs =
     update_container (st_Name sc) (\<lambda>c. c\<lparr>ct_ContainerId := st_ContainerId sc, ct_State := getState (st_State sc)\<rparr>) cs"

definition fillStates :: "pod_manifest \<Rightarrow> containers \<Rightarrow> containers" where
  "fillStates m cs =
     fold fillContainer (po_InitContainerStatuses m) (fold fillContainer (po_ContainerStatuses m) cs)"

definition isDeployedByK8sCollector :: "pod_manifest \<Rightarrow> bool" where
  "isDeployedByK8sCollector m =
     (gm_get (pm_Labels (po_Metadata m)) ''swo.cloud.solarwinds.com/deployed-with-k8s-collector'' = Some ''true'')"

definition getContainers :: "reference_parser \<Rightarrow> pod_manifest \<Rightarrow> containers" where
  "getContainers parseReference m =
     (let deployed = isDeployedByK8sCollector m;
          cs = fold (\<lambda>c. gm_put (sc_Name c) (new_container (sc_Name c) False False deployed)) (po_Containers m) [];
          cs = fold (\<lambda>(ic, restartPolicy). gm_put (sc_Name ic)
                       (new_container (sc_Name ic) True (restartPolicy = ''Always'') deployed)) (po_InitContainers m) cs
      in fillStates m (fillContainerImages parseReference m cs))"

section \<open>Endpoints and endpoint slices\<close>

record endpoint_subset =
  es_Addresses :: "string list"
  es_NotReadyAddresses :: "string list"

record endpoint_manifest =
  em_Name :: string
  em_Namespace :: string
  em_Subsets :: "endpoint_subset list"

record endpoint_slice_manifest =
  sl_ServiceName :: string
  sl_Namespace :: string
  sl_Endpoints :: "string list list"

type_synonym key_order = "string list \<Rightarrow> string list"

definition endpoint_GetAddresses :: "key_order \<Rightarrow> endpoint_manifest \<Rightarrow> string list" where
  "endpoint_GetAddresses ord m =
     ord (fold (\<lambda>sub addrs. fold List.insert (es_NotReadyAddresses sub) (fold List.insert (es_Addresses sub) addrs))
            (em_Subsets m) [])"

definition endpointSlice_GetAddresses :: "key_order \<Rightarrow> endpoint_slice_manifest \<Rightarrow> string list" where
  "endpointSlice_GetAddresses ord m =
     ord (fold (\<lambda>endpoint addrs. fold (\<lambda>a as. if a \<noteq> [] then List.insert a as else as) endpoint addrs)
            (sl_Endpoints m) [])"

text \<open>The interface \<open>ServiceMapping\<close>.\<close>

datatype service_mapping = Endpoints endpoint_manifest | EndpointSlice endpoint_slice_manifest

fun getAddresses :: "key_order \<Rightarrow> service_mapping \<Rightarrow> string list" where
  "getAddresses ord (Endpoints m) = endpoint_GetAddresses ord m"
| "getAddresses ord (EndpointSlice m) = endpointSlice_GetAddresses ord m"

fun getServiceName :: "service_mapping \<Rightarrow> string" where
  "getServiceName (Endpoints m) = em_Name m"
| "getServiceName (EndpointSlice m) = sl_ServiceName m"

fun getNamespace :: "service_mapping \<Rightarrow> string" where
  "getNamespace (Endpoints m) = em_Namespace m"
| "getNamespace (EndpointSlice m) = sl_Namespace m"

section \<open>Vulnerability reports\<close>

record cvss_source =
  cv_V2Score :: float64
  cv_V3Score :: float64

record vulnerability =
  vu_VulnerabilityID :: string
  vu_Severity :: string
  vu_Title :: string
  vu_Description :: string
  vu_Score :: float64
  vu_NVD :: cvss_source
  vu_RedHat :: cvss_source
  vu_Resource :: string
  vu_InstalledVersion :: string
  vu_FixedVersion :: string
  vu_PublishedDate :: string
  vu_LastModifiedDate :: string
  vu_PrimaryLink :: string
  vu_Links :: "string list"

record vulnerability_report =
  vr_ApiVersion :: string
  vr_Digest :: string
  vr_Repository :: string
  vr_Tag :: string
  vr_Server :: string
  vr_ScannerName :: string
  vr_ScannerVendor :: string
  vr_ScannerVersion :: string
  vr_Vulnerabilities :: "vulnerability list"

section \<open>Lemmas on the containers of a pod\<close>

lemma update_container_get:
  "gm_get (update_container n f cs) k = (if k = n then map_option f (gm_get cs k) else gm_get cs k)"
  by (auto simp: update_container_def gm_get_put split: option.split)

lemma update_container_wf: "gm_wf cs \<Longrightarrow> gm_wf (update_container n f cs)"
  by (simp add: update_container_def split: option.split)

text \<open>A sequence of changes, each to the container of one name: the changes of a name in order.\<close>

lemma fold_update_get:
  "gm_get (fold (\<lambda>x. update_container (nm x) (f x)) xs cs) k =
     map_option (fold f (filter (\<lambda>x. nm x = k) xs)) (gm_get cs k)"
  by (induction xs arbitrary: cs) (auto simp: update_container_get option.map_comp o_def option.map_id)

lemma fold_update_wf: "gm_wf cs \<Longrightarrow> gm_wf (fold (\<lambda>x. update_container (nm x) (f x)) xs cs)"
  by (induction xs arbitrary: cs) (simp_all add: update_container_wf)

text \<open>What the statuses of a pod say of a container: the last status of its name counts.\<close>

definition last_status :: "pod_manifest \<Rightarrow> string \<Rightarrow> status_container option" where
  "last_status m n = find (\<lambda>s. st_Name s = n) (rev (po_ContainerStatuses m @ po_InitContainerStatuses m))"

lemma find_rev_filter: "find P (rev xs) = (if filter P xs = [] then None else Some (last (filter P xs)))"
  by (induction xs rule: rev_induct) auto

lemma fold_overwrite:
  assumes "\<And>s t c. f s (f t c) = f s c"
  shows "fold f xs c = (if xs = [] then c else f (last xs) c)"
  by (induction xs rule: rev_induct) (auto simp: assms)

lemma getContainers_stages:
  "getContainers pr m =
     fold (\<lambda>s. update_container (st_Name s) (\<lambda>c. c\<lparr>ct_ContainerId := st_ContainerId s, ct_State := getState (st_State s)\<rparr>))
       (po_ContainerStatuses m @ po_InitContainerStatuses m)
    (fold (\<lambda>s. update_container (st_Name s) (\<lambda>c. c\<lparr>ct_Image := (ct_Image c)\<lparr>im_ImageID := st_ImageID s\<rparr>\<rparr>))
       (po_ContainerStatuses m @ po_InitContainerStatuses m)
    (fold (\<lambda>sc. update_container (sc_Name sc) (\<lambda>c. case parseImageNameAndTag pr (sc_Image sc) of
          None \<Rightarrow> c | Some (name, tag) \<Rightarrow> c\<lparr>ct_Image := (ct_Image c)\<lparr>im_Name := name, im_Tag := tag\<rparr>\<rparr>))
       (po_Containers m @ map fst (po_InitContainers m))
    (fold (\<lambda>(ic, rp). gm_put (sc_Name ic) (new_container (sc_Name ic) True (rp = ''Always'') (isDeployedByK8sCollector m)))
       (po_InitContainers m)
    (fold (\<lambda>c. gm_put (sc_Name c) (new_container (sc_Name c) False False (isDeployedByK8sCollector m))) (po_Containers m) []))))"
  by (simp add: getContainers_def fillStates_def fillContainerImages_def Let_def fold_map o_def case_prod_beta'
      fillContainer_def [abs_def] processStatus_def [abs_def] processSpec_def [abs_def])

lemma base_spec_get:
  "gm_get (fold (\<lambda>c. gm_put (sc_Name c) (new_container (sc_Name c) False False d)) xs cs) n =
     (if n \<in> sc_Name ` set xs then Some (new_container n False False d) else gm_get cs n)"
  by (induction xs arbitrary: cs) (auto simp: gm_get_put)

lemma base_init_get:
  "if n \<in> (\<lambda>(ic, rp). sc_Name ic) ` set xs
   then \<exists>b. gm_get (fold (\<lambda>(ic, rp). gm_put (sc_Name ic) (new_container (sc_Name ic) True (rp = ''Always'') d)) xs cs) n =
          Some (new_container n True b d)
   else gm_get (fold (\<lambda>(ic, rp). gm_put (sc_Name ic) (new_container (sc_Name ic) True (rp = ''Always'') d)) xs cs) n = gm_get cs n"
proof (induction xs rule: rev_induct)
  case (snoc x xs)
  then show ?case by (cases x) (auto simp: gm_get_put split: if_splits)
qed simp

lemma base_wf:
  "gm_wf cs \<Longrightarrow> gm_wf (fold (\<lambda>c. gm_put (sc_Name c) (f c)) xs cs)"
  "gm_wf cs \<Longrightarrow> gm_wf (fold (\<lambda>(ic, rp). gm_put (sc_Name ic) (g ic rp)) ys cs)"
  by (induction xs arbitrary: cs, simp_all) (induction ys arbitrary: cs, auto)

definition spec_names :: "pod_manifest \<Rightarrow> string set" where
  "spec_names m = sc_Name ` set (po_Containers m)"

definition init_names :: "pod_manifest \<Rightarrow> string set" where
  "init_names m = (\<lambda>(ic, rp). sc_Name ic) ` set (po_InitContainers m)"

text \<open>The fields the image stage may change.\<close>

lemma fold_image_frame:
  "ct_Name (fold (\<lambda>sc c. case parseImageNameAndTag pr (sc_Image sc) of
      None \<Rightarrow> c | Some (name, tag) \<Rightarrow> c\<lparr>ct_Image := (ct_Image c)\<lparr>im_Name := name, im_Tag := tag\<rparr>\<rparr>) xs c) = ct_Name c \<and>
   ct_IsInitContainer (fold (\<lambda>sc c. case parseImageNameAndTag pr (sc_Image sc) of
      None \<Rightarrow> c | Some (name, tag) \<Rightarrow> c\<lparr>ct_Image := (ct_Image c)\<lparr>im_Name := name, im_Tag := tag\<rparr>\<rparr>) xs c) = ct_IsInitContainer c \<and>
   ct_ContainerId (fold (\<lambda>sc c. case parseImageNameAndTag pr (sc_Image sc) of
      None \<Rightarrow> c | Some (name, tag) \<Rightarrow> c\<lparr>ct_Image := (ct_Image c)\<lparr>im_Name := name, im_Tag := tag\<rparr>\<rparr>) xs c) = ct_ContainerId c \<and>
   ct_State (fold (\<lambda>sc c. case parseImageNameAndTag pr (sc_Image sc) of
      None \<Rightarrow> c | Some (name, tag) \<Rightarrow> c\<lparr>ct_Image := (ct_Image c)\<lparr>im_Name := name, im_Tag := tag\<rparr>\<rparr>) xs c) = ct_State c \<and>
   im_ImageID (ct_Image (fold (\<lambda>sc c. case parseImageNameAndTag pr (sc_Image sc) of
      None \<Rightarrow> c | Some (name, tag) \<Rightarrow> c\<lparr>ct_Image := (ct_Image c)\<lparr>im_Name := name, im_Tag := tag\<rparr>\<rparr>) xs c)) = im_ImageID (ct_Image c)"
  by (induction xs arbitrary: c) (simp_all split: option.split prod.split)

section \<open>Properties\<close>

text \<open>The containers of a pod are those of its specification, each with the data of its last status:
  a container is listed exactly when a container or init container has its name, it is an init
  container exactly when an init container has the name, and its id, state and image id are those of
  the last status with its name (init statuses last), or empty without one.\<close>

theorem getContainers_spec:
  "gm_wf (getContainers pr m) \<and>
   (case gm_get (getContainers pr m) n of
      None \<Rightarrow> n \<notin> spec_names m \<union> init_names m
    | Some c \<Rightarrow> n \<in> spec_names m \<union> init_names m \<and> ct_Name c = n \<and> (ct_IsInitContainer c \<longleftrightarrow> n \<in> init_names m) \<and>
        ct_ContainerId c = (case last_status m n of None \<Rightarrow> [] | Some s \<Rightarrow> st_ContainerId s) \<and>
        ct_State c = (case last_status m n of None \<Rightarrow> [] | Some s \<Rightarrow> getState (st_State s)) \<and>
        im_ImageID (ct_Image c) = (case last_status m n of None \<Rightarrow> [] | Some s \<Rightarrow> st_ImageID s))"
proof
  show "gm_wf (getContainers pr m)"
    unfolding getContainers_stages by (intro fold_update_wf base_wf gm_wf_Nil)
  define specs where "specs = filter (\<lambda>sc. sc_Name sc = n) (po_Containers m @ map fst (po_InitContainers m))"
  define sts where "sts = filter (\<lambda>s. st_Name s = n) (po_ContainerStatuses m @ po_InitContainerStatuses m)"
  define d where "d = isDeployedByK8sCollector m"
  define base where "base = fold (\<lambda>(ic, rp). gm_put (sc_Name ic) (new_container (sc_Name ic) True (rp = ''Always'') d)) (po_InitContainers m)
    (fold (\<lambda>c. gm_put (sc_Name c) (new_container (sc_Name c) False False d)) (po_Containers m) [])"
  let ?P = "\<lambda>sc c. case parseImageNameAndTag pr (sc_Image sc) of
      None \<Rightarrow> c | Some (name, tag) \<Rightarrow> c\<lparr>ct_Image := (ct_Image c)\<lparr>im_Name := name, im_Tag := tag\<rparr>\<rparr>"
  let ?I = "\<lambda>s c. c\<lparr>ct_Image := (ct_Image c)\<lparr>im_ImageID := st_ImageID s\<rparr>\<rparr>"
  let ?S = "\<lambda>s c. c\<lparr>ct_ContainerId := st_ContainerId s, ct_State := getState (st_State s)\<rparr>"
  have get: "gm_get (getContainers pr m) n = map_option (\<lambda>c. fold ?S sts (fold ?I sts (fold ?P specs c))) (gm_get base n)"
    unfolding getContainers_stages fold_update_get specs_def sts_def base_def d_def
    by (simp add: option.map_comp o_def)
  have ls: "last_status m n = (if sts = [] then None else Some (last sts))"
    unfolding last_status_def find_rev_filter sts_def by simp
  have I: "fold ?I sts c = (if sts = [] then c else ?I (last sts) c)" for c by (rule fold_overwrite) simp
  have S: "fold ?S sts c = (if sts = [] then c else ?S (last sts) c)" for c by (rule fold_overwrite) simp
  have base: "case gm_get base n of
      None \<Rightarrow> n \<notin> spec_names m \<union> init_names m
    | Some c \<Rightarrow> n \<in> spec_names m \<union> init_names m \<and> (\<exists>b. c = new_container n (n \<in> init_names m) b d)"
    using base_init_get [of n "po_InitContainers m" d "fold (\<lambda>c. gm_put (sc_Name c) (new_container (sc_Name c) False False d)) (po_Containers m) []"]
    unfolding base_spec_get base_def [symmetric] spec_names_def [symmetric] init_names_def [symmetric]
    by (cases "n \<in> init_names m"; cases "n \<in> spec_names m") auto
  show "case gm_get (getContainers pr m) n of
      None \<Rightarrow> n \<notin> spec_names m \<union> init_names m
    | Some c \<Rightarrow> n \<in> spec_names m \<union> init_names m \<and> ct_Name c = n \<and> (ct_IsInitContainer c \<longleftrightarrow> n \<in> init_names m) \<and>
        ct_ContainerId c = (case last_status m n of None \<Rightarrow> [] | Some s \<Rightarrow> st_ContainerId s) \<and>
        ct_State c = (case last_status m n of None \<Rightarrow> [] | Some s \<Rightarrow> getState (st_State s)) \<and>
        im_ImageID (ct_Image c) = (case last_status m n of None \<Rightarrow> [] | Some s \<Rightarrow> st_ImageID s)"
  proof (cases "gm_get base n")
    case None
    with base get show ?thesis by simp
  next
    case (Some c)
    with base obtain b where c: "n \<in> spec_names m \<union> init_names m" "c = new_container n (n \<in> init_names m) b d" by auto
    note fr = fold_image_frame [of pr specs c]
    show ?thesis
      unfolding get Some option.map option.case I S ls
      using c fr by (cases "sts = []") (simp_all add: new_container_def)
  qed
qed

lemma fold_insert_filter:
  "set (fold (\<lambda>a as. if P a then List.insert a as else as) xs acc) = set acc \<union> {a \<in> set xs. P a} \<and>
   (distinct acc \<longrightarrow> distinct (fold (\<lambda>a as. if P a then List.insert a as else as) xs acc))"
  by (induction xs arbitrary: acc) auto

lemma fold_concat_insert:
  "fold (\<lambda>ys. fold f (g ys)) xss acc = fold f (concat (map g xss)) acc"
  by (induction xss arbitrary: acc) simp_all

lemma endpoint_addresses_fold:
  "endpoint_GetAddresses ord m =
     ord (fold (\<lambda>a as. if True then List.insert a as else as)
            (concat (map (\<lambda>sub. es_Addresses sub @ es_NotReadyAddresses sub) (em_Subsets m))) [])"
  unfolding endpoint_GetAddresses_def by (simp add: fold_concat_insert [symmetric] o_def)

lemma slice_addresses_fold:
  "endpointSlice_GetAddresses ord m =
     ord (fold (\<lambda>a as. if a \<noteq> [] then List.insert a as else as) (concat (sl_Endpoints m)) [])"
  unfolding endpointSlice_GetAddresses_def
  using fold_concat_insert [of "\<lambda>a as. if a \<noteq> [] then List.insert a as else as" "\<lambda>x. x" "sl_Endpoints m" "[]"]
  by (metis list.map_ident)

text \<open>The addresses of a service are listed once each, whatever the order of the map: those of all
  ready and not ready endpoints, respectively the non-empty ones of all slice endpoints.\<close>

theorem addresses_listed_once:
  assumes "map_order ord"
  shows "distinct (getAddresses ord sm) \<and>
    set (getAddresses ord sm) =
      (case sm of
         Endpoints m \<Rightarrow> (\<Union>sub \<in> set (em_Subsets m). set (es_Addresses sub) \<union> set (es_NotReadyAddresses sub))
       | EndpointSlice m \<Rightarrow> (\<Union>as \<in> set (sl_Endpoints m). set as) - {[]})"
proof (cases sm)
  case (Endpoints m)
  then show ?thesis
    using fold_insert_filter [of "\<lambda>_. True" "concat (map (\<lambda>sub. es_Addresses sub @ es_NotReadyAddresses sub) (em_Subsets m))" "[]"]
    by (auto simp: endpoint_addresses_fold map_order_set [OF assms] map_order_distinct [OF assms])
next
  case (EndpointSlice m)
  then show ?thesis
    using fold_insert_filter [of "\<lambda>a. a \<noteq> []" "concat (sl_Endpoints m)" "[]"]
    by (auto simp: slice_addresses_fold map_order_set [OF assms] map_order_distinct [OF assms])
qed

lemma addresses_listed_once_witness:
  "map_order (rev :: key_order) \<and>
   set (getAddresses rev (EndpointSlice \<lparr>sl_ServiceName = ''s'', sl_Namespace = ''n'', sl_Endpoints = [[''10.0.0.1'', []], [''10.0.0.1'']]\<rparr>)) = {''10.0.0.1''}"
  using addresses_listed_once [OF map_order_rev, of "EndpointSlice \<lparr>sl_ServiceName = ''s'', sl_Namespace = ''n'', sl_Endpoints = [[''10.0.0.1'', []], [''10.0.0.1'']]\<rparr>"]
  by auto

end
