(* ===== verification/K8s_Event_Logs.thy ===== *)
theory K8s_Event_Logs
  imports K8s_Manifests
begin

text \<open>
  The event generation processor (\<open>processor/k8seventgenerationprocessor\<close>): the log records for
  containers, images, their relations, service endpoints and vulnerabilities
  (\<open>log_constructor.go\<close>, \<open>vulnerability_log_constructor.go\<close>) and the processing of a batch
  (\<open>processor.go\<close>).  The two goroutines of \<open>processLogs\<close> exchange manifests over an unbuffered
  channel in record order, so the batch is processed as one sequence.  Digest validation, image
  references and JSON are arguments.
\<close>

section \<open>Constants and environment\<close>

abbreviation otelEntityEventAsLog :: string where "otelEntityEventAsLog \<equiv> ''otel.entity.event_as_log''"
abbreviation otelEntityEventType :: string where "otelEntityEventType \<equiv> ''otel.entity.event.type''"
abbreviation swEntityType :: string where "swEntityType \<equiv> ''otel.entity.type''"
abbreviation otelEntityId :: string where "otelEntityId \<equiv> ''otel.entity.id''"
abbreviation otelEntityAttributes :: string where "otelEntityAttributes \<equiv> ''otel.entity.attributes''"
abbreviation swK8sClusterUid :: string where "swK8sClusterUid \<equiv> ''sw.k8s.cluster.uid''"
abbreviation relSrcEntityIds :: string where "relSrcEntityIds \<equiv> ''otel.entity_relationship.source_entity.id''"
abbreviation relDestEntityIds :: string where "relDestEntityIds \<equiv> ''otel.entity_relationship.destination_entity.id''"
abbreviation relType :: string where "relType \<equiv> ''otel.entity_relationship.type''"
abbreviation relSrcEntityType :: string where "relSrcEntityType \<equiv> ''otel.entity_relationship.source_entity.type''"
abbreviation relDestEntityType :: string where "relDestEntityType \<equiv> ''otel.entity_relationship.destination_entity.type''"
abbreviation relAttributes :: string where "relAttributes \<equiv> ''otel.entity_relationship.attributes''"
abbreviation entityState :: string where "entityState \<equiv> ''entity_state''"
abbreviation relationshipState :: string where "relationshipState \<equiv> ''entity_relationship_state''"
abbreviation k8sContainerEntityType :: string where "k8sContainerEntityType \<equiv> ''KubernetesContainer''"
abbreviation k8sContainerImageEntityType :: string where "k8sContainerImageEntityType \<equiv> ''KubernetesContainerImage''"
abbreviation containerImageEntityType :: string where "containerImageEntityType \<equiv> ''ContainerImage''"
abbreviation vulnerabilityEntityType :: string where "vulnerabilityEntityType \<equiv> ''VulnerabilityDetail''"
abbreviation podNameKey :: string where "podNameKey \<equiv> ''k8s.pod.name''"
abbreviation namespaceNameKey :: string where "namespaceNameKey \<equiv> ''k8s.namespace.name''"
abbreviation containerNameKey :: string where "containerNameKey \<equiv> ''k8s.container.name''"
abbreviation containerImageNameKey :: string where "containerImageNameKey \<equiv> ''container.image.name''"
abbreviation ociManifestDigest :: string where "ociManifestDigest \<equiv> ''oci.manifest.digest''"
abbreviation containerImageTags :: string where "containerImageTags \<equiv> ''container.image.tags''"

type_synonym container_order = "(string \<times> container) list \<Rightarrow> (string \<times> container) list"

record event_env =
  ee_lower :: "string \<Rightarrow> string"
  ee_upper :: "string \<Rightarrow> string"
  ee_validDigest :: "string \<Rightarrow> bool"
  ee_parseReference :: reference_parser
  ee_asString :: "pvalue \<Rightarrow> string"
  ee_decodePod :: "string \<Rightarrow> pod_manifest option"
  ee_decodeEndpoints :: "string \<Rightarrow> endpoint_manifest option"
  ee_decodeEndpointSlice :: "string \<Rightarrow> endpoint_slice_manifest option"
  ee_decodeVulnerabilityReport :: "string \<Rightarrow> vulnerability_report option"
  ee_containers :: "nat \<Rightarrow> container_order"
  ee_addresses :: key_order
  ee_now :: u64

section \<open>Digests and image names\<close>

definition runtimePrefixes :: "string list" where
  "runtimePrefixes = [''docker://'', ''containerd://'', ''cri-o://'', ''docker-pullable://'']"

definition extractSha256Digest :: "(string \<Rightarrow> string) \<Rightarrow> string \<Rightarrow> string" where
  "extractSha256Digest uni fullDigest =
     (if fullDigest = [] then []
      else
        let digest = fold (\<lambda>pre digest. strings_TrimPrefix digest pre) runtimePrefixes fullDigest;
            digest = (case strings_Index digest CHR ''@'' of None \<Rightarrow> digest | Some idx \<Rightarrow> drop (idx + 1) digest) in
        case strings_Cut digest CHR '':'' of
          Some (algorithm, hash) \<Rightarrow> strings_ToLower uni algorithm @ '':'' @ strings_ToLower uni hash
        | None \<Rightarrow> ''sha256:'' @ digest)"

definition normalizeVulnerabilityReportImage :: "reference_parser \<Rightarrow> string \<Rightarrow> string \<Rightarrow> string \<Rightarrow> string" where
  "normalizeVulnerabilityReportImage parseReference registry repository tag =
     (if repository = [] then []
      else
        let imageRef = (if registry \<noteq> [] then registry @ ''/'' @ repository else repository);
            imageRef = (if tag \<noteq> [] then imageRef @ '':'' @ tag else imageRef) in
        case parseReference imageRef of None \<Rightarrow> imageRef | Some (name, _) \<Rightarrow> name)"

section \<open>Records of containers and images\<close>

definition record_at :: "u64 \<Rightarrow> pmap \<Rightarrow> log_record" where
  "record_at t attrs = new_record\<lparr>lr_observed := t, lr_attrs := attrs\<rparr>"

definition strs :: "(string \<times> string) list \<Rightarrow> pmap" where
  "strs kvs = fold (\<lambda>(k, v). p_putStr k v) kvs []"

definition container_ids :: "pod_metadata \<Rightarrow> container \<Rightarrow> string \<Rightarrow> pmap" where
  "container_ids md c clusterUID =
     strs [(podNameKey, pm_Name md), (namespaceNameKey, pm_Namespace md), (containerNameKey, ct_Name c),
           (swK8sClusterUid, clusterUID)]"

definition addContainerAttributes :: "pod_metadata \<Rightarrow> container \<Rightarrow> string \<Rightarrow> pmap" where
  "addContainerAttributes md c clusterUID =
     (let attrs = strs [(otelEntityEventType, entityState), (swEntityType, k8sContainerEntityType)];
          attrs = p_put otelEntityId (VMap (container_ids md c clusterUID)) attrs;
          ea = strs [(''container.id'', ct_ContainerId c), (''sw.k8s.container.status'', ct_State c)];
          ea = p_put ''sw.k8s.container.init'' (VBool (ct_IsInitContainer c)) ea;
          ea = p_put ''sw.k8s.container.sidecar'' (VBool (ct_IsSidecarContainer c)) ea;
          ea = (if ct_IsDeployedByK8sCollector c
                then p_put ''sw.k8s.deployedbycollector'' (VBool (ct_IsDeployedByK8sCollector c)) ea else ea)
      in p_put otelEntityAttributes (VMap ea) attrs)"

definition transformContainersToContainerLogs ::
  "container_order \<Rightarrow> containers \<Rightarrow> pod_metadata \<Rightarrow> u64 \<Rightarrow> string \<Rightarrow> log_record list" where
  "transformContainersToContainerLogs ord cs md t clusterUID =
     map (\<lambda>(n, c). record_at t (addContainerAttributes md c clusterUID)) (ord cs)"

definition image_ids :: "string \<Rightarrow> string \<Rightarrow> string \<Rightarrow> pmap" where
  "image_ids clusterUID digest name =
     strs [(swK8sClusterUid, clusterUID), (ociManifestDigest, digest), (containerImageNameKey, name)]"

definition tag_attributes :: "string \<Rightarrow> pmap" where
  "tag_attributes tag = p_put containerImageTags (VSlice (if tag \<noteq> [] then [VStr tag] else [])) []"

definition addContainerImageAttributes :: "(string \<Rightarrow> string) \<Rightarrow> container_image \<Rightarrow> string \<Rightarrow> pmap" where
  "addContainerImageAttributes uni i clusterUID =
     (let attrs = strs [(otelEntityEventType, entityState), (swEntityType, k8sContainerImageEntityType)];
          attrs = p_put otelEntityId (VMap (image_ids clusterUID (extractSha256Digest uni (im_ImageID i)) (im_Name i))) attrs
      in p_put otelEntityAttributes (VMap (tag_attributes (im_Tag i))) attrs)"

text \<open>The loops that skip some containers and emit one record per new key.\<close>

fun emit_unique :: "('c \<Rightarrow> 'k option) \<Rightarrow> ('c \<Rightarrow> 'r) \<Rightarrow> 'c list \<Rightarrow> 'k list \<Rightarrow> 'r list" where
  "emit_unique key emit [] seen = []"
| "emit_unique key emit (c # cs) seen =
     (case key c of
        None \<Rightarrow> emit_unique key emit cs seen
      | Some k \<Rightarrow> if k \<in> set seen then emit_unique key emit cs seen
                  else emit c # emit_unique key emit cs (k # seen))"

definition image_identity :: "event_env \<Rightarrow> container \<Rightarrow> (string \<times> string) option" where
  "image_identity nv c =
     (if im_ImageID (ct_Image c) = [] then None
      else Some (extractSha256Digest (ee_lower nv) (im_ImageID (ct_Image c)), im_Name (ct_Image c)))"

definition transformContainersToContainerImageLogs ::
  "event_env \<Rightarrow> container_order \<Rightarrow> containers \<Rightarrow> u64 \<Rightarrow> string \<Rightarrow> log_record list" where
  "transformContainersToContainerImageLogs nv ord cs t clusterUID =
     (if clusterUID = [] then []
      else emit_unique (image_identity nv)
             (\<lambda>c. record_at t (addContainerImageAttributes (ee_lower nv) (ct_Image c) clusterUID))
             (map snd (ord cs)) [])"

definition addContainerImageRelationAttributes ::
  "(string \<Rightarrow> string) \<Rightarrow> pod_metadata \<Rightarrow> container \<Rightarrow> string \<Rightarrow> pmap" where
  "addContainerImageRelationAttributes uni md c clusterUID =
     (let attrs = strs [(otelEntityEventType, relationshipState), (relType, ''KubernetesResourceUsesImage'')];
          attrs = p_put relSrcEntityIds (VMap (container_ids md c clusterUID)) attrs;
          attrs = p_put relDestEntityIds
                    (VMap (image_ids clusterUID (extractSha256Digest uni (im_ImageID (ct_Image c))) (im_Name (ct_Image c)))) attrs;
          attrs = p_putStr relSrcEntityType k8sContainerEntityType attrs;
          attrs = p_putStr relDestEntityType k8sContainerImageEntityType attrs
      in p_put relAttributes (VMap (strs [(''imageTag'', im_Tag (ct_Image c))])) attrs)"

definition transformContainersToContainerImageRelationsLogs ::
  "event_env \<Rightarrow> container_order \<Rightarrow> containers \<Rightarrow> pod_metadata \<Rightarrow> u64 \<Rightarrow> string \<Rightarrow> log_record list" where
  "transformContainersToContainerImageRelationsLogs nv ord cs md t clusterUID =
     (if clusterUID = [] then []
      else map (\<lambda>(n, c). record_at t (addContainerImageRelationAttributes (ee_lower nv) md c clusterUID)) (ord cs))"

text \<open>The digest of a container with a well-formed image id.\<close>

definition valid_digest_of :: "event_env \<Rightarrow> container \<Rightarrow> string option" where
  "valid_digest_of nv c =
     (if im_ImageID (ct_Image c) = [] then None
      else let digest = extractSha256Digest (ee_lower nv) (im_ImageID (ct_Image c)) in
           if digest = [] \<or> \<not> ee_validDigest nv digest then None else Some digest)"

definition transformContainersToContainerImageEntityLogs ::
  "event_env \<Rightarrow> container_order \<Rightarrow> containers \<Rightarrow> u64 \<Rightarrow> log_record list" where
  "transformContainersToContainerImageEntityLogs nv ord cs t =
     emit_unique (valid_digest_of nv)
       (\<lambda>c. record_at t
          (p_put otelEntityId
             (VMap (strs [(ociManifestDigest, extractSha256Digest (ee_lower nv) (im_ImageID (ct_Image c)))]))
             (strs [(otelEntityEventType, entityState), (swEntityType, containerImageEntityType)])))
       (map snd (ord cs)) []"

definition transformContainersToContainerImageRelatesToLogs ::
  "event_env \<Rightarrow> container_order \<Rightarrow> containers \<Rightarrow> u64 \<Rightarrow> string \<Rightarrow> log_record list" where
  "transformContainersToContainerImageRelatesToLogs nv ord cs t clusterUID =
     (if clusterUID = [] then []
      else emit_unique (\<lambda>c. map_option (\<lambda>digest. (digest, im_Name (ct_Image c))) (valid_digest_of nv c))
        (\<lambda>c. let digest = extractSha256Digest (ee_lower nv) (im_ImageID (ct_Image c));
                 attrs = strs [(otelEntityEventType, relationshipState), (relType, ''RelatesTo''),
                               (relSrcEntityType, containerImageEntityType)];
                 attrs = p_put relSrcEntityIds (VMap (strs [(ociManifestDigest, digest)])) attrs;
                 attrs = p_putStr relDestEntityType k8sContainerImageEntityType attrs
             in record_at t (p_put relDestEntityIds (VMap (image_ids clusterUID digest (im_Name (ct_Image c)))) attrs))
        (map snd (ord cs)) [])"

definition transformManifestToServiceMappingLogs ::
  "key_order \<Rightarrow> service_mapping \<Rightarrow> u64 \<Rightarrow> string \<Rightarrow> log_record list" where
  "transformManifestToServiceMappingLogs ord m t clusterUID =
     map (\<lambda>addr. record_at t
            (strs [(''k8s.service.name'', getServiceName m), (namespaceNameKey, getNamespace m),
                   (''sw.k8s.workload.ip'', addr), (swK8sClusterUid, clusterUID)]))
       (getAddresses ord m)"

section \<open>Records of vulnerabilities\<close>

definition canonicalizeVulnerabilityID :: "vulnerability \<Rightarrow> string" where
  "canonicalizeVulnerabilityID v = vu_VulnerabilityID v"

definition extractCVSSScore :: "vulnerability \<Rightarrow> float64 \<times> string" where
  "extractCVSSScore v =
     (if f64_gt (cv_V3Score (vu_NVD v)) 0 then (cv_V3Score (vu_NVD v), ''3.0'')
      else if f64_gt (cv_V3Score (vu_RedHat v)) 0 then (cv_V3Score (vu_RedHat v), ''3.0'')
      else if f64_gt (cv_V2Score (vu_NVD v)) 0 then (cv_V2Score (vu_NVD v), ''2.0'')
      else if f64_gt (cv_V2Score (vu_RedHat v)) 0 then (cv_V2Score (vu_RedHat v), ''2.0'')
      else (Finite 0, []))"

definition calculateSeverityFromScore :: "float64 \<Rightarrow> string" where
  "calculateSeverityFromScore score =
     (if f64_le score 0 then []
      else
        let score = (if f64_gt score 10 then Finite 10 else score) in
        if f64_ge score 9 then ''CRITICAL''
        else if f64_ge score 7 then ''HIGH''
        else if f64_ge score 4 then ''MEDIUM''
        else ''LOW'')"

definition mapVendorSeverityToCategory :: "(string \<Rightarrow> string) \<Rightarrow> string \<Rightarrow> string" where
  "mapVendorSeverityToCategory uni vendorSeverity =
     (let s = strings_ToUpper uni vendorSeverity in
      if s = ''CRITICAL'' then ''CRITICAL''
      else if s = ''HIGH'' \<or> s = ''IMPORTANT'' then ''HIGH''
      else if s = ''MEDIUM'' \<or> s = ''MODERATE'' then ''MEDIUM''
      else if s = ''LOW'' then ''LOW''
      else ''UNKNOWN'')"

definition vulnerability_ids :: "vulnerability \<Rightarrow> pmap" where
  "vulnerability_ids v =
     strs [(''vulnerability.id'', canonicalizeVulnerabilityID v), (''vulnerability.resource'', vu_Resource v),
           (''vulnerability.installed_version'', vu_InstalledVersion v)]"

definition score_attributes :: "vulnerability \<Rightarrow> pmap \<Rightarrow> pmap" where
  "score_attributes v ea =
     (let (cvssScore, cvssVersion) = extractCVSSScore v;
          put_severity = (\<lambda>score ea. let sev = calculateSeverityFromScore score in
                            if sev \<noteq> [] then p_putStr ''vulnerability.severity'' sev ea else ea) in
      if f64_gt cvssScore 0
      then put_severity cvssScore
             (p_putStr ''vulnerability.score.version'' cvssVersion (p_put ''vulnerability.score.base'' (VDouble cvssScore) ea))
      else if f64_gt (vu_Score v) 0
      then put_severity (vu_Score v) (p_put ''vulnerability.score.base'' (VDouble (vu_Score v)) ea)
      else ea)"

definition enumeration_attribute :: "string \<Rightarrow> pmap \<Rightarrow> pmap" where
  "enumeration_attribute canonicalID ea =
     (if strings_HasPrefix canonicalID ''CVE'' then p_putStr ''vulnerability.enumeration'' ''CVE'' ea
      else if strings_HasPrefix canonicalID ''GHSA'' then p_putStr ''vulnerability.enumeration'' ''GHSA'' ea
      else if strings_HasPrefix canonicalID ''OSV'' then p_putStr ''vulnerability.enumeration'' ''OSV'' ea
      else ea)"

definition references :: "vulnerability \<Rightarrow> pvalue list" where
  "references v =
     map VStr ((if vu_PrimaryLink v \<noteq> [] then [vu_PrimaryLink v] else []) @
               filter (\<lambda>link. link \<noteq> [] \<and> link \<noteq> vu_PrimaryLink v) (vu_Links v))"

definition vulnerability_attributes :: "event_env \<Rightarrow> vulnerability \<Rightarrow> pmap" where
  "vulnerability_attributes nv v =
     (let canonicalID = canonicalizeVulnerabilityID v;
          ea = strs [(''vulnerability.id'', canonicalID),
                     (''vulnerability.description'', if vu_Description v = [] then vu_Title v else vu_Description v)];
          ea = score_attributes v ea;
          ea = p_putStr ''vulnerability.classification'' ''CVSS'' ea;
          ea = (if vu_PublishedDate v \<noteq> [] then p_putStr ''vulnerability.published_date'' (vu_PublishedDate v) ea else ea);
          ea = (if vu_LastModifiedDate v \<noteq> [] then p_putStr ''vulnerability.last_modified_date'' (vu_LastModifiedDate v) ea else ea);
          ea = enumeration_attribute canonicalID ea;
          ea = p_put ''vulnerability.reference'' (VSlice (references v)) ea;
          ea = p_putStr ''vulnerability.resource'' (vu_Resource v) ea;
          ea = p_putStr ''vulnerability.installed_version'' (vu_InstalledVersion v) ea;
          ea = p_putStr ''vulnerability.fixed_version'' (vu_FixedVersion v) ea;
          ea = (if vu_Severity v \<noteq> []
                then p_putStr ''sw.vulnerability.severity.vendor_category'' (mapVendorSeverityToCategory (ee_upper nv) (vu_Severity v))
                       (p_putStr ''vulnerability.severity.vendor'' (vu_Severity v) ea)
                else ea) in
      if f64_gt (vu_Score v) 0 then p_put ''vulnerability.score.environmental'' (VDouble (vu_Score v)) ea else ea)"

definition vulnerability_record :: "u64 \<Rightarrow> pmap \<Rightarrow> log_record" where
  "vulnerability_record t attrs = (record_at t attrs)\<lparr>lr_timestamp := t\<rparr>"

definition transformVulnerabilitiesToEntityLogs :: "event_env \<Rightarrow> vulnerability_report \<Rightarrow> u64 \<Rightarrow> log_record list" where
  "transformVulnerabilitiesToEntityLogs nv m t =
     map (\<lambda>v. vulnerability_record t
            (p_put otelEntityAttributes (VMap (vulnerability_attributes nv v))
              (p_put otelEntityId (VMap (vulnerability_ids v))
                (strs [(otelEntityEventType, entityState), (swEntityType, vulnerabilityEntityType)]))))
       (filter (\<lambda>v. vu_Resource v \<noteq> []) (vr_Vulnerabilities m))"

definition report_image_ids :: "event_env \<Rightarrow> vulnerability_report \<Rightarrow> string \<Rightarrow> pmap" where
  "report_image_ids nv m clusterUID =
     image_ids clusterUID (extractSha256Digest (ee_lower nv) (vr_Digest m))
       (normalizeVulnerabilityReportImage (ee_parseReference nv) (vr_Server m) (vr_Repository m) (vr_Tag m))"

definition transformVulnerabilitiesToFindingLogs ::
  "event_env \<Rightarrow> vulnerability_report \<Rightarrow> u64 \<Rightarrow> string \<Rightarrow> log_record list" where
  "transformVulnerabilitiesToFindingLogs nv m t clusterUID =
     (if vr_Digest m = [] then []
      else if clusterUID = [] then []
      else map (\<lambda>v.
             let attrs = strs [(otelEntityEventType, relationshipState), (relType, ''VulnerabilityFinding''),
                               (relSrcEntityType, vulnerabilityEntityType), (relDestEntityType, k8sContainerImageEntityType)];
                 attrs = p_put relSrcEntityIds (VMap (vulnerability_ids v)) attrs;
                 attrs = p_put relDestEntityIds (VMap (report_image_ids nv m clusterUID)) attrs
             in vulnerability_record t
                  (p_put relAttributes
                     (VMap (strs [(''scannerVendor'', vr_ScannerVendor m), (''scannerName'', vr_ScannerName m),
                                  (''scannerVersion'', vr_ScannerVersion m)])) attrs))
           (filter (\<lambda>v. vu_Resource v \<noteq> []) (vr_Vulnerabilities m)))"

definition transformVulnerabilityReportToContainerImageLog ::
  "event_env \<Rightarrow> vulnerability_report \<Rightarrow> u64 \<Rightarrow> string \<Rightarrow> log_record list" where
  "transformVulnerabilityReportToContainerImageLog nv m t clusterUID =
     (if clusterUID = [] then []
      else if vr_Digest m = [] then []
      else [record_at t
              (p_put otelEntityAttributes (VMap (tag_attributes (vr_Tag m)))
                (p_put otelEntityId (VMap (report_image_ids nv m clusterUID))
                  (strs [(otelEntityEventType, entityState), (swEntityType, k8sContainerImageEntityType)])))])"

section \<open>Processing\<close>

datatype manifest = PodM pod_manifest | ServiceM service_mapping | VulnerabilityM vulnerability_report

record manifest_result =
  mr_Manifest :: manifest
  mr_Timestamp :: u64
  mr_ClusterUID :: string

text \<open>\<open>Timestamp.AsTime\<close> as nanoseconds since 1970; \<open>IsZero\<close> is the first instant of year 1.\<close>

definition asTime :: "u64 \<Rightarrow> int" where
  "asTime ts = sint ts"

definition time_IsZero :: "int \<Rightarrow> bool" where
  "time_IsZero t = (t = -62135596800 * 1000000000)"

definition getTimestamp :: "u64 \<Rightarrow> log_record \<Rightarrow> u64" where
  "getTimestamp now lr =
     (if \<not> time_IsZero (asTime (lr_observed lr)) then lr_observed lr
      else if \<not> time_IsZero (asTime (lr_timestamp lr)) then lr_timestamp lr
      else now)"

definition body_string :: "event_env \<Rightarrow> pvalue \<Rightarrow> string" where
  "body_string nv v = (case v of VStr s \<Rightarrow> s | _ \<Rightarrow> ee_asString nv v)"

text \<open>The manifest of a record: an error when it does not parse, \<open>None\<close> when there is none.\<close>

definition extractManifest :: "event_env \<Rightarrow> log_record \<Rightarrow> (unit, manifest option) result" where
  "extractManifest nv lr =
     (case p_get (lr_attrs lr) ''k8s.object.kind'' of
        None \<Rightarrow> Inr None
      | Some kind \<Rightarrow>
          let objType = v_str (Some kind); body = body_string nv (lr_body lr) in
          if objType = ''Pod''
          then (case ee_decodePod nv body of None \<Rightarrow> Inl () | Some m \<Rightarrow> Inr (Some (PodM m)))
          else if objType = ''Endpoints''
          then (case ee_decodeEndpoints nv body of None \<Rightarrow> Inl () | Some m \<Rightarrow> Inr (Some (ServiceM (Endpoints m))))
          else if objType = ''EndpointSlice''
          then (case ee_decodeEndpointSlice nv body of None \<Rightarrow> Inl () | Some m \<Rightarrow> Inr (Some (ServiceM (EndpointSlice m))))
          else if objType = ''VulnerabilityReport''
          then (case ee_decodeVulnerabilityReport nv body of
                  None \<Rightarrow> Inl ()
                | Some m \<Rightarrow> Inr (if vr_ApiVersion m = ''aquasecurity.github.io/v1alpha1'' then Some (VulnerabilityM m) else None))
          else Inr None)"

fun record_manifests :: "event_env \<Rightarrow> string \<Rightarrow> log_record list \<Rightarrow> (unit, manifest_result list) result" where
  "record_manifests nv uid [] = Inr []"
| "record_manifests nv uid (lr # lrs) =
     (case extractManifest nv lr of
        Inl e \<Rightarrow> Inl e
      | Inr m \<Rightarrow>
        (case record_manifests nv uid lrs of
           Inl e \<Rightarrow> Inl e
         | Inr ms \<Rightarrow>
             Inr (case m of
                    None \<Rightarrow> ms
                  | Some manifest \<Rightarrow>
                      \<lparr>mr_Manifest = manifest, mr_Timestamp = getTimestamp (ee_now nv) lr, mr_ClusterUID = uid\<rparr> # ms)))"

definition generateManifests :: "event_env \<Rightarrow> logs \<Rightarrow> (unit, manifest_result list) result" where
  "generateManifests nv ld =
     map_sum id concat
       (map_result (\<lambda>rl. record_manifests nv (v_str (p_get (rl_attrs rl) swK8sClusterUid))
                           (concat (map sl_records (rl_scopes rl)))) ld)"

text \<open>The entity records and the service mapping records of one manifest.\<close>

fun manifest_records :: "event_env \<Rightarrow> u64 \<Rightarrow> string \<Rightarrow> manifest \<Rightarrow> log_record list \<times> log_record list" where
  "manifest_records nv t uid (PodM m) =
     (let cs = getContainers (ee_parseReference nv) m in
      (transformContainersToContainerLogs (ee_containers nv 0) cs (po_Metadata m) t uid @
       transformContainersToContainerImageEntityLogs nv (ee_containers nv 1) cs t @
       transformContainersToContainerImageRelatesToLogs nv (ee_containers nv 2) cs t uid @
       transformContainersToContainerImageLogs nv (ee_containers nv 3) cs t uid @
       transformContainersToContainerImageRelationsLogs nv (ee_containers nv 4) cs (po_Metadata m) t uid, []))"
| "manifest_records nv t uid (ServiceM m) =
     ([], transformManifestToServiceMappingLogs (ee_addresses nv) m t uid)"
| "manifest_records nv t uid (VulnerabilityM m) =
     (transformVulnerabilitiesToEntityLogs nv m t @
      transformVulnerabilitiesToFindingLogs nv m t uid @
      transformVulnerabilityReportToContainerImageLog nv m t uid, [])"

definition generateLogRecords :: "event_env \<Rightarrow> manifest_result list \<Rightarrow> log_record list \<times> log_record list" where
  "generateLogRecords nv results =
     fold (\<lambda>r (es, ss). let (e, s) = manifest_records nv (mr_Timestamp r) (mr_ClusterUID r) (mr_Manifest r) in
             (es @ e, ss @ s)) results ([], [])"

definition addEntityStateEventResourceLog :: "logs \<Rightarrow> log_record list \<Rightarrow> logs" where
  "addEntityStateEventResourceLog ld lrs =
     ld @ [\<lparr>rl_attrs = p_putStr ''sw.k8s.log.type'' ''entitystateevent'' [],
            rl_scopes = [\<lparr>sl_attrs = p_put otelEntityEventAsLog (VBool True) [], sl_records = lrs\<rparr>]\<rparr>]"

definition addServiceMappingsResourceLog :: "logs \<Rightarrow> log_record list \<Rightarrow> logs" where
  "addServiceMappingsResourceLog ld lrs =
     ld @ [\<lparr>rl_attrs = p_putStr ''sw.k8s.log.type'' ''serviceendpointsmapping'' [],
            rl_scopes = [\<lparr>sl_attrs = [], sl_records = lrs\<rparr>]\<rparr>]"

definition event_processLogs :: "event_env \<Rightarrow> logs \<Rightarrow> unit option \<times> logs" where
  "event_processLogs nv ld =
     (case generateManifests nv ld of
        Inl e \<Rightarrow> (Some e, ld)
      | Inr results \<Rightarrow>
          let (es, ss) = generateLogRecords nv results;
              ld = (if length es > 0 then addEntityStateEventResourceLog ld es else ld);
              ld = (if length ss > 0 then addServiceMappingsResourceLog ld ss else ld) in
          (None, ld))"

section \<open>Lemmas on digests\<close>

lemma TrimPrefix_before_at:
  assumes "CHR ''@'' \<notin> set p" and that: "CHR ''@'' \<notin> set a"
  shows "\<exists>a'. CHR ''@'' \<notin> set a' \<and> strings_TrimPrefix (a @ CHR ''@'' # b) p = a' @ CHR ''@'' # b"
proof (cases "strings_HasPrefix (a @ CHR ''@'' # b) p")
  case True
  then have "prefix p a"
    using assms(1) by (auto simp: strings_HasPrefix_def prefix_append prefix_Cons)
  then obtain a' where "a = p @ a'" by (auto simp: prefix_def)
  with that show ?thesis by auto
next
  case False
  with that show ?thesis by (auto simp: strings_TrimPrefix_def)
qed

lemma Trim_prefixes_before_at:
  assumes "\<And>p. p \<in> set ps \<Longrightarrow> CHR ''@'' \<notin> set p" "CHR ''@'' \<notin> set a"
  shows "\<exists>a'. CHR ''@'' \<notin> set a' \<and> fold (\<lambda>p d. strings_TrimPrefix d p) ps (a @ CHR ''@'' # b) = a' @ CHR ''@'' # b"
  using assms
proof (induction ps arbitrary: a)
  case (Cons p ps)
  then obtain a' where "CHR ''@'' \<notin> set a'" "strings_TrimPrefix (a @ CHR ''@'' # b) p = a' @ CHR ''@'' # b"
    using TrimPrefix_before_at [of p a b] by auto
  with Cons show ?case by simp
qed auto

lemma digest_empty: "extractSha256Digest uni d = [] \<longleftrightarrow> d = []"
  by (auto simp: extractSha256Digest_def Let_def split: option.split prod.split)

section \<open>Lemmas on emitted records\<close>

text \<open>The id map under a key of a record, and whether a record reports an entity with given ids.\<close>

definition ids_of :: "string \<Rightarrow> log_record \<Rightarrow> pmap" where
  "ids_of k lr = (case p_get (lr_attrs lr) k of Some (VMap m) \<Rightarrow> m | _ \<Rightarrow> [])"

definition reports_entity :: "log_record list \<Rightarrow> string \<Rightarrow> pmap \<Rightarrow> bool" where
  "reports_entity es ty ids \<longleftrightarrow>
     list_ex (\<lambda>lr. p_str (lr_attrs lr) otelEntityEventType = entityState \<and> p_str (lr_attrs lr) swEntityType = ty \<and>
        ids_of otelEntityId lr = ids) es"

lemma reports_entity_append: "reports_entity (xs @ ys) ty ids \<longleftrightarrow> reports_entity xs ty ids \<or> reports_entity ys ty ids"
  by (simp add: reports_entity_def)

lemma emit_unique_spec:
  "\<exists>cs'. emit_unique key emit cs seen = map emit cs' \<and> set cs' \<subseteq> set cs \<and> distinct (map key cs') \<and>
     (\<forall>c \<in> set cs'. \<exists>k. key c = Some k \<and> k \<notin> set seen) \<and>
     (\<forall>c k. c \<in> set cs \<longrightarrow> key c = Some k \<longrightarrow> k \<in> set seen \<or> (\<exists>c' \<in> set cs'. key c' = Some k))"
proof (induction cs arbitrary: seen)
  case Nil
  show ?case by (rule exI [of _ "[]"]) simp
next
  case (Cons c cs)
  show ?case
  proof (cases "\<exists>k. key c = Some k \<and> k \<notin> set seen")
    case False
    then have e: "emit_unique key emit (c # cs) seen = emit_unique key emit cs seen" by (auto split: option.split)
    obtain cs' where cs': "emit_unique key emit cs seen = map emit cs' \<and> set cs' \<subseteq> set cs \<and> distinct (map key cs') \<and>
       (\<forall>c \<in> set cs'. \<exists>k. key c = Some k \<and> k \<notin> set seen) \<and>
       (\<forall>c k. c \<in> set cs \<longrightarrow> key c = Some k \<longrightarrow> k \<in> set seen \<or> (\<exists>c' \<in> set cs'. key c' = Some k))"
      using Cons.IH [of seen] by blast
    show ?thesis unfolding e by (rule exI [of _ cs']) (use cs' False in auto)
  next
    case True
    then obtain k where k: "key c = Some k" "k \<notin> set seen" by blast
    obtain cs' where cs': "emit_unique key emit cs (k # seen) = map emit cs'" "set cs' \<subseteq> set cs" "distinct (map key cs')"
       "\<forall>c \<in> set cs'. \<exists>q. key c = Some q \<and> q \<notin> set (k # seen)"
       "\<forall>c q. c \<in> set cs \<longrightarrow> key c = Some q \<longrightarrow> q \<in> set (k # seen) \<or> (\<exists>c' \<in> set cs'. key c' = Some q)"
      using Cons.IH [of "k # seen"] by blast
    show ?thesis
      by (rule exI [of _ "c # cs'"]) (use cs' k in \<open>auto 4 3\<close>)
  qed
qed

lemma record_at_attrs [simp]: "lr_attrs (record_at t a) = a" "lr_attrs (vulnerability_record t a) = a"
  by (simp_all add: record_at_def vulnerability_record_def)

lemma strs_get: "p_get (strs kvs) k = map_option VStr (map_of (rev kvs) k)"
proof -
  have "p_get (fold (\<lambda>(k, v). p_putStr k v) kvs m) k =
      (case map_of (rev kvs) k of None \<Rightarrow> p_get m k | Some v \<Rightarrow> Some (VStr v))" for m
  proof (induction kvs arbitrary: m)
    case (Cons kv kvs)
    then show ?case by (cases kv) (auto simp: map_add_def split: option.splits)
  qed simp
  then show ?thesis by (simp add: strs_def split: option.split)
qed

lemma strs_str: "p_str (strs kvs) k = (case map_of (rev kvs) k of None \<Rightarrow> [] | Some v \<Rightarrow> v)"
  by (simp add: p_str_def strs_get split: option.split)

lemmas event_attr_simps = ids_of_def strs_get strs_str Let_def

lemma container_logs_report:
  assumes "map_order ord" "(n, c) \<in> set cs"
  shows "reports_entity (transformContainersToContainerLogs ord cs md t uid) k8sContainerEntityType (container_ids md c uid)"
  using assms
  by (force simp: reports_entity_def list_ex_iff transformContainersToContainerLogs_def map_order_set
      addContainerAttributes_def event_attr_simps)

lemma emit_unique_reports:
  assumes "c \<in> set cs" "key c = Some k"
    and "\<And>c'. key c' = Some k \<Longrightarrow> P (emit c')"
  shows "list_ex P (emit_unique key emit cs [])"
proof -
  obtain cs' where cs': "emit_unique key emit cs [] = map emit cs'"
    "\<forall>c k. c \<in> set cs \<longrightarrow> key c = Some k \<longrightarrow> k \<in> set [] \<or> (\<exists>c' \<in> set cs'. key c' = Some k)"
    using emit_unique_spec [of key emit cs "[]"] by blast
  from cs'(2) assms(1,2) obtain c' where "c' \<in> set cs'" "key c' = Some k" by force
  with cs'(1) assms(3) show ?thesis by (auto simp: list_ex_iff)
qed

lemma valid_digest_eq: "valid_digest_of nv c = Some d \<Longrightarrow> d = extractSha256Digest (ee_lower nv) (im_ImageID (ct_Image c))"
  by (auto simp: valid_digest_of_def Let_def split: if_splits)

lemma valid_digest_identity:
  "valid_digest_of nv c = Some d \<Longrightarrow> image_identity nv c = Some (d, im_Name (ct_Image c))"
  by (auto simp: valid_digest_of_def image_identity_def Let_def split: if_splits)

lemma image_entity_logs_report:
  assumes "map_order ord" "(n, c) \<in> set cs" "valid_digest_of nv c = Some d"
  shows "reports_entity (transformContainersToContainerImageEntityLogs nv ord cs t) containerImageEntityType
    (strs [(ociManifestDigest, d)])"
  unfolding reports_entity_def transformContainersToContainerImageEntityLogs_def
proof (rule emit_unique_reports)
  show "c \<in> set (map snd (ord cs))" using assms(1,2) by (force simp: map_order_set)
  show "valid_digest_of nv c = Some d" by (rule assms(3))
qed (simp add: event_attr_simps valid_digest_eq [symmetric])

lemma image_logs_report:
  assumes "map_order ord" "uid \<noteq> []" "(n, c) \<in> set cs" "image_identity nv c = Some (d, nm)"
  shows "reports_entity (transformContainersToContainerImageLogs nv ord cs t uid) k8sContainerImageEntityType
    (image_ids uid d nm)"
proof -
  have "list_ex (\<lambda>lr. p_str (lr_attrs lr) otelEntityEventType = entityState \<and>
        p_str (lr_attrs lr) swEntityType = k8sContainerImageEntityType \<and> ids_of otelEntityId lr = image_ids uid d nm)
      (emit_unique (image_identity nv) (\<lambda>c. record_at t (addContainerImageAttributes (ee_lower nv) (ct_Image c) uid)) (map snd (ord cs)) [])"
  proof (rule emit_unique_reports)
    show "c \<in> set (map snd (ord cs))" using assms(1,3) by (force simp: map_order_set)
    show "image_identity nv c = Some (d, nm)" by (rule assms(4))
    fix c' assume "image_identity nv c' = Some (d, nm)"
    then have "extractSha256Digest (ee_lower nv) (im_ImageID (ct_Image c')) = d" "im_Name (ct_Image c') = nm"
      by (auto simp: image_identity_def split: if_splits)
    then show "p_str (lr_attrs (record_at t (addContainerImageAttributes (ee_lower nv) (ct_Image c') uid))) otelEntityEventType = entityState \<and>
        p_str (lr_attrs (record_at t (addContainerImageAttributes (ee_lower nv) (ct_Image c') uid))) swEntityType = k8sContainerImageEntityType \<and>
        ids_of otelEntityId (record_at t (addContainerImageAttributes (ee_lower nv) (ct_Image c') uid)) = image_ids uid d nm"
      by (simp add: addContainerImageAttributes_def event_attr_simps)
  qed
  with assms(2) show ?thesis by (simp add: reports_entity_def transformContainersToContainerImageLogs_def)
qed

text \<open>The entities that a relationship record names are reported.\<close>

definition source_reported :: "log_record list \<Rightarrow> log_record \<Rightarrow> bool" where
  "source_reported es lr \<longleftrightarrow> reports_entity es (p_str (lr_attrs lr) relSrcEntityType) (ids_of relSrcEntityIds lr)"

definition destination_reported :: "log_record list \<Rightarrow> log_record \<Rightarrow> bool" where
  "destination_reported es lr \<longleftrightarrow> reports_entity es (p_str (lr_attrs lr) relDestEntityType) (ids_of relDestEntityIds lr)"

definition is_relationship :: "log_record \<Rightarrow> bool" where
  "is_relationship lr \<longleftrightarrow> p_str (lr_attrs lr) otelEntityEventType = relationshipState"

lemma emit_unique_mem:
  assumes "lr \<in> set (emit_unique key emit cs [])"
  obtains c k where "c \<in> set cs" "key c = Some k" "lr = emit c"
  using emit_unique_spec [of key emit cs "[]"] assms by fastforce

lemma entity_logs_not_relationships:
  "lr \<in> set (transformContainersToContainerLogs ord cs md t uid) \<Longrightarrow> \<not> is_relationship lr"
  "lr \<in> set (transformContainersToContainerImageEntityLogs nv ord cs t) \<Longrightarrow> \<not> is_relationship lr"
  "lr \<in> set (transformContainersToContainerImageLogs nv ord cs t uid) \<Longrightarrow> \<not> is_relationship lr"
  by (auto simp: is_relationship_def transformContainersToContainerLogs_def addContainerAttributes_def event_attr_simps
      transformContainersToContainerImageEntityLogs_def transformContainersToContainerImageLogs_def
      addContainerImageAttributes_def elim!: emit_unique_mem split: if_splits)

lemma relates_to_mem:
  assumes "lr \<in> set (transformContainersToContainerImageRelatesToLogs nv ord cs t uid)" "map_order ord"
  obtains n c d where "uid \<noteq> []" "(n, c) \<in> set cs" "valid_digest_of nv c = Some d"
    "p_str (lr_attrs lr) relSrcEntityType = containerImageEntityType" "ids_of relSrcEntityIds lr = strs [(ociManifestDigest, d)]"
    "p_str (lr_attrs lr) relDestEntityType = k8sContainerImageEntityType"
    "ids_of relDestEntityIds lr = image_ids uid d (im_Name (ct_Image c))"
proof -
  have uid: "uid \<noteq> []" using assms(1) by (auto simp: transformContainersToContainerImageRelatesToLogs_def split: if_splits)
  with assms(1) obtain c k where c: "c \<in> set (map snd (ord cs))"
    "map_option (\<lambda>digest. (digest, im_Name (ct_Image c))) (valid_digest_of nv c) = Some k"
    and lr: "lr = (let digest = extractSha256Digest (ee_lower nv) (im_ImageID (ct_Image c));
                 attrs = strs [(otelEntityEventType, relationshipState), (relType, ''RelatesTo''),
                               (relSrcEntityType, containerImageEntityType)];
                 attrs = p_put relSrcEntityIds (VMap (strs [(ociManifestDigest, digest)])) attrs;
                 attrs = p_putStr relDestEntityType k8sContainerImageEntityType attrs
             in record_at t (p_put relDestEntityIds (VMap (image_ids uid digest (im_Name (ct_Image c)))) attrs))"
    by (auto simp: transformContainersToContainerImageRelatesToLogs_def simp del: map_option_eq_Some elim!: emit_unique_mem)
  from c obtain n d where "(n, c) \<in> set cs" "valid_digest_of nv c = Some d"
    using assms(2) by (auto simp: map_order_set)
  with uid show ?thesis
    by (intro that [of n c d]) (auto simp: lr event_attr_simps dest: valid_digest_eq)
qed

lemma relation_mem:
  assumes "lr \<in> set (transformContainersToContainerImageRelationsLogs nv ord cs md t uid)" "map_order ord"
  obtains n c where "uid \<noteq> []" "(n, c) \<in> set cs"
    "p_str (lr_attrs lr) relSrcEntityType = k8sContainerEntityType" "ids_of relSrcEntityIds lr = container_ids md c uid"
    "p_str (lr_attrs lr) relDestEntityType = k8sContainerImageEntityType"
    "ids_of relDestEntityIds lr = image_ids uid (extractSha256Digest (ee_lower nv) (im_ImageID (ct_Image c))) (im_Name (ct_Image c))"
    "p_str (lr_attrs lr) relType = ''KubernetesResourceUsesImage''"
  using assms
  by (auto simp: transformContainersToContainerImageRelationsLogs_def map_order_set
      addContainerImageRelationAttributes_def event_attr_simps split: if_splits)

section \<open>The entities of a manifest\<close>

text \<open>The entities that a manifest must report, with the identifiers that they are reported under.\<close>

inductive manifest_entity :: "event_env \<Rightarrow> string \<Rightarrow> manifest \<Rightarrow> string \<Rightarrow> pmap \<Rightarrow> bool" for nv uid where
  container: "(n, c) \<in> set (getContainers (ee_parseReference nv) p) \<Longrightarrow>
     manifest_entity nv uid (PodM p) ''KubernetesContainer''
       [(''k8s.pod.name'', VStr (pm_Name (po_Metadata p))), (''k8s.namespace.name'', VStr (pm_Namespace (po_Metadata p))),
        (''k8s.container.name'', VStr (ct_Name c)), (''sw.k8s.cluster.uid'', VStr uid)]"
| image: "(n, c) \<in> set (getContainers (ee_parseReference nv) p) \<Longrightarrow> valid_digest_of nv c = Some d \<Longrightarrow>
     manifest_entity nv uid (PodM p) ''ContainerImage'' [(''oci.manifest.digest'', VStr d)]"
| used_image: "uid \<noteq> [] \<Longrightarrow> (n, c) \<in> set (getContainers (ee_parseReference nv) p) \<Longrightarrow> image_identity nv c = Some (d, nm) \<Longrightarrow>
     manifest_entity nv uid (PodM p) ''KubernetesContainerImage''
       [(''sw.k8s.cluster.uid'', VStr uid), (''oci.manifest.digest'', VStr d), (''container.image.name'', VStr nm)]"
| vulnerability: "v \<in> set (vr_Vulnerabilities r) \<Longrightarrow> vu_Resource v \<noteq> [] \<Longrightarrow>
     manifest_entity nv uid (VulnerabilityM r) ''VulnerabilityDetail''
       [(''vulnerability.id'', VStr (vu_VulnerabilityID v)), (''vulnerability.resource'', VStr (vu_Resource v)),
        (''vulnerability.installed_version'', VStr (vu_InstalledVersion v))]"
| scanned_image: "uid \<noteq> [] \<Longrightarrow> vr_Digest r \<noteq> [] \<Longrightarrow>
     manifest_entity nv uid (VulnerabilityM r) ''KubernetesContainerImage''
       [(''sw.k8s.cluster.uid'', VStr uid), (''oci.manifest.digest'', VStr (extractSha256Digest (ee_lower nv) (vr_Digest r))),
        (''container.image.name'',
         VStr (normalizeVulnerabilityReportImage (ee_parseReference nv) (vr_Server r) (vr_Repository r) (vr_Tag r)))]"

lemma id_lists:
  "container_ids md c uid =
     [(''k8s.pod.name'', VStr (pm_Name md)), (''k8s.namespace.name'', VStr (pm_Namespace md)),
      (''k8s.container.name'', VStr (ct_Name c)), (''sw.k8s.cluster.uid'', VStr uid)]"
  "strs [(ociManifestDigest, d)] = [(''oci.manifest.digest'', VStr d)]"
  "image_ids uid d nm = [(''sw.k8s.cluster.uid'', VStr uid), (''oci.manifest.digest'', VStr d), (''container.image.name'', VStr nm)]"
  "vulnerability_ids v =
     [(''vulnerability.id'', VStr (vu_VulnerabilityID v)), (''vulnerability.resource'', VStr (vu_Resource v)),
      (''vulnerability.installed_version'', VStr (vu_InstalledVersion v))]"
  by (simp_all add: container_ids_def image_ids_def vulnerability_ids_def canonicalizeVulnerabilityID_def strs_def p_putStr_def p_put_def)

lemmas a_container = container [folded id_lists]
lemmas an_image = image [folded id_lists]
lemmas a_used_image = used_image [folded id_lists]
lemmas a_vulnerability = vulnerability [folded id_lists]
lemmas a_scanned_image = scanned_image [folded id_lists report_image_ids_def]

inductive_simps vulnerability_manifest_entity [unfolded id_lists [symmetric] report_image_ids_def [symmetric]]:
  "manifest_entity nv uid (VulnerabilityM r) ty ids"

lemma image_entities_have_digests:
  assumes "manifest_entity nv uid m ''KubernetesContainerImage'' ids"
  shows "p_str ids ''oci.manifest.digest'' \<noteq> []"
  using assms
  by cases (auto simp: image_identity_def digest_empty p_str_def p_get_def split: if_splits)

definition entity_record :: "string \<Rightarrow> pmap \<Rightarrow> log_record \<Rightarrow> bool" where
  "entity_record ty ids lr \<longleftrightarrow> p_str (lr_attrs lr) otelEntityEventType = entityState \<and> p_str (lr_attrs lr) swEntityType = ty \<and>
     ids_of otelEntityId lr = ids"

lemma reports_entity_mem: "reports_entity es ty ids \<longleftrightarrow> (\<exists>lr \<in> set es. entity_record ty ids lr)"
  by (simp add: reports_entity_def entity_record_def list_ex_iff)

lemma relationships_not_entities: "is_relationship lr \<Longrightarrow> \<not> entity_record ty ids lr"
  by (simp add: is_relationship_def entity_record_def)

lemma container_log_entity:
  assumes "lr \<in> set (transformContainersToContainerLogs ord cs md t uid)" "entity_record ty ids lr" "map_order ord"
  shows "\<exists>n c. (n, c) \<in> set cs \<and> ty = k8sContainerEntityType \<and> ids = container_ids md c uid"
  using assms
  by (auto simp: transformContainersToContainerLogs_def addContainerAttributes_def entity_record_def event_attr_simps map_order_set) blast

lemma image_entity_log_entity:
  assumes "lr \<in> set (transformContainersToContainerImageEntityLogs nv ord cs t)" "entity_record ty ids lr" "map_order ord"
  shows "\<exists>n c d. (n, c) \<in> set cs \<and> valid_digest_of nv c = Some d \<and> ty = containerImageEntityType \<and> ids = strs [(ociManifestDigest, d)]"
proof -
  obtain c d where c: "c \<in> set (map snd (ord cs))" "valid_digest_of nv c = Some d"
    and lr: "lr = record_at t (p_put otelEntityId
             (VMap (strs [(ociManifestDigest, extractSha256Digest (ee_lower nv) (im_ImageID (ct_Image c)))]))
             (strs [(otelEntityEventType, entityState), (swEntityType, containerImageEntityType)]))"
    using assms(1) unfolding transformContainersToContainerImageEntityLogs_def by (rule emit_unique_mem)
  from c(1) obtain n where "(n, c) \<in> set cs" using assms(3) by (auto simp: map_order_set)
  with c(2) assms(2) show ?thesis
    by (intro exI [of _ n] exI [of _ c] exI [of _ d])
      (auto simp: lr entity_record_def event_attr_simps valid_digest_eq [OF c(2), symmetric])
qed

lemma image_log_entity:
  assumes "lr \<in> set (transformContainersToContainerImageLogs nv ord cs t uid)" "entity_record ty ids lr" "map_order ord"
  shows "\<exists>n c d nm. uid \<noteq> [] \<and> (n, c) \<in> set cs \<and> image_identity nv c = Some (d, nm) \<and> ty = k8sContainerImageEntityType \<and> ids = image_ids uid d nm"
proof -
  have uid: "uid \<noteq> []" and mem: "lr \<in> set (emit_unique (image_identity nv)
      (\<lambda>c. record_at t (addContainerImageAttributes (ee_lower nv) (ct_Image c) uid)) (map snd (ord cs)) [])"
    using assms(1) by (auto simp: transformContainersToContainerImageLogs_def split: if_splits)
  obtain c k where c: "c \<in> set (map snd (ord cs))" "image_identity nv c = Some k"
    and lr: "lr = record_at t (addContainerImageAttributes (ee_lower nv) (ct_Image c) uid)"
    using mem by (rule emit_unique_mem)
  have k: "k = (extractSha256Digest (ee_lower nv) (im_ImageID (ct_Image c)), im_Name (ct_Image c))"
    using c(2) by (simp add: image_identity_def split: if_splits)
  from c(1) obtain n where "(n, c) \<in> set cs" using assms(3) by (auto simp: map_order_set)
  with c(2) uid assms(2) show ?thesis unfolding k
    by (intro exI [of _ n] exI [of _ c] exI conjI)
      (auto simp: lr entity_record_def addContainerImageAttributes_def event_attr_simps)
qed

lemma relations_are_relationships:
  "lr \<in> set (transformContainersToContainerImageRelatesToLogs nv ord cs t uid) \<Longrightarrow> is_relationship lr"
  "lr \<in> set (transformContainersToContainerImageRelationsLogs nv ord cs md t uid) \<Longrightarrow> is_relationship lr"
  "lr \<in> set (transformVulnerabilitiesToFindingLogs nv m t uid) \<Longrightarrow> is_relationship lr"
  by (auto simp: is_relationship_def transformContainersToContainerImageRelatesToLogs_def
      transformContainersToContainerImageRelationsLogs_def transformVulnerabilitiesToFindingLogs_def
      addContainerImageRelationAttributes_def event_attr_simps elim!: emit_unique_mem split: if_splits)

lemma pod_entities:
  assumes ords: "\<And>i. map_order (ee_containers nv i)"
  shows "reports_entity (fst (manifest_records nv t uid (PodM p))) ty ids \<longleftrightarrow> manifest_entity nv uid (PodM p) ty ids"
proof -
  define cs where "cs = getContainers (ee_parseReference nv) p"
  define md where "md = po_Metadata p"
  let ?A = "transformContainersToContainerLogs (ee_containers nv 0) cs md t uid"
  let ?B = "transformContainersToContainerImageEntityLogs nv (ee_containers nv 1) cs t"
  let ?C = "transformContainersToContainerImageRelatesToLogs nv (ee_containers nv 2) cs t uid"
  let ?D = "transformContainersToContainerImageLogs nv (ee_containers nv 3) cs t uid"
  let ?E = "transformContainersToContainerImageRelationsLogs nv (ee_containers nv 4) cs md t uid"
  have es: "fst (manifest_records nv t uid (PodM p)) = ?A @ ?B @ ?C @ ?D @ ?E" by (simp add: cs_def md_def Let_def)
  show ?thesis
  proof
    assume "reports_entity (fst (manifest_records nv t uid (PodM p))) ty ids"
    then obtain lr where lr: "lr \<in> set ?A \<union> set ?B \<union> set ?D" "entity_record ty ids lr"
      using relations_are_relationships(1,2) relationships_not_entities unfolding es reports_entity_mem by fastforce
    then consider "lr \<in> set ?A" | "lr \<in> set ?B" | "lr \<in> set ?D" by blast
    then show "manifest_entity nv uid (PodM p) ty ids"
    proof cases
      case 1
      from container_log_entity [OF 1 lr(2) ords] show ?thesis unfolding cs_def md_def by (auto intro: a_container)
    next
      case 2
      from image_entity_log_entity [OF 2 lr(2) ords] show ?thesis unfolding cs_def by (auto intro: an_image)
    next
      case 3
      from image_log_entity [OF 3 lr(2) ords] show ?thesis unfolding cs_def by (auto intro: a_used_image)
    qed
  next
    assume "manifest_entity nv uid (PodM p) ty ids"
    then show "reports_entity (fst (manifest_records nv t uid (PodM p))) ty ids"
    proof cases
      case (container n c)
      then show ?thesis unfolding es using container_logs_report [OF ords, of n c cs] by (simp add: reports_entity_append cs_def md_def id_lists)
    next
      case (image n c d)
      then show ?thesis unfolding es using image_entity_logs_report [OF ords, of n c cs] by (simp add: reports_entity_append cs_def id_lists)
    next
      case (used_image n c d nm)
      then show ?thesis unfolding es using image_logs_report [OF ords, of uid n c cs] by (simp add: reports_entity_append cs_def id_lists)
    qed
  qed
qed

lemma vulnerability_entities:
  "reports_entity (fst (manifest_records nv t uid (VulnerabilityM r))) ty ids \<longleftrightarrow> manifest_entity nv uid (VulnerabilityM r) ty ids"
proof -
  let ?A = "transformVulnerabilitiesToEntityLogs nv r t"
  let ?B = "transformVulnerabilitiesToFindingLogs nv r t uid"
  let ?C = "transformVulnerabilityReportToContainerImageLog nv r t uid"
  have "reports_entity ?A ty ids \<longleftrightarrow> ty = vulnerabilityEntityType \<and>
      (\<exists>v \<in> set (vr_Vulnerabilities r). vu_Resource v \<noteq> [] \<and> ids = vulnerability_ids v)"
    by (auto simp: reports_entity_mem entity_record_def transformVulnerabilitiesToEntityLogs_def event_attr_simps)
  moreover have "reports_entity ?C ty ids \<longleftrightarrow> ty = k8sContainerImageEntityType \<and> uid \<noteq> [] \<and> vr_Digest r \<noteq> [] \<and> ids = report_image_ids nv r uid"
    by (auto simp: reports_entity_mem entity_record_def transformVulnerabilityReportToContainerImageLog_def event_attr_simps)
  moreover have "\<not> reports_entity ?B ty ids"
    using relations_are_relationships(3) relationships_not_entities unfolding reports_entity_mem by blast
  moreover have "manifest_entity nv uid (VulnerabilityM r) ty ids \<longleftrightarrow>
      (ty = vulnerabilityEntityType \<and> (\<exists>v \<in> set (vr_Vulnerabilities r). vu_Resource v \<noteq> [] \<and> ids = vulnerability_ids v)) \<or>
      (ty = k8sContainerImageEntityType \<and> uid \<noteq> [] \<and> vr_Digest r \<noteq> [] \<and> ids = report_image_ids nv r uid)"
    by (simp add: vulnerability_manifest_entity) blast
  ultimately show ?thesis by (simp add: reports_entity_append)
qed

lemma manifest_entities:
  assumes "\<And>i. map_order (ee_containers nv i)"
  shows "reports_entity (fst (manifest_records nv t uid m)) ty ids \<longleftrightarrow> manifest_entity nv uid m ty ids"
proof (cases m)
  case (ServiceM sm)
  then show ?thesis by (auto simp: reports_entity_mem elim: manifest_entity.cases)
qed (simp_all only: pod_entities [OF assms] vulnerability_entities)

text \<open>The relation record of a container without an image id: it names an image without a digest.\<close>

definition of_imageless_container :: "event_env \<Rightarrow> string \<Rightarrow> manifest \<Rightarrow> log_record \<Rightarrow> bool" where
  "of_imageless_container nv uid m lr \<longleftrightarrow>
     (\<exists>p n c. m = PodM p \<and> (n, c) \<in> set (getContainers (ee_parseReference nv) p) \<and> im_ImageID (ct_Image c) = [] \<and>
        p_str (lr_attrs lr) relType = ''KubernetesResourceUsesImage'' \<and>
        ids_of relSrcEntityIds lr = container_ids (po_Metadata p) c uid \<and>
        ids_of relDestEntityIds lr = image_ids uid [] (im_Name (ct_Image c)))"

text \<open>The ends of the relationships of a manifest, in terms of the entities it must report.\<close>

lemma manifest_relationship:
  assumes ords: "\<And>i. map_order (ee_containers nv i)"
    and lr: "lr \<in> set (fst (manifest_records nv t uid m))" "is_relationship lr"
  shows "manifest_entity nv uid m (p_str (lr_attrs lr) relSrcEntityType) (ids_of relSrcEntityIds lr) \<and>
    p_str (lr_attrs lr) relDestEntityType = k8sContainerImageEntityType \<and>
    (manifest_entity nv uid m k8sContainerImageEntityType (ids_of relDestEntityIds lr) \<or> of_imageless_container nv uid m lr)"
proof (cases m)
  case (PodM p)
  define cs where "cs = getContainers (ee_parseReference nv) p"
  define md where "md = po_Metadata p"
  let ?C = "transformContainersToContainerImageRelatesToLogs nv (ee_containers nv 2) cs t uid"
  let ?E = "transformContainersToContainerImageRelationsLogs nv (ee_containers nv 4) cs md t uid"
  consider "lr \<in> set ?C" | "lr \<in> set ?E"
    using lr entity_logs_not_relationships by (fastforce simp: PodM cs_def md_def Let_def)
  then show ?thesis
  proof cases
    case 1
    then obtain n c d where c: "uid \<noteq> []" "(n, c) \<in> set cs" "valid_digest_of nv c = Some d"
      and e: "p_str (lr_attrs lr) relSrcEntityType = containerImageEntityType" "ids_of relSrcEntityIds lr = strs [(ociManifestDigest, d)]"
        "p_str (lr_attrs lr) relDestEntityType = k8sContainerImageEntityType"
        "ids_of relDestEntityIds lr = image_ids uid d (im_Name (ct_Image c))"
      using relates_to_mem [OF _ ords] by metis
    show ?thesis unfolding e PodM using an_image a_used_image [OF c(1)] c(2,3) valid_digest_identity [OF c(3)]
      by (auto simp: cs_def)
  next
    case 2
    then obtain n c where c: "uid \<noteq> []" "(n, c) \<in> set cs"
      and e: "p_str (lr_attrs lr) relSrcEntityType = k8sContainerEntityType" "ids_of relSrcEntityIds lr = container_ids md c uid"
        "p_str (lr_attrs lr) relDestEntityType = k8sContainerImageEntityType"
        "ids_of relDestEntityIds lr = image_ids uid (extractSha256Digest (ee_lower nv) (im_ImageID (ct_Image c))) (im_Name (ct_Image c))"
        "p_str (lr_attrs lr) relType = ''KubernetesResourceUsesImage''"
      using relation_mem [OF _ ords] by metis
    have src: "manifest_entity nv uid m k8sContainerEntityType (container_ids md c uid)"
      unfolding PodM md_def by (rule a_container) (use c(2) in \<open>simp add: cs_def\<close>)
    show ?thesis
    proof (cases "im_ImageID (ct_Image c) = []")
      case True
      then have "of_imageless_container nv uid m lr"
        unfolding of_imageless_container_def e PodM using c(2) by (auto simp: cs_def md_def extractSha256Digest_def)
      with src show ?thesis by (simp add: e)
    next
      case False
      then have "image_identity nv c = Some (extractSha256Digest (ee_lower nv) (im_ImageID (ct_Image c)), im_Name (ct_Image c))"
        by (simp add: image_identity_def)
      from a_used_image [OF c(1) c(2) [unfolded cs_def] this] src show ?thesis by (simp add: e PodM)
    qed
  qed
next
  case (ServiceM sm)
  with lr show ?thesis by simp
next
  case (VulnerabilityM r)
  have "\<not> is_relationship lr"
    if "lr \<in> set (transformVulnerabilitiesToEntityLogs nv r t) \<union> set (transformVulnerabilityReportToContainerImageLog nv r t uid)"
    using that by (auto simp: is_relationship_def transformVulnerabilitiesToEntityLogs_def
        transformVulnerabilityReportToContainerImageLog_def event_attr_simps split: if_splits)
  with lr have b: "lr \<in> set (transformVulnerabilitiesToFindingLogs nv r t uid)" by (auto simp: VulnerabilityM)
  then have ne: "vr_Digest r \<noteq> []" "uid \<noteq> []" by (auto simp: transformVulnerabilitiesToFindingLogs_def split: if_splits)
  with b obtain v where v: "v \<in> set (vr_Vulnerabilities r)" "vu_Resource v \<noteq> []"
    and e: "p_str (lr_attrs lr) relSrcEntityType = vulnerabilityEntityType" "ids_of relSrcEntityIds lr = vulnerability_ids v"
      "p_str (lr_attrs lr) relDestEntityType = k8sContainerImageEntityType"
      "ids_of relDestEntityIds lr = report_image_ids nv r uid"
    by (auto simp: transformVulnerabilitiesToFindingLogs_def event_attr_simps)
  show ?thesis unfolding e VulnerabilityM using a_vulnerability [OF v] a_scanned_image [OF ne(2,1)] by blast
qed

section \<open>Lemmas on processing\<close>

lemma record_manifests_ok:
  "result_ok (record_manifests nv uid lrs) \<longleftrightarrow> list_all (\<lambda>lr. result_ok (extractManifest nv lr)) lrs"
  by (induction lrs) (auto split: sum.split)

lemma map_result_ok: "result_ok (map_result f xs) \<longleftrightarrow> list_all (\<lambda>x. result_ok (f x)) xs"
  by (induction xs) (auto split: sum.split)

lemma result_ok_map_sum: "result_ok (map_sum id f x) = result_ok x"
  by (cases x) simp_all

lemma generateManifests_ok:
  "result_ok (generateManifests nv ld) \<longleftrightarrow> list_all (\<lambda>lr. result_ok (extractManifest nv lr)) (all_records ld)"
  by (simp add: generateManifests_def result_ok_map_sum map_result_ok record_manifests_ok all_records_def list_all_iff)

section \<open>Properties\<close>

text \<open>
  What a batch contains, and what must be appended for it: the manifests of its records in order, each with the observed
  timestamp of its record and the cluster of its resource; the entity events of all of them, then the mappings of
  service addresses, each in a resource of its own if there are any.
\<close>

definition batch_manifests :: "event_env \<Rightarrow> logs \<Rightarrow> (u64 \<times> string \<times> manifest) list" where
  "batch_manifests nv ld =
     concat (map (\<lambda>rl. concat (map (\<lambda>sl. concat (map (\<lambda>lr.
         case extractManifest nv lr of
           Inr (Some m) \<Rightarrow> [(lr_observed lr, p_str (rl_attrs rl) ''sw.k8s.cluster.uid'', m)]
         | _ \<Rightarrow> []) (sl_records sl))) (rl_scopes rl))) ld)"

definition entity_events :: "event_env \<Rightarrow> logs \<Rightarrow> log_record list" where
  "entity_events nv ld = concat (map (\<lambda>(t, uid, m). fst (manifest_records nv t uid m)) (batch_manifests nv ld))"

definition address_mappings :: "event_env \<Rightarrow> logs \<Rightarrow> log_record list" where
  "address_mappings nv ld =
     concat (map (\<lambda>(t, uid, m). case m of
         ServiceM sm \<Rightarrow> map (\<lambda>addr. new_record\<lparr>lr_observed := t, lr_attrs :=
           [(''k8s.service.name'', VStr (getServiceName sm)), (''k8s.namespace.name'', VStr (getNamespace sm)),
            (''sw.k8s.workload.ip'', VStr addr), (''sw.k8s.cluster.uid'', VStr uid)]\<rparr>) (getAddresses (ee_addresses nv) sm)
       | _ \<Rightarrow> []) (batch_manifests nv ld))"

definition event_resources :: "event_env \<Rightarrow> logs \<Rightarrow> logs" where
  "event_resources nv ld =
     (if entity_events nv ld = [] then []
      else [\<lparr>rl_attrs = [(''sw.k8s.log.type'', VStr ''entitystateevent'')],
             rl_scopes = [\<lparr>sl_attrs = [(''otel.entity.event_as_log'', VBool True)], sl_records = entity_events nv ld\<rparr>]\<rparr>]) @
     (if address_mappings nv ld = [] then []
      else [\<lparr>rl_attrs = [(''sw.k8s.log.type'', VStr ''serviceendpointsmapping'')],
             rl_scopes = [\<lparr>sl_attrs = [], sl_records = address_mappings nv ld\<rparr>]\<rparr>])"

lemma timestamp_observed: "getTimestamp now lr = lr_observed lr"
proof -
  have "sint (lr_observed lr) \<noteq> -62135596800 * 1000000000"
    using sint_range64(1) [of "lr_observed lr"] by simp
  then show ?thesis by (simp add: getTimestamp_def time_IsZero_def asTime_def)
qed

abbreviation result_tuple :: "manifest_result \<Rightarrow> u64 \<times> string \<times> manifest" where
  "result_tuple r \<equiv> (mr_Timestamp r, mr_ClusterUID r, mr_Manifest r)"

lemma record_manifests_tuples:
  "record_manifests nv uid lrs = Inr ms \<Longrightarrow>
   map result_tuple ms = concat (map (\<lambda>lr. case extractManifest nv lr of Inr (Some m) \<Rightarrow> [(lr_observed lr, uid, m)] | _ \<Rightarrow> []) lrs)"
  by (induction lrs arbitrary: ms) (auto simp: timestamp_observed split: sum.splits option.splits)

lemma map_result_concat:
  assumes "map_result f xs = Inr ys" "\<And>x y. x \<in> set xs \<Longrightarrow> f x = Inr y \<Longrightarrow> map g y = h x"
  shows "map g (concat ys) = concat (map h xs)"
  using assms by (induction xs arbitrary: ys) (auto split: sum.splits)

lemma concat_map_concat: "concat (map g (concat xss)) = concat (map (\<lambda>xs. concat (map g xs)) xss)"
  by (induction xss) simp_all

lemma generateManifests_tuples:
  assumes "generateManifests nv ld = Inr results"
  shows "map result_tuple results = batch_manifests nv ld"
proof -
  let ?f = "\<lambda>rl. record_manifests nv (v_str (p_get (rl_attrs rl) swK8sClusterUid)) (concat (map sl_records (rl_scopes rl)))"
  obtain rss where rss: "map_result ?f ld = Inr rss" "results = concat rss"
    using assms by (cases "map_result ?f ld") (auto simp: generateManifests_def)
  show ?thesis unfolding rss(2) batch_manifests_def p_str_def
    by (rule map_result_concat [OF rss(1)]) (drule record_manifests_tuples, simp add: concat_map_concat o_def)
qed

lemma generateLogRecords_concat:
  "generateLogRecords nv results =
     (concat (map (\<lambda>(t, uid, m). fst (manifest_records nv t uid m)) (map result_tuple results)),
      concat (map (\<lambda>(t, uid, m). snd (manifest_records nv t uid m)) (map result_tuple results)))"
proof -
  have "fold (\<lambda>r (es, ss). let (e, s) = manifest_records nv (mr_Timestamp r) (mr_ClusterUID r) (mr_Manifest r) in (es @ e, ss @ s)) results (es, ss) =
     (es @ concat (map (\<lambda>(t, uid, m). fst (manifest_records nv t uid m)) (map result_tuple results)),
      ss @ concat (map (\<lambda>(t, uid, m). snd (manifest_records nv t uid m)) (map result_tuple results)))" for es ss
    by (induction results arbitrary: es ss) (auto split: prod.split)
  then show ?thesis by (simp add: generateLogRecords_def)
qed

lemma mapping_records:
  "snd (manifest_records nv t uid m) = (case m of
     ServiceM sm \<Rightarrow> map (\<lambda>addr. new_record\<lparr>lr_observed := t, lr_attrs :=
       [(''k8s.service.name'', VStr (getServiceName sm)), (''k8s.namespace.name'', VStr (getNamespace sm)),
        (''sw.k8s.workload.ip'', VStr addr), (''sw.k8s.cluster.uid'', VStr uid)]\<rparr>) (getAddresses (ee_addresses nv) sm)
   | _ \<Rightarrow> [])"
  by (cases m) (simp_all add: Let_def transformManifestToServiceMappingLogs_def record_at_def strs_def p_putStr_def p_put_def)

lemma processLogs_result:
  "event_processLogs nv ld =
     (if list_all (\<lambda>lr. result_ok (extractManifest nv lr)) (all_records ld) then (None, ld @ event_resources nv ld) else (Some (), ld))"
proof (cases "generateManifests nv ld")
  case (Inl e)
  then have "\<not> result_ok (generateManifests nv ld)" by simp
  with Inl show ?thesis unfolding generateManifests_ok by (simp add: event_processLogs_def)
next
  case (Inr results)
  then have ok: "result_ok (generateManifests nv ld)" by simp
  have recs: "generateLogRecords nv results = (entity_events nv ld, address_mappings nv ld)"
    unfolding generateLogRecords_concat generateManifests_tuples [OF Inr] mapping_records
    by (simp add: entity_events_def address_mappings_def)
  show ?thesis using ok [unfolded generateManifests_ok]
    by (simp add: event_processLogs_def Inr recs event_resources_def addEntityStateEventResourceLog_def
        addServiceMappingsResourceLog_def p_putStr_def p_put_def)
qed

text \<open>The records that a batch adds, and the entities they report.\<close>

lemma event_resources_records: "all_records (event_resources nv ld) = entity_events nv ld @ address_mappings nv ld"
  by (simp add: event_resources_def all_records_def)

lemma address_mappings_plain:
  assumes "lr \<in> set (address_mappings nv ld)"
  shows "\<not> is_relationship lr" "\<not> entity_record ty ids lr"
  using assms
  by (auto simp: address_mappings_def is_relationship_def entity_record_def p_str_def p_get_def split: manifest.splits)

lemma batch_entities:
  assumes "\<And>i. map_order (ee_containers nv i)"
  shows "reports_entity (all_records (event_resources nv ld)) ty ids \<longleftrightarrow>
    (\<exists>(t, uid, m) \<in> set (batch_manifests nv ld). manifest_entity nv uid m ty ids)"
proof -
  have "\<not> reports_entity (address_mappings nv ld) ty ids" using address_mappings_plain(2) unfolding reports_entity_mem by blast
  moreover have "reports_entity (entity_events nv ld) ty ids \<longleftrightarrow>
      (\<exists>(t, uid, m) \<in> set (batch_manifests nv ld). reports_entity (fst (manifest_records nv t uid m)) ty ids)"
    unfolding reports_entity_mem entity_events_def by fastforce
  ultimately show ?thesis
    unfolding event_resources_records reports_entity_append manifest_entities [OF assms] by blast
qed

text \<open>C14: The events of a batch are consistent.  Processing a batch without an error reports exactly the entities of its
  manifests: every container, every image with a well-formed digest, and, where the cluster is known, every image that a
  container uses or a report scanned, and every vulnerability of a resource.  The source of every relationship that is generated
  is one of them, and so is its destination, with one exception, which is exact: the relationship of a container whose status has no image id
  yet is generated although the image it names, with an empty digest, is reported by no record of the batch.\<close>

theorem relationships_refer_to_reported_entities:
  assumes "\<And>i. map_order (ee_containers nv i)" "event_processLogs nv ld = (None, ld')"
  shows "\<exists>added. ld' = ld @ added \<and>
    (\<forall>ty ids. reports_entity (all_records added) ty ids \<longleftrightarrow>
       (\<exists>(t, uid, m) \<in> set (batch_manifests nv ld). manifest_entity nv uid m ty ids)) \<and>
    list_all (\<lambda>lr. is_relationship lr \<longrightarrow> source_reported (all_records added) lr \<and>
       (destination_reported (all_records added) lr \<longleftrightarrow>
          \<not> (\<exists>(t, uid, m) \<in> set (batch_manifests nv ld). of_imageless_container nv uid m lr))) (all_records added)"
proof -
  let ?ad = "all_records (event_resources nv ld)"
  note ents = batch_entities [OF assms(1), of ld]
  have "source_reported ?ad lr \<and> (destination_reported ?ad lr \<longleftrightarrow>
      \<not> (\<exists>(t, uid, m) \<in> set (batch_manifests nv ld). of_imageless_container nv uid m lr))"
    if lr: "lr \<in> set ?ad" "is_relationship lr" for lr
  proof -
    have "lr \<in> set (entity_events nv ld)" using lr address_mappings_plain(1) by (auto simp: event_resources_records)
    then obtain t uid m where m: "(t, uid, m) \<in> set (batch_manifests nv ld)" "lr \<in> set (fst (manifest_records nv t uid m))"
      unfolding entity_events_def by auto
    note rel = manifest_relationship [OF assms(1) m(2) lr(2)]
    have src: "source_reported ?ad lr" unfolding source_reported_def ents using rel m(1) by blast
    have dst: "destination_reported ?ad lr \<longleftrightarrow>
        (\<exists>(t, uid, m) \<in> set (batch_manifests nv ld). manifest_entity nv uid m k8sContainerImageEntityType (ids_of relDestEntityIds lr))"
      unfolding destination_reported_def ents using rel by simp
    have "p_str (ids_of relDestEntityIds lr) ''oci.manifest.digest'' = []" if "of_imageless_container nv uid' m' lr" for uid' m'
      using that by (auto simp: of_imageless_container_def image_ids_def strs_str)
    with src dst rel m(1) show ?thesis using image_entities_have_digests by blast
  qed
  moreover have "ld' = ld @ event_resources nv ld" using assms(2) by (simp add: processLogs_result split: if_splits)
  ultimately show ?thesis unfolding list_all_iff using ents by blast
qed

definition wit_event_env :: event_env where
  "wit_event_env = \<lparr>ee_lower = id, ee_upper = id, ee_validDigest = (\<lambda>d. strings_HasPrefix d ''sha256:''),
     ee_parseReference = (\<lambda>r. Some (r, None)), ee_asString = (\<lambda>_. []), ee_decodePod = (\<lambda>_. None),
     ee_decodeEndpoints = (\<lambda>_. None), ee_decodeEndpointSlice = (\<lambda>_. None), ee_decodeVulnerabilityReport = (\<lambda>_. None),
     ee_containers = (\<lambda>_ xs. xs), ee_addresses = (\<lambda>xs. xs), ee_now = 7\<rparr>"

definition wit_pod_manifest :: pod_manifest where
  "wit_pod_manifest = \<lparr>po_Metadata = \<lparr>pm_Name = ''p'', pm_Namespace = ''n'', pm_Labels = []\<rparr>,
     po_Containers = [\<lparr>sc_Name = ''c'', sc_Image = ''nginx''\<rparr>], po_InitContainers = [],
     po_ContainerStatuses = [\<lparr>st_Name = ''c'', st_ContainerId = ''i'', st_State = [''running''], st_ImageID = ''nginx@sha256:AB''\<rparr>],
     po_InitContainerStatuses = []\<rparr>"

text \<open>The exception does occur: a container of a pod of a known cluster whose status has no image id gives a relationship to an
  image that no record of the batch reports.\<close>

theorem imageless_relation_dangles:
  assumes "\<And>i. map_order (ee_containers nv i)" "(t, uid, PodM p) \<in> set (batch_manifests nv ld)" "uid \<noteq> []"
    and "(n, c) \<in> set (getContainers (ee_parseReference nv) p)" "im_ImageID (ct_Image c) = []"
  shows "\<exists>lr \<in> set (all_records (event_resources nv ld)). is_relationship lr \<and>
    ids_of relSrcEntityIds lr = container_ids (po_Metadata p) c uid \<and> \<not> destination_reported (all_records (event_resources nv ld)) lr"
proof -
  let ?E = "transformContainersToContainerImageRelationsLogs nv (ee_containers nv 4) (getContainers (ee_parseReference nv) p) (po_Metadata p) t uid"
  let ?lr = "record_at t (addContainerImageRelationAttributes (ee_lower nv) (po_Metadata p) c uid)"
  have E: "?lr \<in> set ?E"
    using assms(3,4) by (force simp: transformContainersToContainerImageRelationsLogs_def map_order_set [OF assms(1)])
  then have "?lr \<in> set (fst (manifest_records nv t uid (PodM p)))" by (simp add: Let_def)
  with assms(2) have "?lr \<in> set (all_records (event_resources nv ld))"
    unfolding event_resources_records entity_events_def by force
  moreover have "is_relationship ?lr" by (rule relations_are_relationships(2) [OF E])
  moreover have "ids_of relSrcEntityIds ?lr = container_ids (po_Metadata p) c uid"
    "p_str (lr_attrs ?lr) relDestEntityType = k8sContainerImageEntityType"
    "p_str (ids_of relDestEntityIds ?lr) ''oci.manifest.digest'' = []"
    by (simp_all add: addContainerImageRelationAttributes_def event_attr_simps image_ids_def strs_str assms(5) extractSha256Digest_def)
  moreover from this(2,3) have "\<not> destination_reported (all_records (event_resources nv ld)) ?lr"
    unfolding destination_reported_def batch_entities [OF assms(1)] using image_entities_have_digests by fastforce
  ultimately show ?thesis by blast
qed

definition wit_event_batch :: logs where
  "wit_event_batch = [\<lparr>rl_attrs = [(''sw.k8s.cluster.uid'', VStr ''u'')], rl_scopes = [\<lparr>sl_attrs = [],
     sl_records = [new_record\<lparr>lr_observed := 3, lr_attrs := [(''k8s.object.kind'', VStr ''Pod'')], lr_body := VStr ''{}''\<rparr>]\<rparr>]\<rparr>]"

lemma wit_event_batch_manifests:
  "batch_manifests (wit_event_env\<lparr>ee_decodePod := (\<lambda>_. Some wit_pod_manifest)\<rparr>) wit_event_batch = [(3, ''u'', PodM wit_pod_manifest)]"
  by (simp add: batch_manifests_def wit_event_batch_def extractManifest_def p_str_def p_get_def new_record_def body_string_def)

lemma relationships_refer_to_reported_entities_witness:
  "\<exists>added. event_processLogs (wit_event_env\<lparr>ee_decodePod := (\<lambda>_. Some wit_pod_manifest)\<rparr>) wit_event_batch = (None, wit_event_batch @ added) \<and>
     reports_entity (all_records added) ''KubernetesContainer''
       [(''k8s.pod.name'', VStr ''p''), (''k8s.namespace.name'', VStr ''n''), (''k8s.container.name'', VStr ''c''), (''sw.k8s.cluster.uid'', VStr ''u'')]"
proof -
  let ?nv = "wit_event_env\<lparr>ee_decodePod := (\<lambda>_. Some wit_pod_manifest)\<rparr>"
  have "list_all (\<lambda>lr. result_ok (extractManifest ?nv lr)) (all_records wit_event_batch)"
    by (simp add: wit_event_batch_def all_records_def extractManifest_def p_get_def new_record_def)
  then obtain ld' where r: "event_processLogs ?nv wit_event_batch = (None, ld')" by (simp add: processLogs_result)
  have "map_order (ee_containers ?nv i)" for i by (simp add: wit_event_env_def)
  from relationships_refer_to_reported_entities [OF this r] obtain added where added: "ld' = wit_event_batch @ added"
    "\<And>ty ids. reports_entity (all_records added) ty ids \<longleftrightarrow>
       (\<exists>(t, uid, m) \<in> set (batch_manifests ?nv wit_event_batch). manifest_entity ?nv uid m ty ids)" by blast
  obtain c where c: "(''c'', c) \<in> set (getContainers (ee_parseReference ?nv) wit_pod_manifest)" "ct_Name c = ''c''"
  proof -
    have "map (\<lambda>(n, c). (n, ct_Name c)) (getContainers (ee_parseReference ?nv) wit_pod_manifest) = [(''c'', ''c'')]" by code_simp
    then obtain b where "getContainers (ee_parseReference ?nv) wit_pod_manifest = [(''c'', b)]" "ct_Name b = ''c''" by auto
    then show ?thesis by (intro that [of b]) simp_all
  qed
  from a_container [OF c(1), of "''u''"] added(2) have "reports_entity (all_records added) ''KubernetesContainer'' (container_ids (po_Metadata wit_pod_manifest) c ''u'')"
    unfolding wit_event_batch_manifests by simp
  then show ?thesis using r added(1) c(2)
    by (simp add: container_ids_def strs_def p_putStr_def p_put_def wit_pod_manifest_def)
qed

text \<open>The digest of an image id does not depend on how the image is named: the part up to the first
  \<open>@\<close>, with any runtime prefix, is ignored, and the algorithm and hash are compared in lower case.\<close>

theorem digest_of_reference:
  assumes "CHR ''@'' \<notin> set name"
  shows "extractSha256Digest uni (name @ CHR ''@'' # digest) =
     (case strings_Cut digest CHR '':'' of
        Some (algorithm, hash) \<Rightarrow> strings_ToLower uni algorithm @ '':'' @ strings_ToLower uni hash
      | None \<Rightarrow> ''sha256:'' @ digest)"
proof -
  have "CHR ''@'' \<notin> set p" if "p \<in> set runtimePrefixes" for p
    using that by (auto simp: runtimePrefixes_def)
  from Trim_prefixes_before_at [OF this assms, where b = digest] obtain a where a: "CHR ''@'' \<notin> set a"
    "fold (\<lambda>p d. strings_TrimPrefix d p) runtimePrefixes (name @ CHR ''@'' # digest) = a @ CHR ''@'' # digest"
    by blast
  show ?thesis
    unfolding extractSha256Digest_def a(2) Let_def Index_append [OF a(1)] option.case
    by (simp split: option.split)
qed

lemma digest_of_reference_witness:
  "extractSha256Digest id (''docker-pullable://nginx'' @ CHR ''@'' # ''SHA256:AB'') = ''sha256:ab''"
proof -
  have h: "CHR ''@'' \<notin> set ''docker-pullable://nginx''" by simp
  have "strings_ToLower id ''SHA256'' = ''sha256''" "strings_ToLower id ''AB'' = ''ab''" by code_simp+
  then show ?thesis by (subst digest_of_reference [OF h]) (simp add: strings_Cut_def)
qed

text \<open>Each image is reported once per pod: the container image records of a pod have distinct ids, and
  their digests are exactly the well-formed digests of its containers.\<close>

theorem image_entities_unique:
  assumes "map_order ord"
  shows "distinct (map (ids_of otelEntityId) (transformContainersToContainerImageEntityLogs nv ord cs t)) \<and>
    (\<lambda>lr. p_str (ids_of otelEntityId lr) ''oci.manifest.digest'') ` set (transformContainersToContainerImageEntityLogs nv ord cs t) =
      {d. \<exists>(n, c) \<in> set cs. valid_digest_of nv c = Some d}"
proof -
  let ?mk = "\<lambda>c. record_at t (p_put otelEntityId
             (VMap (strs [(ociManifestDigest, extractSha256Digest (ee_lower nv) (im_ImageID (ct_Image c)))]))
             (strs [(otelEntityEventType, entityState), (swEntityType, containerImageEntityType)]))"
  obtain cs' where cs': "transformContainersToContainerImageEntityLogs nv ord cs t = map ?mk cs'" "set cs' \<subseteq> set (map snd (ord cs))"
    "distinct (map (valid_digest_of nv) cs')" "\<forall>c \<in> set cs'. \<exists>k. valid_digest_of nv c = Some k"
    "\<forall>c k. c \<in> set (map snd (ord cs)) \<longrightarrow> valid_digest_of nv c = Some k \<longrightarrow> (\<exists>c' \<in> set cs'. valid_digest_of nv c' = Some k)"
    using emit_unique_spec [of "valid_digest_of nv" ?mk "map snd (ord cs)" "[]"]
    unfolding transformContainersToContainerImageEntityLogs_def by auto
  have d: "extractSha256Digest (ee_lower nv) (im_ImageID (ct_Image c)) = the (valid_digest_of nv c)" if "c \<in> set cs'" for c
    using cs'(4) that valid_digest_eq by fastforce
  have ids: "ids_of otelEntityId (?mk c) = strs [(ociManifestDigest, extractSha256Digest (ee_lower nv) (im_ImageID (ct_Image c)))]" for c
    by (simp add: event_attr_simps)
  have str: "p_str (ids_of otelEntityId (?mk c)) ''oci.manifest.digest'' = extractSha256Digest (ee_lower nv) (im_ImageID (ct_Image c))" for c
    unfolding ids by (simp add: strs_str)
  have inj: "inj_on (\<lambda>c. extractSha256Digest (ee_lower nv) (im_ImageID (ct_Image c))) (set cs')"
  proof (rule inj_onI)
    fix a b assume ab: "a \<in> set cs'" "b \<in> set cs'"
      "extractSha256Digest (ee_lower nv) (im_ImageID (ct_Image a)) = extractSha256Digest (ee_lower nv) (im_ImageID (ct_Image b))"
    then have "valid_digest_of nv a = valid_digest_of nv b" using d cs'(4) by (metis option.sel)
    with ab cs'(3) show "a = b" by (auto simp: distinct_map inj_on_def)
  qed
  have "distinct cs'" using cs'(3) by (simp add: distinct_map)
  then have "distinct (map (ids_of otelEntityId) (map ?mk cs'))"
    using inj by (auto simp: distinct_map inj_on_def ids o_def) (metis str ids)
  moreover have "(\<lambda>lr. p_str (ids_of otelEntityId lr) ''oci.manifest.digest'') ` set (map ?mk cs') =
      {d. \<exists>(n, c) \<in> set cs. valid_digest_of nv c = Some d}"
  proof -
    have "(\<lambda>lr. p_str (ids_of otelEntityId lr) ''oci.manifest.digest'') ` set (map ?mk cs') =
        (\<lambda>c. extractSha256Digest (ee_lower nv) (im_ImageID (ct_Image c))) ` set cs'"
      unfolding set_map image_image str ..
    also have "\<dots> = {d. \<exists>c \<in> set cs'. valid_digest_of nv c = Some d}"
      using d cs'(4) by (force simp: image_iff)
    also have "\<dots> = {d. \<exists>c \<in> set (map snd (ord cs)). valid_digest_of nv c = Some d}"
      using cs'(2,5) by blast
    also have "\<dots> = {d. \<exists>(n, c) \<in> set cs. valid_digest_of nv c = Some d}"
      by (force simp: map_order_set [OF assms])
    finally show ?thesis .
  qed
  ultimately show ?thesis unfolding cs'(1) by blast
qed

lemma image_entities_unique_witness:
  "map_order (\<lambda>xs. xs :: (string \<times> container) list) \<and>
   distinct (map (ids_of otelEntityId) (transformContainersToContainerImageEntityLogs wit_event_env (\<lambda>xs. xs)
     (getContainers (ee_parseReference wit_event_env) wit_pod_manifest) 3))"
  using image_entities_unique [OF map_order_id] map_order_id by blast

text \<open>The severity tiers partition the positive scores at 4, 7 and 9, and the reported base score is the
  first positive one of NVD and Red Hat version 3, then NVD and Red Hat version 2: a version is reported
  exactly when one of the four is positive.\<close>

theorem severity_of_score:
  "calculateSeverityFromScore (Finite r) =
     (if r \<le> 0 then [] else if r < 4 then ''LOW'' else if r < 7 then ''MEDIUM'' else if r < 9 then ''HIGH'' else ''CRITICAL'') \<and>
   extractCVSSScore v =
     (case filter (\<lambda>(sc, ver). f64_gt sc 0)
             [(cv_V3Score (vu_NVD v), ''3.0''), (cv_V3Score (vu_RedHat v), ''3.0''),
              (cv_V2Score (vu_NVD v), ''2.0''), (cv_V2Score (vu_RedHat v), ''2.0'')] of
        [] \<Rightarrow> (Finite 0, []) | best # _ \<Rightarrow> best)"
  by (auto simp: calculateSeverityFromScore_def extractCVSSScore_def Let_def)

text \<open>A generated record always carries the observed timestamp of the record it comes from: the
  documented fallback to the record's own timestamp or the current time is never taken, because no
  64-bit nanosecond count denotes the zero time.\<close>

theorem timestamp_is_observed:
  "getTimestamp now lr = lr_observed lr"
  by (rule timestamp_observed)

text \<open>C15: Processing a batch never alters what it was given: it fails exactly when some manifest does not
  parse, and then returns the batch as it was; otherwise it appends exactly the resource with the entity events of all
  manifests, in the order of the batch and with their observed timestamps, and then the resource with one mapping per service
  address, each only when it has records.\<close>

theorem processLogs_appends:
  "event_processLogs nv ld =
     (if list_all (\<lambda>lr. result_ok (extractManifest nv lr)) (all_records ld) then (None, ld @ event_resources nv ld) else (Some (), ld))"
  by (rule processLogs_result)

end
