(* ===== verification/Sw_Extension.thy ===== *)
theory Sw_Extension
  imports Pdata
begin

text \<open>
  The SolarWinds extension (\<open>extension/solarwindsextension\<close>): its configuration, the common
  configuration it offers to the SolarWinds processor, and the heartbeat, a goroutine that exports
  the uptime metric when it is started and on every tick until it is cancelled.

  The OTLP exporter is code of the collector: its validation, creation, \<open>Start\<close>, \<open>Shutdown\<close> and
  \<open>ConsumeMetrics\<close> are arguments (\<open>None\<close> is a nil error).  The heartbeat and its goroutines are
  the step relation \<open>hb_step\<close>: \<open>Start\<close> and \<open>Shutdown\<close> hold the mutex for their whole body, so each is one
  step; a goroutine, once spawned, beats once, then beats on ticks or returns when its context is
  cancelled, and several may be alive at a time after a restart.
\<close>

section \<open>Configuration\<close>

text \<open>Of the client settings of \<open>configgrpc\<close> only the endpoint and the header lookup are read.\<close>

record grpc_config =
  gc_Endpoint :: string
  gc_Header :: "string \<Rightarrow> string option"

record ext_config =
  xc_CollectorName :: string
  xc_Resource :: "(string, string) gomap option"
  xc_WithoutEntity :: bool
  xc_Grpc :: grpc_config

datatype ext_error =
    EndpointMustBeSet
  | AuthorizationMustBeSet
  | AuthorizationNotValid
  | CollectorNameMustBeSet

definition ext_Validate :: "ext_config \<Rightarrow> ext_error list" where
  "ext_Validate cfg =
     (if gc_Endpoint (xc_Grpc cfg) = [] then [EndpointMustBeSet] else []) @
     (case gc_Header (xc_Grpc cfg) ''Authorization'' of
        None \<Rightarrow> [AuthorizationMustBeSet]
      | Some val \<Rightarrow> if \<not> strings_HasPrefix val ''Bearer '' then [AuthorizationNotValid] else []) @
     (if xc_CollectorName cfg = [] then [CollectorNameMustBeSet] else [])"

text \<open>The errors of creating the extension; \<open>'x\<close> are the errors of the exporter's code.\<close>

datatype 'x create_error =
    InvalidExtConfig "ext_error list"
  | ExporterError 'x
  | UnexpectedConfigType

text \<open>\<open>setClient\<close> and \<open>validate\<close> are the settings of the OTLP exporter and their validation.\<close>

definition applyGrpcConfig ::
  "(grpc_config \<Rightarrow> 'o \<Rightarrow> 'o) \<Rightarrow> ('o \<Rightarrow> 'x option) \<Rightarrow> ext_config \<Rightarrow> 'o \<Rightarrow> ('x create_error, 'o) result" where
  "applyGrpcConfig setClient validate cfg otlpConfig =
     (if ext_Validate cfg \<noteq> [] then Inl (InvalidExtConfig (ext_Validate cfg))
      else let otlpConfig = setClient (xc_Grpc cfg) otlpConfig in
           case validate otlpConfig of Some e \<Rightarrow> Inl (ExporterError e) | None \<Rightarrow> Inr otlpConfig)"

record ('o, 'x, 'e) exporter_factory =
  xf_default :: 'o
  xf_setClient :: "grpc_config \<Rightarrow> 'o \<Rightarrow> 'o"
  xf_validate :: "'o \<Rightarrow> 'x option"
  xf_createMetrics :: "'o \<Rightarrow> ('x, 'e) result"

definition newExporter :: "('o, 'x, 'e) exporter_factory \<Rightarrow> ext_config \<Rightarrow> ('x create_error, 'e) result" where
  "newExporter xf cfg =
     (case applyGrpcConfig (xf_setClient xf) (xf_validate xf) cfg (xf_default xf) of
        Inl err \<Rightarrow> Inl err
      | Inr eCfg \<Rightarrow> (case xf_createMetrics xf eCfg of Inl e \<Rightarrow> Inl (ExporterError e) | Inr xp \<Rightarrow> Inr xp))"

section \<open>Common configuration\<close>

record common_config =
  cc_CollectorName :: string
  cc_WithoutEntity :: bool

text \<open>\<open>GetCommonConfig\<close> returns an interface, which may be nil; this one never is.\<close>

definition getCommonConfig :: "ext_config \<Rightarrow> common_config option" where
  "getCommonConfig cfg = Some \<lparr>cc_CollectorName = xc_CollectorName cfg, cc_WithoutEntity = xc_WithoutEntity cfg\<rparr>"

section \<open>Heartbeat\<close>

abbreviation defaultHeartbeatInterval :: time_ns where "defaultHeartbeatInterval \<equiv> 30 * 10 ^ 9"
abbreviation CollectorNameAttribute :: string where "CollectorNameAttribute \<equiv> ''sw.otelcol.collector.name''"
abbreviation CollectorVersionAttribute :: string where "CollectorVersionAttribute \<equiv> ''sw.otelcol.collector.version''"
abbreviation CollectorDistributionAttribute :: string where "CollectorDistributionAttribute \<equiv> ''sw.otelcol.collector.distribution''"
abbreviation EntityCreation :: string where "EntityCreation \<equiv> ''sw.otelcol.collector.entity_creation''"
abbreviation EntityCreationValue :: string where "EntityCreationValue \<equiv> ''on''"
abbreviation collectorCommandPrefix :: string where "collectorCommandPrefix \<equiv> ''solarwinds-otel-collector-''"
abbreviation version_Version :: string where "version_Version \<equiv> ''0.161.6''"
abbreviation heartbeatScopeName :: string where
  "heartbeatScopeName \<equiv> ''github.com/solarwinds/solarwinds-otel-collector-contrib/extension/solarwindsextension''"

text \<open>\<open>hb_cancel\<close> is the context of the running goroutine, \<open>hb_start\<close> the start time of the uptime counter.\<close>

record heartbeat =
  hb_cancel :: "nat option"
  hb_start :: u64
  hb_collectorName :: string
  hb_distribution :: string
  hb_withoutEntity :: bool
  hb_beatInterval :: time_ns
  hb_resource :: "(string, string) gomap option"

definition distributionFromCommand :: "string \<Rightarrow> string" where
  "distributionFromCommand command =
     (if \<not> strings_HasPrefix command collectorCommandPrefix then []
      else strings_TrimPrefix command collectorCommandPrefix)"

definition newHeartbeatWithExporter :: "u64 \<Rightarrow> string \<Rightarrow> ext_config \<Rightarrow> heartbeat" where
  "newHeartbeatWithExporter now command cfg =
     \<lparr>hb_cancel = None, hb_start = now, hb_collectorName = xc_CollectorName cfg,
      hb_distribution = distributionFromCommand command, hb_withoutEntity = xc_WithoutEntity cfg,
      hb_beatInterval = defaultHeartbeatInterval, hb_resource = xc_Resource cfg\<rparr>"

definition newHeartbeat ::
  "('o, 'x, 'e) exporter_factory \<Rightarrow> u64 \<Rightarrow> string \<Rightarrow> ext_config \<Rightarrow> ('x create_error, heartbeat \<times> 'e) result" where
  "newHeartbeat xf now command cfg =
     (case newExporter xf cfg of
        Inl err \<Rightarrow> Inl err
      | Inr xp \<Rightarrow> Inr (newHeartbeatWithExporter now command cfg, xp))"

record 'e extension =
  ex_config :: ext_config
  ex_heartbeat :: heartbeat
  ex_exporter :: 'e

text \<open>\<open>None\<close> is a configuration of another type.\<close>

definition createExtension ::
  "('o, 'x, 'e) exporter_factory \<Rightarrow> u64 \<Rightarrow> string \<Rightarrow> ext_config option \<Rightarrow> ('x create_error, 'e extension) result" where
  "createExtension xf now command c =
     (case c of
        None \<Rightarrow> Inl UnexpectedConfigType
      | Some cfg \<Rightarrow>
        (case newHeartbeat xf now command cfg of
           Inl err \<Rightarrow> Inl err
         | Inr (h, xp) \<Rightarrow> Inr \<lparr>ex_config = cfg, ex_heartbeat = h, ex_exporter = xp\<rparr>))"

text \<open>The uptime in seconds: two 64-bit float operations on the difference of two \<open>int64\<close> times; \<open>fl\<close> is
  the rounding of a rational number to a 64-bit float.\<close>

definition uptime_Get :: "(rat \<Rightarrow> rat) \<Rightarrow> u64 \<Rightarrow> u64 \<Rightarrow> float64" where
  "uptime_Get fl start now = Finite (fl (fl (of_int (sint (now - start))) / 10 ^ 9))"

definition uptime_add :: "(rat \<Rightarrow> rat) \<Rightarrow> u64 \<Rightarrow> u64 \<Rightarrow> metrics \<Rightarrow> metrics" where
  "uptime_add fl start now md =
     md @ [\<lparr>rm_attrs = [], rm_scopes =
       [\<lparr>sm_name = heartbeatScopeName, sm_version = version_Version, sm_attrs = [], sm_metrics =
         [\<lparr>mt_name = ''sw.otelcol.uptime'', mt_description = [], mt_unit = [], mt_metadata = [], mt_data =
           MGauge [\<lparr>dp_attrs = [], dp_startTimestamp = 0, dp_timestamp = now, dp_value = VDouble (uptime_Get fl start now)\<rparr>]\<rparr>]\<rparr>]\<rparr>]"

text \<open>\<open>ord\<close> is the order in which the configured resource attributes are ranged over.\<close>

definition heartbeat_decorate ::
  "((string, string) gomap \<Rightarrow> (string, string) gomap) \<Rightarrow> heartbeat \<Rightarrow> pmap \<Rightarrow> pmap" where
  "heartbeat_decorate ord h attrs =
     (let attrs = (case hb_resource h of None \<Rightarrow> attrs | Some resource \<Rightarrow> p_putStrs (ord resource) attrs);
          attrs = (if hb_collectorName h \<noteq> [] then p_putStr CollectorNameAttribute (hb_collectorName h) attrs else attrs);
          attrs = (if \<not> hb_withoutEntity h then p_putStr EntityCreation EntityCreationValue attrs else attrs);
          attrs = p_putStr CollectorVersionAttribute version_Version attrs in
      if hb_distribution h \<noteq> [] then p_putStr CollectorDistributionAttribute (hb_distribution h) attrs else attrs)"

text \<open>The batch that \<open>generate\<close> hands to the exporter.\<close>

definition heartbeat_generate ::
  "(rat \<Rightarrow> rat) \<Rightarrow> ((string, string) gomap \<Rightarrow> (string, string) gomap) \<Rightarrow> u64 \<Rightarrow> heartbeat \<Rightarrow> metrics" where
  "heartbeat_generate fl ord now h =
     map (rm_attrs_update (heartbeat_decorate ord h)) (uptime_add fl (hb_start h) now [])"

section \<open>Start, shutdown and the goroutines\<close>

datatype hb_error = ErrAlreadyRunning | HbExporter string

text \<open>\<open>res\<close> is what the exporter's \<open>Start\<close> or \<open>Shutdown\<close> returns, \<open>c\<close> the new context; the last component
  is the context of the spawned goroutine, or the cancelled one.\<close>

definition heartbeat_Start :: "string option \<Rightarrow> nat \<Rightarrow> heartbeat \<Rightarrow> hb_error option \<times> heartbeat \<times> nat option" where
  "heartbeat_Start res c h =
     (if hb_cancel h \<noteq> None then (Some ErrAlreadyRunning, h, None)
      else case res of
             Some e \<Rightarrow> (Some (HbExporter e), h, None)
           | None \<Rightarrow> (None, h\<lparr>hb_cancel := Some c\<rparr>, Some c))"

definition heartbeat_Shutdown :: "string option \<Rightarrow> heartbeat \<Rightarrow> hb_error option \<times> heartbeat \<times> nat option" where
  "heartbeat_Shutdown res h =
     (case hb_cancel h of
        None \<Rightarrow> (None, h, None)
      | Some c \<Rightarrow> (map_option HbExporter res, h\<lparr>hb_cancel := None\<rparr>, Some c))"

datatype exporter_call = XStart | XShutdown | XConsume metrics

text \<open>The state of the process: the heartbeat, the goroutines that have not returned with whether they are past the
  start beat, the cancelled contexts, the number of contexts made and the calls of the exporter
  that succeeded (\<open>Shutdown\<close>: that were made), oldest first.\<close>

record hb_system =
  hs_heartbeat :: heartbeat
  hs_loops :: "(nat \<times> bool) list"
  hs_cancelled :: "nat set"
  hs_contexts :: nat
  hs_calls :: "exporter_call list"

definition sys_Start :: "string option \<Rightarrow> hb_system \<Rightarrow> hb_system" where
  "sys_Start res s =
     (case heartbeat_Start res (hs_contexts s) (hs_heartbeat s) of
        (_, h, None) \<Rightarrow> s\<lparr>hs_heartbeat := h\<rparr>
      | (_, h, Some c) \<Rightarrow>
          s\<lparr>hs_heartbeat := h, hs_loops := hs_loops s @ [(c, False)], hs_contexts := Suc c, hs_calls := hs_calls s @ [XStart]\<rparr>)"

definition sys_Shutdown :: "string option \<Rightarrow> hb_system \<Rightarrow> hb_system" where
  "sys_Shutdown res s =
     (case heartbeat_Shutdown res (hs_heartbeat s) of
        (_, h, None) \<Rightarrow> s\<lparr>hs_heartbeat := h\<rparr>
      | (_, h, Some c) \<Rightarrow> s\<lparr>hs_heartbeat := h, hs_cancelled := insert c (hs_cancelled s), hs_calls := hs_calls s @ [XShutdown]\<rparr>)"

text \<open>One beat of goroutine \<open>c\<close> at time \<open>now\<close>: whether the export succeeds or not, the loop goes on.\<close>

definition sys_beat ::
  "(rat \<Rightarrow> rat) \<Rightarrow> ((string, string) gomap \<Rightarrow> (string, string) gomap) \<Rightarrow> u64 \<Rightarrow> nat \<Rightarrow> hb_system \<Rightarrow> hb_system" where
  "sys_beat fl ord now c s =
     s\<lparr>hs_loops := map (\<lambda>(c', b). (c', b \<or> c' = c)) (hs_loops s),
       hs_calls := hs_calls s @ [XConsume (heartbeat_generate fl ord now (hs_heartbeat s))]\<rparr>"

definition sys_return :: "nat \<Rightarrow> hb_system \<Rightarrow> hb_system" where
  "sys_return c s = s\<lparr>hs_loops := filter (\<lambda>(c', b). c' \<noteq> c) (hs_loops s)\<rparr>"

inductive hb_step ::
  "(rat \<Rightarrow> rat) \<Rightarrow> ((string, string) gomap \<Rightarrow> (string, string) gomap) \<Rightarrow> hb_system \<Rightarrow> hb_system \<Rightarrow> bool"
  for fl ord where
  step_Start: "hb_step fl ord s (sys_Start res s)"
| step_Shutdown: "hb_step fl ord s (sys_Shutdown res s)"
| step_start_beat: "(c, False) \<in> set (hs_loops s) \<Longrightarrow> hb_step fl ord s (sys_beat fl ord now c s)"
| step_tick: "(c, True) \<in> set (hs_loops s) \<Longrightarrow> hb_step fl ord s (sys_beat fl ord now c s)"
| step_done: "(c, True) \<in> set (hs_loops s) \<Longrightarrow> c \<in> hs_cancelled s \<Longrightarrow> hb_step fl ord s (sys_return c s)"

definition hb_initial :: "heartbeat \<Rightarrow> hb_system" where
  "hb_initial h = \<lparr>hs_heartbeat = h, hs_loops = [], hs_cancelled = {}, hs_contexts = 0, hs_calls = []\<rparr>"

section \<open>Lemmas\<close>

inductive_cases hb_step_cases: "hb_step fl ord s s'"

lemma ext_valid_iff:
  "ext_Validate cfg = [] \<longleftrightarrow>
     gc_Endpoint (xc_Grpc cfg) \<noteq> [] \<and> xc_CollectorName cfg \<noteq> [] \<and>
     (\<exists>token. gc_Header (xc_Grpc cfg) ''Authorization'' = Some (''Bearer '' @ token))"
  by (auto simp: ext_Validate_def strings_HasPrefix_def prefix_def split: option.splits)

lemma createExtension_valid: "createExtension xf now command c = Inr x \<Longrightarrow> ext_Validate (ex_config x) = []"
  by (auto simp: createExtension_def newHeartbeat_def newExporter_def applyGrpcConfig_def Let_def
      split: option.splits sum.splits if_splits)

lemma createExtension_heartbeat:
  "createExtension xf now command c = Inr x \<Longrightarrow> ex_heartbeat x = newHeartbeatWithExporter now command (ex_config x)"
  by (auto simp: createExtension_def newHeartbeat_def split: option.splits sum.splits)

lemma decorate_cancel [simp]: "heartbeat_decorate ord (h\<lparr>hb_cancel := c\<rparr>) = heartbeat_decorate ord h"
  by (rule ext) (simp add: heartbeat_decorate_def Let_def cong: if_cong option.case_cong)

lemma generate_cancel [simp]: "heartbeat_generate fl ord now (h\<lparr>hb_cancel := c\<rparr>) = heartbeat_generate fl ord now h"
  by (simp add: heartbeat_generate_def)

text \<open>The protocol of the exporter: started when stopped, stopped when started; \<open>None\<close> is a violation.\<close>

fun exporter_step :: "exporter_call \<Rightarrow> bool option \<Rightarrow> bool option" where
  "exporter_step XStart (Some running) = (if running then None else Some True)"
| "exporter_step XShutdown (Some running) = (if running then Some False else None)"
| "exporter_step (XConsume md) (Some running) = Some running"
| "exporter_step _ None = None"

definition exporter_phase :: "exporter_call list \<Rightarrow> bool option" where
  "exporter_phase calls = fold exporter_step calls (Some False)"

lemma exporter_phase_snoc [simp]: "exporter_phase (calls @ [c]) = exporter_step c (exporter_phase calls)"
  by (simp add: exporter_phase_def)

definition uncancelled :: "hb_system \<Rightarrow> nat set" where
  "uncancelled s = fst ` set (hs_loops s) - hs_cancelled s"

definition hb_inv :: "(rat \<Rightarrow> rat) \<Rightarrow> ((string, string) gomap \<Rightarrow> (string, string) gomap) \<Rightarrow> heartbeat \<Rightarrow> hb_system \<Rightarrow> bool" where
  "hb_inv fl ord h s \<longleftrightarrow>
     hs_heartbeat s = h\<lparr>hb_cancel := hb_cancel (hs_heartbeat s)\<rparr> \<and>
     fst ` set (hs_loops s) \<union> hs_cancelled s \<subseteq> {..<hs_contexts s} \<and>
     uncancelled s = set_option (hb_cancel (hs_heartbeat s)) \<and>
     exporter_phase (hs_calls s) = Some (hb_cancel (hs_heartbeat s) \<noteq> None) \<and>
     (\<forall>md. XConsume md \<in> set (hs_calls s) \<longrightarrow> (\<exists>now. md = heartbeat_generate fl ord now h))"

lemma hb_inv_initial: "hb_cancel h = None \<Longrightarrow> hb_inv fl ord h (hb_initial h)"
  by (simp add: hb_inv_def hb_initial_def uncancelled_def exporter_phase_def)

lemma hb_inv_Start:
  assumes "hb_inv fl ord h s"
  shows "hb_inv fl ord h (sys_Start res s)"
proof (cases "hb_cancel (hs_heartbeat s) = None \<and> res = None")
  case True
  moreover from this assms have "uncancelled s = {}" "hs_contexts s \<notin> hs_cancelled s"
    by (auto simp: hb_inv_def)
  ultimately show ?thesis
    using assms by (auto simp: hb_inv_def sys_Start_def heartbeat_Start_def uncancelled_def)
next
  case False
  then have "sys_Start res s = s" by (auto simp: sys_Start_def heartbeat_Start_def split: option.splits)
  with assms show ?thesis by simp
qed

lemma hb_inv_Shutdown:
  assumes "hb_inv fl ord h s"
  shows "hb_inv fl ord h (sys_Shutdown res s)"
proof (cases "hb_cancel (hs_heartbeat s)")
  case None
  then have "sys_Shutdown res s = s" by (simp add: sys_Shutdown_def heartbeat_Shutdown_def)
  with assms show ?thesis by simp
next
  case (Some c)
  with assms have "uncancelled s = {c}" by (simp add: hb_inv_def)
  then have "c \<in> fst ` set (hs_loops s)" "fst ` set (hs_loops s) - insert c (hs_cancelled s) = {}"
    by (auto simp: uncancelled_def)
  with Some assms show ?thesis
    by (auto simp: hb_inv_def sys_Shutdown_def heartbeat_Shutdown_def uncancelled_def)
qed

lemma beat_loops [simp]: "fst ` set (hs_loops (sys_beat fl ord now c s)) = fst ` set (hs_loops s)"
  by (force simp: sys_beat_def)

lemma hb_inv_beat:
  assumes "hb_inv fl ord h s"
  shows "hb_inv fl ord h (sys_beat fl ord now c s)"
proof -
  have "heartbeat_generate fl ord now (hs_heartbeat s) = heartbeat_generate fl ord now h"
    using assms generate_cancel unfolding hb_inv_def by metis
  moreover have "uncancelled (sys_beat fl ord now c s) = uncancelled s"
    by (simp only: uncancelled_def beat_loops) (simp add: sys_beat_def)
  ultimately show ?thesis using assms beat_loops [of fl ord now c s]
    by (auto simp: hb_inv_def sys_beat_def)
qed

lemma hb_inv_return:
  assumes "hb_inv fl ord h s" "c \<in> hs_cancelled s"
  shows "hb_inv fl ord h (sys_return c s)"
proof -
  have "uncancelled (sys_return c s) = uncancelled s"
    using assms(2) by (force simp: uncancelled_def sys_return_def)
  with assms(1) show ?thesis by (auto simp: hb_inv_def sys_return_def)
qed

lemma hb_inv_step: "hb_step fl ord s s' \<Longrightarrow> hb_inv fl ord h s \<Longrightarrow> hb_inv fl ord h s'"
  by (erule hb_step_cases) (simp_all add: hb_inv_Start hb_inv_Shutdown hb_inv_beat hb_inv_return)

interpretation hb: transition_invariant "\<lambda>s. s = hb_initial h \<and> hb_cancel h = None" "hb_step fl ord" "hb_inv fl ord h" for fl ord h
  by unfold_locales (auto intro: hb_inv_initial hb_inv_step)

lemma reach_Start: "(hb_step fl ord)\<^sup>*\<^sup>* s0 s \<Longrightarrow> (hb_step fl ord)\<^sup>*\<^sup>* s0 (sys_Start res s)"
  by (erule rtranclp.rtrancl_into_rtrancl) (rule step_Start)

lemma reach_Shutdown: "(hb_step fl ord)\<^sup>*\<^sup>* s0 s \<Longrightarrow> (hb_step fl ord)\<^sup>*\<^sup>* s0 (sys_Shutdown res s)"
  by (erule rtranclp.rtrancl_into_rtrancl) (rule step_Shutdown)

text \<open>Nothing waits for the goroutine: a batch can reach the exporter after it was shut down.\<close>

lemma beat_after_shutdown:
  assumes "hb_cancel h = None"
  shows "\<exists>s. (hb_step fl ord)\<^sup>*\<^sup>* (hb_initial h) s \<and>
    hs_calls s = [XStart, XShutdown, XConsume (heartbeat_generate fl ord now h)]"
proof -
  let ?a = "sys_Start None (hb_initial h)"
  let ?b = "sys_Shutdown None ?a"
  have b: "hs_loops ?b = [(0, False)]" "hs_calls ?b = [XStart, XShutdown]" "hs_heartbeat ?b = h"
    using assms by (simp_all add: sys_Start_def sys_Shutdown_def heartbeat_Start_def heartbeat_Shutdown_def hb_initial_def)
  have "hb_step fl ord ?b (sys_beat fl ord now 0 ?b)" by (rule step_start_beat) (simp add: b)
  with reach_Shutdown [OF reach_Start, OF rtranclp.rtrancl_refl]
  have "(hb_step fl ord)\<^sup>*\<^sup>* (hb_initial h) (sys_beat fl ord now 0 ?b)" by (rule rtranclp.rtrancl_into_rtrancl)
  with b show ?thesis by (intro exI [of _ "sys_beat fl ord now 0 ?b"]) (simp add: sys_beat_def)
qed

lemma distribution_iff: "distributionFromCommand command \<noteq> [] \<longleftrightarrow> strict_prefix collectorCommandPrefix command"
  by (cases "prefix collectorCommandPrefix command")
    (auto simp: distributionFromCommand_def strings_HasPrefix_def strings_TrimPrefix_def strict_prefix_def prefix_def)

lemma distribution_drop:
  "strict_prefix collectorCommandPrefix command \<Longrightarrow>
   distributionFromCommand command = drop (length collectorCommandPrefix) command"
  by (simp add: distributionFromCommand_def strings_HasPrefix_def strings_TrimPrefix_def strict_prefix_def)

text \<open>The attributes after decoration, by key.\<close>

lemma decorate_get:
  assumes "map_order ord" "pred_option gm_wf (hb_resource h)"
  shows "p_get (heartbeat_decorate ord h m) k =
    (if k = CollectorNameAttribute \<and> hb_collectorName h \<noteq> [] then Some (VStr (hb_collectorName h))
     else if k = CollectorVersionAttribute then Some (VStr version_Version)
     else if k = EntityCreation \<and> \<not> hb_withoutEntity h then Some (VStr EntityCreationValue)
     else if k = CollectorDistributionAttribute \<and> hb_distribution h \<noteq> [] then Some (VStr (hb_distribution h))
     else case Option.bind (hb_resource h) (\<lambda>r. gm_get r k) of None \<Rightarrow> p_get m k | Some v \<Rightarrow> Some (VStr v))"
proof -
  define m' where "m' = (case hb_resource h of None \<Rightarrow> m | Some resource \<Rightarrow> p_putStrs (ord resource) m)"
  have m': "p_get m' k = (case Option.bind (hb_resource h) (\<lambda>r. gm_get r k) of None \<Rightarrow> p_get m k | Some v \<Rightarrow> Some (VStr v))"
    using assms by (auto simp: m'_def p_get_putStrs split: option.split)
  show ?thesis unfolding heartbeat_decorate_def Let_def m'_def [symmetric] m' [symmetric] by simp
qed

section \<open>Properties\<close>

text \<open>C18: In every interleaving of starts, shutdowns and beats the exporter is started only when it is stopped and
  shut down only when it is started, it is started exactly while the heartbeat is running, the
  goroutines that have not been cancelled are exactly the one of the running heartbeat (none when
  it is stopped), and every exported batch is one made by \<open>generate\<close> with the configured attributes.\<close>

theorem heartbeat_lifecycle:
  assumes "(hb_step fl ord)\<^sup>*\<^sup>* (hb_initial (newHeartbeatWithExporter start command cfg)) s"
  shows "exporter_phase (hs_calls s) = Some (hb_cancel (hs_heartbeat s) \<noteq> None) \<and>
    uncancelled s = set_option (hb_cancel (hs_heartbeat s)) \<and>
    (\<forall>md. XConsume md \<in> set (hs_calls s) \<longrightarrow>
       (\<exists>now. md = heartbeat_generate fl ord now (newHeartbeatWithExporter start command cfg)))"
proof -
  have "hb_cancel (newHeartbeatWithExporter start command cfg) = None" by (simp add: newHeartbeatWithExporter_def)
  then show ?thesis using hb.reachable_inv [OF _ assms] by (simp add: hb_inv_def)
qed

definition wit_ext_config :: ext_config where
  "wit_ext_config = \<lparr>xc_CollectorName = ''c'', xc_Resource = Some [(''env'', ''prod''), (CollectorNameAttribute, ''x'')],
     xc_WithoutEntity = False,
     xc_Grpc = \<lparr>gc_Endpoint = ''host:443'', gc_Header = (\<lambda>k. if k = ''Authorization'' then Some ''Bearer t'' else None)\<rparr>\<rparr>"

lemma heartbeat_lifecycle_witness:
  "exporter_phase [XStart, XShutdown, XStart] = Some True \<and>
   uncancelled (sys_Start None (sys_Shutdown None (sys_Start None
     (hb_initial (newHeartbeatWithExporter 0 [] wit_ext_config))))) = {1}"
proof -
  let ?i = "hb_initial (newHeartbeatWithExporter 0 [] wit_ext_config)"
  let ?s = "sys_Start None (sys_Shutdown None (sys_Start None ?i))"
  have reach: "(hb_step id rev)\<^sup>*\<^sup>* ?i ?s"
    by (intro reach_Start reach_Shutdown rtranclp.rtrancl_refl)
  have "hs_calls ?s = [XStart, XShutdown, XStart]" "hb_cancel (hs_heartbeat ?s) = Some 1"
    by (simp_all add: sys_Start_def sys_Shutdown_def heartbeat_Start_def heartbeat_Shutdown_def hb_initial_def
        newHeartbeatWithExporter_def)
  with heartbeat_lifecycle [OF reach] show ?thesis by simp
qed

text \<open>A heartbeat of a created extension exports one resource, whose attributes are, whatever the order in which the
  configured map is ranged over: the collector name and version, the creation flag unless entities
  are disabled, the distribution when the command has the well-known prefix and more, each of them
  even when the configured attributes say otherwise, and else exactly the configured attributes.\<close>

theorem heartbeat_attributes:
  assumes "createExtension xf start command (Some cfg) = Inr x"
    and "map_order ord" and "pred_option gm_wf (xc_Resource cfg)"
  shows "\<exists>attrs. map rm_attrs (heartbeat_generate fl ord now (ex_heartbeat x)) = [attrs] \<and>
    (\<forall>k. p_get attrs k =
       (if k = ''sw.otelcol.collector.name'' then Some (VStr (xc_CollectorName cfg))
        else if k = ''sw.otelcol.collector.version'' then Some (VStr ''0.161.6'')
        else if k = ''sw.otelcol.collector.entity_creation'' \<and> \<not> xc_WithoutEntity cfg then Some (VStr ''on'')
        else if k = ''sw.otelcol.collector.distribution'' \<and> strict_prefix ''solarwinds-otel-collector-'' command
             then Some (VStr (drop (length ''solarwinds-otel-collector-'') command))
        else map_option VStr (Option.bind (xc_Resource cfg) (\<lambda>r. gm_get r k))))"
proof -
  have x: "ex_config x = cfg" using assms(1) by (auto simp: createExtension_def split: sum.splits)
  have h: "ex_heartbeat x = newHeartbeatWithExporter start command cfg"
    using createExtension_heartbeat [OF assms(1)] x by simp
  have name: "xc_CollectorName cfg \<noteq> []" using createExtension_valid [OF assms(1)] x by (simp add: ext_valid_iff)
  have res: "pred_option gm_wf (hb_resource (ex_heartbeat x))"
    using assms(3) h by (simp add: newHeartbeatWithExporter_def)
  have f: "hb_collectorName (ex_heartbeat x) = xc_CollectorName cfg" "hb_withoutEntity (ex_heartbeat x) = xc_WithoutEntity cfg"
    "hb_distribution (ex_heartbeat x) = distributionFromCommand command" "hb_resource (ex_heartbeat x) = xc_Resource cfg"
    by (simp_all add: h newHeartbeatWithExporter_def)
  have one: "map rm_attrs (heartbeat_generate fl ord now (ex_heartbeat x)) = [heartbeat_decorate ord (ex_heartbeat x) []]"
    by (simp add: heartbeat_generate_def uptime_add_def)
  have "p_get (heartbeat_decorate ord (ex_heartbeat x) []) k =
       (if k = ''sw.otelcol.collector.name'' then Some (VStr (xc_CollectorName cfg))
        else if k = ''sw.otelcol.collector.version'' then Some (VStr ''0.161.6'')
        else if k = ''sw.otelcol.collector.entity_creation'' \<and> \<not> xc_WithoutEntity cfg then Some (VStr ''on'')
        else if k = ''sw.otelcol.collector.distribution'' \<and> strict_prefix ''solarwinds-otel-collector-'' command
             then Some (VStr (drop (length ''solarwinds-otel-collector-'') command))
        else map_option VStr (Option.bind (xc_Resource cfg) (\<lambda>r. gm_get r k)))" for k
  proof -
    have last: "(case Option.bind (xc_Resource cfg) (\<lambda>r. gm_get r k) of None \<Rightarrow> p_get [] k | Some v \<Rightarrow> Some (VStr v)) =
      map_option VStr (Option.bind (xc_Resource cfg) (\<lambda>r. gm_get r k))"
      by (simp split: option.split)
    show ?thesis
    proof (cases "strict_prefix collectorCommandPrefix command")
      case True
      show ?thesis unfolding decorate_get [of ord "ex_heartbeat x", OF assms(2) res] f distribution_iff last
        unfolding distribution_drop [OF True] by (simp only: name simp_thms)
    next
      case False
      then show ?thesis unfolding decorate_get [of ord "ex_heartbeat x", OF assms(2) res] f distribution_iff last by (simp only: name simp_thms if_False)
    qed
  qed
  then show ?thesis by (intro exI conjI allI) (rule one)
qed

definition wit_factory :: "(unit, unit, unit) exporter_factory" where
  "wit_factory = \<lparr>xf_default = (), xf_setClient = (\<lambda>_ _. ()), xf_validate = (\<lambda>_. None), xf_createMetrics = Inr\<rparr>"

lemma heartbeat_attributes_witness:
  "\<exists>x attrs. createExtension wit_factory 0 ''solarwinds-otel-collector-k8s'' (Some wit_ext_config) = Inr x \<and>
     map rm_attrs (heartbeat_generate id rev 5 (ex_heartbeat x)) = [attrs] \<and>
     p_get attrs ''sw.otelcol.collector.name'' = Some (VStr ''c'') \<and> p_get attrs ''env'' = Some (VStr ''prod'') \<and>
     p_get attrs ''sw.otelcol.collector.distribution'' = Some (VStr ''k8s'')"
proof -
  obtain x where x: "createExtension wit_factory 0 ''solarwinds-otel-collector-k8s'' (Some wit_ext_config) = Inr x"
    by (simp add: createExtension_def newHeartbeat_def newExporter_def applyGrpcConfig_def ext_valid_iff wit_factory_def
        wit_ext_config_def)
  have r: "pred_option gm_wf (xc_Resource wit_ext_config)" by (auto simp: wit_ext_config_def gm_wf_def)
  from heartbeat_attributes [OF x map_order_rev r, of id 5]
  obtain attrs where one: "map rm_attrs (heartbeat_generate id rev 5 (ex_heartbeat x)) = [attrs]"
    and k: "p_get attrs ''sw.otelcol.collector.name'' = Some (VStr ''c'')" "p_get attrs ''env'' = Some (VStr ''prod'')"
      "p_get attrs ''sw.otelcol.collector.distribution'' = Some (VStr ''k8s'')"
    by (auto simp: wit_ext_config_def strict_prefix_def)
  show ?thesis by (intro exI conjI) (rule x one k)+
qed

end
