(* ===== verification/Sw_Processor.thy ===== *)
theory Sw_Processor
  imports Sw_Extension
begin

text \<open>
  The SolarWinds processor (\<open>processor/solarwindsprocessor\<close>) with the two packages it is built from,
  \<open>pkg/attributesdecorator\<close> and \<open>pkg/extensionfinder\<close>: configuration, start (which copies the collector
  name and the creation flag of the extension into the configured attributes), the host attribute
  policy, and the processing of logs, metrics and traces.

  Arguments are the parsing of component identifiers, the container provider, the marshalling of a
  batch and the Unicode case folding.  A panic (a write to a nil map) is an error of its own.  What is
  only logged is not modelled, except the size warning, which is the purpose of the limit and is
  part of the result.
\<close>

section \<open>Configuration\<close>

record collector_decoration =
  cd_Enabled :: bool
  cd_ExtensionName :: string

record host_decoration =
  hd_Enabled :: bool
  hd_OnPremOverrideID :: string

text \<open>The size limit is a Go \<open>int\<close>; the attributes are \<open>None\<close> for a nil map.\<close>

record sw_config =
  sc_MaxSizeMib :: u64
  sc_ResourceAttributes :: "(string, string) gomap option"
  sc_Collector :: collector_decoration
  sc_Host :: host_decoration

datatype sw_error =
    ExtensionMustBeSet
  | MaxSizeNegative int
  | UnexpectedConfig
  | ValidationFailed sw_error
  | IDNotParsed string
  | ExtensionNotFound string
  | ExtensionOfOtherType string
  | FailedToFind string
  | FailedToGetExtension string sw_error
  | ExtensionIsNil
  | ConfigIsNil
  | FailedToDecorate sw_error
  | NilMapWrite
  | UnsupportedSignal
  | MarshalFailed string
  | NotifyFailed sw_error

definition collector_Validate :: "collector_decoration \<Rightarrow> sw_error option" where
  "collector_Validate cd = (if cd_Enabled cd \<and> cd_ExtensionName cd = [] then Some ExtensionMustBeSet else None)"

definition sw_Validate :: "sw_config \<Rightarrow> sw_error option" where
  "sw_Validate c =
     (case collector_Validate (sc_Collector c) of
        Some err \<Rightarrow> Some err
      | None \<Rightarrow> if sint (sc_MaxSizeMib c) < 0 then Some (MaxSizeNegative (sint (sc_MaxSizeMib c))) else None)"

definition sw_createDefaultConfig :: sw_config where
  "sw_createDefaultConfig =
     \<lparr>sc_MaxSizeMib = 6, sc_ResourceAttributes = Some [],
      sc_Collector = \<lparr>cd_Enabled = True, cd_ExtensionName = []\<rparr>,
      sc_Host = \<lparr>hd_Enabled = False, hd_OnPremOverrideID = []\<rparr>\<rparr>"

section \<open>Finding the extension\<close>

text \<open>\<open>parse\<close> is \<open>component.ID.UnmarshalText\<close>, \<open>cast\<close> the type assertion to the wanted extension type.\<close>

definition findExtension ::
  "(string \<Rightarrow> 'id option) \<Rightarrow> ('x \<Rightarrow> 'e option) \<Rightarrow> string \<Rightarrow> ('id, 'x) gomap \<Rightarrow> (sw_error, 'e) result" where
  "findExtension parse cast extensionName extensions =
     (case parse extensionName of
        None \<Rightarrow> Inl (IDNotParsed extensionName)
      | Some extID \<Rightarrow>
        (case gm_get extensions extID of
           None \<Rightarrow> Inl (ExtensionNotFound extensionName)
         | Some ext \<Rightarrow>
           (case cast ext of None \<Rightarrow> Inl (ExtensionOfOtherType extensionName) | Some e \<Rightarrow> Inr e)))"

text \<open>An extension of the host: a SolarWinds extension with its configuration, or another one.\<close>

datatype host_extension = SolarwindsExtension ext_config | OtherExtension

fun as_solarwinds :: "host_extension \<Rightarrow> ext_config option" where
  "as_solarwinds (SolarwindsExtension e) = Some e"
| "as_solarwinds OtherExtension = None"

text \<open>The provider holds the extension once it is found.\<close>

type_synonym extension_provider = "ext_config option"

definition provider_Init ::
  "(string \<Rightarrow> 'id option) \<Rightarrow> string \<Rightarrow> ('id, host_extension) gomap \<Rightarrow> extension_provider \<Rightarrow> (sw_error, extension_provider) result" where
  "provider_Init parse extensionName host ep =
     (case ep of
        Some e \<Rightarrow> Inr (Some e)
      | None \<Rightarrow>
        (case findExtension parse as_solarwinds extensionName host of
           Inl _ \<Rightarrow> Inl (FailedToFind extensionName)
         | Inr swiExtension \<Rightarrow> Inr (Some swiExtension)))"

definition provider_SetAttributes ::
  "extension_provider \<Rightarrow> (string, string) gomap option \<Rightarrow> (sw_error, (string, string) gomap option) result" where
  "provider_SetAttributes ep resourceAttributes =
     (case ep of
        None \<Rightarrow> Inl ExtensionIsNil
      | Some e \<Rightarrow>
        (case getCommonConfig e of
           None \<Rightarrow> Inl ConfigIsNil
         | Some cfg \<Rightarrow>
           (case resourceAttributes of
              None \<Rightarrow> Inl NilMapWrite
            | Some attrs \<Rightarrow>
                let attrs = (if \<not> cc_WithoutEntity cfg then gm_put EntityCreation EntityCreationValue attrs else attrs)
                in Inr (Some (gm_put CollectorNameAttribute (cc_CollectorName cfg) attrs)))))"

section \<open>Host attributes\<close>

record host_decorator =
  ha_ContainerID :: string
  ha_IsRunInContainerd :: bool
  ha_OnPremOverrideId :: string

abbreviation cloudProviderAttribute :: string where "cloudProviderAttribute \<equiv> ''cloud.provider''"
abbreviation hostIDAttribute :: string where "hostIDAttribute \<equiv> ''host.id''"
abbreviation hostBiosUuid :: string where "hostBiosUuid \<equiv> ''host.bios-uuid''"
abbreviation hostNameAttribute :: string where "hostNameAttribute \<equiv> ''host.name''"
abbreviation osTypeAttribute :: string where "osTypeAttribute \<equiv> ''os.type''"
abbreviation cloudAccountID :: string where "cloudAccountID \<equiv> ''cloud.account.id''"
abbreviation cloudAvailabilityZone :: string where "cloudAvailabilityZone \<equiv> ''cloud.availability_zone''"

text \<open>What the container provider reads (\<open>Inl\<close> an error) and whether it is containerd.\<close>

definition newHostAttributes :: "host_decoration \<Rightarrow> (string, string) result \<Rightarrow> bool \<Rightarrow> host_decorator" where
  "newHostAttributes dec instanceID isContainerd =
     \<lparr>ha_ContainerID = (case instanceID of Inl _ \<Rightarrow> [] | Inr i \<Rightarrow> i),
      ha_IsRunInContainerd = isContainerd, ha_OnPremOverrideId = hd_OnPremOverrideID dec\<rparr>"

definition getHostId :: "host_decorator \<Rightarrow> pmap \<Rightarrow> string" where
  "getHostId h attrs =
     (if ha_OnPremOverrideId h \<noteq> [] then ha_OnPremOverrideId h
      else if p_str attrs hostBiosUuid \<noteq> [] then p_str attrs hostBiosUuid
      else if p_str attrs hostIDAttribute \<noteq> [] then p_str attrs hostIDAttribute
      else [])"

definition normalizeOsType :: "(string \<Rightarrow> string \<Rightarrow> bool) \<Rightarrow> pvalue \<Rightarrow> pvalue" where
  "normalizeOsType fold_eq v =
     (if strings_EqualFold fold_eq (v_str (Some v)) ''windows'' then VStr ''Windows'' else VStr ''Linux'')"

definition getGcpHostID :: "pmap \<Rightarrow> string" where
  "getGcpHostID attrs =
     (let projectID = p_str attrs cloudAccountID; zoneID = p_str attrs cloudAvailabilityZone;
          instanceID = p_str attrs hostIDAttribute in
      if projectID \<noteq> [] \<and> zoneID \<noteq> [] \<and> instanceID \<noteq> []
      then projectID @ '':'' @ zoneID @ '':'' @ instanceID else [])"

definition applyAttributes :: "(string \<Rightarrow> string \<Rightarrow> bool) \<Rightarrow> host_decorator option \<Rightarrow> pmap \<Rightarrow> pmap" where
  "applyAttributes fold_eq d attrs =
     (case d of
        None \<Rightarrow> attrs
      | Some h \<Rightarrow>
        (let cloudProvider = p_get attrs cloudProviderAttribute;
             hostId = getHostId h attrs;
             attrs = (if cloudProvider = None then p_putStr hostIDAttribute hostId attrs else attrs);
             attrs = (if cloudProvider \<noteq> None \<and> ha_ContainerID h \<noteq> [] then p_putStr hostIDAttribute hostId attrs else attrs);
             attrs = (if v_str cloudProvider = ''aws'' \<and> ha_IsRunInContainerd h
                      then if ha_ContainerID h = [] then attrs else p_putStr hostNameAttribute (ha_ContainerID h) attrs
                      else attrs);
             attrs = (if v_str cloudProvider = ''gcp''
                      then let hostID = getGcpHostID attrs in
                           if hostID \<noteq> [] then p_putStr hostIDAttribute hostID attrs else p_remove hostIDAttribute attrs
                      else attrs) in
         case p_get attrs osTypeAttribute of
           None \<Rightarrow> attrs
         | Some osTypeValue \<Rightarrow> p_put osTypeAttribute (normalizeOsType fold_eq osTypeValue) attrs))"

section \<open>Decorating a collection of resources\<close>

text \<open>\<open>upd\<close> changes the attributes of one resource; \<open>ord\<close> is the order of ranging over the map.\<close>

definition decorateResourceAttributes ::
  "((pmap \<Rightarrow> pmap) \<Rightarrow> 'r \<Rightarrow> 'r) \<Rightarrow> (string, string) gomap \<Rightarrow> 'r list \<Rightarrow> 'r list" where
  "decorateResourceAttributes upd atts collection =
     (if length collection = 0 then collection else map (upd (p_putStrs atts)) collection)"

definition decorateResourceAttributesByFunction ::
  "((pmap \<Rightarrow> pmap) \<Rightarrow> 'r \<Rightarrow> 'r) \<Rightarrow> (pmap \<Rightarrow> pmap) \<Rightarrow> 'r list \<Rightarrow> 'r list" where
  "decorateResourceAttributesByFunction upd fn collection = map (upd fn) collection"

section \<open>The processor\<close>

record sw_processor =
  pr_cfg :: sw_config
  pr_hostAttributes :: "host_decorator option"
  pr_extensionProvider :: "extension_provider option"

definition newProcessor :: "(string, string) result \<Rightarrow> bool \<Rightarrow> sw_config \<Rightarrow> sw_processor" where
  "newProcessor instanceID isContainerd cfg =
     \<lparr>pr_cfg = cfg,
      pr_hostAttributes =
        (if hd_Enabled (sc_Host cfg) then Some (newHostAttributes (sc_Host cfg) instanceID isContainerd) else None),
      pr_extensionProvider = (if cd_Enabled (sc_Collector cfg) then Some None else None)\<rparr>"

text \<open>\<open>None\<close> is a configuration of another type.\<close>

definition checkConfig :: "sw_config option \<Rightarrow> (sw_error, sw_config) result" where
  "checkConfig cfg =
     (case cfg of
        None \<Rightarrow> Inl UnexpectedConfig
      | Some c \<Rightarrow> (case sw_Validate c of Some err \<Rightarrow> Inl (ValidationFailed err) | None \<Rightarrow> Inr c))"

definition createProcessor :: "(string, string) result \<Rightarrow> bool \<Rightarrow> sw_config option \<Rightarrow> (sw_error, sw_processor) result" where
  "createProcessor instanceID isContainerd cfg =
     (case checkConfig cfg of Inl err \<Rightarrow> Inl err | Inr c \<Rightarrow> Inr (newProcessor instanceID isContainerd c))"

definition sw_start ::
  "(string \<Rightarrow> 'id option) \<Rightarrow> ('id, host_extension) gomap \<Rightarrow> sw_processor \<Rightarrow> sw_error option \<times> sw_processor" where
  "sw_start parse host p =
     (case pr_extensionProvider p of
        None \<Rightarrow> (None, p)
      | Some ep \<Rightarrow>
        (let extensionName = cd_ExtensionName (sc_Collector (pr_cfg p)) in
         case provider_Init parse extensionName host ep of
           Inl err \<Rightarrow> (Some (FailedToGetExtension extensionName err), p)
         | Inr ep' \<Rightarrow>
           (let p = p\<lparr>pr_extensionProvider := Some ep'\<rparr> in
            case provider_SetAttributes ep' (sc_ResourceAttributes (pr_cfg p)) of
              Inl NilMapWrite \<Rightarrow> (Some NilMapWrite, p)
            | Inl err \<Rightarrow> (Some (FailedToDecorate err), p)
            | Inr attrs \<Rightarrow> (None, p\<lparr>pr_cfg := (pr_cfg p)\<lparr>sc_ResourceAttributes := attrs\<rparr>\<rparr>))))"

datatype signal = SigLogs logs | SigMetrics metrics | SigTraces traces | SigOther

fun signalName :: "signal \<Rightarrow> string option" where
  "signalName (SigLogs _) = Some ''Logs''"
| "signalName (SigMetrics _) = Some ''Metrics''"
| "signalName (SigTraces _) = Some ''Traces''"
| "signalName SigOther = None"

text \<open>A warning names the signal, its size in bytes and the limit in MiB.\<close>

type_synonym size_warning = "string \<times> int \<times> int"

definition notifySignalSizeLimitExceeded ::
  "(signal \<Rightarrow> (string, bytes) result) \<Rightarrow> signal \<Rightarrow> u64 \<Rightarrow> (sw_error, size_warning option) result" where
  "notifySignalSizeLimitExceeded marshal signal limit =
     (if sint limit \<le> 0 then Inr None
      else case signalName signal of
             None \<Rightarrow> Inl UnsupportedSignal
           | Some name \<Rightarrow>
             (case marshal signal of
                Inl err \<Rightarrow> Inl (MarshalFailed err)
              | Inr bs \<Rightarrow>
                (let bsLen = int (length bs); limitBytes = limit * 1024 * 1024 in
                 Inr (if bsLen > sint limitBytes then Some (name, bsLen, sint limit) else None))))"

definition configured_attributes :: "sw_config \<Rightarrow> (string, string) gomap" where
  "configured_attributes c = (case sc_ResourceAttributes c of None \<Rightarrow> [] | Some m \<Rightarrow> m)"

text \<open>The common body of the three process functions: \<open>wrap\<close> makes a signal of the batch.\<close>

definition sw_process ::
  "(signal \<Rightarrow> (string, bytes) result) \<Rightarrow> (string \<Rightarrow> string \<Rightarrow> bool) \<Rightarrow> ((string, string) gomap \<Rightarrow> (string, string) gomap)
   \<Rightarrow> ((pmap \<Rightarrow> pmap) \<Rightarrow> 'r \<Rightarrow> 'r) \<Rightarrow> ('r list \<Rightarrow> signal) \<Rightarrow> sw_processor \<Rightarrow> 'r list
   \<Rightarrow> (sw_error, 'r list \<times> size_warning option) result" where
  "sw_process marshal fold_eq ord upd wrap p batch =
     (let batch = decorateResourceAttributesByFunction upd (applyAttributes fold_eq (pr_hostAttributes p)) batch;
          batch = decorateResourceAttributes upd (ord (configured_attributes (pr_cfg p))) batch in
      case notifySignalSizeLimitExceeded marshal (wrap batch) (sc_MaxSizeMib (pr_cfg p)) of
        Inl err \<Rightarrow> Inl (NotifyFailed err)
      | Inr warning \<Rightarrow> Inr (batch, warning))"

definition sw_processLogs where
  "sw_processLogs marshal fold_eq ord = sw_process marshal fold_eq ord rl_attrs_update SigLogs"

definition sw_processMetrics where
  "sw_processMetrics marshal fold_eq ord = sw_process marshal fold_eq ord rm_attrs_update SigMetrics"

definition sw_processTraces where
  "sw_processTraces marshal fold_eq ord = sw_process marshal fold_eq ord rsp_attrs_update SigTraces"

section \<open>Lemmas\<close>

lemma sw_Validate_iff:
  "sw_Validate c = None \<longleftrightarrow>
     (cd_Enabled (sc_Collector c) \<longrightarrow> cd_ExtensionName (sc_Collector c) \<noteq> []) \<and> 0 \<le> sint (sc_MaxSizeMib c)"
  by (auto simp: sw_Validate_def collector_Validate_def)

lemma createProcessor_Inr:
  "createProcessor i b (Some c) = Inr p \<longleftrightarrow> sw_Validate c = None \<and> p = newProcessor i b c"
  by (auto simp: createProcessor_def checkConfig_def split: option.splits)

lemma decorate_batch:
  "decorateResourceAttributes upd kvs (decorateResourceAttributesByFunction upd f batch) =
     map (\<lambda>r. upd (p_putStrs kvs) (upd f r)) batch"
  by (simp add: decorateResourceAttributes_def decorateResourceAttributesByFunction_def)

text \<open>
  The policy, stated from the documentation and not through the code's functions.  The id of a host is
  the first of its sources that is not empty: the configured override, the BIOS UUID, the received id.
  A received attribute that is not a string counts as the empty string.
\<close>

definition host_id_sources :: "host_decorator \<Rightarrow> pmap \<Rightarrow> string list" where
  "host_id_sources h m = [ha_OnPremOverrideId h, p_str m ''host.bios-uuid'', p_str m ''host.id'']"

definition first_known :: "string list \<Rightarrow> string" where
  "first_known xs = (case dropWhile (\<lambda>s. s = []) xs of [] \<Rightarrow> [] | x # _ \<Rightarrow> x)"

text \<open>The host id before the rule for Google's cloud: a cloud host outside a container keeps the received one.\<close>

definition local_host_id :: "host_decorator \<Rightarrow> pmap \<Rightarrow> pvalue option" where
  "local_host_id h m =
     (if p_get m ''cloud.provider'' = None \<or> ha_ContainerID h \<noteq> []
      then Some (VStr (first_known (host_id_sources h m))) else p_get m ''host.id'')"

definition os_type_policy :: "(string \<Rightarrow> string \<Rightarrow> bool) \<Rightarrow> pvalue option \<Rightarrow> pvalue option" where
  "os_type_policy fold_eq received =
     (case received of
        None \<Rightarrow> None
      | Some v \<Rightarrow> Some (VStr (if strings_EqualFold fold_eq (v_str (Some v)) ''windows'' then ''Windows'' else ''Linux'')))"

text \<open>The intended value of every attribute after the decoration.\<close>

definition host_policy :: "(string \<Rightarrow> string \<Rightarrow> bool) \<Rightarrow> host_decorator \<Rightarrow> pmap \<Rightarrow> string \<Rightarrow> pvalue option" where
  "host_policy fold_eq h m k =
     (if k = ''host.id''
      then if p_str m ''cloud.provider'' = ''gcp''
           then if p_str m ''cloud.account.id'' \<noteq> [] \<and> p_str m ''cloud.availability_zone'' \<noteq> [] \<and> v_str (local_host_id h m) \<noteq> []
                then Some (VStr (p_str m ''cloud.account.id'' @ '':'' @ p_str m ''cloud.availability_zone'' @ '':'' @
                       v_str (local_host_id h m)))
                else None
           else local_host_id h m
      else if k = ''host.name'' \<and> p_str m ''cloud.provider'' = ''aws'' \<and> ha_IsRunInContainerd h \<and> ha_ContainerID h \<noteq> []
      then Some (VStr (ha_ContainerID h))
      else if k = ''os.type'' then os_type_policy fold_eq (p_get m ''os.type'')
      else p_get m k)"

lemma getHostId_policy: "getHostId h m = first_known (host_id_sources h m)"
  by (simp add: getHostId_def host_id_sources_def first_known_def)

lemma normalizeOsType_policy: "map_option (normalizeOsType fold_eq) v = os_type_policy fold_eq v"
  by (simp add: normalizeOsType_def os_type_policy_def split: option.split)

text \<open>The attributes after the host id, the host name and the Google rule, in the order of the code.\<close>

definition with_host_id :: "host_decorator \<Rightarrow> pmap \<Rightarrow> pmap" where
  "with_host_id h m =
     (if p_get m ''cloud.provider'' = None \<or> ha_ContainerID h \<noteq> [] then p_putStr ''host.id'' (getHostId h m) m else m)"

definition with_host_name :: "host_decorator \<Rightarrow> string \<Rightarrow> pmap \<Rightarrow> pmap" where
  "with_host_name h provider m =
     (if provider = ''aws'' \<and> ha_IsRunInContainerd h \<and> ha_ContainerID h \<noteq> [] then p_putStr ''host.name'' (ha_ContainerID h) m else m)"

definition with_gcp_id :: "string \<Rightarrow> pmap \<Rightarrow> pmap" where
  "with_gcp_id provider m =
     (if provider = ''gcp'' then if getGcpHostID m \<noteq> [] then p_putStr ''host.id'' (getGcpHostID m) m else p_remove ''host.id'' m else m)"

definition with_os_type :: "(string \<Rightarrow> string \<Rightarrow> bool) \<Rightarrow> pmap \<Rightarrow> pmap" where
  "with_os_type fold_eq m =
     (case p_get m ''os.type'' of None \<Rightarrow> m | Some v \<Rightarrow> p_put ''os.type'' (normalizeOsType fold_eq v) m)"

lemma applyAttributes_stages:
  "applyAttributes fold_eq (Some h) m =
     with_os_type fold_eq (with_gcp_id (p_str m ''cloud.provider'')
       (with_host_name h (p_str m ''cloud.provider'') (with_host_id h m)))"
proof -
  have id: "(let a = (if p_get m cloudProviderAttribute = None then p_putStr hostIDAttribute (getHostId h m) m else m)
     in if p_get m cloudProviderAttribute \<noteq> None \<and> ha_ContainerID h \<noteq> [] then p_putStr hostIDAttribute (getHostId h m) a else a) =
    with_host_id h m"
    by (simp add: with_host_id_def Let_def)
  have nm: "(if v_str (p_get m cloudProviderAttribute) = ''aws'' \<and> ha_IsRunInContainerd h
      then if ha_ContainerID h = [] then a else p_putStr hostNameAttribute (ha_ContainerID h) a else a) =
    with_host_name h (p_str m ''cloud.provider'') a" for a
    by (simp add: with_host_name_def p_str_def)
  show ?thesis
    unfolding applyAttributes_def option.case Let_def with_os_type_def with_gcp_id_def nm [symmetric] id [symmetric]
    by (simp only: p_str_def)
qed

lemma get_with_host_id: "p_get (with_host_id h m) k = (if k = ''host.id'' then local_host_id h m else p_get m k)"
  by (simp add: with_host_id_def local_host_id_def getHostId_policy)

lemma get_with_host_name:
  "p_get (with_host_name h provider m) k =
     (if k = ''host.name'' \<and> provider = ''aws'' \<and> ha_IsRunInContainerd h \<and> ha_ContainerID h \<noteq> []
      then Some (VStr (ha_ContainerID h)) else p_get m k)"
  by (simp add: with_host_name_def)

lemma get_with_gcp_id:
  "p_get (with_gcp_id provider m) k =
     (if k = ''host.id'' \<and> provider = ''gcp''
      then if getGcpHostID m = [] then None else Some (VStr (getGcpHostID m)) else p_get m k)"
  by (simp add: with_gcp_id_def)

lemma get_with_os_type:
  "p_get (with_os_type fold_eq m) k =
     (if k = ''os.type'' then map_option (normalizeOsType fold_eq) (p_get m ''os.type'') else p_get m k)"
  by (simp add: with_os_type_def split: option.split)

lemma gcp_id_of:
  "getGcpHostID m =
     (if p_str m ''cloud.account.id'' \<noteq> [] \<and> p_str m ''cloud.availability_zone'' \<noteq> [] \<and> p_str m ''host.id'' \<noteq> []
      then p_str m ''cloud.account.id'' @ '':'' @ p_str m ''cloud.availability_zone'' @ '':'' @ p_str m ''host.id'' else [])"
  by (simp only: getGcpHostID_def Let_def)

lemma gcp_id_staged:
  "getGcpHostID (with_host_name h provider (with_host_id h m)) =
     (if p_str m ''cloud.account.id'' \<noteq> [] \<and> p_str m ''cloud.availability_zone'' \<noteq> [] \<and> v_str (local_host_id h m) \<noteq> []
      then p_str m ''cloud.account.id'' @ '':'' @ p_str m ''cloud.availability_zone'' @ '':'' @ v_str (local_host_id h m) else [])"
proof -
  have "p_str (with_host_name h provider (with_host_id h m)) ''host.id'' = v_str (local_host_id h m)"
    "p_str (with_host_name h provider (with_host_id h m)) ''cloud.account.id'' = p_str m ''cloud.account.id''"
    "p_str (with_host_name h provider (with_host_id h m)) ''cloud.availability_zone'' = p_str m ''cloud.availability_zone''"
    by (simp_all add: p_str_def get_with_host_name get_with_host_id)
  then show ?thesis by (simp only: gcp_id_of)
qed

lemma applyAttributes_policy: "p_get (applyAttributes fold_eq (Some h) m) k = host_policy fold_eq h m k"
proof -
  consider "k = ''host.id''" | "k = ''host.name''" | "k = ''os.type''"
    | "k \<noteq> ''host.id''" "k \<noteq> ''host.name''" "k \<noteq> ''os.type''" by blast
  then show ?thesis
    by cases (simp_all add: applyAttributes_stages host_policy_def get_with_os_type get_with_gcp_id get_with_host_name
        get_with_host_id gcp_id_staged normalizeOsType_policy)
qed

lemma applyAttributes_wf: "p_wf m \<Longrightarrow> p_wf (applyAttributes fold_eq d m)"
  by (cases d) (simp_all add: applyAttributes_stages applyAttributes_def [of _ None] with_os_type_def with_gcp_id_def
      with_host_name_def with_host_id_def pm.wf_remove split: option.split)

text \<open>Size limits: below \<open>2 ^ 43\<close> MiB the product fits, above it wraps around.\<close>

lemma limit_bytes:
  assumes "0 \<le> sint limit" "sint limit < 2 ^ 43"
  shows "sint (limit * 1024 * 1024 :: u64) = sint limit * 2 ^ 20"
proof -
  have "sint (limit * (2 ^ 20) :: u64) = sint limit * sint (2 ^ 20 :: u64)"
    by (rule sint_times_small) (use assms in simp_all)
  then show ?thesis by (simp add: mult.assoc)
qed

lemma limit_wraps: "sint ((2 ^ 43 :: u64) * 1024 * 1024) < 0 \<and> 0 < sint (2 ^ 43 :: u64)"
  by simp

text \<open>Starting a new processor: what it finds and what it adds to the configured attributes.\<close>

definition with_collector :: "ext_config \<Rightarrow> (string, string) gomap \<Rightarrow> (string, string) gomap" where
  "with_collector e m =
     gm_put CollectorNameAttribute (xc_CollectorName e)
       (if xc_WithoutEntity e then m else gm_put EntityCreation EntityCreationValue m)"

lemma sw_start_enabled:
  assumes "cd_Enabled (sc_Collector c)"
  shows "sw_start parse host (newProcessor i b c) =
    (let p = newProcessor i b c; name = cd_ExtensionName (sc_Collector c) in
     case findExtension parse as_solarwinds name host of
       Inl _ \<Rightarrow> (Some (FailedToGetExtension name (FailedToFind name)), p)
     | Inr e \<Rightarrow>
       (case sc_ResourceAttributes c of
          None \<Rightarrow> (Some NilMapWrite, p\<lparr>pr_extensionProvider := Some (Some e)\<rparr>)
        | Some m \<Rightarrow> (None, p\<lparr>pr_extensionProvider := Some (Some e),
                            pr_cfg := c\<lparr>sc_ResourceAttributes := Some (with_collector e m)\<rparr>\<rparr>)))"
  using assms
  by (simp add: sw_start_def newProcessor_def provider_Init_def provider_SetAttributes_def getCommonConfig_def
      with_collector_def Let_def split: sum.split option.split)

lemma sw_start_limit: "sw_start parse host p = (e, p') \<Longrightarrow> sc_MaxSizeMib (pr_cfg p') = sc_MaxSizeMib (pr_cfg p)"
  by (auto simp: sw_start_def Let_def split: option.splits sum.splits sw_error.splits)

lemma with_collector_wf [simp]: "gm_wf m \<Longrightarrow> gm_wf (with_collector e m)"
  by (simp add: with_collector_def)

lemma with_collector_get:
  "gm_get (with_collector e m) k =
     (if k = CollectorNameAttribute then Some (xc_CollectorName e)
      else if k = EntityCreation \<and> \<not> xc_WithoutEntity e then Some EntityCreationValue else gm_get m k)"
  by (simp add: with_collector_def gomap_simps)

text \<open>What processing makes of one resource: \<open>rest\<close> is everything but its attributes.\<close>

definition decorated_attr :: "(string \<Rightarrow> string \<Rightarrow> bool) \<Rightarrow> sw_processor \<Rightarrow> pmap \<Rightarrow> string \<Rightarrow> pvalue option" where
  "decorated_attr fold_eq p m k =
     (case gm_get (configured_attributes (pr_cfg p)) k of
        Some s \<Rightarrow> Some (VStr s)
      | None \<Rightarrow> (case pr_hostAttributes p of None \<Rightarrow> p_get m k | Some h \<Rightarrow> host_policy fold_eq h m k))"

definition decorated :: "(string \<Rightarrow> string \<Rightarrow> bool) \<Rightarrow> sw_processor \<Rightarrow> ('r \<Rightarrow> pmap) \<Rightarrow> ('r \<Rightarrow> 's) \<Rightarrow> 'r \<Rightarrow> 'r \<Rightarrow> bool" where
  "decorated fold_eq p attrs rest r r' \<longleftrightarrow>
     rest r' = rest r \<and> (\<forall>k. p_get (attrs r') k = decorated_attr fold_eq p (attrs r) k)"

lemma decorated_get:
  assumes "map_order ord" "gm_wf (configured_attributes (pr_cfg p))"
  shows "p_get (p_putStrs (ord (configured_attributes (pr_cfg p))) (applyAttributes fold_eq (pr_hostAttributes p) m)) k =
    decorated_attr fold_eq p m k"
proof -
  have "p_get (applyAttributes fold_eq (pr_hostAttributes p) m) k =
    (case pr_hostAttributes p of None \<Rightarrow> p_get m k | Some h \<Rightarrow> host_policy fold_eq h m k)"
    by (cases "pr_hostAttributes p") (simp_all add: applyAttributes_policy applyAttributes_def [of _ None])
  then show ?thesis
    by (simp add: p_get_putStrs [OF assms] decorated_attr_def split: option.split)
qed

lemma sw_process_batch:
  assumes "sw_process marshal fold_eq ord upd wrap p batch = Inr (batch', w)"
  shows "batch' = map (\<lambda>r. upd (p_putStrs (ord (configured_attributes (pr_cfg p))))
      (upd (applyAttributes fold_eq (pr_hostAttributes p)) r)) batch"
    and "notifySignalSizeLimitExceeded marshal (wrap batch') (sc_MaxSizeMib (pr_cfg p)) = Inr w"
  using assms by (auto simp: sw_process_def decorate_batch Let_def split: sum.splits)

context resource_item
begin

lemma processed_items:
  assumes "map_order ord" "gm_wf (configured_attributes (pr_cfg p))"
    and "sw_process marshal fold_eq ord upd wrap p batch = Inr (batch', w)"
    and "\<And>f r. rest (upd f r) = rest r"
  shows "list_all2 (decorated fold_eq p attrs rest) batch batch'"
  unfolding sw_process_batch(1) [OF assms(3)] list.rel_map
  by (rule list.rel_refl) (simp add: decorated_def assms(4) attrs_upd decorated_get [OF assms(1,2)])

end

section \<open>Properties\<close>

text \<open>C20: The host attribute policy. On every resource the host id is the configured override, else the BIOS UUID, else
  the received id, but a cloud host outside a container keeps its received id; on Google's cloud it
  becomes project, zone and instance, and is removed when one of them is unknown; the host name is
  the container id in containerd on AWS; the OS type is Windows or Linux; every other attribute is
  kept, and a disabled decoration changes nothing.\<close>

theorem host_attribute_policy:
  "p_get (applyAttributes fold_eq (Some h) m) k = host_policy fold_eq h m k \<and> applyAttributes fold_eq None m = m"
  by (simp add: applyAttributes_policy applyAttributes_def [of _ None])

text \<open>C21: Logs, metrics and traces are processed alike: a returned batch has the same resources in the same order, each
  with everything but its attributes unchanged, a configured attribute wins over every other source
  whatever the order of the configured map, and all other attributes follow the host policy.\<close>

theorem processor_decorates_resources:
  assumes "map_order ord" "gm_wf (configured_attributes (pr_cfg p))"
  shows "(sw_processLogs marshal fold_eq ord p ls = Inr (ls', w) \<longrightarrow>
            list_all2 (decorated fold_eq p rl_attrs rl_scopes) ls ls') \<and>
         (sw_processMetrics marshal fold_eq ord p ms = Inr (ms', w) \<longrightarrow>
            list_all2 (decorated fold_eq p rm_attrs rm_scopes) ms ms') \<and>
         (sw_processTraces marshal fold_eq ord p ts = Inr (ts', w) \<longrightarrow>
            list_all2 (decorated fold_eq p rsp_attrs rsp_scopes) ts ts')"
  unfolding sw_processLogs_def sw_processMetrics_def sw_processTraces_def
  using lri.processed_items [OF assms, of marshal fold_eq SigLogs ls ls' w rl_scopes]
    mri.processed_items [OF assms, of marshal fold_eq SigMetrics ms ms' w rm_scopes]
    tri.processed_items [OF assms, of marshal fold_eq SigTraces ts ts' w rsp_scopes]
  by simp

definition wit_sw_config :: sw_config where
  "wit_sw_config = \<lparr>sc_MaxSizeMib = 1, sc_ResourceAttributes = Some [(''env'', ''prod''), (''host.id'', ''fixed'')],
     sc_Collector = \<lparr>cd_Enabled = True, cd_ExtensionName = ''solarwinds''\<rparr>,
     sc_Host = \<lparr>hd_Enabled = True, hd_OnPremOverrideID = []\<rparr>\<rparr>"

lemma processor_decorates_resources_witness:
  "\<exists>ls'. sw_processLogs (\<lambda>_. Inr [0]) (\<lambda>_ _. False) rev (newProcessor (Inr ''c1'') False wit_sw_config)
       [\<lparr>rl_attrs = [(''host.id'', VStr ''h''), (''os.type'', VStr ''WINDOWS'')], rl_scopes = []\<rparr>] = Inr (ls', None) \<and>
     list_all2 (decorated (\<lambda>_ _. False) (newProcessor (Inr ''c1'') False wit_sw_config) rl_attrs rl_scopes)
       [\<lparr>rl_attrs = [(''host.id'', VStr ''h''), (''os.type'', VStr ''WINDOWS'')], rl_scopes = []\<rparr>] ls'"
proof -
  let ?p = "newProcessor (Inr ''c1'') False wit_sw_config"
  let ?ls = "[\<lparr>rl_attrs = [(''host.id'', VStr ''h''), (''os.type'', VStr ''WINDOWS'')], rl_scopes = []\<rparr>]"
  have wf: "gm_wf (configured_attributes (pr_cfg ?p))"
    by (simp add: newProcessor_def wit_sw_config_def configured_attributes_def gm_wf_def)
  obtain ls' where r: "sw_processLogs (\<lambda>_. Inr [0]) (\<lambda>_ _. False) rev ?p ?ls = Inr (ls', None)"
    by (simp add: sw_processLogs_def sw_process_def Let_def newProcessor_def wit_sw_config_def notifySignalSizeLimitExceeded_def)
  with processor_decorates_resources [OF map_order_rev wf, of "\<lambda>_. Inr [0]" "\<lambda>_ _. False" ?ls ls' None "[]" "[]" "[]" "[]"]
  have d: "list_all2 (decorated (\<lambda>_ _. False) ?p rl_attrs rl_scopes) ?ls ls'" by blast
  show ?thesis by (intro exI conjI) (rule r, rule d)
qed

text \<open>C22: The size limit. With a validated limit below \<open>2 ^ 43\<close> MiB a batch is rejected only when a positive limit is set
  and the batch cannot be marshalled, and it is reported exactly when its size in bytes exceeds the
  limit; a limit of zero never looks at the batch.\<close>

theorem size_limit_check:
  assumes "0 \<le> sint limit" "sint limit < 2 ^ 43" "signalName sig = Some name"
  shows "notifySignalSizeLimitExceeded marshal sig limit =
    (if sint limit = 0 then Inr None
     else case marshal sig of
            Inl err \<Rightarrow> Inl (MarshalFailed err)
          | Inr bs \<Rightarrow> Inr (if int (length bs) > sint limit * 2 ^ 20 then Some (name, int (length bs), sint limit) else None))"
  using assms limit_bytes [OF assms(1,2)] by (auto simp: notifySignalSizeLimitExceeded_def Let_def split: sum.split)

lemma size_limit_check_witness:
  "notifySignalSizeLimitExceeded (\<lambda>_. Inr [0, 1]) (SigLogs []) 6 = Inr None"
  using size_limit_check [of 6 "SigLogs []" "''Logs''" "\<lambda>_. Inr [0, 1]"] by simp

end
