(* ===== verification/Entity_Ref.thy ===== *)
theory Entity_Ref
  imports Pdata
begin

text \<open>
  The entity reference processor (\<open>processor/swootelentityrefprocessor\<close>): validation of the
  configuration, which also precomputes the lower-case types, and the insertion or removal of
  entity references on the resources of logs, metrics and traces.  A reference is what
  \<open>xpdata/entity\<close> stores: a type and the names of the identifying and the describing attributes.
  Unicode case mapping is the argument \<open>uni\<close>.
\<close>

section \<open>Data\<close>

record entity_ref =
  rf_Type :: string
  rf_IdKeys :: "string list"
  rf_DescriptionKeys :: "string list"

text \<open>A resource with the rest of its item (scopes of logs, metrics or spans).\<close>

record 'rest ref_item =
  ri_attrs :: pmap
  ri_refs :: "entity_ref list"
  ri_rest :: 'rest

abbreviation ActionInsert :: string where "ActionInsert \<equiv> ''insert''"
abbreviation ActionRemoveAll :: string where "ActionRemoveAll \<equiv> ''remove_all''"

record entity_ref_config =
  ec_Type :: string
  ec_IDKeys :: "string list"
  ec_DescriptionKeys :: "string list"
  ec_normalizedType :: string

record ref_config =
  rc_Action :: string
  rc_EntityRefs :: "entity_ref_config list"

datatype ref_error =
    InvalidAction string
  | EntityRefsMustBeEmpty
  | TypeMustNotBeEmpty nat
  | IDKeysMustNotBeEmpty nat
  | DuplicateIDKey nat string
  | DuplicateDescriptionKey nat string
  | OverlappingKey nat string
  | DuplicateType nat string nat
  | ReadOnlyBatch

section \<open>Validation\<close>

fun findDuplicatedItem_loop :: "string list \<Rightarrow> string list \<Rightarrow> string option" where
  "findDuplicatedItem_loop seen [] = None"
| "findDuplicatedItem_loop seen (item # items) =
     (if item \<in> set seen then Some item else findDuplicatedItem_loop (item # seen) items)"

definition findDuplicatedItem :: "string list \<Rightarrow> string option" where
  "findDuplicatedItem collection = findDuplicatedItem_loop [] collection"

definition findOverlappingItem :: "string list \<Rightarrow> string list \<Rightarrow> string option" where
  "findOverlappingItem a b = find (\<lambda>item. item \<in> set a) b"

text \<open>The checks of one entry that do not look at the other entries.\<close>

definition check_entry :: "nat \<Rightarrow> entity_ref_config \<Rightarrow> ref_error option" where
  "check_entry i er =
     (if ec_Type er = [] then Some (TypeMustNotBeEmpty i)
      else if ec_IDKeys er = [] then Some (IDKeysMustNotBeEmpty i)
      else case findDuplicatedItem (ec_IDKeys er) of
             Some item \<Rightarrow> Some (DuplicateIDKey i item)
           | None \<Rightarrow>
             (case findDuplicatedItem (ec_DescriptionKeys er) of
                Some item \<Rightarrow> Some (DuplicateDescriptionKey i item)
              | None \<Rightarrow> map_option (OverlappingKey i) (findOverlappingItem (ec_IDKeys er) (ec_DescriptionKeys er))))"

text \<open>The loop over the entries: the error and the entries it leaves, with \<open>seen\<close> the types so far.\<close>

fun validate_refs ::
  "(string \<Rightarrow> string) \<Rightarrow> nat \<Rightarrow> (string, nat) gomap \<Rightarrow> entity_ref_config list \<Rightarrow> ref_error option \<times> entity_ref_config list" where
  "validate_refs uni i seen [] = (None, [])"
| "validate_refs uni i seen (er # ers) =
     (case check_entry i er of
        Some err \<Rightarrow> (Some err, er # ers)
      | None \<Rightarrow>
        (let key = strings_ToLower uni (ec_Type er) in
         case gm_get seen key of
           Some prev \<Rightarrow> (Some (DuplicateType i (ec_Type er) prev), er # ers)
         | None \<Rightarrow>
             let (err, ers') = validate_refs uni (Suc i) (gm_put key i seen) ers
             in (err, er\<lparr>ec_normalizedType := key\<rparr> # ers')))"

definition ref_Validate :: "(string \<Rightarrow> string) \<Rightarrow> ref_config \<Rightarrow> ref_error option \<times> ref_config" where
  "ref_Validate uni c =
     (if \<not> (rc_Action c = ActionInsert \<or> rc_Action c = ActionRemoveAll) then (Some (InvalidAction (rc_Action c)), c)
      else if rc_Action c = ActionRemoveAll \<and> length (rc_EntityRefs c) > 0 then (Some EntityRefsMustBeEmpty, c)
      else let (err, ers) = validate_refs uni 0 [] (rc_EntityRefs c) in (err, c\<lparr>rc_EntityRefs := ers\<rparr>))"

definition buildProcessor :: "(string \<Rightarrow> string) \<Rightarrow> ref_config \<Rightarrow> (ref_error, ref_config) result" where
  "buildProcessor uni cfg = (case ref_Validate uni cfg of (Some err, _) \<Rightarrow> Inl err | (None, cfg') \<Rightarrow> Inr cfg')"

section \<open>Processing\<close>

definition containsKey :: "pmap \<Rightarrow> string \<Rightarrow> bool" where
  "containsKey attrs key =
     (case p_get attrs key of None \<Rightarrow> False | Some v \<Rightarrow> is_VStr v \<and> v_str (Some v) \<noteq> [])"

fun allKeysPresent :: "pmap \<Rightarrow> string list \<Rightarrow> bool" where
  "allKeysPresent attrs [] = True"
| "allKeysPresent attrs (k # ks) = (if \<not> containsKey attrs k then False else allKeysPresent attrs ks)"

fun insert_refs ::
  "pmap \<Rightarrow> entity_ref_config list \<Rightarrow> string list \<Rightarrow> entity_ref list \<Rightarrow> entity_ref list" where
  "insert_refs attrs [] existingTypes refs = refs"
| "insert_refs attrs (ercfg # ercfgs) existingTypes refs =
     (if \<not> allKeysPresent attrs (ec_IDKeys ercfg) then insert_refs attrs ercfgs existingTypes refs
      else if ec_normalizedType ercfg \<in> set existingTypes then insert_refs attrs ercfgs existingTypes refs
      else insert_refs attrs ercfgs (ec_normalizedType ercfg # existingTypes)
             (refs @ [\<lparr>rf_Type = ec_Type ercfg, rf_IdKeys = ec_IDKeys ercfg,
                       rf_DescriptionKeys = filter (containsKey attrs) (ec_DescriptionKeys ercfg)\<rparr>]))"

definition ref_processResource :: "(string \<Rightarrow> string) \<Rightarrow> ref_config \<Rightarrow> 'rest ref_item \<Rightarrow> 'rest ref_item" where
  "ref_processResource uni cfg resource =
     (if rc_Action cfg = ActionInsert
      then resource\<lparr>ri_refs := insert_refs (ri_attrs resource) (rc_EntityRefs cfg)
             (map (\<lambda>ref. strings_ToLower uni (rf_Type ref)) (ri_refs resource)) (ri_refs resource)\<rparr>
      else if rc_Action cfg = ActionRemoveAll then resource\<lparr>ri_refs := filter (\<lambda>_. \<not> True) (ri_refs resource)\<rparr>
      else resource)"

text \<open>The three process functions differ in the type of the items only: the error and the batch.\<close>

definition ref_process :: "(string \<Rightarrow> string) \<Rightarrow> ref_config \<Rightarrow> bool \<Rightarrow> 'rest ref_item list \<Rightarrow> ref_error option \<times> 'rest ref_item list" where
  "ref_process uni cfg isReadOnly batch =
     (if isReadOnly then (Some ReadOnlyBatch, batch) else (None, map (ref_processResource uni cfg) batch))"

definition ref_processLogs :: "(string \<Rightarrow> string) \<Rightarrow> ref_config \<Rightarrow> bool \<Rightarrow> scope_logs list ref_item list \<Rightarrow> ref_error option \<times> scope_logs list ref_item list" where
  "ref_processLogs = ref_process"

definition ref_processMetrics :: "(string \<Rightarrow> string) \<Rightarrow> ref_config \<Rightarrow> bool \<Rightarrow> scope_metrics list ref_item list \<Rightarrow> ref_error option \<times> scope_metrics list ref_item list" where
  "ref_processMetrics = ref_process"

definition ref_processTraces :: "(string \<Rightarrow> string) \<Rightarrow> ref_config \<Rightarrow> bool \<Rightarrow> scope_spans list ref_item list \<Rightarrow> ref_error option \<times> scope_spans list ref_item list" where
  "ref_processTraces = ref_process"

section \<open>Lemmas\<close>

lemma findDuplicatedItem_None: "findDuplicatedItem items = None \<longleftrightarrow> distinct items"
proof -
  have "findDuplicatedItem_loop seen items = None \<longleftrightarrow> distinct items \<and> set items \<inter> set seen = {}" for seen
    by (induction items arbitrary: seen) auto
  then show ?thesis by (simp add: findDuplicatedItem_def)
qed

lemma findOverlappingItem_None: "findOverlappingItem a b = None \<longleftrightarrow> set a \<inter> set b = {}"
  by (auto simp: findOverlappingItem_def find_None_iff)

lemma check_entry_None:
  "check_entry i er = None \<longleftrightarrow>
     ec_Type er \<noteq> [] \<and> ec_IDKeys er \<noteq> [] \<and> distinct (ec_IDKeys er) \<and> distinct (ec_DescriptionKeys er) \<and>
     set (ec_IDKeys er) \<inter> set (ec_DescriptionKeys er) = {}"
  by (auto simp: check_entry_def findDuplicatedItem_None findOverlappingItem_None split: option.splits
      dest: findDuplicatedItem_None [THEN iffD2])

lemma validate_refs_None:
  "validate_refs uni i seen ers = (None, ers') \<longleftrightarrow>
     ers' = map (\<lambda>er. er\<lparr>ec_normalizedType := strings_ToLower uni (ec_Type er)\<rparr>) ers \<and>
     (\<forall>er \<in> set ers. check_entry 0 er = None) \<and>
     distinct (map (\<lambda>er. strings_ToLower uni (ec_Type er)) ers) \<and>
     (\<lambda>er. strings_ToLower uni (ec_Type er)) ` set ers \<inter> dom (gm_get seen) = {}"
proof (induction ers arbitrary: i seen ers')
  case (Cons er ers)
  have c: "check_entry i er = None \<longleftrightarrow> check_entry 0 er = None" by (simp add: check_entry_None)
  let ?key = "strings_ToLower uni (ec_Type er)"
  show ?case
  proof (cases "check_entry i er = None \<and> gm_get seen ?key = None")
    case True
    then have "validate_refs uni i seen (er # ers) = (None, ers') \<longleftrightarrow>
      (\<exists>t. ers' = er\<lparr>ec_normalizedType := ?key\<rparr> # t \<and> validate_refs uni (Suc i) (gm_put ?key i seen) ers = (None, t))"
      by (cases "validate_refs uni (Suc i) (gm_put ?key i seen) ers") (auto simp: Let_def)
    also have "\<dots> \<longleftrightarrow> ers' = map (\<lambda>er. er\<lparr>ec_normalizedType := strings_ToLower uni (ec_Type er)\<rparr>) (er # ers) \<and>
      (\<forall>er \<in> set ers. check_entry 0 er = None) \<and> distinct (map (\<lambda>er. strings_ToLower uni (ec_Type er)) ers) \<and>
      (\<lambda>er. strings_ToLower uni (ec_Type er)) ` set ers \<inter> insert ?key (dom (gm_get seen)) = {}"
      unfolding Cons.IH gm_dom_put by auto
    finally show ?thesis using True c by (auto simp: dom_def)
  next
    case False
    then have "fst (validate_refs uni i seen (er # ers)) \<noteq> None" by (auto simp: Let_def split: option.splits)
    moreover have "\<not> (check_entry 0 er = None \<and> ?key \<notin> dom (gm_get seen))" using False c by (auto simp: dom_def)
    ultimately show ?thesis by (cases "validate_refs uni i seen (er # ers)") auto
  qed
qed auto

lemma containsKey_iff: "containsKey attrs k \<longleftrightarrow> p_str attrs k \<noteq> []"
proof (cases "p_get attrs k")
  case (Some v)
  then show ?thesis by (cases v) (simp_all add: containsKey_def p_str_def)
qed (simp add: containsKey_def p_str_def)

lemma allKeysPresent_iff: "allKeysPresent attrs ks \<longleftrightarrow> (\<forall>k \<in> set ks. p_str attrs k \<noteq> [])"
  by (induction ks) (auto simp: containsKey_iff)

text \<open>The reference an entry stands for, and the entries that are inserted.\<close>

definition ref_of :: "pmap \<Rightarrow> entity_ref_config \<Rightarrow> entity_ref" where
  "ref_of attrs er = \<lparr>rf_Type = ec_Type er, rf_IdKeys = ec_IDKeys er,
     rf_DescriptionKeys = filter (\<lambda>k. p_str attrs k \<noteq> []) (ec_DescriptionKeys er)\<rparr>"

lemma insert_refs_distinct:
  assumes "distinct (map ec_normalizedType ers)"
  shows "insert_refs attrs ers existing refs =
    refs @ map (ref_of attrs)
      (filter (\<lambda>er. (\<forall>k \<in> set (ec_IDKeys er). p_str attrs k \<noteq> []) \<and> ec_normalizedType er \<notin> set existing) ers)"
  using assms
proof (induction ers arbitrary: existing refs)
  case (Cons er ers)
  have "filter (\<lambda>e. (\<forall>k \<in> set (ec_IDKeys e). p_str attrs k \<noteq> []) \<and> ec_normalizedType e \<notin> set (ec_normalizedType er # existing)) ers =
    filter (\<lambda>e. (\<forall>k \<in> set (ec_IDKeys e). p_str attrs k \<noteq> []) \<and> ec_normalizedType e \<notin> set existing) ers"
    using Cons.prems by (intro filter_cong refl) (force simp: image_iff)
  with Cons show ?case by (simp add: allKeysPresent_iff ref_of_def containsKey_iff [abs_def])
qed simp

lemma buildProcessor_insert:
  assumes "buildProcessor uni cfg = Inr p" "rc_Action cfg = ActionInsert"
  shows "rc_Action p = ActionInsert"
    and "rc_EntityRefs p = map (\<lambda>er. er\<lparr>ec_normalizedType := strings_ToLower uni (ec_Type er)\<rparr>) (rc_EntityRefs cfg)"
    and "distinct (map (\<lambda>er. strings_ToLower uni (ec_Type er)) (rc_EntityRefs cfg))"
proof -
  obtain err ers where v: "validate_refs uni 0 [] (rc_EntityRefs cfg) = (err, ers)" by fastforce
  with assms have "err = None" "p = cfg\<lparr>rc_EntityRefs := ers\<rparr>"
    by (auto simp: buildProcessor_def ref_Validate_def split: option.splits)
  with v assms(2) show "rc_Action p = ActionInsert"
    "rc_EntityRefs p = map (\<lambda>er. er\<lparr>ec_normalizedType := strings_ToLower uni (ec_Type er)\<rparr>) (rc_EntityRefs cfg)"
    "distinct (map (\<lambda>er. strings_ToLower uni (ec_Type er)) (rc_EntityRefs cfg))"
    by (simp_all add: validate_refs_None)
qed

text \<open>The entries of the configuration that are inserted into a resource.\<close>

definition insertable :: "(string \<Rightarrow> string) \<Rightarrow> ref_config \<Rightarrow> 'rest ref_item \<Rightarrow> entity_ref_config list" where
  "insertable uni cfg r =
     filter (\<lambda>er. (\<forall>k \<in> set (ec_IDKeys er). p_str (ri_attrs r) k \<noteq> []) \<and>
         strings_ToLower uni (ec_Type er) \<notin> (\<lambda>ref. strings_ToLower uni (rf_Type ref)) ` set (ri_refs r))
       (rc_EntityRefs cfg)"

lemma processResource_insert:
  assumes "buildProcessor uni cfg = Inr p" "rc_Action cfg = ActionInsert"
  shows "ref_processResource uni p r = r\<lparr>ri_refs := ri_refs r @ map (ref_of (ri_attrs r)) (insertable uni cfg r)\<rparr>"
proof -
  note b = buildProcessor_insert [OF assms]
  have "map ec_normalizedType (rc_EntityRefs p) = map (\<lambda>er. strings_ToLower uni (ec_Type er)) (rc_EntityRefs cfg)"
    by (simp add: b(2))
  with b(3) have "distinct (map ec_normalizedType (rc_EntityRefs p))" by simp
  from insert_refs_distinct [OF this] show ?thesis
    by (simp add: ref_processResource_def b(1) b(2) insertable_def filter_map comp_def ref_of_def [abs_def])
qed

lemma ref_types_inserted:
  "(\<lambda>ref. strings_ToLower uni (rf_Type ref)) ` set (map (ref_of attrs) ers) = (\<lambda>er. strings_ToLower uni (ec_Type er)) ` set ers"
  by (simp add: image_image ref_of_def)

lemma insertable_again:
  "insertable uni cfg (r\<lparr>ri_refs := ri_refs r @ map (ref_of (ri_attrs r)) (insertable uni cfg r)\<rparr>) = []"
proof -
  let ?low = "\<lambda>er. strings_ToLower uni (ec_Type er)" and ?rlow = "\<lambda>ref. strings_ToLower uni (rf_Type ref)"
  let ?r = "r\<lparr>ri_refs := ri_refs r @ map (ref_of (ri_attrs r)) (insertable uni cfg r)\<rparr>"
  have types: "?rlow ` set (ri_refs ?r) = ?rlow ` set (ri_refs r) \<union> ?low ` set (insertable uni cfg r)"
    using ref_types_inserted [of uni "ri_attrs r"] by (simp add: image_Un)
  have "?low er \<in> ?rlow ` set (ri_refs r) \<union> ?low ` set (insertable uni cfg r)"
    if "er \<in> set (rc_EntityRefs cfg)" "\<forall>k \<in> set (ec_IDKeys er). p_str (ri_attrs r) k \<noteq> []" for er
    using that by (auto simp: insertable_def)
  then show ?thesis unfolding insertable_def [of uni cfg ?r] types filter_empty_conv by auto
qed

section \<open>Properties\<close>

text \<open>C23: A built processor with the action insert keeps the references of a resource as they are and appends, in the order
  of the configuration, one reference for every entry whose identifying attributes are all present and
  whose type, case aside, the resource does not have yet, with those describing attributes that are
  present; no type is inserted twice, nothing but the references changes, and processing a resource again
  changes nothing.\<close>

theorem entity_refs_inserted:
  assumes "buildProcessor uni cfg = Inr p" "rc_Action cfg = ''insert''"
  shows "ref_processResource uni p r =
      r\<lparr>ri_refs := ri_refs r @ map (ref_of (ri_attrs r))
        (filter (\<lambda>er. (\<forall>k \<in> set (ec_IDKeys er). p_str (ri_attrs r) k \<noteq> []) \<and>
             strings_ToLower uni (ec_Type er) \<notin> (\<lambda>ref. strings_ToLower uni (rf_Type ref)) ` set (ri_refs r))
           (rc_EntityRefs cfg))\<rparr> \<and>
    distinct (map (\<lambda>er. strings_ToLower uni (ec_Type er)) (rc_EntityRefs cfg)) \<and>
    ref_processResource uni p (ref_processResource uni p r) = ref_processResource uni p r"
  using buildProcessor_insert(3) [OF assms] processResource_insert [OF assms, of r]
    processResource_insert [OF assms, of "ref_processResource uni p r"] insertable_again [of uni cfg r]
  by (simp add: insertable_def [of _ _ r])

definition wit_ref_config :: ref_config where
  "wit_ref_config = \<lparr>rc_Action = ''insert'', rc_EntityRefs =
     [\<lparr>ec_Type = ''Pod'', ec_IDKeys = [''pod''], ec_DescriptionKeys = [''ip''], ec_normalizedType = []\<rparr>,
      \<lparr>ec_Type = ''Host'', ec_IDKeys = [''host''], ec_DescriptionKeys = [], ec_normalizedType = []\<rparr>]\<rparr>"

lemma entity_refs_inserted_witness:
  "\<exists>p. buildProcessor id wit_ref_config = Inr p \<and>
     ref_processResource id p \<lparr>ri_attrs = [(''pod'', VStr ''a'')], ri_refs = [], ri_rest = ()\<rparr> =
       \<lparr>ri_attrs = [(''pod'', VStr ''a'')], ri_refs = [\<lparr>rf_Type = ''Pod'', rf_IdKeys = [''pod''], rf_DescriptionKeys = []\<rparr>], ri_rest = ()\<rparr>"
proof -
  obtain err ers where v: "validate_refs id 0 [] (rc_EntityRefs wit_ref_config) = (err, ers)" by fastforce
  have "validate_refs id 0 [] (rc_EntityRefs wit_ref_config) =
      (None, map (\<lambda>er. er\<lparr>ec_normalizedType := strings_ToLower id (ec_Type er)\<rparr>) (rc_EntityRefs wit_ref_config))"
    unfolding validate_refs_None
    by (simp add: wit_ref_config_def check_entry_None strings_ToLower_def is_ascii_def)
  then obtain p where p: "buildProcessor id wit_ref_config = Inr p"
    by (simp add: buildProcessor_def ref_Validate_def wit_ref_config_def)
  have a: "rc_Action wit_ref_config = ''insert''" by (simp add: wit_ref_config_def)
  have "ref_processResource id p \<lparr>ri_attrs = [(''pod'', VStr ''a'')], ri_refs = [], ri_rest = ()\<rparr> =
       \<lparr>ri_attrs = [(''pod'', VStr ''a'')], ri_refs = [\<lparr>rf_Type = ''Pod'', rf_IdKeys = [''pod''], rf_DescriptionKeys = []\<rparr>], ri_rest = ()\<rparr>"
    using entity_refs_inserted [OF p a, of "\<lparr>ri_attrs = [(''pod'', VStr ''a'')], ri_refs = [], ri_rest = ()\<rparr>"]
    by (simp add: wit_ref_config_def ref_of_def p_map_defs)
  with p show ?thesis by blast
qed

end
