(* ===== verification/Container_Info.thy ===== *)
theory Container_Info
  imports Go_Prelude
begin

text \<open>
  The container provider on Linux (\<open>pkg/container/container_linux.go\<close>): whether the collector runs
  in a container, of which kind, and the identifier read from the files of \<open>/proc\<close>.  The operating
  system is the argument \<open>os_env\<close>: \<open>os.ReadFile\<close> (the data read and the error), \<open>os.Stat\<close> (whether it
  succeeds) and the environment variables.  An index out of range is the error \<open>Panic\<close>.
\<close>

section \<open>Library functions\<close>

definition is_space :: "char \<Rightarrow> bool" where
  "is_space c = (of_char c \<in> {9, 10, 11, 12, 13, 32 :: nat})"

text \<open>\<open>strings.TrimSpace\<close>: ASCII white space at both ends; \<open>uni\<close> is the path for other strings.\<close>

definition strings_TrimSpace :: "(string \<Rightarrow> string) \<Rightarrow> string \<Rightarrow> string" where
  "strings_TrimSpace uni s =
     (if is_ascii s then rev (dropWhile is_space (rev (dropWhile is_space s))) else uni s)"

text \<open>\<open>strings.ReplaceAll\<close> of a non-empty string: occurrences from left to right, not overlapping.\<close>

function (sequential) strings_ReplaceAll :: "string \<Rightarrow> string \<Rightarrow> string \<Rightarrow> string" where
  "strings_ReplaceAll [] old new = []"
| "strings_ReplaceAll (x # xs) old new =
     (if old \<noteq> [] \<and> prefix old (x # xs)
      then new @ strings_ReplaceAll (drop (length old) (x # xs)) old new
      else x # strings_ReplaceAll xs old new)"
  by pat_completeness auto
termination
  by (relation "measure (\<lambda>(s, _, _). length s)") auto

definition is_hex :: "char \<Rightarrow> bool" where
  "is_hex c = (let n = of_char c :: nat in (48 \<le> n \<and> n \<le> 57) \<or> (97 \<le> n \<and> n \<le> 102) \<or> (65 \<le> n \<and> n \<le> 70))"

text \<open>\<open>hex.Decode\<close> into a destination of \<open>cap\<close> bytes, of which only the way it ends matters here.\<close>

datatype decode_end = Decoded | InvalidInput | DestinationOverrun

fun hex_Decode :: "nat \<Rightarrow> string \<Rightarrow> decode_end" where
  "hex_Decode cap (p # q # src) =
     (if \<not> is_hex p \<or> \<not> is_hex q then InvalidInput
      else case cap of 0 \<Rightarrow> DestinationOverrun | Suc cap' \<Rightarrow> hex_Decode cap' src)"
| "hex_Decode cap [p] = InvalidInput"
| "hex_Decode cap [] = Decoded"

section \<open>The provider\<close>

record os_env =
  oe_ReadFile :: "string \<Rightarrow> string \<times> string option"
  oe_Stat :: "string \<Rightarrow> bool"
  oe_Env :: "string \<Rightarrow> string option"
  oe_TrimSpace :: "string \<Rightarrow> string"

datatype cid_error = CidError string | Panic

text \<open>The value and the error of a Go function; a panic has no value.\<close>

type_synonym cid_result = "(cid_error, string) result"

definition index_or_panic :: "'a list \<Rightarrow> nat \<Rightarrow> (cid_error, 'a) result" where
  "index_or_panic xs i = (if i < length xs then Inr (xs ! i) else Inl Panic)"

text \<open>A value with the error of the last read: the callers drop the value when there is an error.\<close>

definition with_err :: "string option \<Rightarrow> string \<Rightarrow> cid_result" where
  "with_err err s = (case err of None \<Rightarrow> Inr s | Some e \<Rightarrow> Inl (CidError e))"

definition isInDocker :: "os_env \<Rightarrow> bool" where
  "isInDocker os = oe_Stat os ''/.dockerenv''"

definition isInNonDockerContainer :: "os_env \<Rightarrow> bool" where
  "isInNonDockerContainer os =
     (let (data, err) = oe_ReadFile os ''/proc/self/mounts'' in
      if err = None \<and> strings_Contains data ''container'' \<and> \<not> strings_Contains data ''docker/containers'' then True
      else if oe_Stat os ''/.containerenv'' then True
      else if \<not> oe_Stat os ''/proc/2/status'' then True
      else let (data, err) = oe_ReadFile os ''/proc/2/status'' in
           if err \<noteq> None then False else \<not> strings_Contains data ''kthread'')"

definition isContainerInKubernetes :: "os_env \<Rightarrow> bool" where
  "isContainerInKubernetes os =
     (if (case oe_Env os ''KUBERNETES_SERVICE_HOST'' of None \<Rightarrow> False | Some v \<Rightarrow> v \<noteq> []) then True
      else let (data, err) = oe_ReadFile os ''/proc/self/mounts'' in
           if err \<noteq> None then False else strings_Contains data ''kubernetes'')"

definition readKubernetesContainerID :: "os_env \<Rightarrow> string" where
  "readKubernetesContainerID os = (case oe_Env os ''HOSTNAME'' of None \<Rightarrow> [] | Some v \<Rightarrow> v)"

definition isRunInContainerd :: "os_env \<Rightarrow> bool" where
  "isRunInContainerd os =
     (let (data, err) = oe_ReadFile os ''/proc/self/cpuset'' in
      if err \<noteq> None then False
      else if strings_Contains data ''/default/'' then True
      else let (data, err) = oe_ReadFile os ''/proc/self/cgroup'' in
           if err \<noteq> None then False else strings_Contains data ''containerd'')"

text \<open>The last line that contains \<open>containers\<close>, empty when there is none.\<close>

definition last_containers_line :: "string \<Rightarrow> string" where
  "last_containers_line data =
     fold (\<lambda>l line. if strings_Contains l ''containers'' then l else line) (strings_Split data CHR 0x0A) []"

text \<open>The word after the first word with \<open>containers\<close> that has a successor.\<close>

fun word_after_containers :: "string list \<Rightarrow> string option" where
  "word_after_containers (w # v # ws) =
     (if strings_Contains w ''containers'' then Some v else word_after_containers (v # ws))"
| "word_after_containers _ = None"

definition readDockerInstanceID :: "os_env \<Rightarrow> cid_result" where
  "readDockerInstanceID os =
     (let (data, err) = oe_ReadFile os ''/proc/self/cpuset'';
          trim = strings_TrimSpace (oe_TrimSpace os) in
      case err of Some e \<Rightarrow> Inl (CidError e) | None \<Rightarrow>
      if strings_Contains data ''/kubepods/'' then with_err err (trim (last (strings_Split data CHR ''/'')))
      else if strings_Contains data ''/docker/''
      then (case index_or_panic (strings_Split data CHR ''/'') 2 of Inl p \<Rightarrow> Inl p | Inr w \<Rightarrow> with_err err (trim w))
      else let (data, err) = oe_ReadFile os ''/proc/self/mountinfo'' in
        case err of Some e \<Rightarrow> Inl (CidError e) | None \<Rightarrow>
        let notFound = Inl (CidError ''unable to read Docker instance identifier'') in
        if strings_Contains data ''docker''
        then let line = last_containers_line data in
             if line = [] then Inl (CidError ''unable to read Docker on cgroup v2 instance identifier '')
             else (case word_after_containers (strings_Split line CHR ''/'') of None \<Rightarrow> notFound | Some w \<Rightarrow> Inr w)
        else notFound)"

text \<open>The loop over words that stops at the first one that decodes; \<open>None\<close> when it runs through.\<close>

fun first_hex_word :: "string list \<Rightarrow> cid_result option" where
  "first_hex_word [] = None"
| "first_hex_word (word # words) =
     (case hex_Decode 32 word of
        Decoded \<Rightarrow> Some (Inr word)
      | DestinationOverrun \<Rightarrow> Some (Inl Panic)
      | InvalidInput \<Rightarrow> first_hex_word words)"

definition scan_cgroup :: "string \<Rightarrow> cid_result" where
  "scan_cgroup data =
     (case first_hex_word (concat (map (\<lambda>l. strings_Split l CHR ''/'') (strings_Split data CHR 0x0A))) of
        Some r \<Rightarrow> r
      | None \<Rightarrow> Inl (CidError ''unable to read container instance identifier''))"

definition readNonDockerContainerID :: "os_env \<Rightarrow> cid_result" where
  "readNonDockerContainerID os =
     (let (data, err) = oe_ReadFile os ''/proc/self/cpuset'';
          trim = strings_TrimSpace (oe_TrimSpace os) in
      if strings_Contains data ''/default/''
      then (case index_or_panic (strings_Split data CHR ''/'') 2 of Inl p \<Rightarrow> Inl p | Inr w \<Rightarrow> with_err err (trim w))
      else if strings_Contains data ''libpod''
      then (case index_or_panic (strings_Split data CHR ''-'') 1 of
              Inl p \<Rightarrow> Inl p | Inr w \<Rightarrow> with_err err (trim (strings_ReplaceAll w ''.scope'' [])))
      else if strings_Contains data ''cri-containerd-''
      then with_err err (trim (strings_ReplaceAll
             (strings_ReplaceAll (last (strings_Split data CHR ''/'')) ''.scope'' []) ''cri-containerd-'' []))
      else if strings_Contains data ''/kubepods/'' then with_err err (trim (last (strings_Split data CHR ''/'')))
      else
        let (data, err) = oe_ReadFile os ''/proc/self/mountinfo'';
            line = last_containers_line data;
            found = (if strings_Contains data ''containers'' \<and> line \<noteq> []
                     then first_hex_word (strings_Split line CHR ''/'') else None) in
        case found of
          Some r \<Rightarrow> r
        | None \<Rightarrow> scan_cgroup (fst (oe_ReadFile os ''/proc/self/cgroup'')))"

definition readContainerInstanceID :: "os_env \<Rightarrow> cid_result" where
  "readContainerInstanceID os =
     (if isInDocker os then readDockerInstanceID os
      else if isInNonDockerContainer os then readNonDockerContainerID os
      else if isContainerInKubernetes os then Inr (readKubernetesContainerID os)
      else Inr [])"

section \<open>Lemmas\<close>

text \<open>A container identifier as the scan of hexadecimal words accepts it.\<close>

definition hex_id :: "string \<Rightarrow> bool" where
  "hex_id w \<longleftrightarrow> list_all is_hex w \<and> even (length w) \<and> length w \<le> 64"

lemma hex_Decode_Decoded: "hex_Decode cap w = Decoded \<longleftrightarrow> list_all is_hex w \<and> even (length w) \<and> length w \<le> 2 * cap"
  by (induction cap w rule: hex_Decode.induct) (auto split: nat.split)

lemma hex_Decode_overrun: "hex_Decode cap w = DestinationOverrun \<longleftrightarrow> 2 * cap + 2 \<le> length w \<and> list_all is_hex (take (2 * cap + 2) w)"
  by (induction cap w rule: hex_Decode.induct) (auto split: nat.split)

lemma first_hex_word_Inr:
  "first_hex_word ws = Some (Inr w) \<longleftrightarrow>
     (\<exists>us vs. ws = us @ w # vs \<and> hex_id w \<and> (\<forall>u \<in> set us. hex_Decode 32 u = InvalidInput))"
proof (induction ws)
  case (Cons x ws)
  have d: "hex_Decode 32 x = Decoded \<longleftrightarrow> hex_id x" by (simp add: hex_Decode_Decoded hex_id_def)
  show ?case
  proof (cases "hex_Decode 32 x")
    case InvalidInput
    with d have n: "\<not> hex_id x" by simp
    show ?thesis (is "_ \<longleftrightarrow> ?R")
    proof
      assume "first_hex_word (x # ws) = Some (Inr w)"
      with InvalidInput Cons.IH obtain us vs where "ws = us @ w # vs" "hex_id w" "\<forall>u \<in> set us. hex_Decode 32 u = InvalidInput"
        by auto
      with InvalidInput show ?R by (intro exI [of _ "x # us"] exI [of _ vs]) simp
    next
      assume ?R
      then obtain us vs where "x # ws = us @ w # vs" "hex_id w" "\<forall>u \<in> set us. hex_Decode 32 u = InvalidInput" by blast
      with n InvalidInput Cons.IH show "first_hex_word (x # ws) = Some (Inr w)" by (cases us) auto
    qed
  next
    case Decoded
    with d show ?thesis by (auto simp: Cons_eq_append_conv)
  next
    case DestinationOverrun
    with d show ?thesis by (auto simp: Cons_eq_append_conv)
  qed
qed simp

lemma Split_count_ge: "count_list s c \<ge> n \<Longrightarrow> n < length (strings_Split s c)"
  by (simp add: Split_length)

lemma contains_two_slashes:
  assumes "strings_Contains s (CHR ''/'' # u @ ''/'')"
  shows "2 < length (strings_Split s CHR ''/'')"
proof -
  from assms obtain a b where "s = a @ (CHR ''/'' # u @ ''/'') @ b" by (auto simp: Contains_iff)
  then show ?thesis by (intro Split_count_ge) simp
qed

lemma Split_snoc_sep: "strings_Split (d @ [c]) c = strings_Split d c @ [[]]"
  by (induction d) (auto split: list.split)

lemma word_ends_scan: "[] \<in> set ws \<Longrightarrow> \<exists>r. first_hex_word ws = Some r \<and> (\<forall>e. r \<noteq> Inl (CidError e))"
  by (induction ws) (auto split: decode_end.split)

lemma scan_cgroup_newline:
  assumes "data = [] \<or> last data = CHR 0x0A"
  shows "\<forall>e. scan_cgroup data \<noteq> Inl (CidError e)"
proof -
  have "[] \<in> set (strings_Split data CHR 0x0A)"
  proof (cases "data = []")
    case False
    with assms obtain d where "data = d @ [CHR 0x0A]" by (metis append_butlast_last_id)
    then show ?thesis by (simp add: Split_snoc_sep)
  qed simp
  then have "[] \<in> set (concat (map (\<lambda>l. strings_Split l CHR ''/'') (strings_Split data CHR 0x0A)))" by force
  from word_ends_scan [OF this] show ?thesis by (auto simp: scan_cgroup_def)
qed

text \<open>The two identifiers taken at a fixed position between slashes are always there.\<close>

lemma index_slashes:
  "strings_Contains s ''/docker/'' \<Longrightarrow> index_or_panic (strings_Split s CHR ''/'') 2 \<noteq> Inl p"
  "strings_Contains s ''/default/'' \<Longrightarrow> index_or_panic (strings_Split s CHR ''/'') 2 \<noteq> Inl p"
  using contains_two_slashes [of s "''docker''"] contains_two_slashes [of s "''default''"]
  by (simp_all add: index_or_panic_def)

lemma docker_no_panic: "readDockerInstanceID os \<noteq> Inl Panic"
  by (auto simp: readDockerInstanceID_def Let_def with_err_def index_slashes split: prod.split option.split sum.split)

lemma first_hex_word_panic:
  "first_hex_word ws = Some (Inl Panic) \<Longrightarrow> \<exists>w \<in> set ws. 66 \<le> length w \<and> list_all is_hex (take 66 w)"
  by (induction ws) (auto simp: hex_Decode_overrun split: decode_end.splits)

lemma last_containers_line_mem: "last_containers_line data = [] \<or> last_containers_line data \<in> set (strings_Split data CHR 0x0A)"
proof -
  have "fold (\<lambda>l line. if strings_Contains l ''containers'' then l else line) ls x \<in> insert x (set ls)" for ls x
    by (induction ls arbitrary: x) auto
  then show ?thesis unfolding last_containers_line_def by blast
qed

text \<open>The words of a file: what stands between slashes and line ends.\<close>

definition file_words :: "string \<Rightarrow> string set" where
  "file_words data = (\<Union>l \<in> set (strings_Split data CHR 0x0A). set (strings_Split l CHR ''/''))"

definition overlong_hex :: "string \<Rightarrow> bool" where
  "overlong_hex w \<longleftrightarrow> 66 \<le> length w \<and> list_all is_hex (take 66 w)"

lemma nonDocker_panic:
  assumes "readNonDockerContainerID os = Inl Panic"
  shows "(strings_Contains (fst (oe_ReadFile os ''/proc/self/cpuset'')) ''libpod'' \<and>
          CHR ''-'' \<notin> set (fst (oe_ReadFile os ''/proc/self/cpuset''))) \<or>
         (\<exists>w \<in> file_words (fst (oe_ReadFile os ''/proc/self/mountinfo'')) \<union> file_words (fst (oe_ReadFile os ''/proc/self/cgroup'')).
            overlong_hex w)"
proof -
  let ?cs = "fst (oe_ReadFile os ''/proc/self/cpuset'')" and ?mi = "fst (oe_ReadFile os ''/proc/self/mountinfo'')"
    and ?cg = "fst (oe_ReadFile os ''/proc/self/cgroup'')"
  have we: "with_err e s \<noteq> Inl Panic" for e s by (simp add: with_err_def split: option.split)
  have "(strings_Contains ?cs ''libpod'' \<and> index_or_panic (strings_Split ?cs CHR ''-'') 1 = Inl Panic) \<or>
      (last_containers_line ?mi \<noteq> [] \<and> first_hex_word (strings_Split (last_containers_line ?mi) CHR ''/'') = Some (Inl Panic)) \<or>
      scan_cgroup ?cg = Inl Panic"
    using assms we index_slashes(2) [of ?cs]
    by (auto simp: readNonDockerContainerID_def Let_def index_or_panic_def split: prod.splits option.splits sum.splits if_splits)
  then consider (lib) "strings_Contains ?cs ''libpod''" "index_or_panic (strings_Split ?cs CHR ''-'') 1 = Inl Panic"
    | (mi) "last_containers_line ?mi \<noteq> []" "first_hex_word (strings_Split (last_containers_line ?mi) CHR ''/'') = Some (Inl Panic)"
    | (cg) "scan_cgroup ?cg = Inl Panic" by blast
  then show ?thesis
  proof cases
    case lib
    then have "count_list ?cs CHR ''-'' = 0" by (simp add: index_or_panic_def Split_length split: if_splits)
    with lib show ?thesis by (simp add: count_list_0_iff)
  next
    case mi
    with first_hex_word_panic [OF mi(2)] last_containers_line_mem [of ?mi] show ?thesis
      by (auto simp: file_words_def overlong_hex_def)
  next
    case cg
    then have "first_hex_word (concat (map (\<lambda>l. strings_Split l CHR ''/'') (strings_Split ?cg CHR 0x0A))) = Some (Inl Panic)"
      by (auto simp: scan_cgroup_def split: option.splits)
    from first_hex_word_panic [OF this] show ?thesis by (auto simp: file_words_def overlong_hex_def)
  qed
qed

section \<open>Properties\<close>

text \<open>Reading the container identifier does not panic, unless the cpuset names libpod without a hyphen or a path
  component of the mount table or of the cgroup file starts with 66 hexadecimal digits; the
  identifiers taken from a fixed position of a Docker or containerd cpuset are always there.\<close>

theorem container_id_no_panic:
  assumes "\<not> (strings_Contains (fst (oe_ReadFile os ''/proc/self/cpuset'')) ''libpod'' \<and>
              CHR ''-'' \<notin> set (fst (oe_ReadFile os ''/proc/self/cpuset'')))"
    and "\<And>w. w \<in> file_words (fst (oe_ReadFile os ''/proc/self/mountinfo'')) \<union> file_words (fst (oe_ReadFile os ''/proc/self/cgroup''))
           \<Longrightarrow> \<not> (66 \<le> length w \<and> list_all is_hex (take 66 w))"
  shows "readContainerInstanceID os \<noteq> Inl Panic"
  using docker_no_panic [of os] nonDocker_panic [of os] assms by (auto simp: readContainerInstanceID_def overlong_hex_def)

lemma container_id_no_panic_witness:
  "readContainerInstanceID \<lparr>oe_ReadFile = (\<lambda>f. (if f = ''/proc/self/cpuset'' then ''/default/abc'' else [], None)), oe_Stat = (\<lambda>_. False),
     oe_Env = (\<lambda>_. None), oe_TrimSpace = id\<rparr> \<noteq> Inl Panic"
  by (rule container_id_no_panic) (simp_all add: file_words_def)

text \<open>C24: The scan of the cgroup file returns the first path component that is an even number of at most 64 hexadecimal
  digits when all components before it are malformed, and for a file that is empty, unreadable or ends
  with a line end it never reports that no identifier was found: the empty component counts as one.\<close>

theorem cgroup_scan_result:
  "(scan_cgroup data = Inr w \<longleftrightarrow>
      (\<exists>us vs. concat (map (\<lambda>l. strings_Split l CHR ''/'') (strings_Split data CHR 0x0A)) = us @ w # vs \<and> hex_id w \<and>
         (\<forall>u \<in> set us. hex_Decode 32 u = InvalidInput))) \<and>
   (data = [] \<or> last data = CHR 0x0A \<longrightarrow> scan_cgroup data \<noteq> Inl (CidError e))"
proof -
  have "scan_cgroup data = Inr w \<longleftrightarrow>
    first_hex_word (concat (map (\<lambda>l. strings_Split l CHR ''/'') (strings_Split data CHR 0x0A))) = Some (Inr w)"
    by (auto simp: scan_cgroup_def split: option.splits)
  then show ?thesis using scan_cgroup_newline [of data] by (simp add: first_hex_word_Inr)
qed

lemma cgroup_scan_result_witness:
  "scan_cgroup [] \<noteq> Inl (CidError ''unable to read container instance identifier'') \<and> scan_cgroup ''0::/x/ab12'' = Inr ''ab12''"
proof -
  have s: "concat (map (\<lambda>l. strings_Split l CHR ''/'') (strings_Split ''0::/x/ab12'' CHR 0x0A)) = [''0::'', ''x'', ''ab12'']"
    by (simp add: Split_no_sep)
  have "\<exists>us vs. [''0::'', ''x'', ''ab12''] = us @ ''ab12'' # vs \<and> hex_id ''ab12'' \<and> (\<forall>u \<in> set us. hex_Decode 32 u = InvalidInput)"
    by (intro exI [of _ "[''0::'', ''x'']"] exI [of _ "[]"]) (simp add: hex_id_def is_hex_def)
  with cgroup_scan_result [of "''0::/x/ab12''" "''ab12''"] have "scan_cgroup ''0::/x/ab12'' = Inr ''ab12''"
    unfolding s by blast
  with cgroup_scan_result [of "[]"] show ?thesis by blast
qed

end
