(* ===== verification/K8s_Objects.thy ===== *)
theory K8s_Objects
  imports Pdata
begin

text \<open>
  The Kubernetes objects receiver (\<open>receiver/swok8sobjectsreceiver\<close>): validation of the configured
  objects against the discovered resources, the conversion of objects into log batches, and the
  watch of a resource with its cache of object hashes, by which an event is reported only when
  metadata, spec, status or the rest of the object changed.

  An object is its JSON content, an attribute map.  The accessors of \<open>unstructured\<close>, JSON, SHA-256,
  the timestamp expression, the storage client and the answers of the API server are arguments,
  collected in \<open>k8s_ops\<close> and \<open>storage_ops\<close>.  A watch is a function of the outcomes of its \<open>select\<close>
  statements in order; the state it changes is \<open>watch_state\<close>.
\<close>

section \<open>Configuration\<close>

abbreviation PullMode :: string where "PullMode \<equiv> ''pull''"
abbreviation WatchMode :: string where "WatchMode \<equiv> ''watch''"
abbreviation defaultPullInterval :: time_ns where "defaultPullInterval \<equiv> 3600 * 10 ^ 9"
abbreviation defaultResourceVersion :: string where "defaultResourceVersion \<equiv> ''1''"

record gvr =
  gr_Group :: string
  gr_Version :: string
  gr_Resource :: string

record object_config =
  oc_Name :: string
  oc_Group :: string
  oc_Namespaces :: "string list"
  oc_Mode :: string
  oc_LabelSelector :: string
  oc_FieldSelector :: string
  oc_Interval :: time_ns
  oc_ResourceVersion :: string
  oc_ExcludeWatchType :: "string list"
  oc_exclude :: "string list"
  oc_gvr :: "gvr option"

datatype objects_error =
    DiscoveryClientFailed
  | ServerResourcesFailed
  | GroupVersionPanic
  | ResourceNotFound string
  | InvalidMode string
  | ExcludeOnlyInWatchMode

text \<open>The answer of the discovery client: the groups with their resource names, \<open>None\<close> for nil, and
  whether its error, if any, is a failed group discovery.\<close>

record server_resources =
  sv_groups :: "(string \<times> string list) list option"
  sv_error :: "bool option"

fun add_gvrs :: "string list \<Rightarrow> string list \<Rightarrow> (string, gvr list) gomap \<Rightarrow> (objects_error, (string, gvr list) gomap) result" where
  "add_gvrs split [] objs = Inr objs"
| "add_gvrs split (name # names) objs =
     (case split of
        grp # version # _ \<Rightarrow>
          add_gvrs split names
            (gm_put name ((case gm_get objs name of None \<Rightarrow> [] | Some gs \<Rightarrow> gs) @
               [\<lparr>gr_Group = grp, gr_Version = version, gr_Resource = name\<rparr>]) objs)
      | _ \<Rightarrow> Inl GroupVersionPanic)"

fun add_gvr_groups :: "(string \<times> string list) list \<Rightarrow> (string, gvr list) gomap \<Rightarrow> (objects_error, (string, gvr list) gomap) result" where
  "add_gvr_groups [] objs = Inr objs"
| "add_gvr_groups ((groupVersion, names) # gs) objs =
     (let split = strings_Split groupVersion CHR ''/'';
          split = (if length split = 1 \<and> groupVersion = ''v1'' then [[], ''v1''] else split) in
      case add_gvrs split names objs of Inl er \<Rightarrow> Inl er | Inr objs' \<Rightarrow> add_gvr_groups gs objs')"

definition objects_getValidObjects :: "server_resources option \<Rightarrow> (objects_error, (string, gvr list) gomap) result" where
  "objects_getValidObjects client =
     (case client of
        None \<Rightarrow> Inl DiscoveryClientFailed
      | Some d \<Rightarrow>
          if sv_groups d \<noteq> None \<and> sv_error d = Some False then Inl ServerResourcesFailed
          else add_gvr_groups (case sv_groups d of None \<Rightarrow> [] | Some gs \<Rightarrow> gs) [])"

text \<open>The resource of the configured group, else the first one.\<close>

definition choose_gvr :: "string \<Rightarrow> gvr list \<Rightarrow> gvr" where
  "choose_gvr grp gvrs = (case find (\<lambda>g. gr_Group g = grp) gvrs of Some g \<Rightarrow> g | None \<Rightarrow> gvrs ! 0)"

definition object_validate :: "(string, gvr list) gomap \<Rightarrow> object_config \<Rightarrow> (objects_error, object_config) result" where
  "object_validate validObjects object =
     (case gm_get validObjects (oc_Name object) of
        None \<Rightarrow> Inl (ResourceNotFound (oc_Name object))
      | Some gvrs \<Rightarrow>
        (let chosen = choose_gvr (oc_Group object) gvrs in
         if oc_Mode object \<noteq> [] \<and> oc_Mode object \<noteq> PullMode \<and> oc_Mode object \<noteq> WatchMode
         then Inl (InvalidMode (oc_Mode object))
         else
           let object = (if oc_Mode object = [] then object\<lparr>oc_Mode := PullMode\<rparr> else object);
               object = (if oc_Mode object = PullMode \<and> oc_Interval object = 0
                         then object\<lparr>oc_Interval := defaultPullInterval\<rparr> else object) in
           if oc_Mode object = PullMode \<and> length (oc_ExcludeWatchType object) \<noteq> 0 then Inl ExcludeOnlyInWatchMode
           else Inr (object\<lparr>oc_gvr := Some chosen\<rparr>)))"

definition objects_Validate :: "server_resources option \<Rightarrow> object_config list \<Rightarrow> (objects_error, object_config list) result" where
  "objects_Validate client objects =
     (case objects_getValidObjects client of
        Inl err \<Rightarrow> Inl err
      | Inr validObjects \<Rightarrow> map_result (object_validate validObjects) objects)"

definition objects_newReceiver :: "object_config list \<Rightarrow> object_config list" where
  "objects_newReceiver objects = map (\<lambda>object. object\<lparr>oc_exclude := remdups (oc_ExcludeWatchType object)\<rparr>) objects"

text \<open>The goroutines that \<open>start\<close> spawns for an object: the mode and the namespace, if any.\<close>

definition spawned :: "object_config \<Rightarrow> (string \<times> string option) list" where
  "spawned object =
     (if oc_Mode object = PullMode \<or> oc_Mode object = WatchMode
      then if length (oc_Namespaces object) = 0 then [(oc_Mode object, None)]
           else map (\<lambda>ns. (oc_Mode object, Some ns)) (oc_Namespaces object)
      else [])"

section \<open>Objects\<close>

text \<open>The object of a watch event: an unstructured one, or anything else.\<close>

datatype event_object = Unstructured pmap | OtherObject pvalue

text \<open>\<open>ko_StatusCode\<close> is the code of the \<open>StatusError\<close> that \<open>apierrors.FromObject\<close> makes of an object, \<open>None\<close> when it
  makes another error.\<close>

record k8s_ops =
  ko_StatusCode :: "event_object \<Rightarrow> int option"
  ko_GetKind :: "pmap \<Rightarrow> string"
  ko_GetNamespace :: "pmap \<Rightarrow> string"
  ko_GetName :: "pmap \<Rightarrow> string"
  ko_ClearManagedFields :: "pmap \<Rightarrow> pmap"
  ko_SetResourceVersion :: "string \<Rightarrow> pmap \<Rightarrow> pmap"
  ko_MarshalJSON :: "pmap \<Rightarrow> (string, string) result"
  ko_UnmarshalInto :: "string \<Rightarrow> pmap \<Rightarrow> (string, pmap) result"
  ko_StripTimestamps :: "string \<Rightarrow> string"
  ko_NestedString :: "pmap \<Rightarrow> string list \<Rightarrow> string option"
  ko_NestedFieldCopy :: "pmap \<Rightarrow> string list \<Rightarrow> (string, pvalue option) result"
  ko_RemoveNestedField :: "string \<Rightarrow> pmap \<Rightarrow> pmap"
  ko_MarshalValue :: "pvalue \<Rightarrow> (string, string) result"
  ko_Sha256Hex :: "string \<Rightarrow> string"

definition getKey :: "k8s_ops \<Rightarrow> pmap \<Rightarrow> string" where
  "getKey ko udata = ko_GetKind ko udata @ '':'' @ ko_GetNamespace ko udata @ ''#'' @ ko_GetName ko udata"

record object_hashes =
  oh_Metadata :: string
  oh_Spec :: string
  oh_Status :: string
  oh_Other :: string

definition getHash :: "k8s_ops \<Rightarrow> pmap \<Rightarrow> string list \<Rightarrow> (string, string) result" where
  "getHash ko udata path =
     (if length path = 0
      then (case ko_MarshalJSON ko udata of Inl err \<Rightarrow> Inl err | Inr bs \<Rightarrow> Inr (ko_Sha256Hex ko bs))
      else case ko_NestedFieldCopy ko udata path of
             Inl err \<Rightarrow> Inl err
           | Inr None \<Rightarrow> Inr []
           | Inr (Some nested) \<Rightarrow>
             (case ko_MarshalValue ko nested of Inl err \<Rightarrow> Inl err | Inr bs \<Rightarrow> Inr (ko_Sha256Hex ko bs)))"

definition getObjectHashes :: "k8s_ops \<Rightarrow> pmap \<Rightarrow> (string, object_hashes) result" where
  "getObjectHashes ko udata =
     (let udataCopy = ko_SetResourceVersion ko [] udata in
      case ko_MarshalJSON ko udataCopy of Inl err \<Rightarrow> Inl err | Inr udataBytes \<Rightarrow>
      case ko_UnmarshalInto ko (ko_StripTimestamps ko udataBytes) udataCopy of Inl err \<Rightarrow> Inl err | Inr udataCopy \<Rightarrow>
      case getHash ko udataCopy [''metadata''] of Inl err \<Rightarrow> Inl err | Inr metadataHash \<Rightarrow>
      case getHash ko udataCopy [''spec''] of Inl err \<Rightarrow> Inl err | Inr specHash \<Rightarrow>
      case getHash ko udataCopy [''status''] of Inl err \<Rightarrow> Inl err | Inr statusHash \<Rightarrow>
      let rest = ko_RemoveNestedField ko ''status'' (ko_RemoveNestedField ko ''spec'' (ko_RemoveNestedField ko ''metadata'' udataCopy)) in
      case getHash ko rest [] of Inl err \<Rightarrow> Inl err | Inr otherHash \<Rightarrow>
      Inr \<lparr>oh_Metadata = metadataHash, oh_Spec = specHash, oh_Status = statusHash, oh_Other = otherHash\<rparr>)"

section \<open>Conversion to log data\<close>

abbreviation K8SNamespaceNameKey :: string where "K8SNamespaceNameKey \<equiv> ''k8s.namespace.name''"

definition object_getNamespace :: "k8s_ops \<Rightarrow> pmap \<Rightarrow> string" where
  "object_getNamespace ko e =
     (if ko_GetNamespace ko e \<noteq> [] then ko_GetNamespace ko e
      else case ko_NestedString ko e [''object'', ''metadata'', ''namespace''] of Some namespace \<Rightarrow> namespace | None \<Rightarrow> [])"

definition new_namespace_logs :: "string \<Rightarrow> resource_logs" where
  "new_namespace_logs namespace =
     \<lparr>rl_attrs = (if namespace \<noteq> [] then p_putStr K8SNamespaceNameKey namespace [] else []),
      rl_scopes = [\<lparr>sl_attrs = [], sl_records = []\<rparr>]\<rparr>"

definition append_item_record :: "log_record \<Rightarrow> resource_logs \<Rightarrow> resource_logs" where
  "append_item_record lr rl = rl\<lparr>rl_scopes := map (\<lambda>sl. sl\<lparr>sl_records := sl_records sl @ [lr]\<rparr>) (rl_scopes rl)\<rparr>"

text \<open>The batch under construction, with the namespace each resource was made for.\<close>

definition add_item :: "string \<Rightarrow> log_record \<Rightarrow> (string, resource_logs) gomap \<Rightarrow> (string, resource_logs) gomap" where
  "add_item namespace lr out =
     gm_put namespace (append_item_record lr (case gm_get out namespace of Some rl \<Rightarrow> rl | None \<Rightarrow> new_namespace_logs namespace)) out"

definition item_record :: "string \<Rightarrow> u64 \<Rightarrow> (pmap \<Rightarrow> pmap) \<Rightarrow> pmap \<Rightarrow> log_record" where
  "item_record resource observedAt attrUpdate e =
     new_record\<lparr>lr_observed := observedAt, lr_attrs := attrUpdate (p_putStr ''k8s.resource.name'' resource []), lr_body := VMap e\<rparr>"

definition unstructuredListToLogData :: "k8s_ops \<Rightarrow> string \<Rightarrow> u64 \<Rightarrow> (pmap \<Rightarrow> pmap) \<Rightarrow> pmap list \<Rightarrow> logs" where
  "unstructuredListToLogData ko resource observedAt attrUpdate items =
     map snd (fold (\<lambda>e. add_item (object_getNamespace ko e) (item_record resource observedAt attrUpdate e)) items [])"

definition pullObjectsToLogData :: "k8s_ops \<Rightarrow> string \<Rightarrow> u64 \<Rightarrow> pmap list \<Rightarrow> logs" where
  "pullObjectsToLogData ko resource observedAt items = unstructuredListToLogData ko resource observedAt (\<lambda>attrs. attrs) items"

text \<open>One tick of a pull: what is handed to the consumer.\<close>

definition pull_tick :: "k8s_ops \<Rightarrow> string \<Rightarrow> u64 \<Rightarrow> (string, pmap list) result \<Rightarrow> logs option" where
  "pull_tick ko resource now listed =
     (case listed of
        Inl err \<Rightarrow> None
      | Inr items \<Rightarrow>
          if length items > 0 then Some (pullObjectsToLogData ko resource now (map (ko_ClearManagedFields ko) items)) else None)"

text \<open>The options of the list requests of a pull.\<close>

record list_option =
  lp_FieldSelector :: string
  lp_LabelSelector :: string
  lp_ResourceVersion :: string
  lp_ResourceVersionMatch :: string

definition pull_listOption :: "object_config \<Rightarrow> list_option" where
  "pull_listOption config =
     (let listOption = \<lparr>lp_FieldSelector = oc_FieldSelector config, lp_LabelSelector = oc_LabelSelector config,
                         lp_ResourceVersion = [], lp_ResourceVersionMatch = []\<rparr> in
      if oc_ResourceVersion config \<noteq> []
      then listOption\<lparr>lp_ResourceVersion := oc_ResourceVersion config, lp_ResourceVersionMatch := ''Exact''\<rparr> else listOption)"

text \<open>The ticks of a pull: one at once, then those of the timer.\<close>

definition newTicker :: "u64 \<Rightarrow> u64 list \<Rightarrow> u64 list" where
  "newTicker now ticks = now # ticks"

text \<open>The loop of a pull, for the outcomes of its \<open>select\<close>: what is handed to the consumer, and whether the loop was stopped.
  \<open>lst\<close> answers a list request.\<close>

datatype pull_select = PullTick u64 | PullStopped

fun startPull ::
  "k8s_ops \<Rightarrow> (u64 \<Rightarrow> list_option \<Rightarrow> (string, pmap list) result) \<Rightarrow> object_config \<Rightarrow> string \<Rightarrow> pull_select list \<Rightarrow> logs list \<times> bool" where
  "startPull ko lst config resource [] = ([], False)"
| "startPull ko lst config resource (PullStopped # sels) = ([], True)"
| "startPull ko lst config resource (PullTick now # sels) =
     (let (ls, stopped) = startPull ko lst config resource sels in
      (case pull_tick ko resource now (lst now (pull_listOption config)) of None \<Rightarrow> ls | Some l \<Rightarrow> l # ls, stopped))"


abbreviation EvAdded :: string where "EvAdded \<equiv> ''ADDED''"
abbreviation EvModified :: string where "EvModified \<equiv> ''MODIFIED''"
abbreviation EvDeleted :: string where "EvDeleted \<equiv> ''DELETED''"
abbreviation EvError :: string where "EvError \<equiv> ''ERROR''"

record watch_event =
  we_Type :: string
  we_Object :: event_object

datatype watch_error =
    NotUnstructured
  | HashError string
  | WatchPanic

text \<open>The name that the log record is given: type assertions on \<open>metadata\<close> and \<open>name\<close> that panic.\<close>

definition event_name :: "pmap \<Rightarrow> (watch_error, string) result" where
  "event_name udata =
     (case p_get udata ''metadata'' of
        Some (VMap objectMeta) \<Rightarrow> (case p_get objectMeta ''name'' of Some (VStr name) \<Rightarrow> Inr name | _ \<Rightarrow> Inl WatchPanic)
      | _ \<Rightarrow> Inl WatchPanic)"

definition watchObjectsToLogData ::
  "k8s_ops \<Rightarrow> string \<Rightarrow> watch_event \<Rightarrow> u64 \<Rightarrow> (pmap \<Rightarrow> pmap) \<Rightarrow> (watch_error, logs) result" where
  "watchObjectsToLogData ko resource event observedAt attrUpdater =
     (case we_Object event of
        OtherObject _ \<Rightarrow> Inl NotUnstructured
      | Unstructured udata \<Rightarrow>
        (case event_name udata of
           Inl panic \<Rightarrow> Inl panic
         | Inr name \<Rightarrow>
             Inr (unstructuredListToLogData ko resource observedAt
               (\<lambda>attrs. attrUpdater (if name \<noteq> [] then p_putStr ''event.name'' name (p_putStr ''event.domain'' ''k8s'' attrs) else attrs))
               [[(''type'', VStr (we_Type event)), (''object'', VMap udata)]])))"

section \<open>The watch\<close>

text \<open>The storage client of the collector, and the encoding of the cached hashes.\<close>

record 'c storage_ops =
  so_Get :: "'c \<Rightarrow> string \<Rightarrow> (string, bytes) result"
  so_Set :: "string \<Rightarrow> bytes \<Rightarrow> 'c \<Rightarrow> string option \<times> 'c"
  so_Marshal :: "(string, object_hashes) gomap \<Rightarrow> (string, bytes) result"
  so_UnmarshalInto :: "bytes \<Rightarrow> (string, object_hashes) gomap \<Rightarrow> (string, (string, object_hashes) gomap) result"

text \<open>The cached hashes, the storage client if there is one, and the batches given to the consumer.\<close>

record 'c watch_state =
  ws_Objects :: "(string, object_hashes) gomap"
  ws_client :: "'c option"
  ws_sent :: "logs list"

definition saveStorage :: "'c storage_ops \<Rightarrow> string \<Rightarrow> 'c watch_state \<Rightarrow> string option \<times> 'c watch_state" where
  "saveStorage so key st =
     (case ws_client st of
        None \<Rightarrow> (None, st)
      | Some c \<Rightarrow>
        (case so_Marshal so (ws_Objects st) of
           Inl err \<Rightarrow> (Some err, st)
         | Inr dataBytes \<Rightarrow> (let (err, c') = so_Set so key dataBytes c in (err, st\<lparr>ws_client := Some c'\<rparr>))))"

definition loadStorage :: "'c storage_ops \<Rightarrow> string \<Rightarrow> 'c watch_state \<Rightarrow> string option \<times> 'c watch_state" where
  "loadStorage so key st =
     (case ws_client st of
        None \<Rightarrow> (None, st)
      | Some c \<Rightarrow>
        (case so_Get so c key of
           Inl err \<Rightarrow> (Some err, st)
         | Inr dataBytes \<Rightarrow>
             if length dataBytes > 0
             then (case so_UnmarshalInto so dataBytes (ws_Objects st) of
                     Inl _ \<Rightarrow> (None, st\<lparr>ws_Objects := []\<rparr>)
                   | Inr objs \<Rightarrow> (None, st\<lparr>ws_Objects := objs\<rparr>))
             else (None, st)))"

record changes =
  ch_metadata :: bool
  ch_status :: bool
  ch_spec :: bool
  ch_other :: bool

definition compare_hashes :: "object_hashes option \<Rightarrow> object_hashes \<Rightarrow> changes" where
  "compare_hashes old hashes =
     (case old of
        None \<Rightarrow> \<lparr>ch_metadata = True, ch_status = True, ch_spec = True, ch_other = True\<rparr>
      | Some oldHashes \<Rightarrow>
          \<lparr>ch_metadata = (oh_Metadata oldHashes \<noteq> oh_Metadata hashes), ch_status = (oh_Status oldHashes \<noteq> oh_Status hashes),
           ch_spec = (oh_Spec oldHashes \<noteq> oh_Spec hashes), ch_other = (oh_Other oldHashes \<noteq> oh_Other hashes)\<rparr>)"

definition change_attributes :: "bool \<Rightarrow> changes \<Rightarrow> pmap \<Rightarrow> pmap" where
  "change_attributes initialPoll c attrs =
     p_put ''sw.other.changed'' (VBool (ch_other c)) (p_put ''sw.spec.changed'' (VBool (ch_spec c))
       (p_put ''sw.status.changed'' (VBool (ch_status c)) (p_put ''sw.metadata.changed'' (VBool (ch_metadata c))
         (p_put ''sw.initial.poll'' (VBool initialPoll) attrs))))"

definition watchEventToLogData ::
  "k8s_ops \<Rightarrow> string \<Rightarrow> watch_event \<Rightarrow> u64 \<Rightarrow> bool \<Rightarrow> 'c watch_state \<Rightarrow> watch_error option \<times> 'c watch_state" where
  "watchEventToLogData ko resource event observedAt initialPoll st =
     (case we_Object event of
        OtherObject _ \<Rightarrow> (Some NotUnstructured, st)
      | Unstructured udata \<Rightarrow>
        (let udata = ko_ClearManagedFields ko udata; key = getKey ko udata in
         case getObjectHashes ko udata of
           Inl err \<Rightarrow> (Some (HashError err), st)
         | Inr hashes \<Rightarrow>
           (let c = compare_hashes (gm_get (ws_Objects st) key) hashes;
                objs = gm_put key hashes (ws_Objects st);
                objs = (if we_Type event = EvDeleted then gm_del key objs else objs);
                st = st\<lparr>ws_Objects := objs\<rparr> in
            if \<not> ch_metadata c \<and> \<not> ch_status c \<and> \<not> ch_spec c \<and> \<not> ch_other c then (None, st)
            else case watchObjectsToLogData ko resource (event\<lparr>we_Object := Unstructured udata\<rparr>) observedAt
                        (change_attributes initialPoll c) of
                   Inl err \<Rightarrow> (Some err, st)
                 | Inr logs \<Rightarrow> (None, st\<lparr>ws_sent := ws_sent st @ [logs]\<rparr>))))"

text \<open>The objects of the initial list, one after the other; errors are logged, a panic ends it.\<close>

fun initial_items :: "k8s_ops \<Rightarrow> string \<Rightarrow> u64 \<Rightarrow> pmap list \<Rightarrow> 'c watch_state \<Rightarrow> watch_error option \<times> 'c watch_state" where
  "initial_items ko resource now [] st = (None, st)"
| "initial_items ko resource now (item # items) st =
     (let ty = (if gm_get (ws_Objects st) (getKey ko item) = None then EvAdded else EvModified) in
      case watchEventToLogData ko resource \<lparr>we_Type = ty, we_Object = Unstructured item\<rparr> now True st of
        (Some WatchPanic, st') \<Rightarrow> (Some WatchPanic, st')
      | (_, st') \<Rightarrow> initial_items ko resource now items st')"

datatype version_error =
    ListFailed string
  | NilObjects
  | LoadFailed string
  | VersionPanic

text \<open>\<open>listed\<close> is the answer to the list request: an error, nil, or the resource version and the items.\<close>

definition getResourceVersionAndUpdateCache ::
  "k8s_ops \<Rightarrow> 'c storage_ops \<Rightarrow> object_config \<Rightarrow> string \<Rightarrow> u64 \<Rightarrow> (string, (string \<times> pmap list) option) result
   \<Rightarrow> 'c watch_state \<Rightarrow> (version_error, string) result \<times> 'c watch_state" where
  "getResourceVersionAndUpdateCache ko so config resource now listed st =
     (if oc_ResourceVersion config = [] \<or> oc_ResourceVersion config = ''0''
      then case listed of
        Inl err \<Rightarrow> (Inl (ListFailed err), st)
      | Inr None \<Rightarrow> (Inl NilObjects, st)
      | Inr (Some (version, items)) \<Rightarrow>
        (case loadStorage so (oc_Name config) st of
           (Some err, st) \<Rightarrow> (Inl (LoadFailed err), st)
         | (None, st) \<Rightarrow>
           (case initial_items ko resource now items st of
              (Some _, st) \<Rightarrow> (Inl VersionPanic, st)
            | (None, st) \<Rightarrow>
              (let st = st\<lparr>ws_Objects := filter (\<lambda>(key, _). key \<in> getKey ko ` set items) (ws_Objects st)\<rparr>;
                   (_, st) = saveStorage so (oc_Name config) st in
               (Inr (if version = [] \<or> version = ''0'' then defaultResourceVersion else version), st))))
      else (Inr (oc_ResourceVersion config), st))"

text \<open>The outcomes of the \<open>select\<close> of \<open>doWatch\<close>: an event at a time, the closed channel, or the stop.\<close>

datatype watch_select = Received watch_event u64 | ChannelClosed | StopRequested

datatype watch_end = WatchDone | WatchRestart | WatchRunning | WatchCrashed

fun doWatch :: "k8s_ops \<Rightarrow> 'c storage_ops \<Rightarrow> object_config \<Rightarrow> string \<Rightarrow> watch_select list \<Rightarrow> 'c watch_state \<Rightarrow> watch_end \<times> 'c watch_state" where
  "doWatch ko so config resource [] st = (WatchRunning, st)"
| "doWatch ko so config resource (StopRequested # _) st = (WatchDone, st)"
| "doWatch ko so config resource (ChannelClosed # _) st = (WatchDone, st)"
| "doWatch ko so config resource (Received event now # sels) st =
     (if we_Type event = EvError \<and> ko_StatusCode ko (we_Object event) = None then (WatchCrashed, st)
      else if we_Type event = EvError \<and> ko_StatusCode ko (we_Object event) = Some 410 then (WatchRestart, st)
      else if we_Type event \<in> set (oc_exclude config) then doWatch ko so config resource sels st
      else case watchEventToLogData ko resource event now False st of
             (Some WatchPanic, st) \<Rightarrow> (WatchCrashed, st)
           | (_, st) \<Rightarrow> (let (_, st) = saveStorage so (oc_Name config) st in doWatch ko so config resource sels st))"

text \<open>A round of \<open>startWatch\<close>: the time and the answer of the list request, whether the retry watcher can be made, and the
  outcomes of its \<open>select\<close>.  The rounds go on with a fresh resource version until one is done.\<close>

record watch_round =
  wr_now :: u64
  wr_listed :: "(string, (string \<times> pmap list) option) result"
  wr_retryWatcher :: bool
  wr_selects :: "watch_select list"

fun startWatch :: "k8s_ops \<Rightarrow> 'c storage_ops \<Rightarrow> object_config \<Rightarrow> string \<Rightarrow> watch_round list \<Rightarrow> 'c watch_state \<Rightarrow> watch_end \<times> 'c watch_state" where
  "startWatch ko so config resource [] st = (WatchRunning, st)"
| "startWatch ko so config resource (r # rs) st =
     (case getResourceVersionAndUpdateCache ko so config resource (wr_now r) (wr_listed r) st of
        (Inl VersionPanic, st) \<Rightarrow> (WatchCrashed, st)
      | (Inl _, st) \<Rightarrow> (WatchDone, st)
      | (Inr version, st) \<Rightarrow>
          if \<not> wr_retryWatcher r then (WatchDone, st)
          else case doWatch ko so config resource (wr_selects r) st of
                 (WatchRestart, st) \<Rightarrow> startWatch ko so (config\<lparr>oc_ResourceVersion := []\<rparr>) resource rs st
               | (e, st) \<Rightarrow> (e, st))"

text \<open>\<open>Shutdown\<close> closes every stop channel; closing a closed channel panics.\<close>

definition closeStoppers :: "bool list \<Rightarrow> bool list option" where
  "closeStoppers stopped = (if True \<in> set stopped then None else Some (map (\<lambda>_. True) stopped))"

section \<open>Lemmas on grouping\<close>

lemma gm_put_map:
  assumes "distinct ks"
  shows "gm_put k v (map (\<lambda>k. (k, f k)) ks) =
    (if k \<in> set ks then map (\<lambda>k'. (k', if k' = k then v else f k')) ks else map (\<lambda>k. (k, f k)) ks @ [(k, v)])"
  using assms by (induction ks) auto

text \<open>The distinct elements of a list in the order of their first occurrence.\<close>

definition firsts :: "'a list \<Rightarrow> 'a list" where
  "firsts xs = rev (remdups (rev xs))"

lemma firsts_snoc [simp]: "firsts (xs @ [x]) = (if x \<in> set xs then firsts xs else firsts xs @ [x])"
  by (simp add: firsts_def)

lemma firsts_single [simp]: "firsts [x] = [x]"
  by (simp add: firsts_def)

lemma firsts_Nil [simp]: "firsts [] = []"
  by (simp add: firsts_def)

lemma set_firsts [simp]: "set (firsts xs) = set xs"
  by (simp add: firsts_def)

lemma distinct_firsts [simp]: "distinct (firsts xs)"
  by (simp add: firsts_def)

text \<open>The resource of one namespace with its records.\<close>

definition namespace_logs :: "string \<Rightarrow> log_record list \<Rightarrow> resource_logs" where
  "namespace_logs namespace lrs =
     \<lparr>rl_attrs = (if namespace \<noteq> [] then [(K8SNamespaceNameKey, VStr namespace)] else []),
      rl_scopes = [\<lparr>sl_attrs = [], sl_records = lrs\<rparr>]\<rparr>"

lemma new_namespace_logs_eq: "new_namespace_logs namespace = namespace_logs namespace []"
  by (simp add: new_namespace_logs_def namespace_logs_def p_map_defs)

lemma append_namespace_logs: "append_item_record lr (namespace_logs namespace lrs) = namespace_logs namespace (lrs @ [lr])"
  by (simp add: append_item_record_def namespace_logs_def)

lemma map_of_tabulate: "map_of (map (\<lambda>k. (k, f k)) ks) k = (if k \<in> set ks then Some (f k) else None)"
  by (induction ks) auto

lemma fold_add_item:
  "fold (\<lambda>e. add_item (ns e) (rec e)) items [] =
     map (\<lambda>n. (n, namespace_logs n (map rec (filter (\<lambda>e. ns e = n) items)))) (firsts (map ns items))"
proof (induction items rule: rev_induct)
  case (snoc e items)
  let ?f = "\<lambda>n. namespace_logs n (map rec (filter (\<lambda>e. ns e = n) items))"
  have none: "filter (\<lambda>e'. ns e' = ns e) items = []" if "ns e \<notin> ns ` set items"
    using that by (force simp: filter_empty_conv image_iff)
  have "add_item (ns e) (rec e) (map (\<lambda>n. (n, ?f n)) (firsts (map ns items))) =
    gm_put (ns e) (namespace_logs (ns e) (map rec (filter (\<lambda>e'. ns e' = ns e) items) @ [rec e]))
      (map (\<lambda>n. (n, ?f n)) (firsts (map ns items)))"
    by (auto simp: add_item_def map_of_tabulate new_namespace_logs_eq append_namespace_logs none)
  also have "\<dots> = map (\<lambda>n. (n, namespace_logs n (map rec (filter (\<lambda>e. ns e = n) (items @ [e]))))) (firsts (map ns (items @ [e])))"
    by (auto simp: gm_put_map none)
  finally show ?case using snoc by simp
qed simp

lemma logData_grouped:
  "unstructuredListToLogData ko resource t upd items =
     map (\<lambda>n. namespace_logs n (map (item_record resource t upd) (filter (\<lambda>e. object_getNamespace ko e = n) items)))
       (firsts (map (object_getNamespace ko) items))"
  by (simp add: unstructuredListToLogData_def fold_add_item comp_def)

section \<open>Lemmas on the watch\<close>

lemma unchanged_iff:
  "\<not> ch_metadata (compare_hashes old h) \<and> \<not> ch_status (compare_hashes old h) \<and> \<not> ch_spec (compare_hashes old h) \<and>
   \<not> ch_other (compare_hashes old h) \<longleftrightarrow> old = Some h"
  by (cases old) (auto simp: compare_hashes_def)

text \<open>The batch that reports an object: one record, in the resource of its namespace.\<close>

definition event_report :: "k8s_ops \<Rightarrow> string \<Rightarrow> string \<Rightarrow> u64 \<Rightarrow> bool \<Rightarrow> changes \<Rightarrow> pmap \<Rightarrow> string \<Rightarrow> logs" where
  "event_report ko resource ty t initialPoll c udata name =
     (let body = [(''type'', VStr ty), (''object'', VMap udata)] in
      [namespace_logs (object_getNamespace ko body)
         [item_record resource t (\<lambda>attrs. change_attributes initialPoll c
            (if name \<noteq> [] then p_putStr ''event.name'' name (p_putStr ''event.domain'' ''k8s'' attrs) else attrs)) body]])"

lemma watchObjectsToLogData_report:
  "watchObjectsToLogData ko resource (ev\<lparr>we_Object := Unstructured udata\<rparr>) t (change_attributes i c) =
     (case event_name udata of Inl e \<Rightarrow> Inl e | Inr name \<Rightarrow> Inr (event_report ko resource (we_Type ev) t i c udata name))"
  by (simp add: watchObjectsToLogData_def event_report_def logData_grouped Let_def split: sum.split)

text \<open>The cache as a map, and what an event does to it.\<close>

definition cache_event :: "k8s_ops \<Rightarrow> watch_event \<Rightarrow> (string \<rightharpoonup> object_hashes) \<Rightarrow> (string \<rightharpoonup> object_hashes)" where
  "cache_event ko ev m =
     (case we_Object ev of
        OtherObject _ \<Rightarrow> m
      | Unstructured u \<Rightarrow>
        (case getObjectHashes ko (ko_ClearManagedFields ko u) of
           Inl _ \<Rightarrow> m
         | Inr h \<Rightarrow> m(getKey ko (ko_ClearManagedFields ko u) := (if we_Type ev = ''DELETED'' then None else Some h))))"

lemma gm_get_put_fun: "gm_get (gm_put k v m) = (gm_get m)(k := Some v)"
  by (rule ext) (simp add: gomap_simps)

lemma gm_get_del_fun: "gm_get (gm_del k m) = (gm_get m)(k := None)"
  by (rule ext) (simp add: gomap_simps)

text \<open>Reporting leaves the cache alone.\<close>

lemma report_objects:
  "ws_Objects (snd (if b then (None, st) else case r of Inl e \<Rightarrow> (Some e, st) | Inr l \<Rightarrow> (None, st\<lparr>ws_sent := ws_sent st @ [l]\<rparr>))) =
     ws_Objects st"
  by (simp split: sum.split)

lemma watchEvent_cache: "gm_get (ws_Objects (snd (watchEventToLogData ko resource ev t i st))) = cache_event ko ev (gm_get (ws_Objects st))"
proof (cases "we_Object ev")
  case (Unstructured u)
  then show ?thesis unfolding watchEventToLogData_def cache_event_def Let_def Unstructured event_object.case
    by (cases "getObjectHashes ko (ko_ClearManagedFields ko u)")
      (simp_all only: sum.case report_objects, auto simp: gomap_simps)
qed (simp add: watchEventToLogData_def cache_event_def)

lemma saveStorage_objects [simp]: "ws_Objects (snd (saveStorage so key st)) = ws_Objects st"
  by (simp add: saveStorage_def Let_def split: option.split sum.split prod.split)

lemma saveStorage_sent [simp]: "ws_sent (snd (saveStorage so key st)) = ws_sent st"
  by (simp add: saveStorage_def Let_def split: option.split sum.split prod.split)

text \<open>The events that a watch takes from its channel before it ends.\<close>

fun taken_events :: "k8s_ops \<Rightarrow> watch_select list \<Rightarrow> watch_event list" where
  "taken_events ko (Received ev now # sels) =
     (if we_Type ev = ''ERROR'' \<and> ko_StatusCode ko (we_Object ev) = Some 410 then [] else ev # taken_events ko sels)"
| "taken_events ko _ = []"

lemma doWatch_cache:
  assumes "doWatch ko so config resource sels st = (e, st')" "e \<noteq> WatchCrashed"
  shows "gm_get (ws_Objects st') =
    fold (cache_event ko) (filter (\<lambda>ev. we_Type ev \<notin> set (oc_exclude config)) (taken_events ko sels)) (gm_get (ws_Objects st))"
  using assms
proof (induction sels arbitrary: st)
  case (Cons sel sels)
  show ?case
  proof (cases sel)
    case (Received event now)
    define bad where "bad \<longleftrightarrow> we_Type event = EvError \<and> ko_StatusCode ko (we_Object event) = None"
    define gone where "gone \<longleftrightarrow> we_Type event = EvError \<and> ko_StatusCode ko (we_Object event) = Some 410"
    obtain err st1 where w: "watchEventToLogData ko resource event now False st = (err, st1)" by fastforce
    obtain x st2 where sv: "saveStorage so (oc_Name config) st1 = (x, st2)" by fastforce
    have step: "doWatch ko so config resource (sel # sels) st =
      (if bad then (WatchCrashed, st) else if gone then (WatchRestart, st)
       else if we_Type event \<in> set (oc_exclude config) then doWatch ko so config resource sels st
       else if err = Some WatchPanic then (WatchCrashed, st1) else doWatch ko so config resource sels st2)"
      using w sv by (auto simp: Received bad_def gone_def split: option.split watch_error.split)
    have taken: "taken_events ko (sel # sels) = (if gone then [] else event # taken_events ko sels)"
      by (simp add: Received gone_def)
    have "gm_get (ws_Objects st2) = cache_event ko event (gm_get (ws_Objects st))"
      using watchEvent_cache [of ko resource event now False st] saveStorage_objects [of so "oc_Name config" st1] w sv by simp
    with Cons step taken show ?thesis by (auto split: if_splits)
  qed (use Cons in auto)
qed auto

lemma watchEvent_result:
  assumes "we_Object ev = Unstructured u" "getObjectHashes ko (ko_ClearManagedFields ko u) = Inr h"
    and "event_name (ko_ClearManagedFields ko u) = Inr name"
  shows "fst (watchEventToLogData ko resource ev t i st) = None"
    and "ws_sent (snd (watchEventToLogData ko resource ev t i st)) = ws_sent st @
      (if gm_get (ws_Objects st) (getKey ko (ko_ClearManagedFields ko u)) = Some h then []
       else [event_report ko resource (we_Type ev) t i
               (compare_hashes (gm_get (ws_Objects st) (getKey ko (ko_ClearManagedFields ko u))) h) (ko_ClearManagedFields ko u) name])"
  unfolding watchEventToLogData_def Let_def assms(1) event_object.case assms(2) sum.case unchanged_iff
    watchObjectsToLogData_report assms(3)
  by simp_all

lemma initial_items_cache:
  "initial_items ko resource now items st = (None, st') \<Longrightarrow>
   gm_get (ws_Objects st') = fold (\<lambda>item. cache_event ko \<lparr>we_Type = ''ADDED'', we_Object = Unstructured item\<rparr>) items (gm_get (ws_Objects st))"
proof (induction items arbitrary: st)
  case (Cons item items)
  let ?ev = "\<lambda>ty. \<lparr>we_Type = ty, we_Object = Unstructured item\<rparr>"
  define ty where "ty = (if gm_get (ws_Objects st) (getKey ko item) = None then EvAdded else EvModified)"
  obtain err st1 where w: "watchEventToLogData ko resource (?ev ty) now True st = (err, st1)" by fastforce
  have "initial_items ko resource now (item # items) st =
    (if err = Some WatchPanic then (Some WatchPanic, st1) else initial_items ko resource now items st1)"
    using w by (auto simp: ty_def [symmetric] Let_def split: option.split watch_error.split)
  with Cons.prems have rest: "initial_items ko resource now items st1 = (None, st')" by (simp split: if_splits)
  have "cache_event ko (?ev ty) m = cache_event ko (?ev ''ADDED'') m" for m
    by (simp add: cache_event_def ty_def split: sum.split)
  then have "gm_get (ws_Objects st1) = cache_event ko (?ev ''ADDED'') (gm_get (ws_Objects st))"
    using watchEvent_cache [of ko resource "?ev ty" now True st] w by simp
  with Cons.IH [OF rest] show ?case by simp
qed simp

lemma cached_item:
  assumes law: "\<And>u. getKey ko (ko_ClearManagedFields ko u) = getKey ko u"
    and "item \<in> set items" "\<And>other. other \<in> set items \<Longrightarrow> getKey ko other = getKey ko item \<Longrightarrow> other = item"
    and h: "getObjectHashes ko (ko_ClearManagedFields ko item) = Inr h"
  shows "fold (\<lambda>item. cache_event ko \<lparr>we_Type = ''ADDED'', we_Object = Unstructured item\<rparr>) items m (getKey ko item) = Some h"
  using assms(2,3)
proof (induction items rule: rev_induct)
  case (snoc e items)
  have ce: "cache_event ko \<lparr>we_Type = ''ADDED'', we_Object = Unstructured u\<rparr> m k =
    (if k = getKey ko u \<and> (\<exists>h. getObjectHashes ko (ko_ClearManagedFields ko u) = Inr h)
     then Some (projr (getObjectHashes ko (ko_ClearManagedFields ko u))) else m k)" for u m k
    by (simp add: cache_event_def law split: sum.split)
  show ?case
  proof (cases "e = item")
    case True
    then show ?thesis by (simp add: ce h)
  next
    case False
    with snoc.prems have "getKey ko e \<noteq> getKey ko item" "item \<in> set items" by auto
    with snoc show ?thesis by (auto simp: ce)
  qed
qed simp

lemma gm_get_filter_keys: "gm_get (filter (\<lambda>(k, _). k \<in> S) m) k = (if k \<in> S then gm_get m k else None)"
  by (induction m) auto

lemma version_cache:
  assumes "getResourceVersionAndUpdateCache ko so config resource now (Inr (Some (version, items))) st = (Inr v, st')"
    and "oc_ResourceVersion config = [] \<or> oc_ResourceVersion config = ''0''"
  obtains st1 st2 where "loadStorage so (oc_Name config) st = (None, st1)" "initial_items ko resource now items st1 = (None, st2)"
    "ws_Objects st' = filter (\<lambda>(key, _). key \<in> getKey ko ` set items) (ws_Objects st2)"
    "v = (if version = [] \<or> version = ''0'' then defaultResourceVersion else version)"
proof -
  obtain e1 st1 where l: "loadStorage so (oc_Name config) st = (e1, st1)" by fastforce
  obtain e2 st2 where it: "initial_items ko resource now items st1 = (e2, st2)" by fastforce
  let ?st3 = "st2\<lparr>ws_Objects := filter (\<lambda>(key, _). key \<in> getKey ko ` set items) (ws_Objects st2)\<rparr>"
  obtain e3 st3 where sv: "saveStorage so (oc_Name config) ?st3 = (e3, st3)" by fastforce
  have "e1 = None" using assms l by (auto simp: getResourceVersionAndUpdateCache_def split: option.splits)
  moreover from this have "e2 = None" using assms l it by (auto simp: getResourceVersionAndUpdateCache_def split: option.splits)
  moreover from calculation have "st' = st3" "v = (if version = [] \<or> version = ''0'' then defaultResourceVersion else version)"
    using assms l it sv by (auto simp: getResourceVersionAndUpdateCache_def Let_def)
  moreover have "ws_Objects st3 = ws_Objects ?st3" using saveStorage_objects [of so "oc_Name config" ?st3] sv by simp
  ultimately show ?thesis using that [of st1 st2] l it by simp
qed

section \<open>Properties\<close>

text \<open>Objects become one resource per namespace, in the order in which the namespaces first occur, and every object is
  one record of the resource of its namespace, in the order of the list: nothing is lost, doubled or
  put into another namespace.\<close>

theorem objects_grouped_by_namespace:
  "unstructuredListToLogData ko resource t upd items =
     map (\<lambda>n. \<lparr>rl_attrs = (if n \<noteq> [] then [(''k8s.namespace.name'', VStr n)] else []),
               rl_scopes = [\<lparr>sl_attrs = [], sl_records =
                 map (item_record resource t upd) (filter (\<lambda>e. object_getNamespace ko e = n) items)\<rparr>]\<rparr>)
       (rev (remdups (rev (map (object_getNamespace ko) items))))"
  by (simp add: logData_grouped namespace_logs_def firsts_def)

text \<open>
  What a watch compares and reports, stated independently of the code that does it.  The content that is compared is the object without its
  resource version and without timestamps; the digest of a part is that of its marshalled value, empty for a part that is absent,
  and the last digest is that of the object without the three parts.
\<close>

definition compared_content :: "k8s_ops \<Rightarrow> pmap \<Rightarrow> pmap \<Rightarrow> bool" where
  "compared_content ko u u' \<longleftrightarrow>
     (\<exists>bs. ko_MarshalJSON ko (ko_SetResourceVersion ko [] u) = Inr bs \<and>
        ko_UnmarshalInto ko (ko_StripTimestamps ko bs) (ko_SetResourceVersion ko [] u) = Inr u')"

definition part_digest :: "k8s_ops \<Rightarrow> pmap \<Rightarrow> string \<Rightarrow> string \<Rightarrow> bool" where
  "part_digest ko u part d \<longleftrightarrow>
     ko_NestedFieldCopy ko u [part] = Inr None \<and> d = [] \<or>
     (\<exists>v bs. ko_NestedFieldCopy ko u [part] = Inr (Some v) \<and> ko_MarshalValue ko v = Inr bs \<and> d = ko_Sha256Hex ko bs)"

definition digests_of :: "k8s_ops \<Rightarrow> pmap \<Rightarrow> object_hashes \<Rightarrow> bool" where
  "digests_of ko u h \<longleftrightarrow>
     (\<exists>u' bs. compared_content ko u u' \<and> part_digest ko u' ''metadata'' (oh_Metadata h) \<and> part_digest ko u' ''spec'' (oh_Spec h) \<and>
        part_digest ko u' ''status'' (oh_Status h) \<and>
        ko_MarshalJSON ko (ko_RemoveNestedField ko ''status'' (ko_RemoveNestedField ko ''spec'' (ko_RemoveNestedField ko ''metadata'' u'))) = Inr bs \<and>
        oh_Other h = ko_Sha256Hex ko bs)"

lemma getHash_part: "getHash ko u [part] = Inr d \<Longrightarrow> part_digest ko u part d"
  by (auto simp: getHash_def part_digest_def split: sum.splits option.splits)

lemma getObjectHashes_digests: "getObjectHashes ko u = Inr h \<Longrightarrow> digests_of ko u h"
  unfolding digests_of_def compared_content_def getObjectHashes_def Let_def
  by (auto split: sum.splits dest!: getHash_part simp: getHash_def [of _ _ "[]"])

text \<open>A part counts as changed when nothing is cached or the cached digest of the part is another one.\<close>

definition part_changed :: "(object_hashes \<Rightarrow> string) \<Rightarrow> object_hashes option \<Rightarrow> object_hashes \<Rightarrow> bool" where
  "part_changed part cached h \<longleftrightarrow> map_option part cached \<noteq> Some (part h)"

definition change_record ::
  "string \<Rightarrow> string \<Rightarrow> u64 \<Rightarrow> bool \<Rightarrow> object_hashes option \<Rightarrow> object_hashes \<Rightarrow> pmap \<Rightarrow> string \<Rightarrow> log_record \<Rightarrow> bool" where
  "change_record resource ty t initialPoll cached h object name r \<longleftrightarrow>
     r = new_record\<lparr>lr_observed := t, lr_attrs := lr_attrs r, lr_body := VMap [(''type'', VStr ty), (''object'', VMap object)]\<rparr> \<and>
     p_get (lr_attrs r) =
       [''k8s.resource.name'' \<mapsto> VStr resource, ''sw.initial.poll'' \<mapsto> VBool initialPoll,
        ''sw.metadata.changed'' \<mapsto> VBool (part_changed oh_Metadata cached h), ''sw.status.changed'' \<mapsto> VBool (part_changed oh_Status cached h),
        ''sw.spec.changed'' \<mapsto> VBool (part_changed oh_Spec cached h), ''sw.other.changed'' \<mapsto> VBool (part_changed oh_Other cached h)] ++
       (if name = [] then Map.empty else [''event.name'' \<mapsto> VStr name, ''event.domain'' \<mapsto> VStr ''k8s''])"

lemma compare_hashes_changed:
  "ch_metadata (compare_hashes cached h) = part_changed oh_Metadata cached h"
  "ch_status (compare_hashes cached h) = part_changed oh_Status cached h"
  "ch_spec (compare_hashes cached h) = part_changed oh_Spec cached h"
  "ch_other (compare_hashes cached h) = part_changed oh_Other cached h"
  by (cases cached; simp add: compare_hashes_def part_changed_def)+

lemma event_report_record:
  "\<exists>r. event_report ko resource ty t i (compare_hashes cached h) object name =
      [\<lparr>rl_attrs = (let ns = object_getNamespace ko [(''type'', VStr ty), (''object'', VMap object)] in
                   if ns = [] then [] else [(''k8s.namespace.name'', VStr ns)]),
        rl_scopes = [\<lparr>sl_attrs = [], sl_records = [r]\<rparr>]\<rparr>] \<and>
    change_record resource ty t i cached h object name r"
  unfolding event_report_def namespace_logs_def Let_def change_record_def
  by (intro exI conjI, simp, simp add: item_record_def,
      rule ext, simp add: item_record_def change_attributes_def compare_hashes_changed map_add_def split: option.split)

text \<open>C25: An event of an object that can be hashed is reported if and only if its hashes differ from the cached ones or
  nothing is cached for its key, with one record, in the resource of its namespace, whose four attributes say for metadata, status, spec and the rest
  whether the digest of that part differs from the cached one (all of them do when nothing is cached); the hashes are the digests of these parts of the
  object.  Afterwards the cache
  holds its hashes, or nothing when it was deleted, and is otherwise as before.\<close>

theorem watch_reports_changes:
  assumes "we_Object ev = Unstructured u" "getObjectHashes ko (ko_ClearManagedFields ko u) = Inr h"
    and "event_name (ko_ClearManagedFields ko u) = Inr name" "k = getKey ko (ko_ClearManagedFields ko u)"
    and "watchEventToLogData ko resource ev t i st = (err, st')"
  shows "err = None \<and> digests_of ko (ko_ClearManagedFields ko u) h \<and>
    gm_get (ws_Objects st') = (gm_get (ws_Objects st))(k := (if we_Type ev = ''DELETED'' then None else Some h)) \<and>
    (if gm_get (ws_Objects st) k = Some h then ws_sent st' = ws_sent st
     else \<exists>r. ws_sent st' = ws_sent st @
            [[\<lparr>rl_attrs = (let ns = object_getNamespace ko [(''type'', VStr (we_Type ev)), (''object'', VMap (ko_ClearManagedFields ko u))] in
                          if ns = [] then [] else [(''k8s.namespace.name'', VStr ns)]),
               rl_scopes = [\<lparr>sl_attrs = [], sl_records = [r]\<rparr>]\<rparr>]] \<and>
          change_record resource (we_Type ev) t i (gm_get (ws_Objects st) k) h (ko_ClearManagedFields ko u) name r)"
proof -
  have "err = None" and cache: "gm_get (ws_Objects st') = (gm_get (ws_Objects st))(k := (if we_Type ev = ''DELETED'' then None else Some h))"
    and sent: "ws_sent st' = ws_sent st @
      (if gm_get (ws_Objects st) k = Some h then []
       else [event_report ko resource (we_Type ev) t i (compare_hashes (gm_get (ws_Objects st) k) h) (ko_ClearManagedFields ko u) name])"
    using watchEvent_result [OF assms(1-3), of resource t i st] watchEvent_cache [of ko resource ev t i st]
    unfolding assms(4,5) cache_event_def assms(1) event_object.case assms(2) sum.case fst_conv snd_conv by blast+
  moreover note event_report_record [of ko resource "we_Type ev" t i "gm_get (ws_Objects st) k" h "ko_ClearManagedFields ko u" name]
  ultimately show ?thesis using getObjectHashes_digests [OF assms(2)] by auto
qed

definition wit_k8s_ops :: k8s_ops where
  "wit_k8s_ops = \<lparr>ko_StatusCode = (\<lambda>_. None), ko_GetKind = (\<lambda>_. ''Pod''), ko_GetNamespace = (\<lambda>_. ''ns''),
     ko_GetName = (\<lambda>u. p_str u ''n''), ko_ClearManagedFields = (\<lambda>u. u), ko_SetResourceVersion = (\<lambda>_ u. u),
     ko_MarshalJSON = (\<lambda>u. Inr (p_str u ''n'')), ko_UnmarshalInto = (\<lambda>_ u. Inr u), ko_StripTimestamps = (\<lambda>s. s),
     ko_NestedString = (\<lambda>_ _. None), ko_NestedFieldCopy = (\<lambda>_ _. Inr None), ko_RemoveNestedField = (\<lambda>_ u. u),
     ko_MarshalValue = (\<lambda>_. Inr []), ko_Sha256Hex = (\<lambda>s. s)\<rparr>"

definition wit_object :: pmap where
  "wit_object = [(''n'', VStr ''p''), (''metadata'', VMap [(''name'', VStr ''p'')])]"

lemma wit_hashes: "getObjectHashes wit_k8s_ops wit_object = Inr \<lparr>oh_Metadata = [], oh_Spec = [], oh_Status = [], oh_Other = ''p''\<rparr>"
  by (simp add: getObjectHashes_def getHash_def wit_k8s_ops_def wit_object_def p_map_defs)

lemma wit_ops_clear: "ko_ClearManagedFields wit_k8s_ops u = u"
  by (simp add: wit_k8s_ops_def)

lemma watch_reports_changes_witness:
  "\<exists>st' r. watchEventToLogData wit_k8s_ops ''pods'' \<lparr>we_Type = ''MODIFIED'', we_Object = Unstructured wit_object\<rparr> 1 False
       \<lparr>ws_Objects = [(getKey wit_k8s_ops wit_object, \<lparr>oh_Metadata = [], oh_Spec = [], oh_Status = ''s'', oh_Other = ''p''\<rparr>)],
        ws_client = None :: unit option, ws_sent = []\<rparr> = (None, st') \<and>
     ws_sent st' = [[\<lparr>rl_attrs = [(''k8s.namespace.name'', VStr ''ns'')], rl_scopes = [\<lparr>sl_attrs = [], sl_records = [r]\<rparr>]\<rparr>]] \<and>
     map (p_get (lr_attrs r)) [''sw.metadata.changed'', ''sw.spec.changed'', ''sw.status.changed'', ''sw.other.changed''] =
       map (Some \<circ> VBool) [False, False, True, False] \<and>
     gm_get (ws_Objects st') (getKey wit_k8s_ops wit_object) = Some \<lparr>oh_Metadata = [], oh_Spec = [], oh_Status = [], oh_Other = ''p''\<rparr>"
proof -
  let ?h = "\<lparr>oh_Metadata = [], oh_Spec = [], oh_Status = [], oh_Other = ''p''\<rparr>"
  let ?st = "\<lparr>ws_Objects = [(getKey wit_k8s_ops wit_object, ?h\<lparr>oh_Status := ''s''\<rparr>)], ws_client = None :: unit option, ws_sent = []\<rparr>"
  let ?ev = "\<lparr>we_Type = ''MODIFIED'', we_Object = Unstructured wit_object\<rparr>"
  obtain err st' where w: "watchEventToLogData wit_k8s_ops ''pods'' ?ev 1 False ?st = (err, st')" by fastforce
  have n: "event_name (ko_ClearManagedFields wit_k8s_ops wit_object) = Inr ''p''"
    by (simp add: event_name_def wit_ops_clear wit_object_def p_map_defs)
  have o: "we_Object ?ev = Unstructured wit_object" by simp
  have h: "getObjectHashes wit_k8s_ops (ko_ClearManagedFields wit_k8s_ops wit_object) = Inr ?h"
    by (simp only: wit_ops_clear wit_hashes)
  have ns: "object_getNamespace wit_k8s_ops x = ''ns''" for x by (simp add: object_getNamespace_def wit_k8s_ops_def)
  note changes = watch_reports_changes [OF o h n refl w]
  then have "err = None" "gm_get (ws_Objects st') (getKey wit_k8s_ops wit_object) = Some ?h" by (auto simp: wit_ops_clear)
  moreover from changes obtain r where
    "ws_sent st' = [[\<lparr>rl_attrs = [(''k8s.namespace.name'', VStr ''ns'')], rl_scopes = [\<lparr>sl_attrs = [], sl_records = [r]\<rparr>]\<rparr>]]"
    "change_record ''pods'' ''MODIFIED'' 1 False (Some (?h\<lparr>oh_Status := ''s''\<rparr>)) ?h wit_object ''p'' r"
    by (auto simp: wit_ops_clear ns)
  moreover from this(2) have "map (p_get (lr_attrs r)) [''sw.metadata.changed'', ''sw.spec.changed'', ''sw.status.changed'', ''sw.other.changed''] =
       map (Some \<circ> VBool) [False, False, True, False]" by (simp add: change_record_def part_changed_def)
  ultimately show ?thesis using w by (intro exI [of _ st'] exI [of _ r]) simp
qed

text \<open>C26: A watch that has not crashed leaves in its cache exactly what the events it took from the channel say, in their
  order and without the excluded types: for every key the hashes of its last event, or nothing after
  a deletion.\<close>

theorem watch_cache_refines:
  assumes "doWatch ko so config resource sels st = (e, st')" "e \<noteq> WatchCrashed"
  shows "gm_get (ws_Objects st') =
    fold (cache_event ko) (filter (\<lambda>ev. we_Type ev \<notin> set (oc_exclude config)) (taken_events ko sels)) (gm_get (ws_Objects st))"
  using assms by (rule doWatch_cache)

definition wit_storage_ops :: "unit storage_ops" where
  "wit_storage_ops = \<lparr>so_Get = (\<lambda>_ _. Inr []), so_Set = (\<lambda>_ _ c. (None, c)), so_Marshal = (\<lambda>_. Inr []),
     so_UnmarshalInto = (\<lambda>_ m. Inr m)\<rparr>"

definition wit_object_config :: object_config where
  "wit_object_config = \<lparr>oc_Name = ''pods'', oc_Group = [], oc_Namespaces = [], oc_Mode = ''watch'', oc_LabelSelector = [], oc_FieldSelector = [], oc_Interval = 0,
     oc_ResourceVersion = [], oc_ExcludeWatchType = [], oc_exclude = [], oc_gvr = None\<rparr>"

lemma wit_event_name: "event_name (ko_ClearManagedFields wit_k8s_ops wit_object) = Inr ''p''"
  by (simp add: event_name_def wit_ops_clear wit_object_def p_map_defs)

lemma watch_cache_refines_witness:
  "\<exists>e st'. doWatch wit_k8s_ops wit_storage_ops wit_object_config ''pods''
       [Received \<lparr>we_Type = ''ADDED'', we_Object = Unstructured wit_object\<rparr> 1, StopRequested]
       \<lparr>ws_Objects = [], ws_client = None, ws_sent = []\<rparr> = (e, st') \<and>
     gm_get (ws_Objects st') (getKey wit_k8s_ops wit_object) = Some \<lparr>oh_Metadata = [], oh_Spec = [], oh_Status = [], oh_Other = ''p''\<rparr>"
proof -
  let ?ev = "\<lparr>we_Type = ''ADDED'', we_Object = Unstructured wit_object\<rparr>"
  let ?st = "\<lparr>ws_Objects = [], ws_client = None :: unit option, ws_sent = []\<rparr>"
  let ?sels = "[Received ?ev 1, StopRequested]"
  have h: "getObjectHashes wit_k8s_ops (ko_ClearManagedFields wit_k8s_ops wit_object) =
    Inr \<lparr>oh_Metadata = [], oh_Spec = [], oh_Status = [], oh_Other = ''p''\<rparr>" by (simp only: wit_ops_clear wit_hashes)
  obtain e st' where d: "doWatch wit_k8s_ops wit_storage_ops wit_object_config ''pods'' ?sels ?st = (e, st')" by fastforce
  have "fst (watchEventToLogData wit_k8s_ops ''pods'' ?ev 1 False ?st) = None"
    by (rule watchEvent_result(1) [OF _ h wit_event_name]) simp
  then have "e \<noteq> WatchCrashed"
    using d by (cases "watchEventToLogData wit_k8s_ops ''pods'' ?ev 1 False ?st")
      (auto simp: wit_object_config_def split: prod.splits)
  from watch_cache_refines [OF d this] d show ?thesis
    by (auto simp: cache_event_def h wit_object_config_def wit_ops_clear wit_hashes)
qed

text \<open>C27: After the initial list of a watch the cache has entries only for listed objects, the hashes of every listed object
  that can be hashed and has a key of its own are in it, and the resource version to watch from is
  neither empty nor zero.\<close>

theorem initial_list_rebuilds_cache:
  assumes "getResourceVersionAndUpdateCache ko so config resource now (Inr (Some (version, items))) st = (Inr v, st')"
    and "oc_ResourceVersion config = [] \<or> oc_ResourceVersion config = ''0''"
    and "\<And>u. getKey ko (ko_ClearManagedFields ko u) = getKey ko u"
  shows "dom (gm_get (ws_Objects st')) \<subseteq> getKey ko ` set items \<and> v \<noteq> [] \<and> v \<noteq> ''0'' \<and>
    (\<forall>item h. item \<in> set items \<and> getObjectHashes ko (ko_ClearManagedFields ko item) = Inr h \<and>
       (\<forall>other \<in> set items. getKey ko other = getKey ko item \<longrightarrow> other = item) \<longrightarrow>
       gm_get (ws_Objects st') (getKey ko item) = Some h)"
proof -
  obtain st1 st2 where st: "loadStorage so (oc_Name config) st = (None, st1)" "initial_items ko resource now items st1 = (None, st2)"
    "ws_Objects st' = filter (\<lambda>(key, _). key \<in> getKey ko ` set items) (ws_Objects st2)"
    "v = (if version = [] \<or> version = ''0'' then defaultResourceVersion else version)"
    using version_cache [OF assms(1,2)] .
  have g: "gm_get (ws_Objects st') k = (if k \<in> getKey ko ` set items then gm_get (ws_Objects st2) k else None)" for k
    by (simp add: st(3) gm_get_filter_keys)
  have "gm_get (ws_Objects st') (getKey ko item) = Some h"
    if "item \<in> set items" "getObjectHashes ko (ko_ClearManagedFields ko item) = Inr h"
      "\<forall>other \<in> set items. getKey ko other = getKey ko item \<longrightarrow> other = item" for item h
    using cached_item [of ko item items h, OF assms(3)] that initial_items_cache [OF st(2)] by (simp add: g)
  moreover have "dom (gm_get (ws_Objects st')) \<subseteq> getKey ko ` set items" by (auto simp: g dom_def split: if_splits)
  ultimately show ?thesis using st(4) by auto
qed

lemma initial_list_rebuilds_cache_witness:
  "\<exists>v st'. getResourceVersionAndUpdateCache wit_k8s_ops wit_storage_ops wit_object_config ''pods'' 1 (Inr (Some (''0'', [wit_object])))
       \<lparr>ws_Objects = [(''gone'', \<lparr>oh_Metadata = [], oh_Spec = [], oh_Status = [], oh_Other = []\<rparr>)], ws_client = None, ws_sent = []\<rparr> = (Inr v, st') \<and>
     v \<noteq> [] \<and> gm_get (ws_Objects st') ''gone'' = None"
proof -
  let ?st = "\<lparr>ws_Objects = [(''gone'', \<lparr>oh_Metadata = [], oh_Spec = [], oh_Status = [], oh_Other = []\<rparr>)], ws_client = None :: unit option,
    ws_sent = []\<rparr>"
  let ?ev = "\<lambda>ty. \<lparr>we_Type = ty, we_Object = Unstructured wit_object\<rparr>"
  have h: "getObjectHashes wit_k8s_ops (ko_ClearManagedFields wit_k8s_ops wit_object) =
    Inr \<lparr>oh_Metadata = [], oh_Spec = [], oh_Status = [], oh_Other = ''p''\<rparr>" by (simp only: wit_ops_clear wit_hashes)
  have k: "getKey wit_k8s_ops wit_object \<noteq> ''gone''" by (simp add: getKey_def wit_k8s_ops_def)
  have "fst (watchEventToLogData wit_k8s_ops ''pods'' (?ev ''ADDED'') 1 True ?st) = None"
    by (rule watchEvent_result(1) [OF _ h wit_event_name]) simp
  then obtain st2 where "watchEventToLogData wit_k8s_ops ''pods'' (?ev ''ADDED'') 1 True ?st = (None, st2)"
    by (metis prod.collapse)
  with k have it: "initial_items wit_k8s_ops ''pods'' 1 [wit_object] ?st = (None, st2)" by (simp add: Let_def)
  have law: "\<And>u. getKey wit_k8s_ops (ko_ClearManagedFields wit_k8s_ops u) = getKey wit_k8s_ops u" by (simp only: wit_ops_clear)
  have rv: "oc_ResourceVersion wit_object_config = [] \<or> oc_ResourceVersion wit_object_config = ''0''" by (simp add: wit_object_config_def)
  let ?st3 = "st2\<lparr>ws_Objects := filter (\<lambda>(key, _). key \<in> getKey wit_k8s_ops ` set [wit_object]) (ws_Objects st2)\<rparr>"
  obtain x st' where sv: "saveStorage wit_storage_ops (oc_Name wit_object_config) ?st3 = (x, st')" by fastforce
  have ld: "loadStorage wit_storage_ops (oc_Name wit_object_config) ?st = (None, ?st)" by (simp add: loadStorage_def)
  have r: "getResourceVersionAndUpdateCache wit_k8s_ops wit_storage_ops wit_object_config ''pods'' 1
      (Inr (Some (''0'', [wit_object]))) ?st = (Inr defaultResourceVersion, st')"
    unfolding getResourceVersionAndUpdateCache_def sum.case option.case prod.case ld it Let_def sv using rv by simp
  from initial_list_rebuilds_cache [OF r rv law]
  have "dom (gm_get (ws_Objects st')) \<subseteq> {getKey wit_k8s_ops wit_object}" by auto
  with k have "gm_get (ws_Objects st') ''gone'' = None" by (auto simp: dom_def)
  then show ?thesis by (intro exI conjI) (rule r, simp)
qed

section \<open>Keys and persistence\<close>

text \<open>Keys tell objects apart: kinds have no colon and namespaces no number sign.\<close>

lemma getKey_identifies:
  assumes "getKey ko u = getKey ko u'"
    and "CHR '':'' \<notin> set (ko_GetKind ko u)" "CHR '':'' \<notin> set (ko_GetKind ko u')"
    and "CHR ''#'' \<notin> set (ko_GetNamespace ko u)" "CHR ''#'' \<notin> set (ko_GetNamespace ko u')"
  shows "ko_GetKind ko u = ko_GetKind ko u' \<and> ko_GetNamespace ko u = ko_GetNamespace ko u' \<and> ko_GetName ko u = ko_GetName ko u'"
proof -
  have "ko_GetKind ko u @ CHR '':'' # ko_GetNamespace ko u @ CHR ''#'' # ko_GetName ko u =
    ko_GetKind ko u' @ CHR '':'' # ko_GetNamespace ko u' @ CHR ''#'' # ko_GetName ko u'"
    using assms(1) by (simp add: getKey_def)
  then show ?thesis
    unfolding append_sep_inject [OF assms(2,3)] append_sep_inject [OF assms(4,5)] .
qed

text \<open>All namespaces of an object share one storage key, and a watch persists the objects of its own list only: what it
  saves after the initial list has no entry of another namespace.\<close>

lemma persisted_objects_of_own_list:
  assumes "getResourceVersionAndUpdateCache ko so config resource now (Inr (Some (version, items))) st = (Inr v, st')"
    and "oc_ResourceVersion config = []" "ko_GetNamespace ko u \<notin> ko_GetNamespace ko ` set items"
    and "\<And>u. CHR '':'' \<notin> set (ko_GetKind ko u)" "\<And>u. CHR ''#'' \<notin> set (ko_GetNamespace ko u)"
  shows "gm_get (ws_Objects st') (getKey ko u) = None"
proof -
  obtain st1 st2 where "loadStorage so (oc_Name config) st = (None, st1)" "initial_items ko resource now items st1 = (None, st2)"
    and st: "ws_Objects st' = filter (\<lambda>(key, _). key \<in> getKey ko ` set items) (ws_Objects st2)"
    and "v = (if version = [] \<or> version = ''0'' then defaultResourceVersion else version)"
    by (rule version_cache [OF assms(1) disjI1 [OF assms(2)]])
  have "getKey ko u \<notin> getKey ko ` set items"
  proof
    assume "getKey ko u \<in> getKey ko ` set items"
    then obtain u' where u': "getKey ko u = getKey ko u'" "u' \<in> set items" by blast
    from getKey_identifies [OF u'(1) assms(4) assms(4) assms(5) assms(5)] u'(2) assms(3) show False by simp
  qed
  then show ?thesis by (simp add: st gm_get_filter_keys)
qed

section \<open>Pulls\<close>

text \<open>A pull hands over every list that is not empty, in the order of the ticks until it is stopped; the first one is asked for at once.\<close>

theorem pull_reports_every_list:
  "startPull ko lst config resource (map PullTick (newTicker now ticks) @ PullStopped # sels) =
     (map (\<lambda>(t, items). pullObjectsToLogData ko resource t (map (ko_ClearManagedFields ko) items))
        (concat (map (\<lambda>t. case lst t (pull_listOption config) of Inr (i # items) \<Rightarrow> [(t, i # items)] | _ \<Rightarrow> []) (now # ticks))), True)"
proof -
  have "startPull ko lst config resource (map PullTick ts @ PullStopped # sels) =
     (map (\<lambda>(t, items). pullObjectsToLogData ko resource t (map (ko_ClearManagedFields ko) items))
        (concat (map (\<lambda>t. case lst t (pull_listOption config) of Inr (i # items) \<Rightarrow> [(t, i # items)] | _ \<Rightarrow> []) ts)), True)" for ts
    by (induction ts) (auto simp: pull_tick_def split: sum.split list.split)
  then show ?thesis unfolding newTicker_def .
qed

end
