(* ===== verification/K8s_Discovery.thy ===== *)
theory K8s_Discovery
  imports Pdata
begin

text \<open>
  The database discovery receiver (\<open>receiver/swok8sdiscovery\<close>): validation of the image and domain rules,
  discovery of databases from container images and from services with an external name, the choice
  of a service for a pod, the workload that owns a pod, and the published entity and relationship
  records.  Compiling and matching regular expressions, Unicode case mapping and the answers of the API
  server are arguments; logging is not modelled.  The two discoveries of a cycle run concurrently:
  the batches of a cycle are any interleaving of theirs.
\<close>

section \<open>Configuration\<close>

type_synonym i32 = "32 word"
type_synonym matcher = "string \<Rightarrow> bool"

record image_rule =
  ir_DatabaseType :: string
  ir_Patterns :: "string list"
  ir_PatternsCompiled :: "matcher list"
  ir_DefaultPort :: i32

record domain_rule =
  dr_DatabaseType :: string
  dr_Patterns :: "string list"
  dr_PatternsCompiled :: "matcher list"
  dr_DomainHints :: "string list"
  dr_DefaultPort :: i32

record database_config =
  db_ImageRules :: "image_rule list"
  db_DomainRules :: "domain_rule list"

datatype discovery_error =
    DatabaseTypeMissing
  | PatternMissing
  | PatternInvalid string
  | APIConfigInvalid

definition compile_all :: "(string \<Rightarrow> matcher option) \<Rightarrow> string list \<Rightarrow> (discovery_error, matcher list) result" where
  "compile_all compile patterns =
     map_result (\<lambda>p. case compile p of None \<Rightarrow> Inl (PatternInvalid p) | Some m \<Rightarrow> Inr m) patterns"

definition validate_image_rule ::
  "(string \<Rightarrow> matcher option) \<Rightarrow> (string \<Rightarrow> string) \<Rightarrow> image_rule \<Rightarrow> (discovery_error, image_rule) result" where
  "validate_image_rule compile uni r =
     (if ir_DatabaseType r = [] then Inl DatabaseTypeMissing
      else let r = r\<lparr>ir_DatabaseType := strings_ToLower uni (ir_DatabaseType r)\<rparr> in
           if length (ir_Patterns r) = 0 then Inl PatternMissing
           else case compile_all compile (ir_Patterns r) of
                  Inl err \<Rightarrow> Inl err | Inr ms \<Rightarrow> Inr (r\<lparr>ir_PatternsCompiled := ms\<rparr>))"

definition validate_domain_rule ::
  "(string \<Rightarrow> matcher option) \<Rightarrow> (string \<Rightarrow> string) \<Rightarrow> domain_rule \<Rightarrow> (discovery_error, domain_rule) result" where
  "validate_domain_rule compile uni r =
     (if dr_DatabaseType r = [] then Inl DatabaseTypeMissing
      else let r = r\<lparr>dr_DatabaseType := strings_ToLower uni (dr_DatabaseType r)\<rparr> in
           if length (dr_Patterns r) = 0 then Inl PatternMissing
           else case compile_all compile (dr_Patterns r) of
                  Inl err \<Rightarrow> Inl err
                | Inr ms \<Rightarrow> Inr (r\<lparr>dr_PatternsCompiled := ms, dr_DomainHints := map (strings_ToLower uni) (dr_DomainHints r)\<rparr>))"

definition validateDatabaseDiscovery ::
  "(string \<Rightarrow> matcher option) \<Rightarrow> (string \<Rightarrow> string) \<Rightarrow> database_config \<Rightarrow> (discovery_error, database_config) result" where
  "validateDatabaseDiscovery compile uni d =
     (case map_result (validate_image_rule compile uni) (db_ImageRules d) of
        Inl err \<Rightarrow> Inl err
      | Inr is \<Rightarrow>
        (case map_result (validate_domain_rule compile uni) (db_DomainRules d) of
           Inl err \<Rightarrow> Inl err
         | Inr ds \<Rightarrow> Inr \<lparr>db_ImageRules = is, db_DomainRules = ds\<rparr>))"

record discovery_config =
  dc_Interval :: time_ns
  dc_Reporter :: string
  dc_Database :: "database_config option"

text \<open>\<open>apiValid\<close> is the validation of the API settings.\<close>

definition discovery_Validate ::
  "bool \<Rightarrow> (string \<Rightarrow> matcher option) \<Rightarrow> (string \<Rightarrow> string) \<Rightarrow> discovery_config \<Rightarrow> (discovery_error, discovery_config) result" where
  "discovery_Validate apiValid compile uni c =
     (if \<not> apiValid then Inl APIConfigInvalid
      else let c = (if dc_Interval c = 0 then c\<lparr>dc_Interval := 5 * 60 * 10 ^ 9\<rparr> else c) in
           case dc_Database c of
             None \<Rightarrow> Inr c
           | Some d \<Rightarrow> (case validateDatabaseDiscovery compile uni d of
                         Inl err \<Rightarrow> Inl err | Inr d' \<Rightarrow> Inr (c\<lparr>dc_Database := Some d'\<rparr>)))"

section \<open>Cluster objects\<close>

datatype target_port = PortInt i32 | PortName string

record service_port =
  sp_Port :: i32
  sp_TargetPort :: target_port

record k8s_service =
  ks_Name :: string
  ks_Namespace :: string
  ks_ExternalName :: string
  ks_Selector :: "(string, string) gomap"
  ks_Ports :: "service_port list"

record pod_container =
  kc_Image :: string
  kc_Ports :: "(string \<times> i32) list"

record pod_owner =
  po_Kind :: string
  po_Name :: string
  po_Controller :: "bool option"

record k8s_pod =
  kp_Name :: string
  kp_Namespace :: string
  kp_Labels :: "(string, string) gomap"
  kp_Containers :: "pod_container list"
  kp_Owners :: "pod_owner list"

section \<open>Services of a pod\<close>

definition label_or_empty :: "(string, string) gomap \<Rightarrow> string \<Rightarrow> string" where
  "label_or_empty m k = (case gm_get m k of None \<Rightarrow> [] | Some v \<Rightarrow> v)"

definition selectorMatches :: "(string, string) gomap \<Rightarrow> (string, string) gomap \<Rightarrow> bool" where
  "selectorMatches selector labels = list_all (\<lambda>(k, v). label_or_empty labels k = v) selector"

definition nameToPort :: "pod_container \<Rightarrow> (string, i32) gomap" where
  "nameToPort container = fold (\<lambda>(name, port) m. if name \<noteq> [] then gm_put name port m else m) (kc_Ports container) []"

definition resolve_target :: "(string, i32) gomap \<Rightarrow> service_port \<Rightarrow> i32" where
  "resolve_target names sp =
     (let tp = (case sp_TargetPort sp of
                  PortInt i \<Rightarrow> i
                | PortName s \<Rightarrow> if s \<noteq> [] then (case gm_get names s of Some v \<Rightarrow> v | None \<Rightarrow> 0) else 0) in
      if tp = 0 then sp_Port sp else tp)"

text \<open>The ports of a service that lead to one of the given container ports.\<close>

definition matching_ports :: "pod_container \<Rightarrow> i32 list \<Rightarrow> k8s_service \<Rightarrow> i32 list" where
  "matching_ports container ports svc =
     map sp_Port (filter (\<lambda>sp. resolve_target (nameToPort container) sp \<in> set ports) (ks_Ports svc))"

text \<open>The loop over the services: a service found at once, or the candidates in order.\<close>

fun service_candidates ::
  "k8s_pod \<Rightarrow> pod_container \<Rightarrow> i32 list \<Rightarrow> k8s_service list \<Rightarrow> (k8s_service \<times> i32 list) list \<Rightarrow> (k8s_service \<times> i32 list) + (k8s_service \<times> i32 list) list" where
  "service_candidates pod container ports [] cs = Inr cs"
| "service_candidates pod container ports (svc # svcs) cs =
     (if length (ks_Selector svc) = 0 then service_candidates pod container ports svcs cs
      else if selectorMatches (ks_Selector svc) (kp_Labels pod)
      then let svcPorts = matching_ports container ports svc in
           if length svcPorts = length ports then Inl (svc, svcPorts)
           else if length svcPorts \<noteq> 0 then service_candidates pod container ports svcs (cs @ [(svc, svcPorts)])
           else service_candidates pod container ports svcs cs
      else service_candidates pod container ports svcs cs)"

text \<open>The choice among the candidates, as the loop makes it.\<close>

definition better :: "k8s_service \<times> i32 list \<Rightarrow> k8s_service \<times> i32 list \<Rightarrow> bool" where
  "better c best =
     (length (snd c) < length (snd best) \<or>
      length (snd c) = length (snd best) \<and> string_less (ks_Name (fst c)) (ks_Name (fst best)))"

definition best_candidate :: "(k8s_service \<times> i32 list) list \<Rightarrow> (k8s_service \<times> i32 list)" where
  "best_candidate cs = fold (\<lambda>c best. if better c best then c else best) (tl cs) (hd cs)"

definition matchServiceForPod :: "k8s_pod \<Rightarrow> pod_container \<Rightarrow> i32 list \<Rightarrow> k8s_service list \<Rightarrow> string \<times> i32 list" where
  "matchServiceForPod pod container ports services =
     (if length services = 0 then ([], [])
      else case service_candidates pod container ports services [] of
             Inl (svc, svcPorts) \<Rightarrow> (ks_Name svc, svcPorts)
           | Inr cs \<Rightarrow> if length cs = 0 then ([], [])
                      else (ks_Name (fst (best_candidate cs)), snd (best_candidate cs)))"

definition buildAddressWithPort :: "string \<Rightarrow> i32 \<Rightarrow> string" where
  "buildAddressWithPort endpoint defaultPort =
     (if defaultPort = 0 then endpoint
      else case net_SplitHostPort endpoint of
             Some (_, portStr) \<Rightarrow> if portStr \<noteq> [] then endpoint else net_JoinHostPort endpoint (strconv_Itoa (sint defaultPort))
           | None \<Rightarrow> net_JoinHostPort endpoint (strconv_Itoa (sint defaultPort)))"

section \<open>Workload of a pod\<close>

text \<open>The owner references of a replica set or a job by namespace and name, \<open>None\<close> for an error.\<close>

record discovery_client =
  cl_ReplicaSet :: "string \<Rightarrow> string \<Rightarrow> pod_owner list option"
  cl_Job :: "string \<Rightarrow> string \<Rightarrow> pod_owner list option"

definition controller_of_kind :: "string \<Rightarrow> pod_owner list \<Rightarrow> pod_owner option" where
  "controller_of_kind kind owners = find (\<lambda>ow. po_Controller ow = Some True \<and> po_Kind ow = kind) owners"

definition resolveWorkloadForPod :: "discovery_client \<Rightarrow> k8s_pod option \<Rightarrow> string \<times> string \<times> bool" where
  "resolveWorkloadForPod cl p =
     (case p of
        None \<Rightarrow> ([], [], False)
      | Some pod \<Rightarrow>
        (case kp_Owners pod of
           [] \<Rightarrow> ([], [], False)
         | owner # owners \<Rightarrow>
           (let ctrl = (case find (\<lambda>ow. po_Controller ow = Some True) (owner # owners) of Some ow \<Rightarrow> ow | None \<Rightarrow> owner);
                kind = po_Kind ctrl; name = po_Name ctrl; ns = kp_Namespace pod in
            if kind = ''ReplicaSet''
            then (case cl_ReplicaSet cl ns name of
                    None \<Rightarrow> (kind, name, True)
                  | Some ows \<Rightarrow> (case controller_of_kind ''Deployment'' ows of
                                  Some ow \<Rightarrow> (''Deployment'', po_Name ow, True) | None \<Rightarrow> (kind, name, True)))
            else if kind = ''Job''
            then (case cl_Job cl ns name of
                    None \<Rightarrow> (kind, name, True)
                  | Some ows \<Rightarrow> (case controller_of_kind ''CronJob'' ows of
                                  Some ow \<Rightarrow> (''CronJob'', po_Name ow, True) | None \<Rightarrow> (kind, name, True)))
            else (kind, name, True))))"

section \<open>Published records\<close>

record database_event =
  de_Name :: string
  de_Address :: string
  de_DatabaseType :: string
  de_Namespace :: string
  de_WorkloadKind :: string
  de_WorkloadName :: string

abbreviation discoveredDatabaseEntityType :: string where "discoveredDatabaseEntityType \<equiv> ''DiscoveredDatabaseInstance''"

definition event_batch :: "u64 \<Rightarrow> pmap \<Rightarrow> logs" where
  "event_batch now attrs =
     [\<lparr>rl_attrs = [], rl_scopes = [\<lparr>sl_attrs = p_put ''otel.entity.event_as_log'' (VBool True) [],
        sl_records = [new_record\<lparr>lr_observed := now, lr_attrs := attrs\<rparr>]\<rparr>]\<rparr>]"

definition database_ids :: "string \<Rightarrow> database_event \<Rightarrow> pmap" where
  "database_ids discoveryId ev =
     p_putStr ''sw.discovery.id'' discoveryId (p_putStr ''sw.discovery.dbo.type'' (de_DatabaseType ev)
       (p_putStr ''sw.discovery.dbo.address'' (de_Address ev) []))"

definition publishRelationShip :: "(string \<Rightarrow> string) \<Rightarrow> string \<Rightarrow> u64 \<Rightarrow> database_event \<Rightarrow> pmap \<Rightarrow> logs list" where
  "publishRelationShip uni clusterUid now ev dbKeys =
     (if de_WorkloadKind ev = [] \<or> de_WorkloadName ev = [] then []
      else
        let attrs = p_putStr ''otel.entity_relationship.type'' ''DiscoveredBy'' (p_putStr ''otel.entity.event.type'' ''entity_relationship_state'' []);
            attrs = p_putStr ''otel.entity_relationship.source_entity.type'' (''Kubernetes'' @ de_WorkloadKind ev) attrs;
            src_ids = p_putStr ''sw.k8s.cluster.uid'' clusterUid (p_putStr ''k8s.namespace.name'' (de_Namespace ev)
              (p_putStr (''k8s.'' @ strings_ToLower uni (de_WorkloadKind ev) @ ''.name'') (de_WorkloadName ev) []));
            attrs = p_put ''otel.entity_relationship.source_entity.id'' (VMap src_ids) attrs;
            attrs = p_putStr ''otel.entity_relationship.destination_entity.type'' discoveredDatabaseEntityType attrs;
            attrs = p_put ''otel.entity_relationship.destination_entity.id'' (VMap dbKeys) attrs
        in [event_batch now attrs])"

text \<open>The batches given to the consumer for one event; its errors are ignored.\<close>

definition publishDatabaseEvent :: "(string \<Rightarrow> string) \<Rightarrow> string \<Rightarrow> string \<Rightarrow> u64 \<Rightarrow> string \<Rightarrow> database_event \<Rightarrow> logs list" where
  "publishDatabaseEvent uni clusterUid reporter now discoveryId ev =
     (let keys = database_ids discoveryId ev;
          attrs = p_putStr ''otel.entity.type'' discoveredDatabaseEntityType (p_putStr ''otel.entity.event.type'' ''entity_state'' []);
          attrs = p_put ''otel.entity.id'' (VMap keys) attrs;
          attrs = p_put ''otel.entity.attributes''
                    (VMap (p_putStr ''sw.discovery.source'' reporter (p_putStr ''sw.discovery.dbo.name'' (de_Name ev) []))) attrs
      in event_batch now attrs # publishRelationShip uni clusterUid now ev keys)"

section \<open>Discovery by image\<close>

definition resolveContainerPorts :: "pod_container \<Rightarrow> i32 \<Rightarrow> i32 list" where
  "resolveContainerPorts c defaultPort =
     (let res = map snd (kc_Ports c) in
      if defaultPort \<noteq> 0 \<and> defaultPort \<in> set res then [defaultPort] else res)"

definition matching_image_rule :: "image_rule list \<Rightarrow> string \<Rightarrow> image_rule option" where
  "matching_image_rule rules img = find (\<lambda>rule. list_ex (\<lambda>rx. rx img) (ir_PatternsCompiled rule)) rules"

definition svcByNamespace :: "k8s_service list \<Rightarrow> (string, k8s_service list) gomap" where
  "svcByNamespace services =
     fold (\<lambda>svc m. gm_put (ks_Namespace svc) ((case gm_get m (ks_Namespace svc) of None \<Rightarrow> [] | Some ss \<Rightarrow> ss) @ [svc]) m) services []"

definition portsAsStrings :: "i32 list \<Rightarrow> string list" where
  "portsAsStrings ports = map (\<lambda>p. strconv_Itoa (sint p)) ports"

definition workload_key :: "string \<Rightarrow> string \<Rightarrow> string \<Rightarrow> string \<Rightarrow> i32 list \<Rightarrow> string" where
  "workload_key ns kind name ty ports =
     ns @ ''|'' @ kind @ ''|'' @ name @ ''|'' @ ty @ ''|'' @ strings_Join (portsAsStrings ports) '',''"

text \<open>The database event of a container with its rule and its one port.\<close>

definition container_event ::
  "k8s_pod \<Rightarrow> pod_container \<Rightarrow> image_rule \<Rightarrow> i32 list \<Rightarrow> k8s_service list \<Rightarrow> string \<Rightarrow> string \<Rightarrow> database_event" where
  "container_event pod container rule ports services wKind wName =
     (let (svcName, svcPorts) = matchServiceForPod pod container ports services;
          (endpoint, ports) = (if length svcPorts > 0 then (svcName, svcPorts) else (kp_Name pod, ports));
          endpoint = (if kp_Namespace pod \<noteq> [] then endpoint @ ''.'' @ kp_Namespace pod else endpoint);
          addr = (if length ports = 1 then buildAddressWithPort endpoint (ports ! 0) else endpoint)
      in \<lparr>de_Name = endpoint, de_Address = addr, de_DatabaseType = ir_DatabaseType rule, de_Namespace = kp_Namespace pod,
          de_WorkloadKind = wKind, de_WorkloadName = wName\<rparr>)"

text \<open>The body of the loops: the emitted keys and the events so far.\<close>

definition discover_container ::
  "discovery_client \<Rightarrow> image_rule list \<Rightarrow> (string, k8s_service list) gomap \<Rightarrow> k8s_pod \<Rightarrow> pod_container
   \<Rightarrow> string list \<times> database_event list \<Rightarrow> string list \<times> database_event list" where
  "discover_container cl rules svcs pod container = (\<lambda>(emitted, evs).
     (case matching_image_rule rules (kc_Image container) of
        None \<Rightarrow> (emitted, evs)
      | Some rule \<Rightarrow>
        (let ports = resolveContainerPorts container (ir_DefaultPort rule) in
         if length ports = 0 then (emitted, evs)
         else if length ports \<noteq> 1 then (emitted, evs)
         else
           let services = (case gm_get svcs (kp_Namespace pod) of None \<Rightarrow> [] | Some ss \<Rightarrow> ss);
               (wKind, wName, _) = resolveWorkloadForPod cl (Some pod);
               key = workload_key (kp_Namespace pod) wKind wName (ir_DatabaseType rule) ports;
               ev = container_event pod container rule ports services wKind wName in
           if wKind \<noteq> [] \<and> wName \<noteq> []
           then if key \<in> set emitted then (emitted, evs) else (key # emitted, evs @ [ev])
           else (emitted, evs @ [ev]))))"

definition discoverDatabasesByImages ::
  "discovery_client \<Rightarrow> database_config option \<Rightarrow> k8s_pod list \<Rightarrow> k8s_service list \<Rightarrow> database_event list" where
  "discoverDatabasesByImages cl db pods services =
     (case db of
        None \<Rightarrow> []
      | Some d \<Rightarrow>
          if length (db_ImageRules d) = 0 then []
          else snd (fold (\<lambda>pod. fold (discover_container cl (db_ImageRules d) (svcByNamespace services) pod) (kp_Containers pod)) pods ([], [])))"

section \<open>Discovery by domain\<close>

text \<open>Among several matching rules the first whose type or one of whose hints occurs in the names.\<close>

definition rule_hinted :: "string \<Rightarrow> string \<Rightarrow> domain_rule \<Rightarrow> bool" where
  "rule_hinted lower_external lower_name rule =
     (strings_Contains lower_external (dr_DatabaseType rule) \<or> strings_Contains lower_name (dr_DatabaseType rule) \<or>
      list_ex (\<lambda>hint. strings_Contains lower_external hint \<or> strings_Contains lower_name hint) (dr_DomainHints rule))"

definition matching_domain_rule :: "(string \<Rightarrow> string) \<Rightarrow> domain_rule list \<Rightarrow> k8s_service \<Rightarrow> domain_rule option" where
  "matching_domain_rule uni rules svc =
     (let external = ks_ExternalName svc;
          matchingRules = filter (\<lambda>rule. list_ex (\<lambda>rx. rx external) (dr_PatternsCompiled rule)) rules in
      if length matchingRules = 1 then Some (matchingRules ! 0)
      else if length matchingRules > 1
      then find (rule_hinted (strings_ToLower uni external) (strings_ToLower uni (ks_Name svc))) matchingRules
      else None)"

definition domain_event :: "domain_rule \<Rightarrow> k8s_service \<Rightarrow> database_event" where
  "domain_event rule svc =
     \<lparr>de_Name = ks_ExternalName svc, de_Address = buildAddressWithPort (ks_ExternalName svc) (dr_DefaultPort rule),
      de_DatabaseType = dr_DatabaseType rule, de_Namespace = ks_Namespace svc, de_WorkloadKind = ''Service'',
      de_WorkloadName = ks_Name svc\<rparr>"

definition discover_service :: "(string \<Rightarrow> string) \<Rightarrow> domain_rule list \<Rightarrow> k8s_service \<Rightarrow> database_event list" where
  "discover_service uni rules svc =
     (if ks_ExternalName svc = [] then []
      else case matching_domain_rule uni rules svc of None \<Rightarrow> [] | Some rule \<Rightarrow> [domain_event rule svc])"

definition discoverDatabasesByDomains :: "(string \<Rightarrow> string) \<Rightarrow> database_config option \<Rightarrow> k8s_service list \<Rightarrow> database_event list" where
  "discoverDatabasesByDomains uni db services =
     (case db of
        None \<Rightarrow> []
      | Some d \<Rightarrow> if length (db_DomainRules d) = 0 then [] else concat (map (discover_service uni (db_DomainRules d)) services))"

section \<open>A discovery cycle\<close>

text \<open>What the two goroutines publish; \<open>None\<close> is a failed list request (of services: no services).\<close>

record discovery_receiver =
  rv_config :: discovery_config
  rv_clusterUid :: string

definition image_batches ::
  "(string \<Rightarrow> string) \<Rightarrow> discovery_client \<Rightarrow> u64 \<Rightarrow> discovery_receiver \<Rightarrow> k8s_pod list \<Rightarrow> k8s_service list \<Rightarrow> logs list" where
  "image_batches uni cl now r pods services =
     concat (map (publishDatabaseEvent uni (rv_clusterUid r) (dc_Reporter (rv_config r)) now (rv_clusterUid r))
       (discoverDatabasesByImages cl (dc_Database (rv_config r)) pods services))"

definition domain_batches :: "(string \<Rightarrow> string) \<Rightarrow> u64 \<Rightarrow> discovery_receiver \<Rightarrow> k8s_service list \<Rightarrow> logs list" where
  "domain_batches uni now r services =
     concat (map (publishDatabaseEvent uni (rv_clusterUid r) (dc_Reporter (rv_config r)) now ''external'')
       (discoverDatabasesByDomains uni (dc_Database (rv_config r)) services))"

definition performDiscoveryCycle ::
  "(string \<Rightarrow> string) \<Rightarrow> discovery_client \<Rightarrow> u64 \<Rightarrow> discovery_receiver \<Rightarrow> k8s_pod list option \<Rightarrow> k8s_service list option \<Rightarrow> logs list set" where
  "performDiscoveryCycle uni cl now r pods services =
     (case pods of
        None \<Rightarrow> {[]}
      | Some ps \<Rightarrow>
        (let ss = (case services of None \<Rightarrow> [] | Some ss \<Rightarrow> ss) in
         shuffles (image_batches uni cl now r ps ss) (domain_batches uni now r ss)))"

text \<open>
  The loop of the receiver: what the select statement takes, a tick with the answers of the API server
  to the cycle or the end of the context.  The loop returns at the end of its context; \<open>[]\<close> is a
  loop that still waits.
\<close>

datatype loop_event = Tick u64 "k8s_pod list option" "k8s_service list option" | Done

fun discoveryLoop :: "(string \<Rightarrow> string) \<Rightarrow> discovery_client \<Rightarrow> discovery_receiver \<Rightarrow> loop_event list \<Rightarrow> logs list set" where
  "discoveryLoop uni cl r [] = {[]}"
| "discoveryLoop uni cl r (Tick now pods services # evs) =
     {bs @ bs' | bs bs'. bs \<in> performDiscoveryCycle uni cl now r pods services \<and> bs' \<in> discoveryLoop uni cl r evs}"
| "discoveryLoop uni cl r (Done # evs) = {[]}"

section \<open>Lemmas on services\<close>

text \<open>A service that selects the pod and leads to one of the ports.\<close>

definition serves :: "k8s_pod \<Rightarrow> pod_container \<Rightarrow> i32 list \<Rightarrow> k8s_service \<Rightarrow> bool" where
  "serves pod container ports svc \<longleftrightarrow>
     ks_Selector svc \<noteq> [] \<and> selectorMatches (ks_Selector svc) (kp_Labels pod) \<and> matching_ports container ports svc \<noteq> []"

definition serves_all :: "k8s_pod \<Rightarrow> pod_container \<Rightarrow> i32 list \<Rightarrow> k8s_service \<Rightarrow> bool" where
  "serves_all pod container ports svc \<longleftrightarrow>
     serves pod container ports svc \<and> length (matching_ports container ports svc) = length ports"

lemma service_candidates_spec:
  assumes "ports \<noteq> []"
  shows "service_candidates pod container ports svcs cs =
    (case find (serves_all pod container ports) svcs of
       Some svc \<Rightarrow> Inl (svc, matching_ports container ports svc)
     | None \<Rightarrow> Inr (cs @ map (\<lambda>svc. (svc, matching_ports container ports svc)) (filter (serves pod container ports) svcs)))"
proof (induction svcs arbitrary: cs)
  case (Cons svc svcs)
  have "length (matching_ports container ports svc) = length ports \<Longrightarrow> matching_ports container ports svc \<noteq> []"
    using assms by auto
  with Cons show ?case by (auto simp: serves_def serves_all_def Let_def split: option.split)
qed simp

lemma best_candidate_mem: "cs \<noteq> [] \<Longrightarrow> best_candidate cs \<in> set cs"
proof -
  have *: "fold (\<lambda>c best. if better c best then c else best) cs x \<in> insert x (set cs)" for cs x
    by (induction cs arbitrary: x) (auto split: if_splits)
  show "cs \<noteq> [] \<Longrightarrow> best_candidate cs \<in> set cs"
    using * [where x = "hd cs" and cs = "tl cs"] unfolding best_candidate_def by (cases cs) simp_all
qed

lemma best_candidate_fewest: "c \<in> set cs \<Longrightarrow> length (snd (best_candidate cs)) \<le> length (snd c)"
proof -
  have *: "length (snd (fold (\<lambda>c best. if better c best then c else best) cs x)) \<le> length (snd c)"
    if "c \<in> insert x (set cs)" for c cs x
    using that
  proof (induction cs arbitrary: x c)
    case (Cons a cs)
    let ?y = "if better a x then a else x"
    have "length (snd (fold (\<lambda>c best. if better c best then c else best) cs ?y)) \<le> length (snd ?y)" by (rule Cons.IH) simp
    moreover have "length (snd ?y) \<le> length (snd a)" "length (snd ?y) \<le> length (snd x)" by (auto simp: better_def)
    moreover have "c \<in> set cs \<Longrightarrow> length (snd (fold (\<lambda>c best. if better c best then c else best) cs ?y)) \<le> length (snd c)"
      by (rule Cons.IH) simp
    moreover have "c = x \<or> c = a \<or> c \<in> set cs" using Cons.prems by auto
    ultimately show ?case by (auto simp del: if_split_asm intro: order.trans)
  qed simp
  show "c \<in> set cs \<Longrightarrow> length (snd (best_candidate cs)) \<le> length (snd c)"
    using * [where x = "hd cs" and cs = "tl cs"] unfolding best_candidate_def by (cases cs) simp_all
qed

lemma matchServiceForPod_spec:
  assumes "ports \<noteq> []"
  shows "matchServiceForPod pod container ports svcs =
    (case find (serves_all pod container ports) svcs of
       Some svc \<Rightarrow> (ks_Name svc, matching_ports container ports svc)
     | None \<Rightarrow>
         let cs = map (\<lambda>svc. (svc, matching_ports container ports svc)) (filter (serves pod container ports) svcs) in
         if cs = [] then ([], []) else (ks_Name (fst (best_candidate cs)), snd (best_candidate cs)))"
proof (cases "svcs = []")
  case False
  then show ?thesis unfolding matchServiceForPod_def service_candidates_spec [OF assms]
    by (simp add: Let_def split: option.split)
qed (simp add: matchServiceForPod_def)

section \<open>Lemmas on the discovery by image\<close>

lemma svcByNamespace_get:
  "(case gm_get (svcByNamespace services) ns of None \<Rightarrow> [] | Some ss \<Rightarrow> ss) = filter (\<lambda>svc. ks_Namespace svc = ns) services"
proof -
  let ?g = "\<lambda>m. case gm_get m ns of None \<Rightarrow> [] | Some ss \<Rightarrow> ss"
  let ?f = "\<lambda>svc m. gm_put (ks_Namespace svc) ((case gm_get m (ks_Namespace svc) of None \<Rightarrow> [] | Some ss \<Rightarrow> ss) @ [svc]) m"
  have "?g (fold ?f services m) = ?g m @ filter (\<lambda>svc. ks_Namespace svc = ns) services" for m
  proof (induction services arbitrary: m)
    case (Cons svc services)
    have "?g (?f svc m) = ?g m @ (if ks_Namespace svc = ns then [svc] else [])" by (simp add: gomap_simps split: option.split)
    with Cons [of "?f svc m"] show ?case by simp
  qed simp
  from this [of "[]"] show ?thesis by (simp add: svcByNamespace_def)
qed

text \<open>The containers that are databases by their image and have one port, in order.\<close>

type_synonym candidate = "k8s_pod \<times> pod_container \<times> image_rule \<times> i32"

definition container_candidates :: "image_rule list \<Rightarrow> k8s_pod \<Rightarrow> pod_container \<Rightarrow> candidate list" where
  "container_candidates rules pod c =
     (case matching_image_rule rules (kc_Image c) of
        None \<Rightarrow> []
      | Some rule \<Rightarrow> (case resolveContainerPorts c (ir_DefaultPort rule) of [port] \<Rightarrow> [(pod, c, rule, port)] | _ \<Rightarrow> []))"

definition image_candidates :: "image_rule list \<Rightarrow> k8s_pod list \<Rightarrow> candidate list" where
  "image_candidates rules pods = concat (map (\<lambda>pod. concat (map (container_candidates rules pod) (kp_Containers pod))) pods)"

text \<open>What identifies the database of a candidate that has a workload.\<close>

definition database_key :: "discovery_client \<Rightarrow> candidate \<Rightarrow> (string \<times> string \<times> string \<times> string \<times> i32) option" where
  "database_key cl = (\<lambda>(pod, c, rule, port).
     let (wKind, wName, _) = resolveWorkloadForPod cl (Some pod) in
     if wKind \<noteq> [] \<and> wName \<noteq> [] then Some (kp_Namespace pod, wKind, wName, ir_DatabaseType rule, port) else None)"

definition candidate_event :: "discovery_client \<Rightarrow> k8s_service list \<Rightarrow> candidate \<Rightarrow> database_event" where
  "candidate_event cl services = (\<lambda>(pod, c, rule, port).
     let (wKind, wName, _) = resolveWorkloadForPod cl (Some pod) in
     container_event pod c rule [port] (filter (\<lambda>svc. ks_Namespace svc = kp_Namespace pod) services) wKind wName)"

text \<open>The first element of every key; elements without a key are all kept.\<close>

fun keep_first :: "('a \<Rightarrow> 'k option) \<Rightarrow> 'k set \<Rightarrow> 'a list \<Rightarrow> 'a list" where
  "keep_first key seen [] = []"
| "keep_first key seen (x # xs) =
     (case key x of
        None \<Rightarrow> x # keep_first key seen xs
      | Some k \<Rightarrow> if k \<in> seen then keep_first key seen xs else x # keep_first key (insert k seen) xs)"

lemma keep_first_distinct:
  "distinct (filter (\<lambda>k. k \<noteq> None) (map key (keep_first key seen xs))) \<and>
   Some ` seen \<inter> set (map key (keep_first key seen xs)) = {}"
  by (induction key seen xs rule: keep_first.induct) (auto split: option.splits)

lemma sint_eq_iff: "sint (v :: i32) = sint w \<longleftrightarrow> v = w"
  by (metis of_int_sint scast_id)

text \<open>The string key of the code tells the same databases apart.\<close>

lemma workload_key_inject:
  assumes "CHR ''|'' \<notin> set ns" "CHR ''|'' \<notin> set ns'" "CHR ''|'' \<notin> set kind" "CHR ''|'' \<notin> set kind'"
    and "CHR ''|'' \<notin> set name" "CHR ''|'' \<notin> set name'"
  shows "workload_key ns kind name ty [port] = workload_key ns' kind' name' ty' [port'] \<longleftrightarrow>
    ns = ns' \<and> kind = kind' \<and> name = name' \<and> ty = ty' \<and> port = port'"
proof -
  have p: "CHR ''|'' \<notin> set (rev (strconv_Itoa i))" for i using Itoa_no_sep [of "CHR ''|''" i] by simp
  have "ty @ CHR ''|'' # strconv_Itoa i = ty' @ CHR ''|'' # strconv_Itoa j \<longleftrightarrow> ty = ty' \<and> i = j" for i j
  proof -
    have "ty @ CHR ''|'' # strconv_Itoa i = ty' @ CHR ''|'' # strconv_Itoa j \<longleftrightarrow>
      rev (strconv_Itoa i) @ CHR ''|'' # rev ty = rev (strconv_Itoa j) @ CHR ''|'' # rev ty'"
      by (metis append.assoc append_Cons append_Nil rev.simps(2) rev_append rev_rev_ident)
    also have "\<dots> \<longleftrightarrow> i = j \<and> ty = ty'" unfolding append_sep_inject [OF p p] by simp
    finally show ?thesis by blast
  qed
  then show ?thesis
    by (simp add: workload_key_def portsAsStrings_def append_sep_inject assms sint_eq_iff)
qed

text \<open>Renaming the keys by an injective function keeps the same elements.\<close>

lemma keep_first_rename:
  assumes "inj_on f (seen \<union> {k. \<exists>x\<in>set xs. key x = Some k})"
  shows "keep_first (\<lambda>x. map_option f (key x)) (f ` seen) xs = keep_first key seen xs"
  using assms
proof (induction key seen xs rule: keep_first.induct)
  case (2 key seen x xs)
  show ?case
  proof (cases "key x")
    case None
    with 2 show ?thesis by (auto elim!: inj_on_subset)
  next
    case (Some k)
    have "f k \<in> f ` seen \<longleftrightarrow> k \<in> seen" using 2(4) Some by (auto simp: inj_on_def)
    moreover have "inj_on f (seen \<union> {k. \<exists>x\<in>set xs. key x = Some k})" by (rule inj_on_subset [OF 2(4)]) auto
    moreover have "inj_on f (insert k seen \<union> {k. \<exists>x\<in>set xs. key x = Some k})"
      by (rule inj_on_subset [OF 2(4)]) (use Some in auto)
    ultimately show ?thesis using Some 2(2,3) [OF Some] by simp
  qed
qed simp

definition string_key :: "string \<times> string \<times> string \<times> string \<times> i32 \<Rightarrow> string" where
  "string_key = (\<lambda>(ns, kind, name, ty, port). workload_key ns kind name ty [port])"

definition discover_candidate ::
  "discovery_client \<Rightarrow> k8s_service list \<Rightarrow> candidate \<Rightarrow> string list \<times> database_event list \<Rightarrow> string list \<times> database_event list" where
  "discover_candidate cl services cand = (\<lambda>(emitted, evs).
     case database_key cl cand of
       None \<Rightarrow> (emitted, evs @ [candidate_event cl services cand])
     | Some k \<Rightarrow> if string_key k \<in> set emitted then (emitted, evs)
                else (string_key k # emitted, evs @ [candidate_event cl services cand]))"

lemma discover_container_candidates:
  "discover_container cl rules (svcByNamespace services) pod c = fold (discover_candidate cl services) (container_candidates rules pod c)"
proof (cases "matching_image_rule rules (kc_Image c)")
  case None
  then show ?thesis by (auto simp: discover_container_def container_candidates_def)
next
  case (Some rule)
  note simps = discover_container_def container_candidates_def Some Let_def
  show ?thesis
  proof (cases "resolveContainerPorts c (ir_DefaultPort rule)" rule: list.exhaust [case_names Nil Cons])
    case Nil
    then show ?thesis by (auto simp: simps)
  next
    case (Cons port ports)
    obtain wKind wName b where "resolveWorkloadForPod cl (Some pod) = (wKind, wName, b)" by (metis prod_cases3)
    then show ?thesis using Cons
      by (cases ports) (auto simp: simps discover_candidate_def database_key_def candidate_event_def string_key_def svcByNamespace_get)
  qed
qed

lemma discover_candidates_fold:
  "snd (fold (discover_candidate cl services) cands (emitted, evs)) =
   evs @ map (candidate_event cl services) (keep_first (\<lambda>x. map_option string_key (database_key cl x)) (set emitted) cands)"
  by (induction cands arbitrary: emitted evs) (auto simp: discover_candidate_def split: option.split)

lemma images_keep_first:
  "discoverDatabasesByImages cl (Some d) pods services =
   map (candidate_event cl services)
     (keep_first (\<lambda>x. map_option string_key (database_key cl x)) {} (image_candidates (db_ImageRules d) pods))"
proof (cases "db_ImageRules d = []")
  case True
  then have "image_candidates (db_ImageRules d) pods = []"
    by (simp add: image_candidates_def container_candidates_def matching_image_rule_def)
  with True show ?thesis by (simp add: discoverDatabasesByImages_def)
next
  case False
  have "discover_container cl rules (svcByNamespace services) pod = (\<lambda>c. fold (discover_candidate cl services) (container_candidates rules pod c))"
    for rules pod
    by (rule ext) (rule discover_container_candidates)
  with False show ?thesis
    by (simp add: discoverDatabasesByImages_def fold_concat_map discover_candidates_fold image_candidates_def)
qed

text \<open>Namespaces, kinds and workload names of the cluster have no separator of the key in them.\<close>

definition separable :: "discovery_client \<Rightarrow> k8s_pod \<Rightarrow> bool" where
  "separable cl pod \<longleftrightarrow>
     (let (wKind, wName, _) = resolveWorkloadForPod cl (Some pod) in
      CHR ''|'' \<notin> set (kp_Namespace pod) \<and> CHR ''|'' \<notin> set wKind \<and> CHR ''|'' \<notin> set wName)"

lemma image_candidates_pod: "x \<in> set (image_candidates rules pods) \<Longrightarrow> fst x \<in> set pods"
  by (auto simp: image_candidates_def container_candidates_def split: option.splits list.splits)

lemma string_key_inj:
  assumes "\<forall>pod\<in>set pods. separable cl pod"
  shows "inj_on string_key {k. \<exists>x\<in>set (image_candidates rules pods). database_key cl x = Some k}"
proof (rule inj_onI)
  fix k k'
  assume k: "k \<in> {k. \<exists>x\<in>set (image_candidates rules pods). database_key cl x = Some k}"
    and k': "k' \<in> {k. \<exists>x\<in>set (image_candidates rules pods). database_key cl x = Some k}"
    and eq: "string_key k = string_key k'"
  have sep: "\<exists>ns kind name ty port. k = (ns, kind, name, ty, port) \<and> CHR ''|'' \<notin> set ns \<and> CHR ''|'' \<notin> set kind \<and> CHR ''|'' \<notin> set name"
    if "k \<in> {k. \<exists>x\<in>set (image_candidates rules pods). database_key cl x = Some k}" for k
  proof -
    from that obtain x where x: "x \<in> set (image_candidates rules pods)" "database_key cl x = Some k" by blast
    then have "separable cl (fst x)" using assms image_candidates_pod by blast
    then show ?thesis using x(2)
      by (cases x) (auto simp: database_key_def separable_def split: prod.splits if_splits)
  qed
  from sep [OF k] sep [OF k'] eq show "k = k'" by (auto simp: string_key_def workload_key_inject)
qed

text \<open>C28: Every database found by image is reported for the first container that shows it: containers without
  a workload each give an event, and of the containers of one workload with the same type and port
  only the first does.
\<close>

theorem images_discovered_once:
  assumes "\<forall>pod\<in>set pods. separable cl pod"
  shows "discoverDatabasesByImages cl (Some d) pods services =
    map (candidate_event cl services) (keep_first (database_key cl) {} (image_candidates (db_ImageRules d) pods))"
  unfolding images_keep_first
  using keep_first_rename [of string_key "{}" "image_candidates (db_ImageRules d) pods" "database_key cl"] string_key_inj [OF assms] by simp

text \<open>The service chosen for a container's ports: the first one that selects the pod and covers as many
  ports as the container has; when there is none, one of those that select the pod and lead to some
  port, with the fewest ports among them.
\<close>

theorem service_choice:
  assumes "ports \<noteq> []"
  shows "case find (serves_all pod container ports) services of
      Some svc \<Rightarrow> matchServiceForPod pod container ports services = (ks_Name svc, matching_ports container ports svc)
    | None \<Rightarrow>
        if filter (serves pod container ports) services = [] then matchServiceForPod pod container ports services = ([], [])
        else \<exists>svc\<in>set services. serves pod container ports svc
              \<and> matchServiceForPod pod container ports services = (ks_Name svc, matching_ports container ports svc)
              \<and> (\<forall>other\<in>set services. serves pod container ports other \<longrightarrow>
                   length (matching_ports container ports svc) \<le> length (matching_ports container ports other))"
proof (cases "find (serves_all pod container ports) services = None \<and> filter (serves pod container ports) services \<noteq> []")
  case True
  define cs where "cs = map (\<lambda>svc. (svc, matching_ports container ports svc)) (filter (serves pod container ports) services)"
  have "cs \<noteq> []" using True by (simp add: cs_def)
  from best_candidate_mem [OF this] obtain svc
    where svc: "svc \<in> set services" "serves pod container ports svc" "best_candidate cs = (svc, matching_ports container ports svc)"
    by (auto simp: cs_def)
  have "length (matching_ports container ports svc) \<le> length (matching_ports container ports other)"
    if "other \<in> set services" "serves pod container ports other" for other
    using best_candidate_fewest [of "(other, matching_ports container ports other)" cs] that svc(3) by (auto simp: cs_def)
  moreover have "matchServiceForPod pod container ports services = (ks_Name svc, matching_ports container ports svc)"
    using matchServiceForPod_spec [OF assms(1), of pod container services] True \<open>cs \<noteq> []\<close> svc(3)
    by (simp add: cs_def)
  ultimately show ?thesis using True svc(1,2) by auto
next
  case False
  then show ?thesis using matchServiceForPod_spec [OF assms(1), of pod container services]
    by (auto split: option.split)
qed

text \<open>The choice between services, and the two entries of a stateful set with one discovered database.\<close>

definition sample_pod :: "string \<Rightarrow> k8s_pod" where
  "sample_pod name = \<lparr>kp_Name = name, kp_Namespace = ''db'', kp_Labels = [(''app'', ''pg'')],
     kp_Containers = [\<lparr>kc_Image = ''postgres:16'', kc_Ports = [(''pg'', 5432)]\<rparr>],
     kp_Owners = [\<lparr>po_Kind = ''StatefulSet'', po_Name = ''pg'', po_Controller = Some True\<rparr>]\<rparr>"

definition sample_rules :: "database_config" where
  "sample_rules = \<lparr>db_ImageRules = [\<lparr>ir_DatabaseType = ''postgresql'', ir_Patterns = [''postgres''],
     ir_PatternsCompiled = [\<lambda>s. take 8 s = ''postgres''], ir_DefaultPort = 5432\<rparr>], db_DomainRules = []\<rparr>"

definition sample_client :: discovery_client where
  "sample_client = \<lparr>cl_ReplicaSet = (\<lambda>_ _. None), cl_Job = (\<lambda>_ _. None)\<rparr>"

lemmas sample_defs = sample_pod_def sample_rules_def sample_client_def

theorem images_discovered_once_witness:
  "map de_WorkloadName (discoverDatabasesByImages sample_client (Some sample_rules) [sample_pod ''pg-0'', sample_pod ''pg-1''] []) = [''pg'']"
proof -
  have "\<forall>pod\<in>set [sample_pod ''pg-0'', sample_pod ''pg-1'']. separable sample_client pod"
    by (simp add: sample_defs separable_def resolveWorkloadForPod_def)
  from images_discovered_once [OF this, of sample_rules "[]"] show ?thesis
    by (simp add: sample_defs image_candidates_def container_candidates_def matching_image_rule_def resolveContainerPorts_def
        database_key_def resolveWorkloadForPod_def candidate_event_def container_event_def matchServiceForPod_def Let_def)
qed

definition sample_service :: "string \<Rightarrow> i32 list \<Rightarrow> k8s_service" where
  "sample_service name ports = \<lparr>ks_Name = name, ks_Namespace = ''db'', ks_ExternalName = [], ks_Selector = [(''app'', ''pg'')],
     ks_Ports = map (\<lambda>p. \<lparr>sp_Port = p, sp_TargetPort = PortInt p\<rparr>) ports\<rparr>"

theorem service_choice_witness:
  "fst (matchServiceForPod (sample_pod ''pg-0'') (hd (kp_Containers (sample_pod ''pg-0''))) [1, 2, 3]
     [sample_service ''two'' [1, 2], sample_service ''one'' [3], sample_service ''none'' [4]]) = ''one''"
proof -
  let ?pod = "sample_pod ''pg-0''"
  let ?m = "\<lambda>svc. length (matching_ports (hd (kp_Containers ?pod)) [1, 2, 3] svc)"
  have m: "?m (sample_service ''two'' [1, 2]) = 2" "?m (sample_service ''one'' [3]) = 1" "?m (sample_service ''none'' [4]) = 0"
    by (simp_all add: matching_ports_def sample_service_def resolve_target_def)
  have "selectorMatches (ks_Selector (sample_service n ps)) (kp_Labels ?pod)" "ks_Selector (sample_service n ps) \<noteq> []" for n ps
    by (simp_all add: sample_service_def sample_pod_def selectorMatches_def label_or_empty_def)
  with m have s: "serves ?pod (hd (kp_Containers ?pod)) [1, 2, 3] (sample_service ''two'' [1, 2])"
    "serves ?pod (hd (kp_Containers ?pod)) [1, 2, 3] (sample_service ''one'' [3])"
    "\<not> serves ?pod (hd (kp_Containers ?pod)) [1, 2, 3] (sample_service ''none'' [4])"
    by (auto simp: serves_def)
  have "find (serves_all ?pod (hd (kp_Containers ?pod)) [1, 2, 3])
    [sample_service ''two'' [1, 2], sample_service ''one'' [3], sample_service ''none'' [4]] = None"
    using m by (simp add: serves_all_def)
  then show ?thesis
    using service_choice [of "[1, 2, 3]" ?pod "hd (kp_Containers ?pod)"
        "[sample_service ''two'' [1, 2], sample_service ''one'' [3], sample_service ''none'' [4]]"] m s
    by (auto simp: sample_service_def)
qed

section \<open>Order of the published records\<close>

text \<open>The type of event, the identity of the entity and of the destination of a published batch.\<close>

definition batch_attrs :: "logs \<Rightarrow> pmap" where
  "batch_attrs b = lr_attrs (hd (sl_records (hd (rl_scopes (hd b)))))"

definition is_relationship :: "logs \<Rightarrow> bool" where
  "is_relationship b = (p_get (batch_attrs b) ''otel.entity.event.type'' = Some (VStr ''entity_relationship_state''))"

definition announces :: "logs \<Rightarrow> pvalue \<Rightarrow> bool" where
  "announces b ids \<longleftrightarrow> p_get (batch_attrs b) ''otel.entity.event.type'' = Some (VStr ''entity_state'')
     \<and> p_get (batch_attrs b) ''otel.entity.id'' = Some ids"

definition refers_to :: "logs \<Rightarrow> pvalue \<Rightarrow> bool" where
  "refers_to b ids \<longleftrightarrow> is_relationship b \<and> p_get (batch_attrs b) ''otel.entity_relationship.destination_entity.id'' = Some ids"

text \<open>In a sequence of batches every relationship comes after the entity it refers to.\<close>

fun announced_first :: "logs set \<Rightarrow> logs list \<Rightarrow> bool" where
  "announced_first seen [] \<longleftrightarrow> True"
| "announced_first seen (b # bs) \<longleftrightarrow>
     (is_relationship b \<longrightarrow> (\<exists>ids. refers_to b ids \<and> (\<exists>a\<in>seen. announces a ids))) \<and> announced_first (insert b seen) bs"

lemma announced_first_mono: "announced_first A bs \<Longrightarrow> A \<subseteq> B \<Longrightarrow> announced_first B bs"
proof (induction bs arbitrary: A B)
  case (Cons b bs)
  then have "announced_first (insert b B) bs" by (meson announced_first.simps(2) insert_mono)
  with Cons.prems show ?case by (auto 0 3)
qed simp

lemma announced_first_append: "announced_first seen (xs @ ys) \<longleftrightarrow> announced_first seen xs \<and> announced_first (seen \<union> set xs) ys"
  by (induction xs arbitrary: seen) auto

lemma announced_first_concat: "(\<And>x. x \<in> set xs \<Longrightarrow> announced_first {} (f x)) \<Longrightarrow> announced_first seen (concat (map f xs))"
proof (induction xs arbitrary: seen)
  case (Cons x xs)
  have "announced_first seen (f x)" using Cons.prems [of x] by (auto elim: announced_first_mono)
  with Cons show ?case by (simp add: announced_first_append)
qed simp

lemma announced_first_shuffles:
  "zs \<in> shuffles xs ys \<Longrightarrow> announced_first A xs \<Longrightarrow> announced_first A ys \<Longrightarrow> announced_first A zs"
proof (induction xs ys arbitrary: zs A rule: shuffles.induct)
  case (3 x xs y ys)
  from 3(3) consider (x) zs' where "zs = x # zs'" "zs' \<in> shuffles xs (y # ys)"
    | (y) zs' where "zs = y # zs'" "zs' \<in> shuffles (x # xs) ys" by auto
  then show ?case
  proof cases
    case x
    have "announced_first (insert x A) (y # ys)" using 3(5) by (rule announced_first_mono) blast
    with 3(1) [OF x(2)] 3(4) x(1) show ?thesis by simp
  next
    case y
    have "announced_first (insert y A) (x # xs)" using 3(4) by (rule announced_first_mono) blast
    with 3(2) [OF y(2)] 3(5) y(1) show ?thesis by simp
  qed
qed simp_all

lemma publish_announced_first: "announced_first {} (publishDatabaseEvent uni uid reporter now discoveryId ev)"
  by (auto simp: publishDatabaseEvent_def publishRelationShip_def event_batch_def announces_def refers_to_def is_relationship_def
      batch_attrs_def Let_def)

lemma cycle_announced_first:
  assumes "batches \<in> performDiscoveryCycle uni cl now r pods services"
  shows "announced_first {} batches"
proof (cases pods)
  case None
  with assms show ?thesis by (simp add: performDiscoveryCycle_def)
next
  case (Some ps)
  have "announced_first {} (image_batches uni cl now r ps ss)" "announced_first {} (domain_batches uni now r ss)" for ss
    by (auto simp: image_batches_def domain_batches_def intro: announced_first_concat publish_announced_first)
  with assms Some show ?thesis
    by (auto simp: performDiscoveryCycle_def Let_def elim: announced_first_shuffles)
qed

text \<open>C29: However the two discoveries of every cycle interleave, every relationship record of a run of the
  receiver follows an entity record that announces the database it refers to.
\<close>

theorem relationships_follow_entities:
  assumes "batches \<in> discoveryLoop uni cl r evs"
  shows "announced_first {} batches"
  using assms
proof (induction uni cl r evs arbitrary: batches rule: discoveryLoop.induct)
  case (2 uni cl r now pods services evs)
  then show ?case by (fastforce simp: announced_first_append intro: cycle_announced_first announced_first_mono)
qed simp_all

text \<open>One pod of a stateful set: its database is announced, then related to the stateful set.\<close>

theorem relationships_follow_entities_witness:
  "\<exists>b c. [b, c] \<in> discoveryLoop id sample_client
       \<lparr>rv_config = \<lparr>dc_Interval = 1, dc_Reporter = [], dc_Database = Some sample_rules\<rparr>, rv_clusterUid = ''u''\<rparr>
       [Tick 0 (Some [sample_pod ''pg-0'']) None, Done]
     \<and> is_relationship c \<and> announced_first {} [b, c]"
proof -
  define r where "r = \<lparr>rv_config = \<lparr>dc_Interval = 1, dc_Reporter = [], dc_Database = Some sample_rules\<rparr>, rv_clusterUid = ''u''\<rparr>"
  have "\<exists>b c. [b, c] = image_batches id sample_client 0 r [sample_pod ''pg-0''] [] \<and> is_relationship c"
    by (simp add: r_def sample_defs image_batches_def images_keep_first image_candidates_def container_candidates_def
        matching_image_rule_def resolveContainerPorts_def database_key_def resolveWorkloadForPod_def candidate_event_def
        container_event_def matchServiceForPod_def Let_def publishDatabaseEvent_def publishRelationShip_def is_relationship_def
        batch_attrs_def event_batch_def)
  then obtain b c where bc: "[b, c] = image_batches id sample_client 0 r [sample_pod ''pg-0''] []" "is_relationship c" by blast
  then have "[b, c] \<in> discoveryLoop id sample_client r [Tick 0 (Some [sample_pod ''pg-0'']) None, Done]"
    by (simp add: performDiscoveryCycle_def domain_batches_def discoverDatabasesByDomains_def r_def sample_rules_def)
  with bc relationships_follow_entities [OF this] show ?thesis unfolding r_def by blast
qed

end
