(* ===== verification/Metric_Builder.thy ===== *)
theory Metric_Builder
  imports Pdata
begin

text \<open>
  The metrics and resource builders that the receivers record their data points with
  (\<open>internal/metadata/generated_metrics.go\<close> and \<open>generated_resource.go\<close> of the MQTT receiver and the
  DNS query receiver).  The generated code has one copy of the same methods per metric: a builder here
  is the list of its metrics in the order in which it emits them.  The capacities that the code
  remembers to allocate slices are not modelled; a filter of resource attributes is a predicate on the
  value of the attribute.
\<close>

section \<open>One metric\<close>

record builder_metric =
  bm_name :: string
  bm_description :: string
  bm_unit :: string
  bm_enabled :: bool
  bm_points :: "data_point list"

definition bm_new :: "bool \<Rightarrow> string \<times> string \<times> string \<Rightarrow> builder_metric" where
  "bm_new enabled = (\<lambda>(name, description, unit).
     \<lparr>bm_name = name, bm_description = description, bm_unit = unit, bm_enabled = enabled, bm_points = []\<rparr>)"

definition bm_recordDataPoint :: "u64 \<Rightarrow> u64 \<Rightarrow> pvalue \<Rightarrow> pmap \<Rightarrow> builder_metric \<Rightarrow> builder_metric" where
  "bm_recordDataPoint start ts val attrs m =
     (if \<not> bm_enabled m then m
      else m\<lparr>bm_points := bm_points m @ [\<lparr>dp_attrs = attrs, dp_startTimestamp = start, dp_timestamp = ts, dp_value = val\<rparr>]\<rparr>)"

text \<open>The metric that is moved to the slice, and the metric ready for recording again.\<close>

definition bm_emit :: "builder_metric \<Rightarrow> metric list \<times> builder_metric" where
  "bm_emit m =
     (if bm_enabled m \<and> length (bm_points m) > 0
      then ([\<lparr>mt_name = bm_name m, mt_description = bm_description m, mt_unit = bm_unit m, mt_metadata = [], mt_data = MGauge (bm_points m)\<rparr>],
            m\<lparr>bm_points := []\<rparr>)
      else ([], m))"

section \<open>The metrics builder\<close>

type_synonym attribute_filter = "string \<times> (pvalue \<Rightarrow> bool)"

record metrics_builder =
  mb_startTime :: u64
  mb_scopeName :: string
  mb_version :: string
  mb_metrics :: "builder_metric list"
  mb_include :: "attribute_filter list"
  mb_exclude :: "attribute_filter list"
  mb_buffer :: metrics

definition NewMetricsBuilder ::
  "attribute_filter list \<Rightarrow> attribute_filter list \<Rightarrow> (bool \<times> string \<times> string \<times> string) list \<Rightarrow> string \<Rightarrow> string \<Rightarrow> u64 \<Rightarrow> metrics_builder" where
  "NewMetricsBuilder incl excl ms scopeName version now =
     \<lparr>mb_startTime = now, mb_scopeName = scopeName, mb_version = version,
      mb_metrics = map (\<lambda>(enabled, d). bm_new enabled d) ms, mb_include = incl, mb_exclude = excl, mb_buffer = []\<rparr>"

definition mb_record :: "string \<Rightarrow> u64 \<Rightarrow> pvalue \<Rightarrow> pmap \<Rightarrow> metrics_builder \<Rightarrow> metrics_builder" where
  "mb_record name ts val attrs mb =
     mb\<lparr>mb_metrics := map (\<lambda>m. if bm_name m = name then bm_recordDataPoint (mb_startTime mb) ts val attrs m else m) (mb_metrics mb)\<rparr>"

definition filtered :: "metrics_builder \<Rightarrow> pmap \<Rightarrow> bool" where
  "filtered mb attrs \<longleftrightarrow>
     list_ex (\<lambda>(attr, f). case p_get attrs attr of Some v \<Rightarrow> \<not> f v | None \<Rightarrow> False) (mb_include mb) \<or>
     list_ex (\<lambda>(attr, f). case p_get attrs attr of Some v \<Rightarrow> f v | None \<Rightarrow> False) (mb_exclude mb)"

text \<open>\<open>res\<close> are the attributes of the resource that the caller gives, empty without the option.\<close>

definition EmitForResource :: "pmap \<Rightarrow> metrics_builder \<Rightarrow> metrics_builder" where
  "EmitForResource res mb =
     (let ms = concat (map (\<lambda>m. fst (bm_emit m)) (mb_metrics mb));
          mb = mb\<lparr>mb_metrics := map (\<lambda>m. snd (bm_emit m)) (mb_metrics mb)\<rparr> in
      if filtered mb res then mb
      else if length ms > 0
      then mb\<lparr>mb_buffer := mb_buffer mb @ [\<lparr>rm_attrs = res, rm_scopes = [\<lparr>sm_name = mb_scopeName mb, sm_version = mb_version mb,
                  sm_attrs = [], sm_metrics = ms\<rparr>]\<rparr>]\<rparr>
      else mb)"

definition mb_Emit :: "pmap \<Rightarrow> metrics_builder \<Rightarrow> metrics \<times> metrics_builder" where
  "mb_Emit res mb = (let mb = EmitForResource res mb in (mb_buffer mb, mb\<lparr>mb_buffer := []\<rparr>))"

section \<open>Recording and emitting\<close>

text \<open>A builder with nothing recorded; a recorded data point is its metric, time, value and attributes.\<close>

definition mb_clean :: "metrics_builder \<Rightarrow> bool" where
  "mb_clean mb \<longleftrightarrow> mb_buffer mb = [] \<and> list_all (\<lambda>m. bm_points m = []) (mb_metrics mb)"

type_synonym recorded_point = "string \<times> u64 \<times> pvalue \<times> pmap"

definition mb_records :: "recorded_point list \<Rightarrow> metrics_builder \<Rightarrow> metrics_builder" where
  "mb_records ps mb = fold (\<lambda>(name, ts, val, attrs). mb_record name ts val attrs) ps mb"

definition points_of :: "u64 \<Rightarrow> recorded_point list \<Rightarrow> string \<Rightarrow> data_point list" where
  "points_of start ps name =
     map (\<lambda>(_, ts, val, attrs). \<lparr>dp_attrs = attrs, dp_startTimestamp = start, dp_timestamp = ts, dp_value = val\<rparr>)
       (filter (\<lambda>(n, _). n = name) ps)"

definition recorded_metrics :: "u64 \<Rightarrow> recorded_point list \<Rightarrow> builder_metric list \<Rightarrow> metric list" where
  "recorded_metrics start ps ms =
     map (\<lambda>m. \<lparr>mt_name = bm_name m, mt_description = bm_description m, mt_unit = bm_unit m, mt_metadata = [],
               mt_data = MGauge (points_of start ps (bm_name m))\<rparr>)
       (filter (\<lambda>m. bm_enabled m \<and> points_of start ps (bm_name m) \<noteq> []) ms)"

lemma clean_new [simp]: "mb_clean (NewMetricsBuilder incl excl ms scopeName version now)"
  by (auto simp: mb_clean_def NewMetricsBuilder_def bm_new_def list_all_iff)

lemma mb_records_metrics:
  "mb_records ps mb = mb\<lparr>mb_metrics := map (\<lambda>m. if bm_enabled m
     then m\<lparr>bm_points := bm_points m @ points_of (mb_startTime mb) ps (bm_name m)\<rparr> else m) (mb_metrics mb)\<rparr>"
proof (induction ps arbitrary: mb)
  case Nil
  have "map (\<lambda>m. if bm_enabled m then m\<lparr>bm_points := bm_points m @ points_of start [] (bm_name m)\<rparr> else m) ms = ms"
    for start and ms :: "builder_metric list"
    by (induction ms) (auto simp: points_of_def)
  then show ?case by (simp add: mb_records_def)
next
  case (Cons p ps)
  obtain name ts val attrs where p: "p = (name, ts, val, attrs)" by (metis prod_cases4)
  have "mb_records (p # ps) mb = mb_records ps (mb_record name ts val attrs mb)" by (simp add: mb_records_def p)
  also note Cons.IH
  finally show ?case by (auto simp: mb_record_def bm_recordDataPoint_def p points_of_def comp_def)
qed

text \<open>
  What the builder emits is what was recorded since it was last empty: one resource with the enabled
  metrics that have points, in the order of the builder and the points in the order of recording,
  unless the resource is filtered; afterwards the builder is as it was before recording.
\<close>

lemma mb_Emit_records:
  assumes "mb_clean mb"
  shows "mb_Emit res (mb_records ps mb) =
    (if filtered mb res \<or> recorded_metrics (mb_startTime mb) ps (mb_metrics mb) = [] then []
     else [\<lparr>rm_attrs = res, rm_scopes = [\<lparr>sm_name = mb_scopeName mb, sm_version = mb_version mb, sm_attrs = [],
       sm_metrics = recorded_metrics (mb_startTime mb) ps (mb_metrics mb)\<rparr>]\<rparr>], mb)"
proof -
  let ?r = "\<lambda>m. if bm_enabled m then m\<lparr>bm_points := bm_points m @ points_of (mb_startTime mb) ps (bm_name m)\<rparr> else m"
  have ms: "concat (map (\<lambda>m. fst (bm_emit m)) (map ?r ms)) = recorded_metrics (mb_startTime mb) ps ms"
    "map (\<lambda>m. snd (bm_emit m)) (map ?r ms) = ms"
    if "list_all (\<lambda>m. bm_points m = []) ms" for ms
    using that by (induction ms) (auto simp: recorded_metrics_def bm_emit_def)
  have clean: "list_all (\<lambda>m. bm_points m = []) (mb_metrics mb)" "mb_buffer mb = []" using assms by (auto simp: mb_clean_def)
  have f: "filtered (mb\<lparr>mb_metrics := ms\<rparr>) res = filtered mb res" for ms by (simp add: filtered_def)
  show ?thesis unfolding mb_Emit_def EmitForResource_def mb_records_metrics
    using clean ms [OF clean(1)] by (simp add: Let_def f del: map_map)
qed

end
