(* ===== verification/Mqtt_Receiver.thy ===== *)
theory Mqtt_Receiver
  imports Metric_Builder
begin

text \<open>
  The MQTT receiver (\<open>receiver/mqttreceiver\<close>): subscriptions per topic, the handlers of sensor and broker
  messages, the health check of a broker by pings, and the start and the stop of the receiver.  The MQTT
  client is a library: its calls are recorded and its answers are arguments.  Decoding JSON, formatting
  a decoded value and parsing a float are arguments too.  The handlers and the health check run
  concurrently; a run is the sequence of their calls in any order.  The consumer's errors are only logged.
\<close>

section \<open>Configuration\<close>

record mqtt_metric =
  mm_Name :: string
  mm_Type :: string
  mm_Topic :: string
  mm_Unit :: string
  mm_Desc :: string
  mm_JsonProperty :: string

record mqtt_sensor =
  ms_Name :: string
  ms_Metrics :: "mqtt_metric list"

record mqtt_broker =
  mq_Name :: string
  mq_Protocol :: string
  mq_Server :: string
  mq_Port :: int
  mq_User :: string
  mq_Password :: string
  mq_Sensors :: "mqtt_sensor list"

abbreviation StatusOK :: string where "StatusOK \<equiv> ''OK''"
abbreviation StatusConnectionFailed :: string where "StatusConnectionFailed \<equiv> ''ConnectionFailed''"
abbreviation StatusRoundtripFailed :: string where "StatusRoundtripFailed \<equiv> ''RoundtripFailed''"
abbreviation StatusSubscribeFailed :: string where "StatusSubscribeFailed \<equiv> ''SubscribeFailed''"

definition statusToInt :: "string \<Rightarrow> int" where
  "statusToInt status =
     (if status = StatusOK then 0 else if status = StatusConnectionFailed then 1
      else if status = StatusRoundtripFailed then 2 else if status = StatusSubscribeFailed then 3 else - 1)"

abbreviation PingTopic :: string where "PingTopic \<equiv> ''ping''"
abbreviation TopicClientsConnected :: string where "TopicClientsConnected \<equiv> ''$SYS/broker/clients/connected''"
abbreviation TopicClientSubscriptionsCount :: string where "TopicClientSubscriptionsCount \<equiv> ''$SYS/broker/subscriptions/count''"
abbreviation TopicBytesReceived :: string where "TopicBytesReceived \<equiv> ''$SYS/broker/load/bytes/received/1min''"
abbreviation TopicBytesSent :: string where "TopicBytesSent \<equiv> ''$SYS/broker/load/bytes/sent/1min''"
abbreviation TopicMessagesReceived :: string where "TopicMessagesReceived \<equiv> ''$SYS/broker/load/messages/received/1min''"
abbreviation TopicMessagesSent :: string where "TopicMessagesSent \<equiv> ''$SYS/broker/load/messages/sent/1min''"

definition buildInBrokerTopicList :: "string list" where
  "buildInBrokerTopicList =
     [TopicClientsConnected, TopicClientSubscriptionsCount, TopicBytesReceived, TopicBytesSent, TopicMessagesReceived, TopicMessagesSent]"

section \<open>Subscriptions\<close>

record subscription_metadata =
  su_broker :: mqtt_broker
  su_sensor :: "mqtt_sensor option"
  su_metric :: mqtt_metric

text \<open>The last three fields are the variables of the health check; the start time is the zero time at first.\<close>

record broker_subscription =
  sb_broker :: mqtt_broker
  sb_topics :: "(string, subscription_metadata list) gomap"
  sb_version :: string
  sb_checking :: bool
  sb_startTime :: time_ns
  sb_roundtripCompleted :: bool

definition add_subscription ::
  "mqtt_broker \<Rightarrow> mqtt_sensor \<Rightarrow> mqtt_metric \<Rightarrow> (string, subscription_metadata list) gomap \<Rightarrow> (string, subscription_metadata list) gomap" where
  "add_subscription broker sensor metric m =
     (let m = (if gm_get m (mm_Topic metric) = None then gm_put (mm_Topic metric) [] m else m) in
      gm_put (mm_Topic metric) (the (gm_get m (mm_Topic metric)) @ [\<lparr>su_broker = broker, su_sensor = Some sensor, su_metric = metric\<rparr>]) m)"

definition newBrokerSubscription :: "mqtt_broker \<Rightarrow> string \<Rightarrow> broker_subscription" where
  "newBrokerSubscription broker version =
     \<lparr>sb_broker = broker,
      sb_topics = fold (\<lambda>sensor. fold (add_subscription broker sensor) (ms_Metrics sensor)) (mq_Sensors broker) [],
      sb_version = version, sb_checking = False, sb_startTime = - 62135596800 * 10 ^ 9, sb_roundtripCompleted = True\<rparr>"

section \<open>Metrics\<close>

abbreviation mqtt_ScopeName :: string where
  "mqtt_ScopeName \<equiv> ''github.com/solarwinds/solarwinds-otel-collector-contrib/receiver/mqttreceiver''"

definition mqtt_metric_table :: "(string \<times> string \<times> string) list" where
  "mqtt_metric_table =
     [(''sw.otelcol.mqtt.broker.active_subscriptions'', ''Number of active subscriptions on the Mqtt Broker'', ''count''),
      (''sw.otelcol.mqtt.broker.bytes_received_per_minute'', ''Number of bytes received by the Mqtt Broker per minute'', ''bytes per minute''),
      (''sw.otelcol.mqtt.broker.bytes_sent_per_minute'', ''Number of bytes sent by the Mqtt Broker per minute'', ''bytes per minute''),
      (''sw.otelcol.mqtt.broker.clients_connected'', ''Number of clients connected to the Mqtt Broker'', ''count''),
      (''sw.otelcol.mqtt.broker.messages_received_per_minute'', ''Number of messages received by the Mqtt Broker per minute'', ''count per minute''),
      (''sw.otelcol.mqtt.broker.messages_sent_per_minute'', ''Number of messages sent by the Mqtt Broker per minute'', ''count per minute''),
      (''sw.otelcol.mqtt.broker.roundtrip'', ''Roundtrip time to the Mqtt Broker'', ''millisecond'')]"

text \<open>The resource builder has all its attributes enabled.\<close>

definition setBrokerAttributes :: "mqtt_broker \<Rightarrow> pmap \<Rightarrow> pmap" where
  "setBrokerAttributes broker attrs =
     (let attrs = p_putStr ''sw.otelcol.mqtt.broker.name'' (mq_Name broker) attrs;
          attrs = p_putStr ''sw.otelcol.mqtt.broker.server'' (mq_Server broker) attrs;
          attrs = p_put ''sw.otelcol.mqtt.broker.port'' (VInt (mq_Port broker)) attrs in
      if mq_Protocol broker = ''mqtt'' then p_putStr ''sw.otelcol.mqtt.broker.protocol'' ''mqtt'' attrs
      else if mq_Protocol broker = ''mqtts'' then p_putStr ''sw.otelcol.mqtt.broker.protocol'' ''mqtts'' attrs
      else attrs)"

definition setStatus :: "string \<Rightarrow> pmap \<Rightarrow> pmap" where
  "setStatus status attrs =
     (if status \<in> {StatusOK, StatusConnectionFailed, StatusRoundtripFailed, StatusSubscribeFailed}
      then p_putStr ''sw.otelcol.mqtt.broker.status'' status attrs else attrs)"

definition newMetricsWithResource :: "broker_subscription \<Rightarrow> pmap \<Rightarrow> metric list \<Rightarrow> metrics" where
  "newMetricsWithResource sb res ms =
     [\<lparr>rm_attrs = res, rm_scopes = [\<lparr>sm_name = mqtt_ScopeName, sm_version = sb_version sb, sm_attrs = [], sm_metrics = ms\<rparr>]\<rparr>]"

definition gauge :: "string \<Rightarrow> string \<Rightarrow> string \<Rightarrow> u64 \<Rightarrow> pvalue \<Rightarrow> metric" where
  "gauge name desc unit now v = \<lparr>mt_name = name, mt_description = desc, mt_unit = unit, mt_metadata = [],
     mt_data = MGauge [\<lparr>dp_attrs = [], dp_startTimestamp = 0, dp_timestamp = now, dp_value = v\<rparr>]\<rparr>"

definition sendBrokerStatus :: "broker_subscription \<Rightarrow> u64 \<Rightarrow> string \<Rightarrow> metrics list" where
  "sendBrokerStatus sb now status =
     (let res = setStatus status (setBrokerAttributes (sb_broker sb) []) in
      [newMetricsWithResource sb res [gauge ''sw.otelcol.mqtt.broker.status'' ''Broker status'' [] now (VInt (statusToInt status))]])"

definition new_mqtt_builder :: "broker_subscription \<Rightarrow> u64 \<Rightarrow> metrics_builder" where
  "new_mqtt_builder sb now = NewMetricsBuilder [] [] (map (Pair True) mqtt_metric_table) mqtt_ScopeName (sb_version sb) now"

text \<open>The duration is rounded to milliseconds toward zero and then to a float by \<open>fl\<close>.\<close>

definition duration_Milliseconds :: "time_ns \<Rightarrow> int" where
  "duration_Milliseconds d = (if d < 0 then - (- d div 10 ^ 6) else d div 10 ^ 6)"

definition createRoundtripMetric :: "(rat \<Rightarrow> rat) \<Rightarrow> broker_subscription \<Rightarrow> u64 \<Rightarrow> time_ns \<Rightarrow> metrics" where
  "createRoundtripMetric fl sb now duration =
     (let mb = new_mqtt_builder sb now;
          mb = mb_record ''sw.otelcol.mqtt.broker.roundtrip'' now (VDouble (Finite (fl (of_int (duration_Milliseconds duration))))) [] mb;
          res = setStatus StatusOK (setBrokerAttributes (sb_broker sb) [])
      in fst (mb_Emit res mb))"

section \<open>Message handlers\<close>

datatype mqtt_error =
    JsonInvalid
  | JsonPropertyMissing string
  | ParseIntFailed string
  | ParseFloatFailed string
  | UnsupportedType string
  | UnknownBrokerTopic string
  | ClientError

record 'j mqtt_env =
  en_Unmarshal :: "string \<Rightarrow> (string, 'j) gomap option"
  en_Sprint :: "'j \<Rightarrow> string"
  en_ParseFloat :: "string \<Rightarrow> float64 option"

definition extractValue :: "'j mqtt_env \<Rightarrow> string \<Rightarrow> string \<Rightarrow> (mqtt_error, string) result" where
  "extractValue env payload jsonProperty =
     (if jsonProperty = [] then Inr payload
      else case en_Unmarshal env payload of
             None \<Rightarrow> Inl JsonInvalid
           | Some jsonData \<Rightarrow>
             (case gm_get jsonData jsonProperty of
                None \<Rightarrow> Inl (JsonPropertyMissing jsonProperty)
              | Some value \<Rightarrow> Inr (en_Sprint env value)))"

definition parse_int :: "string \<Rightarrow> (mqtt_error, pvalue) result" where
  "parse_int s = (case strconv_ParseInt s of None \<Rightarrow> Inl (ParseIntFailed s) | Some i \<Rightarrow> Inr (VInt i))"

definition parse_float :: "'j mqtt_env \<Rightarrow> string \<Rightarrow> (mqtt_error, pvalue) result" where
  "parse_float env s = (case en_ParseFloat env s of None \<Rightarrow> Inl (ParseFloatFailed s) | Some x \<Rightarrow> Inr (VDouble x))"

text \<open>The value that is set on the data point.\<close>

definition setDataPointValue :: "'j mqtt_env \<Rightarrow> string \<Rightarrow> string \<Rightarrow> (mqtt_error, pvalue) result" where
  "setDataPointValue env strValue metricType =
     (if metricType = ''int'' then parse_int strValue
      else if metricType = ''float'' then parse_float env strValue
      else if metricType = ''string'' then Inr (VInt (if strValue = ''on'' \<or> strValue = ''true'' then 1 else 0))
      else Inl (UnsupportedType metricType))"

definition createMetrics ::
  "'j mqtt_env \<Rightarrow> u64 \<Rightarrow> broker_subscription \<Rightarrow> subscription_metadata \<Rightarrow> string \<Rightarrow> (mqtt_error, metrics) result" where
  "createMetrics env now sb meta value =
     (let res = setBrokerAttributes (su_broker meta) [];
          res = (case su_sensor meta of None \<Rightarrow> res | Some sensor \<Rightarrow> p_putStr ''sw.otelcol.mqtt.sensor.name'' (ms_Name sensor) res);
          prefix = (if su_sensor meta = None then ''broker'' else ''sensor'');
          metric = su_metric meta in
      case setDataPointValue env value (mm_Type metric) of
        Inl e \<Rightarrow> Inl e
      | Inr v \<Rightarrow> Inr (newMetricsWithResource sb res
                  [gauge (''sw.otelcol.mqtt.'' @ prefix @ ''.'' @ mm_Name metric) (mm_Desc metric) (mm_Unit metric) now v]))"

definition handleMessage ::
  "'j mqtt_env \<Rightarrow> u64 \<Rightarrow> broker_subscription \<Rightarrow> string \<Rightarrow> subscription_metadata \<Rightarrow> (mqtt_error, metrics) result" where
  "handleMessage env now sb payload meta =
     (case extractValue env payload (mm_JsonProperty (su_metric meta)) of
        Inl e \<Rightarrow> Inl e
      | Inr value \<Rightarrow> createMetrics env now sb meta value)"

text \<open>The batches given to the consumer; an error is logged and the next metric is handled.\<close>

definition defaultMessageHandler :: "'j mqtt_env \<Rightarrow> u64 \<Rightarrow> broker_subscription \<Rightarrow> string \<Rightarrow> string \<Rightarrow> metrics list" where
  "defaultMessageHandler env now sb topic payload =
     (case gm_get (sb_topics sb) topic of
        None \<Rightarrow> []
      | Some metas \<Rightarrow> concat (map (\<lambda>meta. case handleMessage env now sb payload meta of Inl _ \<Rightarrow> [] | Inr ms \<Rightarrow> [ms]) metas))"

definition broker_topic_point :: "'j mqtt_env \<Rightarrow> string \<Rightarrow> string \<Rightarrow> (mqtt_error, string \<times> pvalue) result" where
  "broker_topic_point env topic s =
     (let named = (\<lambda>name r. map_sum id (Pair name) r) in
      if topic = TopicClientsConnected then named ''sw.otelcol.mqtt.broker.clients_connected'' (parse_int s)
      else if topic = TopicClientSubscriptionsCount then named ''sw.otelcol.mqtt.broker.active_subscriptions'' (parse_int s)
      else if topic = TopicBytesReceived then named ''sw.otelcol.mqtt.broker.bytes_received_per_minute'' (parse_float env s)
      else if topic = TopicBytesSent then named ''sw.otelcol.mqtt.broker.bytes_sent_per_minute'' (parse_float env s)
      else if topic = TopicMessagesReceived then named ''sw.otelcol.mqtt.broker.messages_received_per_minute'' (parse_float env s)
      else if topic = TopicMessagesSent then named ''sw.otelcol.mqtt.broker.messages_sent_per_minute'' (parse_float env s)
      else Inl (UnknownBrokerTopic topic))"

definition handleBrokerTopicMessage :: "'j mqtt_env \<Rightarrow> u64 \<Rightarrow> broker_subscription \<Rightarrow> string \<Rightarrow> string \<Rightarrow> (mqtt_error, metrics) result" where
  "handleBrokerTopicMessage env now sb topic payload =
     (let mb = new_mqtt_builder sb now in
      case broker_topic_point env topic payload of
        Inl e \<Rightarrow> Inl e
      | Inr (name, v) \<Rightarrow>
        (let mb = mb_record name now v [] mb;
             res = setStatus StatusOK (setBrokerAttributes (sb_broker sb) []) in
         Inr (fst (mb_Emit res mb))))"

definition brokerTopicMessageHandler :: "'j mqtt_env \<Rightarrow> u64 \<Rightarrow> broker_subscription \<Rightarrow> string \<Rightarrow> string \<Rightarrow> metrics list" where
  "brokerTopicMessageHandler env now sb topic payload =
     (case handleBrokerTopicMessage env now sb topic payload of Inl _ \<Rightarrow> [] | Inr ms \<Rightarrow> [ms])"

section \<open>Connection and health check\<close>

record client_options =
  co_Broker :: string
  co_ClientID :: string
  co_Username :: string
  co_Password :: string

datatype client_call = NewClient client_options | Connect | SubscribeMultiple "string list" | Subscribe string | Publish string | Disconnect

text \<open>What the client answers to the calls of one operation; \<open>True\<close> is a token without error.\<close>

record client_answers =
  ca_Connected :: bool
  ca_Connect :: bool
  ca_SubscribeBroker :: bool
  ca_SubscribeTopics :: bool
  ca_SubscribePing :: bool
  ca_Publish :: bool

text \<open>The options of a client created at a time in seconds.\<close>

definition createMQTTClient :: "int \<Rightarrow> broker_subscription \<Rightarrow> client_options" where
  "createMQTTClient unix sb =
     \<lparr>co_Broker = mq_Protocol (sb_broker sb) @ ''://'' @ mq_Server (sb_broker sb) @ '':'' @ strconv_Itoa (mq_Port (sb_broker sb)),
      co_ClientID = ''otel-mqtt-receiver-'' @ strconv_Itoa unix, co_Username = mq_User (sb_broker sb), co_Password = mq_Password (sb_broker sb)\<rparr>"

definition connectClient :: "u64 \<Rightarrow> client_answers \<Rightarrow> broker_subscription \<Rightarrow> mqtt_error option \<times> metrics list" where
  "connectClient now a sb =
     (if \<not> ca_Connect a then (Some ClientError, sendBrokerStatus sb now StatusConnectionFailed) else (None, []))"

definition subscribeBrokerMetrics :: "client_answers \<Rightarrow> mqtt_error option \<times> client_call list" where
  "subscribeBrokerMetrics a = (if ca_SubscribeBroker a then None else Some ClientError, [SubscribeMultiple buildInBrokerTopicList])"

definition subscribeTopics :: "client_answers \<Rightarrow> broker_subscription \<Rightarrow> mqtt_error option \<times> client_call list" where
  "subscribeTopics a sb = (if ca_SubscribeTopics a then None else Some ClientError, [SubscribeMultiple (map fst (sb_topics sb))])"

text \<open>The start of the health check: the goroutine ends at once when it cannot subscribe to the pings.\<close>

definition startHealthCheck :: "client_answers \<Rightarrow> broker_subscription \<Rightarrow> client_call list \<times> broker_subscription" where
  "startHealthCheck a sb = ([Subscribe PingTopic], sb\<lparr>sb_checking := ca_SubscribePing a, sb_roundtripCompleted := True\<rparr>)"

text \<open>
  The start of a subscription: its error, the calls of the client, the batches for the consumer and the
  subscription after it.  A failed subscription to topics is only logged.
\<close>

definition broker_Start ::
  "time_ns \<Rightarrow> client_answers \<Rightarrow> broker_subscription \<Rightarrow> mqtt_error option \<times> client_call list \<times> metrics list \<times> broker_subscription" where
  "broker_Start now a sb =
     (let calls = [NewClient (createMQTTClient (now div 10 ^ 9) sb), Connect] in
      case connectClient (word_of_int now) a sb of
        (Some e, out) \<Rightarrow> (Some e, calls, out, sb)
      | (None, out) \<Rightarrow>
        (let calls = calls @ snd (subscribeBrokerMetrics a);
             calls = calls @ snd (subscribeTopics a sb);
             (calls', sb) = startHealthCheck a sb
         in (None, calls @ calls', out, sb)))"

definition reconnectAndResubscribe ::
  "u64 \<Rightarrow> client_answers \<Rightarrow> broker_subscription \<Rightarrow> mqtt_error option \<times> client_call list \<times> metrics list" where
  "reconnectAndResubscribe now a sb =
     (if \<not> ca_Connect a then (Some ClientError, [Connect], sendBrokerStatus sb now StatusConnectionFailed)
      else if \<not> ca_SubscribePing a then (Some ClientError, [Connect, Subscribe PingTopic], sendBrokerStatus sb now StatusSubscribeFailed)
      else (None, [Connect, Subscribe PingTopic], []))"

definition performHealthCheck ::
  "time_ns \<Rightarrow> client_answers \<Rightarrow> broker_subscription \<Rightarrow> mqtt_error option \<times> client_call list \<times> metrics list \<times> broker_subscription" where
  "performHealthCheck now a sb =
     (let ts = word_of_int now;
          out = (if \<not> sb_roundtripCompleted sb then sendBrokerStatus sb ts StatusRoundtripFailed else []);
          (err, calls, out') = (if \<not> ca_Connected a then reconnectAndResubscribe ts a sb else (None, [], [])) in
      case err of
        Some e \<Rightarrow> (Some e, calls, out @ out', sb)
      | None \<Rightarrow>
        (let sb = sb\<lparr>sb_startTime := now, sb_roundtripCompleted := False\<rparr> in
         (if ca_Publish a then None else Some ClientError, calls @ [Publish PingTopic], out @ out', sb)))"

text \<open>The difference of two times saturates at the bounds of a duration.\<close>

definition time_Sub :: "time_ns \<Rightarrow> time_ns \<Rightarrow> time_ns" where
  "time_Sub t u = max (- (2 ^ 63)) (min (2 ^ 63 - 1) (t - u))"

definition pingHandler :: "(rat \<Rightarrow> rat) \<Rightarrow> time_ns \<Rightarrow> broker_subscription \<Rightarrow> metrics list \<times> broker_subscription" where
  "pingHandler fl now sb =
     (let sb = sb\<lparr>sb_roundtripCompleted := True\<rparr> in
      ([createRoundtripMetric fl sb (word_of_int now) (time_Sub now (sb_startTime sb))], sb))"

definition connectionLostHandler :: "time_ns \<Rightarrow> broker_subscription \<Rightarrow> metrics list" where
  "connectionLostHandler now sb = sendBrokerStatus sb (word_of_int now) StatusConnectionFailed"

text \<open>The events of a started subscription.  A tick of a health check that has ended does nothing.\<close>

datatype mqtt_event =
    Tick time_ns client_answers
  | Pong time_ns
  | Message time_ns string string
  | BrokerMessage time_ns string string
  | ConnectionLost time_ns
  | ContextDone

fun mqtt_step ::
  "'j mqtt_env \<Rightarrow> (rat \<Rightarrow> rat) \<Rightarrow> mqtt_event \<Rightarrow> broker_subscription \<Rightarrow> client_call list \<times> metrics list \<times> broker_subscription" where
  "mqtt_step env fl (Tick now a) sb = (if sb_checking sb then snd (performHealthCheck now a sb) else ([], [], sb))"
| "mqtt_step env fl (Pong now) sb = (let (out, sb) = pingHandler fl now sb in ([], out, sb))"
| "mqtt_step env fl (Message now topic payload) sb = ([], defaultMessageHandler env (word_of_int now) sb topic payload, sb)"
| "mqtt_step env fl (BrokerMessage now topic payload) sb = ([], brokerTopicMessageHandler env (word_of_int now) sb topic payload, sb)"
| "mqtt_step env fl (ConnectionLost now) sb = ([], connectionLostHandler now sb, sb)"
| "mqtt_step env fl ContextDone sb = ([], [], sb\<lparr>sb_checking := False\<rparr>)"

text \<open>The calls, the batches and the subscription after a sequence of events.\<close>

fun mqtt_run ::
  "'j mqtt_env \<Rightarrow> (rat \<Rightarrow> rat) \<Rightarrow> mqtt_event list \<Rightarrow> broker_subscription \<Rightarrow> client_call list \<times> metrics list \<times> broker_subscription" where
  "mqtt_run env fl [] sb = ([], [], sb)"
| "mqtt_run env fl (ev # evs) sb =
     (let (calls, out, sb) = mqtt_step env fl ev sb; (calls', out', sb) = mqtt_run env fl evs sb in (calls @ calls', out @ out', sb))"

definition broker_Stop :: "bool \<Rightarrow> client_call list" where
  "broker_Stop isConnected = (if isConnected then [Disconnect] else [])"

section \<open>The receiver\<close>

text \<open>The subscriptions that start; a broker whose client does not connect is left out.\<close>

fun mqtt_Start :: "string \<Rightarrow> time_ns \<Rightarrow> (mqtt_broker \<Rightarrow> client_answers) \<Rightarrow> mqtt_broker list \<Rightarrow> metrics list \<times> broker_subscription list" where
  "mqtt_Start version now answers [] = ([], [])"
| "mqtt_Start version now answers (broker # brokers) =
     (let (err, calls, out, sb) = broker_Start now (answers broker) (newBrokerSubscription broker version);
          (out', sbs) = mqtt_Start version now answers brokers in
      (out @ out', if err = None then sb # sbs else sbs))"

text \<open>The shutdown cancels the context, which ends the health checks, and disconnects.\<close>

definition mqtt_Shutdown :: "(broker_subscription \<Rightarrow> bool) \<Rightarrow> broker_subscription list \<Rightarrow> client_call list list \<times> broker_subscription list" where
  "mqtt_Shutdown isConnected sbs = (map (\<lambda>sb. broker_Stop (isConnected sb)) sbs, map (\<lambda>sb. sb\<lparr>sb_checking := False\<rparr>) sbs)"

section \<open>Lemmas on subscriptions\<close>

text \<open>The metrics of a broker with their sensors, in the order of the configuration.\<close>

definition broker_metrics :: "mqtt_broker \<Rightarrow> (mqtt_sensor \<times> mqtt_metric) list" where
  "broker_metrics broker = concat (map (\<lambda>sensor. map (Pair sensor) (ms_Metrics sensor)) (mq_Sensors broker))"

definition metadata_of :: "mqtt_broker \<Rightarrow> mqtt_sensor \<times> mqtt_metric \<Rightarrow> subscription_metadata" where
  "metadata_of broker = (\<lambda>(sensor, metric). \<lparr>su_broker = broker, su_sensor = Some sensor, su_metric = metric\<rparr>)"

lemma add_subscription_get:
  "gm_get (add_subscription broker sensor metric m) topic =
   (if topic = mm_Topic metric then Some ((case gm_get m topic of None \<Rightarrow> [] | Some ms \<Rightarrow> ms) @ [metadata_of broker (sensor, metric)])
    else gm_get m topic)"
  by (simp add: add_subscription_def Let_def gomap_simps metadata_of_def split: option.split)

lemma add_subscriptions_get:
  "gm_get (fold (\<lambda>(sensor, metric). add_subscription broker sensor metric) ps m) topic =
   (let ms = map (metadata_of broker) (filter (\<lambda>(s, metric). mm_Topic metric = topic) ps) in
    if ms = [] then gm_get m topic else Some ((case gm_get m topic of None \<Rightarrow> [] | Some ms \<Rightarrow> ms) @ ms))"
  by (induction ps arbitrary: m) (auto simp: add_subscription_get Let_def)

lemma topics_get:
  "gm_get (sb_topics (newBrokerSubscription broker version)) topic =
   (let ms = map (metadata_of broker) (filter (\<lambda>(s, metric). mm_Topic metric = topic) (broker_metrics broker)) in
    if ms = [] then None else Some ms)"
proof -
  have "fold (\<lambda>sensor. fold (add_subscription broker sensor) (ms_Metrics sensor)) sensors m =
    fold (\<lambda>(sensor, metric). add_subscription broker sensor metric) (concat (map (\<lambda>sensor. map (Pair sensor) (ms_Metrics sensor)) sensors)) m"
    for sensors m
    by (induction sensors arbitrary: m) (simp_all add: fold_map comp_def)
  then have "sb_topics (newBrokerSubscription broker version) =
    fold (\<lambda>(sensor, metric). add_subscription broker sensor metric) (broker_metrics broker) []"
    by (simp add: newBrokerSubscription_def broker_metrics_def)
  then show ?thesis by (simp add: add_subscriptions_get Let_def)
qed

text \<open>The value of a metric in a payload, and the batch that carries it.\<close>

definition message_value :: "'j mqtt_env \<Rightarrow> string \<Rightarrow> mqtt_metric \<Rightarrow> pvalue option" where
  "message_value env payload metric =
     (case extractValue env payload (mm_JsonProperty metric) of
        Inl _ \<Rightarrow> None
      | Inr s \<Rightarrow> (case setDataPointValue env s (mm_Type metric) of Inl _ \<Rightarrow> None | Inr v \<Rightarrow> Some v))"

definition sensor_batch :: "mqtt_broker \<Rightarrow> string \<Rightarrow> u64 \<Rightarrow> mqtt_sensor \<Rightarrow> mqtt_metric \<Rightarrow> pvalue \<Rightarrow> metrics" where
  "sensor_batch broker version now sensor metric v =
     [\<lparr>rm_attrs = p_putStr ''sw.otelcol.mqtt.sensor.name'' (ms_Name sensor) (setBrokerAttributes broker []), rm_scopes =
       [\<lparr>sm_name = mqtt_ScopeName, sm_version = version, sm_attrs = [], sm_metrics =
         [gauge (''sw.otelcol.mqtt.sensor.'' @ mm_Name metric) (mm_Desc metric) (mm_Unit metric) now v]\<rparr>]\<rparr>]"

text \<open>C32: A message on a topic gives one batch for every metric that the configuration has on that topic, in the
  order of the configuration, except those whose value the payload does not have; a message on any other
  topic gives none.
\<close>

theorem sensor_message_batches:
  "defaultMessageHandler env now (newBrokerSubscription broker version) topic payload =
   concat (map (\<lambda>(sensor, metric). case message_value env payload metric of
       None \<Rightarrow> [] | Some v \<Rightarrow> [sensor_batch broker version now sensor metric v])
     (filter (\<lambda>(s, metric). mm_Topic metric = topic) (broker_metrics broker)))"
proof -
  let ?sb = "newBrokerSubscription broker version"
  have "(case handleMessage env now ?sb payload (metadata_of broker p) of Inl _ \<Rightarrow> [] | Inr ms \<Rightarrow> [ms]) =
    (case p of (sensor, metric) \<Rightarrow> case message_value env payload metric of None \<Rightarrow> [] | Some v \<Rightarrow> [sensor_batch broker version now sensor metric v])"
    for p
    by (cases p) (auto simp: handleMessage_def message_value_def createMetrics_def metadata_of_def sensor_batch_def newMetricsWithResource_def
        newBrokerSubscription_def Let_def split: sum.split)
  then show ?thesis by (simp add: defaultMessageHandler_def topics_get Let_def comp_def)
qed

section \<open>Health of a broker\<close>

lemma mqtt_run_snoc:
  "mqtt_run env fl (evs @ [ev]) sb =
   (let (calls, out, sb) = mqtt_run env fl evs sb; (calls', out', sb) = mqtt_step env fl ev sb in (calls @ calls', out @ out', sb))"
  by (induction evs arbitrary: sb) (simp_all add: Let_def case_prod_unfold)

text \<open>A batch that reports the status with the given number.\<close>

definition reports_status :: "int \<Rightarrow> metrics \<Rightarrow> bool" where
  "reports_status k ms \<longleftrightarrow> (\<exists>r \<in> set ms. \<exists>sc \<in> set (rm_scopes r). \<exists>m \<in> set (sm_metrics sc).
     mt_name m = ''sw.otelcol.mqtt.broker.status'' \<and> (\<exists>dp. mt_data m = MGauge [dp] \<and> dp_value dp = VInt k))"

lemma reports_sendBrokerStatus: "b \<in> set (sendBrokerStatus sb now status) \<Longrightarrow> reports_status k b \<longleftrightarrow> k = statusToInt status"
  by (auto simp: sendBrokerStatus_def reports_status_def newMetricsWithResource_def gauge_def Let_def)

lemma sendBrokerStatus_single: "\<exists>b. sendBrokerStatus sb now status = [b]"
  by (simp add: sendBrokerStatus_def Let_def)

text \<open>A check that reaches the publication of a ping.\<close>

definition pings :: "client_answers \<Rightarrow> bool" where
  "pings a \<longleftrightarrow> ca_Connected a \<or> ca_Connect a \<and> ca_SubscribePing a"

lemma performHealthCheck_effect:
  "snd (snd (snd (performHealthCheck now a sb))) =
   (if pings a then sb\<lparr>sb_startTime := now, sb_roundtripCompleted := False\<rparr> else sb)"
  by (simp add: performHealthCheck_def pings_def reconnectAndResubscribe_def Let_def)

lemma performHealthCheck_reports:
  "(\<exists>b \<in> set (fst (snd (snd (performHealthCheck now a sb)))). reports_status 2 b) \<longleftrightarrow> \<not> sb_roundtripCompleted sb"
proof -
  have other: "b \<in> set (snd (snd (reconnectAndResubscribe ts a sb))) \<Longrightarrow> \<not> reports_status 2 b" for b ts
    by (auto simp: reconnectAndResubscribe_def reports_sendBrokerStatus statusToInt_def split: if_splits)
  obtain b where b: "sendBrokerStatus sb (word_of_int now) StatusRoundtripFailed = [b]" using sendBrokerStatus_single by blast
  have "reports_status 2 b" using reports_sendBrokerStatus [of b sb "word_of_int now" StatusRoundtripFailed 2] b by (simp add: statusToInt_def)
  with b other [of _ "word_of_int now"] show ?thesis
    by (auto simp: performHealthCheck_def Let_def case_prod_unfold split: option.split)
qed

text \<open>A ping is outstanding: a check reached the publication and no answer came since.\<close>

definition outstanding :: "mqtt_event list \<Rightarrow> bool" where
  "outstanding evs \<longleftrightarrow> (\<exists>pre now a mid. evs = pre @ Tick now a # mid \<and> pings a \<and> (\<forall>t. Pong t \<notin> set mid))"

lemma outstanding_Nil: "\<not> outstanding []"
  by (simp add: outstanding_def)

lemma outstanding_snoc:
  "outstanding (evs @ [ev]) \<longleftrightarrow>
   (case ev of Pong t \<Rightarrow> False | Tick now a \<Rightarrow> pings a \<or> outstanding evs | _ \<Rightarrow> outstanding evs)"
proof -
  have "outstanding (evs @ [ev]) \<longleftrightarrow> (\<exists>now a. ev = Tick now a \<and> pings a) \<or> (\<forall>t. ev \<noteq> Pong t) \<and> outstanding evs"
  proof
    assume "outstanding (evs @ [ev])"
    then obtain pre now a mid where e: "evs @ [ev] = pre @ Tick now a # mid" "pings a" "\<forall>t. Pong t \<notin> set mid"
      unfolding outstanding_def by blast
    then show "(\<exists>now a. ev = Tick now a \<and> pings a) \<or> (\<forall>t. ev \<noteq> Pong t) \<and> outstanding evs"
    proof (cases mid rule: rev_cases)
      case (snoc mid' ev')
      then have ev: "evs = pre @ Tick now a # mid'" "ev = ev'" using e(1) by auto
      have no: "\<forall>t. Pong t \<notin> set mid'" "\<forall>t. ev \<noteq> Pong t" using snoc e(3) ev(2) by auto
      from ev(1) e(2) no(1) have "outstanding evs" unfolding outstanding_def by blast
      with no(2) show ?thesis by blast
    qed auto
  next
    assume "(\<exists>now a. ev = Tick now a \<and> pings a) \<or> (\<forall>t. ev \<noteq> Pong t) \<and> outstanding evs"
    then show "outstanding (evs @ [ev])"
    proof (elim disjE exE conjE)
      fix now a assume "ev = Tick now a" "pings a"
      then have "evs @ [ev] = evs @ Tick now a # []" "\<forall>t. Pong t \<notin> set []" by auto
      then show ?thesis using \<open>pings a\<close> unfolding outstanding_def by blast
    next
      assume no: "\<forall>t. ev \<noteq> Pong t" and "outstanding evs"
      then obtain pre now a mid where "evs = pre @ Tick now a # mid" "pings a" "\<forall>t. Pong t \<notin> set mid"
        unfolding outstanding_def by blast
      then have "evs @ [ev] = pre @ Tick now a # (mid @ [ev])" "\<forall>t. Pong t \<notin> set (mid @ [ev])" using no by auto
      then show ?thesis using \<open>pings a\<close> unfolding outstanding_def by blast
    qed
  qed
  then show ?thesis by (cases ev) auto
qed

lemma run_outstanding:
  assumes "sb_checking (snd (snd (mqtt_run env fl evs sb)))" "sb_roundtripCompleted sb"
  shows "sb_roundtripCompleted (snd (snd (mqtt_run env fl evs sb))) \<longleftrightarrow> \<not> outstanding evs"
  using assms
proof (induction evs rule: rev_induct)
  case (snoc ev evs)
  let ?sb = "snd (snd (mqtt_run env fl evs sb))"
  have run: "snd (snd (mqtt_run env fl (evs @ [ev]) sb)) = snd (snd (mqtt_step env fl ev ?sb))"
    by (simp add: mqtt_run_snoc Let_def case_prod_unfold)
  have "sb_checking (snd (snd (mqtt_step env fl ev sb'))) \<Longrightarrow> sb_checking sb'" for sb'
    by (cases ev) (auto simp: performHealthCheck_effect pingHandler_def Let_def split: if_splits)
  then have "sb_checking ?sb" using snoc.prems(1) unfolding run by blast
  with snoc.IH snoc.prems(2) have IH: "sb_roundtripCompleted ?sb \<longleftrightarrow> \<not> outstanding evs" by blast
  show ?case unfolding run outstanding_snoc using IH \<open>sb_checking ?sb\<close>
    by (cases ev) (auto simp: performHealthCheck_effect pingHandler_def Let_def)
qed (simp_all add: outstanding_Nil)

text \<open>C31: A health check of a started subscription reports a failed round trip exactly when an earlier check
  went on to publish a ping and no answer has arrived since, whatever messages and connection losses
  came in between.
\<close>

theorem roundtrip_failure_justified:
  assumes "broker_Start ts a0 (newBrokerSubscription broker version) = (None, calls0, out0, sb0)"
    and "mqtt_run env fl evs sb0 = (calls, out, sb)" "sb_checking sb"
    and "performHealthCheck now a sb = (err, calls', out', sb')"
  shows "(\<exists>b \<in> set out'. reports_status 2 b) \<longleftrightarrow>
    (\<exists>pre now' a' mid. evs = pre @ Tick now' a' # mid \<and> pings a' \<and> (\<forall>t. Pong t \<notin> set mid))"
proof -
  have "sb_roundtripCompleted sb0"
    using assms(1) by (auto simp: broker_Start_def startHealthCheck_def Let_def split: prod.splits option.splits)
  then have "sb_roundtripCompleted sb \<longleftrightarrow> \<not> outstanding evs"
    using run_outstanding [of env fl evs sb0] assms(2,3) by simp
  then show ?thesis using performHealthCheck_reports [of now a sb] assms(4) unfolding outstanding_def [symmetric] by simp
qed

text \<open>A check, no answer, and the next check.\<close>

definition all_ok :: client_answers where
  "all_ok = \<lparr>ca_Connected = True, ca_Connect = True, ca_SubscribeBroker = True, ca_SubscribeTopics = True, ca_SubscribePing = True, ca_Publish = True\<rparr>"

definition sample_broker :: mqtt_broker where
  "sample_broker = \<lparr>mq_Name = ''b'', mq_Protocol = ''mqtt'', mq_Server = ''h'', mq_Port = 1883, mq_User = [], mq_Password = [], mq_Sensors = []\<rparr>"

theorem roundtrip_failure_justified_witness:
  "\<exists>calls0 sb0 calls out sb err calls' out' sb'.
     broker_Start 0 all_ok (newBrokerSubscription sample_broker ''1'') = (None, calls0, [], sb0) \<and>
     mqtt_run (undefined :: nat mqtt_env) id [Tick 10 all_ok] sb0 = (calls, out, sb) \<and>
     performHealthCheck 20 all_ok sb = (err, calls', out', sb') \<and> (\<exists>b \<in> set out'. reports_status 2 b)"
proof -
  define sb0 where "sb0 = snd (startHealthCheck all_ok (newBrokerSubscription sample_broker ''1''))"
  obtain calls0 where start: "broker_Start 0 all_ok (newBrokerSubscription sample_broker ''1'') = (None, calls0, [], sb0)"
    by (simp add: broker_Start_def connectClient_def all_ok_def sb0_def startHealthCheck_def Let_def)
  obtain calls out sb where run: "mqtt_run (undefined :: nat mqtt_env) id [Tick 10 all_ok] sb0 = (calls, out, sb)" by (metis prod_cases3)
  have "sb_checking sb0" by (simp add: sb0_def startHealthCheck_def all_ok_def)
  then have chk: "sb_checking sb" using arg_cong [OF run, of "\<lambda>x. sb_checking (snd (snd x))"]
    by (simp add: Let_def case_prod_unfold performHealthCheck_effect split: if_splits)
  obtain err calls' out' sb' where check: "performHealthCheck 20 all_ok sb = (err, calls', out', sb')" by (metis prod_cases4)
  have "[Tick 10 all_ok] = [] @ Tick 10 all_ok # []" "pings all_ok" "\<forall>t. Pong t \<notin> set []" by (simp_all add: pings_def all_ok_def)
  then have "\<exists>b \<in> set out'. reports_status 2 b" using roundtrip_failure_justified [OF start run chk check] by blast
  with start run check show ?thesis by blast
qed

text \<open>
  The calls after the start never subscribe to the topics of the sensors or of the broker again, also when
  the client has reconnected.
\<close>

lemma run_calls: "c \<in> set (fst (mqtt_run env fl evs sb)) \<Longrightarrow> c \<in> {Connect, Subscribe PingTopic, Publish PingTopic}"
proof (induction evs rule: rev_induct)
  case (snoc ev evs)
  have "c \<in> set (fst (mqtt_step env fl ev sb')) \<Longrightarrow> c \<in> {Connect, Subscribe PingTopic, Publish PingTopic}" for sb'
    by (cases ev) (auto simp: performHealthCheck_def reconnectAndResubscribe_def Let_def split: if_splits prod.splits)
  with snoc show ?case by (auto simp: mqtt_run_snoc Let_def case_prod_unfold)
qed simp

text \<open>The reported status is always one of the failures: a broker that has recovered is never reported as such.\<close>

lemma builder_batch_no_status:
  assumes "name \<noteq> ''sw.otelcol.mqtt.broker.status''"
  shows "\<not> reports_status k (fst (mb_Emit res (mb_record name now v [] (new_mqtt_builder sb now))))"
proof -
  have "mb_record name now v [] mb = mb_records [(name, now, v, [])] mb" for mb by (simp add: mb_records_def)
  moreover have "''sw.otelcol.mqtt.broker.status'' \<notin> bm_name ` set (mb_metrics (new_mqtt_builder sb now))"
    by (simp add: new_mqtt_builder_def NewMetricsBuilder_def mqtt_metric_table_def bm_new_def)
  moreover have "mb_clean (new_mqtt_builder sb now)" by (simp add: new_mqtt_builder_def)
  moreover have "points_of start [(name, now, v, [])] ''sw.otelcol.mqtt.broker.status'' = []" for start
    using assms by (simp add: points_of_def)
  ultimately show ?thesis by (auto simp: mb_Emit_records reports_status_def recorded_metrics_def)
qed

definition sensors_only :: "broker_subscription \<Rightarrow> bool" where
  "sensors_only sb \<longleftrightarrow> (\<forall>topic metas. gm_get (sb_topics sb) topic = Some metas \<longrightarrow> (\<forall>meta \<in> set metas. su_sensor meta \<noteq> None))"

lemma message_batch_no_status:
  assumes "handleMessage env now sb payload meta = Inr b" "su_sensor meta \<noteq> None"
  shows "\<not> reports_status k b"
  using assms
  by (auto simp: handleMessage_def createMetrics_def newMetricsWithResource_def reports_status_def gauge_def Let_def split: sum.splits)

lemma step_statuses:
  assumes "b \<in> set (fst (snd (mqtt_step env fl ev sb)))" "reports_status k b" "sensors_only sb"
  shows "k \<in> {1, 2, 3}"
proof (cases ev)
  case (Tick now a)
  then show ?thesis using assms(1,2)
    by (auto simp: performHealthCheck_def reconnectAndResubscribe_def Let_def reports_sendBrokerStatus statusToInt_def
        split: if_splits prod.splits)
next
  case (Pong now)
  then show ?thesis using assms(1,2) by (auto simp: pingHandler_def createRoundtripMetric_def Let_def builder_batch_no_status)
next
  case (Message now topic payload)
  with assms(1) obtain metas meta where "gm_get (sb_topics sb) topic = Some metas" "meta \<in> set metas"
    "handleMessage env (word_of_int now) sb payload meta = Inr b"
    by (cases "gm_get (sb_topics sb) topic") (auto simp: defaultMessageHandler_def split: sum.splits)
  with assms(2,3) message_batch_no_status show ?thesis unfolding sensors_only_def by blast
next
  case (BrokerMessage now topic payload)
  have "broker_topic_point env topic payload = Inr (name, v) \<Longrightarrow> name \<noteq> ''sw.otelcol.mqtt.broker.status''" for name v
    by (auto simp: broker_topic_point_def Let_def map_sum_def split: if_splits sum.splits)
  then show ?thesis using assms(1,2) BrokerMessage
    by (auto simp: brokerTopicMessageHandler_def handleBrokerTopicMessage_def Let_def builder_batch_no_status split: sum.splits)
next
  case (ConnectionLost now)
  then show ?thesis using assms(1,2) by (auto simp: connectionLostHandler_def reports_sendBrokerStatus statusToInt_def)
qed (use assms in simp)

lemma run_topics: "sb_topics (snd (snd (mqtt_run env fl evs sb))) = sb_topics sb"
proof (induction evs rule: rev_induct)
  case (snoc ev evs)
  have "sb_topics (snd (snd (mqtt_step env fl ev sb'))) = sb_topics sb'" for sb'
    by (cases ev) (simp_all add: performHealthCheck_effect pingHandler_def Let_def)
  with snoc show ?case by (simp add: mqtt_run_snoc Let_def case_prod_unfold)
qed simp

lemma reported_statuses:
  assumes "b \<in> set (fst (snd (mqtt_run env fl evs sb)))" "reports_status k b" "sensors_only sb"
  shows "k \<in> {1, 2, 3}"
  using assms
proof (induction evs rule: rev_induct)
  case (snoc ev evs)
  have "sensors_only (snd (snd (mqtt_run env fl evs sb)))" using snoc.prems(3) by (simp add: sensors_only_def run_topics)
  note step = step_statuses [OF _ snoc.prems(2) this]
  from snoc.prems(1) have "b \<in> set (fst (snd (mqtt_run env fl evs sb))) \<or>
    b \<in> set (fst (snd (mqtt_step env fl ev (snd (snd (mqtt_run env fl evs sb))))))"
    by (simp add: mqtt_run_snoc Let_def case_prod_unfold)
  with step snoc.IH snoc.prems(2,3) show ?case by blast
qed simp

lemma new_sensors_only: "sensors_only (newBrokerSubscription broker version)"
  by (auto simp: sensors_only_def topics_get metadata_of_def Let_def split: if_splits)

end
