(* ===== verification/Dns_Query.thy ===== *)
theory Dns_Query
  imports Metric_Builder
begin

text \<open>
  The DNS query receiver (\<open>receiver/dnsqueryreceiver\<close>): validation of the configuration, one query per
  server and domain, and the metrics of a scrape.  The DNS library is an argument: the fully qualified
  name, the tables of record types and response codes, and the exchange with a server.
\<close>

section \<open>Configuration\<close>

record dns_config =
  dq_Servers :: "string list"
  dq_Domains :: "string list"
  dq_RecordType :: string
  dq_Network :: string
  dq_Port :: int
  dq_Timeout :: time_ns

definition createDefaultConfig :: dns_config where
  "createDefaultConfig =
     \<lparr>dq_Servers = [], dq_Domains = [''.''], dq_RecordType = ''NS'', dq_Network = ''udp'', dq_Port = 53, dq_Timeout = 2 * 10 ^ 9\<rparr>"

datatype dns_config_error = ServersEmpty | ServerEmpty | RecordTypeInvalid string | NetworkInvalid string | PortInvalid int | TimeoutInvalid

abbreviation allowedRecordTypes :: "string list" where
  "allowedRecordTypes \<equiv> [''A'', ''AAAA'', ''ANY'', ''CNAME'', ''MX'', ''NS'', ''PTR'', ''SOA'', ''SPF'', ''SRV'', ''TXT'']"

abbreviation allowedNetworks :: "string list" where
  "allowedNetworks \<equiv> [''udp'', ''tcp'', ''tcp-tls'']"

text \<open>\<open>strings.TrimSpace(s) == ""\<close>; \<open>uni\<close> decides it for strings that are not ASCII.\<close>

definition blank :: "(string \<Rightarrow> bool) \<Rightarrow> string \<Rightarrow> bool" where
  "blank uni s = (if is_ascii s then list_all (\<lambda>c. of_char c \<in> {9, 10, 11, 12, 13, 32 :: nat}) s else uni s)"

definition dns_Validate :: "(string \<Rightarrow> bool) \<Rightarrow> dns_config \<Rightarrow> dns_config_error option" where
  "dns_Validate uni c =
     (if length (dq_Servers c) = 0 then Some ServersEmpty
      else if list_ex (blank uni) (dq_Servers c) then Some ServerEmpty
      else if dq_RecordType c \<notin> set allowedRecordTypes then Some (RecordTypeInvalid (dq_RecordType c))
      else if dq_Network c \<notin> set allowedNetworks then Some (NetworkInvalid (dq_Network c))
      else if dq_Port c < 1 \<or> dq_Port c > 65535 then Some (PortInvalid (dq_Port c))
      else if dq_Timeout c \<le> 0 then Some TimeoutInvalid
      else None)"

section \<open>One query\<close>

text \<open>
  The library: an exchange gives the response code and the round trip time, or an error, which is a
  network error with its timeout flag (\<open>Some\<close>) or another error (\<open>None\<close>).
\<close>

record dns_library =
  dl_Fqdn :: "string \<Rightarrow> string"
  dl_StringToType :: "string \<Rightarrow> 16 word option"
  dl_TypeNS :: "16 word"
  dl_RcodeToString :: "int \<Rightarrow> string"
  dl_Exchange :: "string \<Rightarrow> time_ns \<Rightarrow> string \<Rightarrow> 16 word \<Rightarrow> string \<Rightarrow> bool option + int \<times> time_ns"

record dnsQueryResult =
  dr_server :: string
  dr_domain :: string
  dr_queryTimeMs :: float64
  dr_resultCode :: int
  dr_rcodeValue :: int
  dr_resultStr :: string
  dr_rcodeStr :: string

definition dnsTypeFromString :: "dns_library \<Rightarrow> string \<Rightarrow> 16 word" where
  "dnsTypeFromString lib recordType = (case dl_StringToType lib recordType of Some t \<Rightarrow> t | None \<Rightarrow> dl_TypeNS lib)"

definition isTimeout :: "bool \<Rightarrow> bool option \<Rightarrow> bool" where
  "isTimeout ctxErr err = (if ctxErr then True else case err of Some timeout \<Rightarrow> timeout | None \<Rightarrow> False)"

text \<open>\<open>fl\<close> rounds to a 64-bit float; \<open>ctxErr\<close>: the context has ended when the exchange returns.\<close>

definition queryDNS :: "dns_library \<Rightarrow> (rat \<Rightarrow> rat) \<Rightarrow> bool \<Rightarrow> dns_config \<Rightarrow> string \<Rightarrow> string \<Rightarrow> dnsQueryResult" where
  "queryDNS lib fl ctxErr c server domain =
     (let result = \<lparr>dr_server = server, dr_domain = domain, dr_queryTimeMs = Finite 0, dr_resultCode = 0, dr_rcodeValue = 0,
                    dr_resultStr = ''error'', dr_rcodeStr = []\<rparr>;
          addr = net_JoinHostPort server (strconv_Itoa (dq_Port c)) in
      case dl_Exchange lib (dq_Network c) (dq_Timeout c) (dl_Fqdn lib domain) (dnsTypeFromString lib (dq_RecordType c)) addr of
        Inl err \<Rightarrow>
          if isTimeout ctxErr err then result\<lparr>dr_resultCode := 1, dr_resultStr := ''timeout''\<rparr>
          else result\<lparr>dr_resultCode := 2\<rparr>
      | Inr (rcode, rtt) \<Rightarrow>
          result\<lparr>dr_resultCode := 0, dr_resultStr := ''success'', dr_queryTimeMs := Finite (fl (fl (of_int rtt) / 10 ^ 6)),
                 dr_rcodeValue := rcode, dr_rcodeStr := dl_RcodeToString lib rcode\<rparr>)"

section \<open>The scraper\<close>

text \<open>The enumerations of attribute values, by their strings; a value without a constant prints as empty.\<close>

definition record_type_attribute :: "string \<Rightarrow> string" where
  "record_type_attribute s = (if s \<in> set allowedRecordTypes then s else [])"

definition result_attribute :: "string \<Rightarrow> string" where
  "result_attribute s = (if s \<in> {''success'', ''timeout'', ''error''} then s else [])"

definition dns_metric_table :: "(string \<times> string \<times> string) list" where
  "dns_metric_table =
     [(''dns_query.query_time_ms'', ''The time taken to complete the DNS query in milliseconds. Zero on timeout or error.'', ''ms''),
      (''dns_query.rcode_value'', ''The numeric DNS response code (rcode). 0=NOERROR, 3=NXDOMAIN, etc. Zero on timeout or error.'', ''1''),
      (''dns_query.result_code'', ''The result code of the DNS query: 0=success, 1=timeout, 2=error.'', ''1'')]"

abbreviation dns_ScopeName :: string where
  "dns_ScopeName \<equiv> ''github.com/solarwinds/solarwinds-otel-collector-contrib/receiver/dnsqueryreceiver''"

record dnsQueryScraper =
  ds_config :: dns_config
  ds_mb :: metrics_builder

definition newDNSQueryScraper :: "dns_config \<Rightarrow> string \<Rightarrow> u64 \<Rightarrow> dnsQueryScraper" where
  "newDNSQueryScraper cfg version now =
     \<lparr>ds_config = cfg, ds_mb = NewMetricsBuilder [] [] (map (Pair True) dns_metric_table) dns_ScopeName version now\<rparr>"

definition point_attributes :: "string \<Rightarrow> string \<Rightarrow> string \<Rightarrow> string \<Rightarrow> string \<Rightarrow> pmap" where
  "point_attributes domain rcode recordType result server =
     p_putStr ''dns_query.server'' server (p_putStr ''dns_query.result'' result (p_putStr ''dns_query.record_type'' recordType
       (p_putStr ''dns_query.rcode'' rcode (p_putStr ''dns_query.domain'' domain []))))"

definition record_result :: "string \<Rightarrow> u64 \<Rightarrow> dnsQueryResult \<Rightarrow> metrics_builder \<Rightarrow> metrics_builder" where
  "record_result recordType now r mb =
     (let attrs = point_attributes (dr_domain r) (dr_rcodeStr r) (record_type_attribute recordType) (result_attribute (dr_resultStr r)) (dr_server r);
          mb = mb_record ''dns_query.query_time_ms'' now (VDouble (dr_queryTimeMs r)) attrs mb;
          mb = mb_record ''dns_query.result_code'' now (VInt (dr_resultCode r)) attrs mb;
          mb = mb_record ''dns_query.rcode_value'' now (VInt (dr_rcodeValue r)) attrs mb
      in mb)"

text \<open>
  The queries run concurrently, each writing its own slot of the results: \<open>query\<close> gives the outcome of
  the query of a server and a domain.
\<close>

definition ScrapeMetrics :: "(string \<Rightarrow> string \<Rightarrow> dnsQueryResult) \<Rightarrow> u64 \<Rightarrow> dnsQueryScraper \<Rightarrow> metrics \<times> dnsQueryScraper" where
  "ScrapeMetrics query now s =
     (let pairs = concat (map (\<lambda>srv. map (\<lambda>dom. (srv, dom)) (dq_Domains (ds_config s))) (dq_Servers (ds_config s)));
          results = map (\<lambda>(srv, dom). query srv dom) pairs;
          (out, mb) = fold (\<lambda>r (out, mb). let (ms, mb) = mb_Emit [] (record_result (dq_RecordType (ds_config s)) now r mb) in (out @ ms, mb))
                        results ([], ds_mb s)
      in (out, s\<lparr>ds_mb := mb\<rparr>))"

section \<open>Properties\<close>

text \<open>What one query contributes to a scrape: one resource, without attributes of its own, whose three points name the query.\<close>

definition gauge_point :: "u64 \<Rightarrow> u64 \<Rightarrow> pmap \<Rightarrow> pvalue \<Rightarrow> metric_data" where
  "gauge_point start now attrs v = MGauge [\<lparr>dp_attrs = attrs, dp_startTimestamp = start, dp_timestamp = now, dp_value = v\<rparr>]"

definition query_resource :: "dnsQueryScraper \<Rightarrow> u64 \<Rightarrow> dnsQueryResult \<Rightarrow> resource_metrics" where
  "query_resource s now r =
     (let attrs = [(''dns_query.domain'', VStr (dr_domain r)), (''dns_query.rcode'', VStr (dr_rcodeStr r)),
            (''dns_query.record_type'', VStr (dq_RecordType (ds_config s))), (''dns_query.result'', VStr (dr_resultStr r)),
            (''dns_query.server'', VStr (dr_server r))];
          point = gauge_point (mb_startTime (ds_mb s)) now attrs in
      \<lparr>rm_attrs = [], rm_scopes = [\<lparr>sm_name = dns_ScopeName, sm_version = mb_version (ds_mb s), sm_attrs = [], sm_metrics =
        map (\<lambda>((name, description, unit), v). \<lparr>mt_name = name, mt_description = description, mt_unit = unit, mt_metadata = [], mt_data = point v\<rparr>)
          (zip dns_metric_table [VDouble (dr_queryTimeMs r), VInt (dr_rcodeValue r), VInt (dr_resultCode r)])\<rparr>]\<rparr>)"

lemma point_attributes_list:
  "point_attributes domain rcode recordType result server =
     [(''dns_query.domain'', VStr domain), (''dns_query.rcode'', VStr rcode), (''dns_query.record_type'', VStr recordType),
      (''dns_query.result'', VStr result), (''dns_query.server'', VStr server)]"
  by (simp add: point_attributes_def p_putStr_def p_put_def)

text \<open>The documented table of outcomes: a query that failed has no round trip time and no response code.\<close>

definition documented_outcome :: "dnsQueryResult \<Rightarrow> bool" where
  "documented_outcome r \<longleftrightarrow>
     (dr_resultStr r, dr_resultCode r) = (''success'', 0) \<or>
     (dr_resultStr r, dr_resultCode r) \<in> {(''timeout'', 1), (''error'', 2)} \<and>
       dr_queryTimeMs r = Finite 0 \<and> dr_rcodeValue r = 0 \<and> dr_rcodeStr r = []"

lemma queryDNS_outcome:
  "documented_outcome (queryDNS lib fl ctxErr c srv name) \<and> dr_server (queryDNS lib fl ctxErr c srv name) = srv \<and>
   dr_domain (queryDNS lib fl ctxErr c srv name) = name \<and>
   (dr_resultStr (queryDNS lib fl ctxErr c srv name) = ''success'' \<longleftrightarrow>
      (\<exists>reply. dl_Exchange lib (dq_Network c) (dq_Timeout c) (dl_Fqdn lib name) (dnsTypeFromString lib (dq_RecordType c))
        (net_JoinHostPort srv (strconv_Itoa (dq_Port c))) = Inr reply))"
  by (auto simp: documented_outcome_def queryDNS_def Let_def split: sum.split)

lemma record_result_records:
  "record_result recordType now r mb =
   (let attrs = point_attributes (dr_domain r) (dr_rcodeStr r) (record_type_attribute recordType) (result_attribute (dr_resultStr r)) (dr_server r)
    in mb_records [(''dns_query.query_time_ms'', now, VDouble (dr_queryTimeMs r), attrs), (''dns_query.result_code'', now, VInt (dr_resultCode r), attrs),
      (''dns_query.rcode_value'', now, VInt (dr_rcodeValue r), attrs)] mb)"
  by (simp add: record_result_def mb_records_def Let_def)

lemma query_emit:
  assumes "s = newDNSQueryScraper cfg version start" "dq_RecordType cfg \<in> set allowedRecordTypes"
    and "dr_resultStr r \<in> {''success'', ''timeout'', ''error''}"
  shows "mb_Emit [] (record_result (dq_RecordType cfg) now r (ds_mb s)) = ([query_resource s now r], ds_mb s)"
proof -
  have "mb_clean (ds_mb s)" by (simp add: assms(1) newDNSQueryScraper_def)
  note emit = mb_Emit_records [OF this]
  have attr: "record_type_attribute (dq_RecordType cfg) = dq_RecordType cfg" "result_attribute (dr_resultStr r) = dr_resultStr r"
    using assms(2,3) by (auto simp: record_type_attribute_def result_attribute_def)
  show ?thesis unfolding record_result_records Let_def emit attr
    by (simp add: assms(1) newDNSQueryScraper_def NewMetricsBuilder_def dns_metric_table_def bm_new_def recorded_metrics_def points_of_def
        query_resource_def gauge_point_def filtered_def point_attributes_list Let_def)
qed

text \<open>C30: A scrape of a created receiver whose configuration is valid has one resource per server and domain, in the order of the
  configuration, with the query time, the response code and the result code of that query; the server, the domain, the
  record type, the outcome and the response code's name are attributes of the points, and the resource itself
  has no attributes, although the documentation of the receiver lists three.  The outcome of every query is one of the three documented
  ones, successful exactly when the server replied.  The scraper is unchanged.
\<close>

theorem dns_scrape_covers_all_pairs:
  assumes "dns_Validate uni cfg = None" "s = newDNSQueryScraper cfg version start"
  shows "ScrapeMetrics (queryDNS lib fl ctxErr cfg) now s =
    (map (\<lambda>(srv, dom). query_resource s now (queryDNS lib fl ctxErr cfg srv dom)) (List.product (dq_Servers cfg) (dq_Domains cfg)), s) \<and>
    (\<forall>srv dom. let r = queryDNS lib fl ctxErr cfg srv dom in
       dr_server r = srv \<and> dr_domain r = dom \<and> documented_outcome r \<and>
       (dr_resultStr r = ''success'' \<longleftrightarrow>
          (\<exists>reply. dl_Exchange lib (dq_Network cfg) (dq_Timeout cfg) (dl_Fqdn lib dom) (dnsTypeFromString lib (dq_RecordType cfg))
             (net_JoinHostPort srv (strconv_Itoa (dq_Port cfg))) = Inr reply)))"
proof -
  let ?q = "queryDNS lib fl ctxErr cfg"
  have rt: "dq_RecordType cfg \<in> set allowedRecordTypes" using assms(1) by (auto simp: dns_Validate_def split: if_splits)
  have res: "dr_resultStr (?q srv dom) \<in> {''success'', ''timeout'', ''error''}" for srv dom
    by (auto simp: queryDNS_def Let_def split: sum.split)
  let ?step = "\<lambda>r (out, mb). let (ms, mb) = mb_Emit [] (record_result (dq_RecordType cfg) now r mb) in (out @ ms, mb)"
  have "fold ?step (map (\<lambda>(srv, dom). ?q srv dom) pairs) (out, ds_mb s) =
    (out @ map (\<lambda>(srv, dom). query_resource s now (?q srv dom)) pairs, ds_mb s)" for out pairs
    by (induction pairs arbitrary: out) (auto simp: query_emit [OF assms(2) rt res] Let_def)
  moreover have "ds_config s = cfg" "s\<lparr>ds_mb := ds_mb s\<rparr> = s" by (simp_all add: assms(2) newDNSQueryScraper_def)
  moreover have "concat (map (\<lambda>srv. map (\<lambda>dom. (srv, dom)) ds) ss) = List.product ss ds" for ss ds :: "string list"
    by (induction ss) simp_all
  ultimately show ?thesis by (simp add: ScrapeMetrics_def Let_def queryDNS_outcome)
qed

definition sample_dns_library :: dns_library where
  "sample_dns_library = \<lparr>dl_Fqdn = id, dl_StringToType = (\<lambda>_. None), dl_TypeNS = 2, dl_RcodeToString = (\<lambda>_. ''NOERROR''),
     dl_Exchange = (\<lambda>net t name ty addr. if addr = ''10.0.0.1:53'' then Inr (0, 2000000) else Inl (Some True))\<rparr>"

theorem dns_scrape_covers_all_pairs_witness:
  "let cfg = createDefaultConfig\<lparr>dq_Servers := [''10.0.0.1'', ''10.0.0.2'']\<rparr> in
   map (\<lambda>r. map mt_data (sm_metrics (hd (rm_scopes r))) ! 2)
     (fst (ScrapeMetrics (queryDNS sample_dns_library id False cfg) 9 (newDNSQueryScraper cfg ''1'' 5))) =
   [gauge_point 5 9 (point_attributes ''.'' ''NOERROR'' ''NS'' ''success'' ''10.0.0.1'') (VInt 0),
    gauge_point 5 9 (point_attributes ''.'' [] ''NS'' ''timeout'' ''10.0.0.2'') (VInt 1)]"
proof -
  define cfg where "cfg = createDefaultConfig\<lparr>dq_Servers := [''10.0.0.1'', ''10.0.0.2'']\<rparr>"
  have "dns_Validate (\<lambda>_. False) cfg = None"
    by (simp add: cfg_def createDefaultConfig_def dns_Validate_def blank_def is_ascii_def)
  note scrape = conjunct1 [OF dns_scrape_covers_all_pairs [OF this refl, of sample_dns_library id False 9 "''1''" 5]]
  have addr: "net_JoinHostPort ''10.0.0.1'' (strconv_Itoa 53) = ''10.0.0.1:53''" "net_JoinHostPort ''10.0.0.2'' (strconv_Itoa 53) = ''10.0.0.2:53''"
    by code_simp+
  show ?thesis unfolding cfg_def [symmetric] Let_def scrape
    by (simp add: cfg_def createDefaultConfig_def queryDNS_def addr sample_dns_library_def isTimeout_def query_resource_def point_attributes_list dns_metric_table_def
        newDNSQueryScraper_def NewMetricsBuilder_def Let_def)
qed

end
