(* ===== verification/Host_Providers.thy ===== *)
theory Host_Providers
  imports Pdata
begin

text \<open>
  The providers of the host metrics receiver on Linux (\<open>receiver/swohostmetricsreceiver/internal/providers\<close>):
  the parser of \<open>/proc/stat\<close>, the processors of the machine, the users that are logged in, installed
  packages, the domain, the time zone and the language.  Running a command, reading a file and the
  host library are arguments, as are float parsing and arithmetic, the calendar date of a
  time and the Unicode part of \<open>strings.Fields\<close> and \<open>strings.TrimSpace\<close>.  A provider sends what it finds
  on a channel and closes it: it is the list of the values it sends.
\<close>

section \<open>Text\<close>

definition is_space :: "char \<Rightarrow> bool" where
  "is_space c \<longleftrightarrow> of_char c \<in> {9, 10, 11, 12, 13, 32 :: nat}"

lemma dropWhile_less: "xs \<noteq> [] \<Longrightarrow> P (hd xs) \<Longrightarrow> length (dropWhile P xs) < length xs"
  by (cases xs) (auto simp: less_Suc_eq_le length_dropWhile_le)

function ascii_fields :: "string \<Rightarrow> string list" where
  "ascii_fields s =
     (let s' = dropWhile is_space s in
      if s' = [] then [] else takeWhile (\<lambda>c. \<not> is_space c) s' # ascii_fields (dropWhile (\<lambda>c. \<not> is_space c) s'))"
  by pat_completeness auto

termination
proof (relation "measure length")
  fix s s' :: string
  assume s': "s' = dropWhile is_space s" and ne: "s' \<noteq> []"
  have "\<not> is_space (hd s')" using hd_dropWhile [of is_space s] s' ne by simp
  then have "length (dropWhile (\<lambda>c. \<not> is_space c) s') < length s'" using ne by (intro dropWhile_less) auto
  also have "length s' \<le> length s" using s' by (simp add: length_dropWhile_le)
  finally show "(dropWhile (\<lambda>c. \<not> is_space c) s', s) \<in> measure length" by simp
qed simp

declare ascii_fields.simps [simp del]

record unicode_ops =
  uc_Fields :: "string \<Rightarrow> string list"
  uc_TrimSpace :: "string \<Rightarrow> string"

definition strings_Fields :: "unicode_ops \<Rightarrow> string \<Rightarrow> string list" where
  "strings_Fields uc s = (if is_ascii s then ascii_fields s else uc_Fields uc s)"

definition strings_TrimSpace :: "unicode_ops \<Rightarrow> string \<Rightarrow> string" where
  "strings_TrimSpace uc s = (if is_ascii s then rev (dropWhile is_space (rev (dropWhile is_space s))) else uc_TrimSpace uc s)"

definition strings_HasSuffix :: "string \<Rightarrow> string \<Rightarrow> bool" where
  "strings_HasSuffix s t = strings_HasPrefix (rev s) (rev t)"

text \<open>\<open>strings.Split\<close> with a separator that is not empty.\<close>

fun cut_str :: "string \<Rightarrow> string \<Rightarrow> (string \<times> string) option" where
  "cut_str sep [] = None"
| "cut_str sep (c # s) =
     (if strings_HasPrefix (c # s) sep then Some ([], drop (length sep) (c # s))
      else map_option (\<lambda>(a, b). (c # a, b)) (cut_str sep s))"

lemma cut_str_length: "cut_str sep s = Some (a, b) \<Longrightarrow> sep \<noteq> [] \<Longrightarrow> length b < length s"
  by (induction sep s arbitrary: a rule: cut_str.induct) (auto split: if_splits intro: less_SucI)

function split_str :: "string \<Rightarrow> string \<Rightarrow> string list" where
  "split_str sep s = (if sep = [] then [s] else case cut_str sep s of None \<Rightarrow> [s] | Some (a, b) \<Rightarrow> a # split_str sep b)"
  by pat_completeness auto

termination
  by (relation "measure (\<lambda>(sep, s). length s)") (auto dest: cut_str_length)

declare split_str.simps [simp del]

definition ParseKeyValue :: "unicode_ops \<Rightarrow> string \<Rightarrow> string \<Rightarrow> string list \<Rightarrow> (string, string) gomap" where
  "ParseKeyValue uc text separator keys =
     fold (\<lambda>line m.
       case split_str separator (strings_TrimSpace uc line) of
         [k, v] \<Rightarrow> if k \<in> set keys then gm_put k v m else m
       | _ \<Rightarrow> m) (strings_Split text CHR 0x0A) []"

section \<open>Commands\<close>

text \<open>Standard output, standard error and the error of a command.\<close>

type_synonym command_result = "string \<times> string \<times> string option"

definition ProcessCommand :: "(string \<Rightarrow> command_result) \<Rightarrow> string \<Rightarrow> (string, string) result" where
  "ProcessCommand execute command =
     (let (stdout, stderr, err) = execute command in
      case err of Some e \<Rightarrow> Inl e | None \<Rightarrow> if stderr \<noteq> [] then Inl stderr else Inr stdout)"

section \<open>Processor statistics\<close>

record float_ops =
  fo_Parse :: "string \<Rightarrow> float64 option"
  fo_mul :: "float64 \<Rightarrow> float64 \<Rightarrow> float64"
  fo_add :: "float64 \<Rightarrow> float64 \<Rightarrow> float64"

record work_detail =
  wd_AttrName :: string
  wd_AttrValue :: string
  wd_Value :: float64

datatype cpu_error =
    ReadFailed string
  | UnexpectedElements nat
  | InvalidCpuValue string
  | InvalidRowValue string string
  | IndexOutOfRange

record cpu_stats =
  cs_WorkDetails :: "(string, work_detail list) gomap"
  cs_Error :: "cpu_error option"
  cs_total :: float64
  cs_numCPUs :: nat

definition cpu_line_format :: "string list" where
  "cpu_line_format = [''user'', ''nice'', ''system'', ''idle'', ''io_waits'', ''irq'', ''softirq'', ''steal'', ''guest'', ''guest_nice'']"

definition field_mapping :: "string \<Rightarrow> string" where
  "field_mapping rowtype =
     (if rowtype = ''ctxt'' then ''ctxt'' else if rowtype = ''processes'' then ''processes'' else if rowtype = ''intr'' then ''intr''
      else if rowtype \<in> {''procs_running'', ''procs_blocked''} then ''current_procs'' else [])"

definition add_detail :: "string \<Rightarrow> work_detail \<Rightarrow> cpu_stats \<Rightarrow> cpu_stats" where
  "add_detail k d c =
     c\<lparr>cs_WorkDetails := gm_put k ((case gm_get (cs_WorkDetails c) k of None \<Rightarrow> [] | Some ds \<Rightarrow> ds) @ [d]) (cs_WorkDetails c)\<rparr>"

text \<open>The fields of the \<open>cpu\<close> row from index \<open>i\<close> on; reading a name beyond the table panics.\<close>

fun cpu_fields :: "float_ops \<Rightarrow> nat \<Rightarrow> string list \<Rightarrow> cpu_stats \<Rightarrow> cpu_stats" where
  "cpu_fields fo i [] c = c"
| "cpu_fields fo i (s # ss) c =
     (case fo_Parse fo s of
        None \<Rightarrow> c\<lparr>cs_Error := Some (InvalidCpuValue s)\<rparr>
      | Some value \<Rightarrow>
          if i \<ge> length cpu_line_format then c\<lparr>cs_Error := Some IndexOutOfRange\<rparr>
          else
            let v = fo_mul fo value (Finite 10000);
                c = add_detail ''cpu_time'' \<lparr>wd_AttrName = ''mode'', wd_AttrValue = cpu_line_format ! i, wd_Value = v\<rparr> c;
                c = (if i \<noteq> 3 then c\<lparr>cs_total := fo_add fo (cs_total c) v\<rparr> else c)
            in cpu_fields fo (Suc i) ss c)"

definition is_number :: "string \<Rightarrow> bool" where
  "is_number s = (strconv_ParseInt s \<noteq> None)"

definition counter_row :: "string \<Rightarrow> bool" where
  "counter_row rowtype \<longleftrightarrow> rowtype \<in> {''ctxt'', ''processes'', ''intr'', ''procs_running'', ''procs_blocked''}"

definition processCPUStatsLine :: "float_ops \<Rightarrow> string \<Rightarrow> string list \<Rightarrow> cpu_stats \<Rightarrow> cpu_stats" where
  "processCPUStatsLine fo rowtype vals c =
     (if rowtype = ''cpu'' then cpu_fields fo 0 vals c
      else if counter_row rowtype
      then case fo_Parse fo (hd vals) of
             None \<Rightarrow> c\<lparr>cs_Error := Some (InvalidRowValue rowtype (hd vals))\<rparr>
           | Some value \<Rightarrow>
               add_detail (field_mapping rowtype)
                 \<lparr>wd_AttrName = (if rowtype \<in> {''procs_running'', ''procs_blocked''} then ''state'' else []), wd_AttrValue = rowtype, wd_Value = value\<rparr> c
      else if is_number (strings_TrimPrefix rowtype ''cpu'') then c\<lparr>cs_numCPUs := cs_numCPUs c + 1\<rparr>
      else c)"

fun cpu_lines :: "float_ops \<Rightarrow> unicode_ops \<Rightarrow> string list \<Rightarrow> cpu_stats \<Rightarrow> cpu_stats" where
  "cpu_lines fo uc [] c =
     add_detail ''numcores'' \<lparr>wd_AttrName = [], wd_AttrValue = [], wd_Value = Finite (of_nat (cs_numCPUs c))\<rparr>
       (add_detail ''cpu_time'' \<lparr>wd_AttrName = ''mode'', wd_AttrValue = ''total'', wd_Value = cs_total c\<rparr> c)"
| "cpu_lines fo uc (line # ls) c =
     (case strings_Fields uc line of
        [] \<Rightarrow> cpu_lines fo uc ls c
      | [_] \<Rightarrow> c\<lparr>cs_Error := Some (UnexpectedElements 1)\<rparr>
      | rowtype # vals \<Rightarrow>
        (let c = processCPUStatsLine fo rowtype vals c in
         if cs_Error c \<noteq> None then c else cpu_lines fo uc ls c))"

text \<open>The lines of a file, each ended by a newline; what follows the last newline is not read.\<close>

definition parseCPUStatsLinux :: "float_ops \<Rightarrow> unicode_ops \<Rightarrow> string \<Rightarrow> cpu_stats" where
  "parseCPUStatsLinux fo uc file =
     cpu_lines fo uc (butlast (strings_Split file CHR 0x0A))
       \<lparr>cs_WorkDetails = [], cs_Error = None, cs_total = Finite 0, cs_numCPUs = 0\<rparr>"

definition readCPUFileStats :: "float_ops \<Rightarrow> unicode_ops \<Rightarrow> (string, string) result \<Rightarrow> cpu_stats" where
  "readCPUFileStats fo uc file =
     (case file of
        Inl e \<Rightarrow> \<lparr>cs_WorkDetails = [], cs_Error = Some (ReadFailed e), cs_total = Finite 0, cs_numCPUs = 0\<rparr>
      | Inr s \<Rightarrow> parseCPUStatsLinux fo uc s)"

text \<open>
  The provider of processor statistics is created once for all emitters.  Its goroutine reads the file at once and then with
  every tick; a call of \<open>Provide\<close> sends the statistics that it has.  The lock makes each of them one event.
\<close>

record cpu_provider =
  cp_container :: cpu_stats

definition zero_stats :: cpu_stats where
  "zero_stats = \<lparr>cs_WorkDetails = [], cs_Error = None, cs_total = Finite 0, cs_numCPUs = 0\<rparr>"

definition createProvider :: "cpu_provider option \<Rightarrow> cpu_provider" where
  "createProvider singleton = (case singleton of None \<Rightarrow> \<lparr>cp_container = zero_stats\<rparr> | Some p \<Rightarrow> p)"

datatype provider_event = ReadStats "(string, string) result" | Provided

fun provider_run :: "float_ops \<Rightarrow> unicode_ops \<Rightarrow> provider_event list \<Rightarrow> cpu_provider \<Rightarrow> cpu_stats list" where
  "provider_run fo uc [] p = []"
| "provider_run fo uc (ReadStats file # es) p = provider_run fo uc es (p\<lparr>cp_container := readCPUFileStats fo uc file\<rparr>)"
| "provider_run fo uc (Provided # es) p = cp_container p # provider_run fo uc es p"

section \<open>Processors\<close>

text \<open>What the host library reports per virtual processor; \<open>trunc\<close> is the conversion of the speed.\<close>

record cpu_info =
  ci_PhysicalID :: string
  ci_CoreID :: string
  ci_ModelName :: string
  ci_VendorID :: string
  ci_Mhz :: float64
  ci_Model :: string
  ci_Stepping :: int

record processor =
  pc_Name :: string
  pc_Manufacturer :: string
  pc_Speed :: float64
  pc_Cores :: "32 word"
  pc_Threads :: "32 word"
  pc_Model :: string
  pc_Stepping :: string
  pc_SocketID :: string

definition new_processor :: "cpu_info \<Rightarrow> processor" where
  "new_processor i = \<lparr>pc_Name = ci_ModelName i, pc_Manufacturer = ci_VendorID i, pc_Speed = ci_Mhz i, pc_Cores = 0, pc_Threads = 0,
     pc_Model = ci_Model i, pc_Stepping = strconv_Itoa (ci_Stepping i), pc_SocketID = ci_PhysicalID i\<rparr>"

definition add_info :: "cpu_info \<Rightarrow> (string, processor) gomap \<times> (string \<times> string) list \<Rightarrow> (string, processor) gomap \<times> (string \<times> string) list" where
  "add_info i = (\<lambda>(processors, cores).
     let p = (case gm_get processors (ci_PhysicalID i) of Some p \<Rightarrow> p | None \<Rightarrow> new_processor i);
         p = p\<lparr>pc_Threads := pc_Threads p + 1\<rparr>;
         coreKey = (ci_PhysicalID i, ci_CoreID i);
         (p, cores) = (if coreKey \<in> set cores then (p, cores) else (p\<lparr>pc_Cores := pc_Cores p + 1\<rparr>, coreKey # cores))
     in (gm_put (ci_PhysicalID i) p processors, cores))"

definition cpu_Provide ::
  "((string, processor) gomap \<Rightarrow> (string, processor) gomap) \<Rightarrow> (string, cpu_info list) result \<Rightarrow> (string, processor list) result" where
  "cpu_Provide ord info =
     (case info of
        Inl e \<Rightarrow> Inl e
      | Inr infoStats \<Rightarrow> Inr (map snd (ord (fst (fold add_info infoStats ([], []))))))"

section \<open>Users\<close>

record logged_user =
  us_Name :: string
  us_DisplayName :: string
  us_TTY :: string

definition parseNthColumn :: "unicode_ops \<Rightarrow> string \<Rightarrow> nat \<Rightarrow> string" where
  "parseNthColumn uc text index =
     (let splitText = strings_Fields uc text in if length splitText \<le> index then [] else splitText ! index)"

definition user_of_record :: "unicode_ops \<Rightarrow> string \<Rightarrow> logged_user list" where
  "user_of_record uc line =
     (let line = strings_TrimSpace uc line in
      if \<not> strings_HasSuffix line ''still logged in'' then []
      else let username = parseNthColumn uc line 0; tty = parseNthColumn uc line 1 in
           if username \<noteq> [] then [\<lparr>us_Name = username, us_DisplayName = [], us_TTY = tty\<rparr>] else [])"

definition getUsers :: "unicode_ops \<Rightarrow> string \<Rightarrow> logged_user list" where
  "getUsers uc output = concat (map (user_of_record uc) (strings_Split output CHR 0x0A))"

definition users_Provide :: "unicode_ops \<Rightarrow> (string \<Rightarrow> command_result) \<Rightarrow> (string, logged_user list) result" where
  "users_Provide uc execute = map_sum id (getUsers uc) (ProcessCommand execute ''last -R | head -n -2'')"

section \<open>Installed packages\<close>

record installed_software =
  is_Name :: string
  is_Publisher :: string
  is_Version :: string
  is_InstallDate :: string

text \<open>
  The pattern of a line of \<open>dpkg\<close>: \<open>ii\<close>, two groups of printable characters after white space, and white
  space followed by at least one more character.  The groups cannot contain white space and white
  space is not printable, so the match is unique up to the last part.
\<close>

definition re_space :: "char \<Rightarrow> bool" where
  "re_space c \<longleftrightarrow> of_char c \<in> {9, 10, 12, 13, 32 :: nat}"

definition re_graph :: "char \<Rightarrow> bool" where
  "re_graph c \<longleftrightarrow> 33 \<le> (of_char c :: nat) \<and> of_char c \<le> (126 :: nat)"

definition re_group :: "string \<Rightarrow> (string \<times> string) option" where
  "re_group s =
     (let s' = dropWhile re_space s; g = takeWhile re_graph s' in
      if s' = s \<or> g = [] then None else Some (g, dropWhile re_graph s'))"

definition dpkg_match :: "string \<Rightarrow> (string \<times> string) option" where
  "dpkg_match pkg =
     (if take 2 pkg \<noteq> ''ii'' then None
      else case re_group (drop 2 pkg) of
             None \<Rightarrow> None
           | Some (name, rest) \<Rightarrow>
             (case re_group rest of
                None \<Rightarrow> None
              | Some (version, rest) \<Rightarrow>
                  if length rest \<ge> 2 \<and> re_space (hd rest) \<and> CHR 0x0A \<notin> set (drop 1 rest) then Some (name, version) else None))"

definition dpkg_parse :: "string \<Rightarrow> installed_software list" where
  "dpkg_parse output =
     concat (map (\<lambda>pkg. case dpkg_match pkg of
         None \<Rightarrow> []
       | Some (name, version) \<Rightarrow> [\<lparr>is_Name = name, is_Publisher = [], is_Version = version, is_InstallDate = []\<rparr>])
       (strings_Split output CHR 0x0A))"

definition transformWithPredfinedLength :: "int \<Rightarrow> nat \<Rightarrow> string" where
  "transformWithPredfinedLength number predefinedLength =
     (let result = strconv_Itoa number; currentLength = length result in
      if currentLength < predefinedLength then replicate (predefinedLength - currentLength) (CHR ''0'') @ result else result)"

text \<open>\<open>date\<close> gives year, month and day of a time in seconds.\<close>

definition assemblyTimestamp :: "(int \<Rightarrow> int \<times> int \<times> int) \<Rightarrow> string \<Rightarrow> string" where
  "assemblyTimestamp date unixFormat =
     (case strconv_ParseInt unixFormat of
        None \<Rightarrow> []
      | Some seconds \<Rightarrow>
        (let (y, m, d) = date seconds in
         transformWithPredfinedLength y 4 @ ''-'' @ transformWithPredfinedLength m 2 @ ''-'' @ transformWithPredfinedLength d 2))"

definition rpm_parse :: "(int \<Rightarrow> int \<times> int \<times> int) \<Rightarrow> string \<Rightarrow> installed_software list" where
  "rpm_parse date stdout =
     concat (map (\<lambda>pkg.
       let group = strings_Split pkg CHR '';'' in
       if length group < 3 then []
       else [\<lparr>is_Name = group ! 0, is_Publisher = [], is_Version = group ! 1, is_InstallDate = assemblyTimestamp date (group ! 2)\<rparr>])
       (strings_Split stdout CHR 0x0A))"

definition dpkg_GetSoftware :: "(string \<Rightarrow> command_result) \<Rightarrow> (string, installed_software list) result" where
  "dpkg_GetSoftware execute =
     (let (stdout, _, err) = execute ''dpkg -l | grep ^ii'' in case err of Some e \<Rightarrow> Inl e | None \<Rightarrow> Inr (dpkg_parse stdout))"

definition rpm_command :: string where
  "rpm_command = ''rpm -qa --qf '' @ [CHR 0x27] @ ''%{NAME};%{VERSION};%{INSTALLTIME}'' @ [CHR 0x0A, CHR 0x27]"

definition rpm_GetSoftware :: "(int \<Rightarrow> int \<times> int \<times> int) \<Rightarrow> (string \<Rightarrow> command_result) \<Rightarrow> (string, installed_software list) result" where
  "rpm_GetSoftware date execute =
     (let (stdout, _, err) = execute rpm_command in case err of Some e \<Rightarrow> Inl e | None \<Rightarrow> Inr (rpm_parse date stdout))"

text \<open>The first discovered provider in the order in which the map is ranged over.\<close>

definition discoverProvider :: "((string, bool \<times> 'p) gomap \<Rightarrow> (string, bool \<times> 'p) gomap) \<Rightarrow> (string, bool \<times> 'p) gomap \<Rightarrow> 'p \<Rightarrow> 'p" where
  "discoverProvider ord discoverable fallback =
     (case find (\<lambda>(_, found, _). found) (ord discoverable) of Some (_, _, p) \<Rightarrow> p | None \<Rightarrow> fallback)"

definition dpkg_Discover :: "(string \<Rightarrow> command_result) \<Rightarrow> bool" where
  "dpkg_Discover execute = (let (_, _, err) = execute ''dpkg --version'' in err = None)"

definition rpm_Discover :: "(string \<Rightarrow> command_result) \<Rightarrow> bool" where
  "rpm_Discover execute = (let (_, _, err) = execute ''rpm --version'' in err = None)"

text \<open>The provider when no package manager is discovered.\<close>

definition linuxProvider_GetSoftware :: "(string, installed_software list) result" where
  "linuxProvider_GetSoftware = Inr []"

text \<open>A provider of installed software answers with the results of commands; \<open>execute\<close> are those when it is created.\<close>

type_synonym software_provider = "(string \<Rightarrow> command_result) \<Rightarrow> (string, installed_software list) result"

definition NewInstalledSoftwareProvider ::
  "((string, bool \<times> software_provider) gomap \<Rightarrow> (string, bool \<times> software_provider) gomap) \<Rightarrow> (int \<Rightarrow> int \<times> int \<times> int)
   \<Rightarrow> (string \<Rightarrow> command_result) \<Rightarrow> software_provider" where
  "NewInstalledSoftwareProvider ord date execute =
     discoverProvider ord [(''rpm'', rpm_Discover execute, rpm_GetSoftware date), (''dpkg'', dpkg_Discover execute, dpkg_GetSoftware)]
       (\<lambda>_. linuxProvider_GetSoftware)"

section \<open>Domain, time zone and language\<close>

record host_domain =
  hd_Domain :: string
  hd_FQDN :: string
  hd_DomainRole :: int
  hd_Workgroup :: string

definition domain_Provide :: "(string \<Rightarrow> command_result) \<Rightarrow> host_domain" where
  "domain_Provide execute =
     (let d = \<lparr>hd_Domain = [], hd_FQDN = [], hd_DomainRole = - 1, hd_Workgroup = []\<rparr>;
          d = (case ProcessCommand execute ''hostname --fqdn'' of Inl _ \<Rightarrow> d | Inr s \<Rightarrow> d\<lparr>hd_FQDN := s\<rparr>)
      in case ProcessCommand execute ''hostname -d'' of Inl _ \<Rightarrow> d | Inr s \<Rightarrow> d\<lparr>hd_Domain := s\<rparr>)"

record time_zone =
  tz_Bias :: int
  tz_StandardName :: string
  tz_Caption :: string

definition value_or_empty :: "(string, string) gomap \<Rightarrow> string \<Rightarrow> string" where
  "value_or_empty m k = (case gm_get m k of None \<Rightarrow> [] | Some v \<Rightarrow> v)"

definition timezone_Provide :: "unicode_ops \<Rightarrow> (string \<Rightarrow> command_result) \<Rightarrow> time_zone" where
  "timezone_Provide uc execute =
     (let result = \<lparr>tz_Bias = - 1, tz_StandardName = [], tz_Caption = []\<rparr> in
      case ProcessCommand execute (''timedatectl | grep '' @ [CHR 0x27] @ ''Time zone'' @ [CHR 0x27]) of
        Inl _ \<Rightarrow> result
      | Inr stdout \<Rightarrow> result\<lparr>tz_Caption := value_or_empty (ParseKeyValue uc stdout '': '' [''Time zone'']) ''Time zone''\<rparr>)"

record host_language =
  hl_LCID :: int
  hl_Name :: string
  hl_DisplayName :: string

definition language_Provide :: "unicode_ops \<Rightarrow> (string \<Rightarrow> command_result) \<Rightarrow> host_language list" where
  "language_Provide uc execute =
     (case ProcessCommand execute ''localectl'' of
        Inl _ \<Rightarrow> []
      | Inr stdout \<Rightarrow> [\<lparr>hl_LCID = 0, hl_Name = value_or_empty (ParseKeyValue uc stdout ''='' [''LANGUAGE'']) ''LANGUAGE'', hl_DisplayName = []\<rparr>])"

section \<open>Processors are counted by socket\<close>

definition infos_of :: "string \<Rightarrow> cpu_info list \<Rightarrow> cpu_info list" where
  "infos_of socket infos = filter (\<lambda>i. ci_PhysicalID i = socket) infos"

text \<open>The processor of a socket: described by its first virtual processor, with a thread per virtual
  processor and a core per core identifier.\<close>

definition socket_processor :: "cpu_info list \<Rightarrow> string \<Rightarrow> processor option" where
  "socket_processor infos socket =
     (case infos_of socket infos of
        [] \<Rightarrow> None
      | i # is \<Rightarrow> Some ((new_processor i)\<lparr>pc_Threads := of_nat (length (i # is)), pc_Cores := of_nat (card (ci_CoreID ` set (i # is)))\<rparr>))"

lemma cores_seen:
  "set (snd (fold add_info infos (ps, cs))) = (\<lambda>i. (ci_PhysicalID i, ci_CoreID i)) ` set infos \<union> set cs"
  by (induction infos arbitrary: ps cs) (auto simp: add_info_def Let_def split: if_splits)

definition counted :: "bool \<Rightarrow> processor \<Rightarrow> processor" where
  "counted known p = p\<lparr>pc_Threads := pc_Threads p + 1, pc_Cores := pc_Cores p + (if known then 0 else 1)\<rparr>"

lemma add_info_get:
  "gm_get (fst (add_info i (ps, cs))) s =
   (if s = ci_PhysicalID i
    then Some (counted ((ci_PhysicalID i, ci_CoreID i) \<in> set cs) (case gm_get ps s of Some p \<Rightarrow> p | None \<Rightarrow> new_processor i))
    else gm_get ps s)"
  by (auto simp: add_info_def counted_def Let_def gomap_simps split: option.split)

lemma socket_processor_snoc:
  "socket_processor (infos @ [i]) s =
   (if s = ci_PhysicalID i
    then Some (counted (ci_CoreID i \<in> ci_CoreID ` set (infos_of s infos)) (case socket_processor infos s of Some p \<Rightarrow> p | None \<Rightarrow> new_processor i))
    else socket_processor infos s)"
proof (cases "infos_of s infos")
  case Nil
  then have "infos_of s (infos @ [i]) = (if s = ci_PhysicalID i then [i] else [])" by (simp add: infos_of_def)
  with Nil show ?thesis by (cases "s = ci_PhysicalID i") (simp_all add: socket_processor_def counted_def new_processor_def)
next
  case (Cons j js)
  let ?A = "ci_CoreID ` set (j # js)"
  have "card (insert (ci_CoreID i) ?A) = card ?A + (if ci_CoreID i \<in> ?A then 0 else 1)" by (auto simp: insert_absorb)
  moreover have "ci_CoreID ` set (j # js @ [i]) = insert (ci_CoreID i) ?A" by auto
  ultimately have c: "(of_nat (card (ci_CoreID ` set (j # js @ [i]))) :: 32 word) = of_nat (card ?A) + (if ci_CoreID i \<in> ?A then 0 else 1)"
    by (simp del: list.set image_insert)
  show ?thesis
  proof (cases "s = ci_PhysicalID i")
    case True
    then have "infos_of s (infos @ [i]) = infos_of s infos @ [i]" by (simp add: infos_of_def)
    then show ?thesis using True c Cons by (simp add: socket_processor_def counted_def del: list.set image_insert set_append)
  next
    case False
    then have "infos_of s (infos @ [i]) = infos_of s infos" by (simp add: infos_of_def)
    with False show ?thesis by (simp add: socket_processor_def)
  qed
qed

lemma processors_by_socket: "gm_get (fst (fold add_info infos ([], []))) socket = socket_processor infos socket"
proof (induction infos arbitrary: socket rule: rev_induct)
  case Nil
  then show ?case by (simp add: socket_processor_def infos_of_def)
next
  case (snoc i infos)
  obtain ps cs where f: "fold add_info infos ([], []) = (ps, cs)" by fastforce
  have get: "gm_get ps s = socket_processor infos s" for s using snoc.IH [of s] f by simp
  have seen: "(ci_PhysicalID i, ci_CoreID i) \<in> set cs \<longleftrightarrow> ci_CoreID i \<in> ci_CoreID ` set (infos_of (ci_PhysicalID i) infos)"
  proof -
    have "set cs = (\<lambda>i. (ci_PhysicalID i, ci_CoreID i)) ` set infos" using cores_seen [of infos "[]" "[]"] f by simp
    then show ?thesis by (auto simp: infos_of_def image_iff) metis
  qed
  have "fold add_info (infos @ [i]) ([], []) = add_info i (ps, cs)" by (simp add: f)
  then show ?case unfolding socket_processor_snoc by (simp only: add_info_get get seen cong: if_cong)
qed

lemma socket_of_processor: "socket_processor infos s = Some p \<Longrightarrow> pc_SocketID p = s"
proof -
  assume *: "socket_processor infos s = Some p"
  then obtain i js where i: "infos_of s infos = i # js" by (cases "infos_of s infos") (auto simp: socket_processor_def)
  then have "i \<in> set (infos_of s infos)" by simp
  then have "ci_PhysicalID i = s" by (simp add: infos_of_def)
  with * i show "pc_SocketID p = s" by (auto simp: socket_processor_def new_processor_def)
qed

lemma processors_wf: "gm_wf (fst (fold add_info infos ([], [])))"
proof -
  have "gm_wf ps \<Longrightarrow> gm_wf (fst (fold add_info infos (ps, cs)))" for ps cs
    by (induction infos arbitrary: ps cs) (auto simp: add_info_def Let_def)
  then show ?thesis by simp
qed

text \<open>The provider reports one processor per socket, with as many threads as the library lists virtual
  processors of the socket and as many cores as they have core identifiers, modulo 32 bits.
\<close>

theorem processors_counted:
  assumes "map_order ord"
  shows "\<exists>processors. cpu_Provide ord (Inr infos) = Inr processors \<and> distinct (map pc_SocketID processors) \<and>
    (\<forall>p. p \<in> set processors \<longleftrightarrow> socket_processor infos (pc_SocketID p) = Some p)"
proof -
  let ?m = "fst (fold add_info infos ([], []))"
  let ?ps = "map snd (ord ?m)"
  have wf: "gm_wf (ord ?m)" using assms processors_wf by (simp add: map_order_wf)
  have mem: "(s, p) \<in> set (ord ?m) \<longleftrightarrow> socket_processor infos s = Some p" for s p
    using gm_get_in [OF wf, of s p] map_order_map_of [OF assms processors_wf] processors_by_socket by metis
  have socket: "pc_SocketID p = s" if "(s, p) \<in> set (ord ?m)" for s p using that mem socket_of_processor by blast
  have "map pc_SocketID ?ps = map fst (ord ?m)" using socket by force
  then have "distinct (map pc_SocketID ?ps)" using wf unfolding gm_wf_def by (simp only:)
  moreover have "p \<in> set ?ps \<longleftrightarrow> socket_processor infos (pc_SocketID p) = Some p" for p
    using mem socket by (auto, metis image_eqI snd_conv)
  ultimately show ?thesis by (auto simp: cpu_Provide_def)
qed

text \<open>A socket with two hyper-threaded cores.\<close>

definition sample_info :: "string \<Rightarrow> cpu_info" where
  "sample_info core = \<lparr>ci_PhysicalID = ''0'', ci_CoreID = core, ci_ModelName = ''m'', ci_VendorID = ''v'', ci_Mhz = Finite 2000,
     ci_Model = ''1'', ci_Stepping = 3\<rparr>"

theorem processors_counted_witness:
  "\<exists>p. cpu_Provide rev (Inr [sample_info ''a'', sample_info ''b'', sample_info ''a'', sample_info ''b'']) = Inr [p] \<and> pc_Threads p = 4 \<and> pc_Cores p = 2"
proof -
  let ?is = "[sample_info ''a'', sample_info ''b'', sample_info ''a'', sample_info ''b'']"
  obtain ps where ps: "cpu_Provide rev (Inr ?is) = Inr ps" "distinct (map pc_SocketID ps)"
    "\<forall>p. p \<in> set ps \<longleftrightarrow> socket_processor ?is (pc_SocketID p) = Some p"
    using processors_counted [OF map_order_rev, of ?is] by blast
  define p where "p = (new_processor (sample_info ''a''))\<lparr>pc_Threads := 4, pc_Cores := 2\<rparr>"
  have s: "socket_processor ?is s = (if s = ''0'' then Some p else None)" for s
    by (simp add: socket_processor_def infos_of_def sample_info_def p_def card_insert_if)
  have "pc_SocketID p = ''0''" by (simp add: p_def new_processor_def sample_info_def)
  then have "set ps = {p}" using ps(3) by (auto simp: s split: if_splits)
  moreover have "length ps = 1" using ps(2) calculation distinct_card [of ps] by (simp add: distinct_map)
  then obtain x where "ps = [x]" by (cases ps) auto
  ultimately have "ps = [p]" by simp
  with ps(1) show ?thesis by (simp add: p_def)
qed

section \<open>Rows of the processor statistics\<close>

text \<open>What a row contributes to a field when its values parse.\<close>

definition cpu_row_details :: "float_ops \<Rightarrow> string list \<Rightarrow> work_detail list" where
  "cpu_row_details fo vals =
     map (\<lambda>(name, s). \<lparr>wd_AttrName = ''mode'', wd_AttrValue = name, wd_Value = fo_mul fo (the (fo_Parse fo s)) (Finite 10000)\<rparr>)
       (zip cpu_line_format vals)"

definition row_details :: "float_ops \<Rightarrow> string \<Rightarrow> string list \<Rightarrow> work_detail list" where
  "row_details fo k row =
     (let rowtype = hd row; vals = tl row in
      if rowtype = ''cpu'' then if k = ''cpu_time'' then cpu_row_details fo vals else []
      else if counter_row rowtype \<and> field_mapping rowtype = k
      then [\<lparr>wd_AttrName = (if rowtype \<in> {''procs_running'', ''procs_blocked''} then ''state'' else []), wd_AttrValue = rowtype, wd_Value = the (fo_Parse fo (hd vals))\<rparr>]
      else [])"

abbreviation details :: "cpu_stats \<Rightarrow> string \<Rightarrow> work_detail list" where
  "details c k \<equiv> (case gm_get (cs_WorkDetails c) k of None \<Rightarrow> [] | Some ds \<Rightarrow> ds)"

lemma details_add: "details (add_detail k d c) k' = details c k' @ (if k' = k then [d] else [])"
  by (simp add: add_detail_def gomap_simps split: option.split)

lemma add_detail_simps [simp]:
  "cs_Error (add_detail k d c) = cs_Error c" "cs_total (add_detail k d c) = cs_total c" "cs_numCPUs (add_detail k d c) = cs_numCPUs c"
  "details (c\<lparr>cs_total := t\<rparr>) k' = details c k'" "details (c\<lparr>cs_numCPUs := n\<rparr>) k' = details c k'"
  by (simp_all add: add_detail_def)

text \<open>The processor time that is not idle, added up in the order of the modes.\<close>

definition busy_time :: "float_ops \<Rightarrow> work_detail list \<Rightarrow> float64 \<Rightarrow> float64" where
  "busy_time fo ds t = fold (\<lambda>d t. fo_add fo t (wd_Value d)) (filter (\<lambda>d. wd_AttrValue d \<noteq> ''idle'') ds) t"

lemma busy_time_simps [simp]:
  "busy_time fo [] t = t"
  "busy_time fo (d # ds) t = busy_time fo ds (if wd_AttrValue d \<noteq> ''idle'' then fo_add fo t (wd_Value d) else t)"
  "busy_time fo (ds @ es) t = busy_time fo es (busy_time fo ds t)"
  by (simp_all add: busy_time_def)

lemma idle_position: "i < length cpu_line_format \<Longrightarrow> cpu_line_format ! i = ''idle'' \<longleftrightarrow> i = 3"
  by (auto simp: cpu_line_format_def nth_Cons split: nat.splits)

lemma cpu_fields_ok:
  assumes "cs_Error (cpu_fields fo i vals c) = None" "i \<le> length cpu_line_format"
  defines "ds \<equiv> map (\<lambda>(name, s). \<lparr>wd_AttrName = ''mode'', wd_AttrValue = name, wd_Value = fo_mul fo (the (fo_Parse fo s)) (Finite 10000)\<rparr>)
        (zip (drop i cpu_line_format) vals)"
  shows "i + length vals \<le> length cpu_line_format \<and> cs_Error c = None \<and> cs_numCPUs (cpu_fields fo i vals c) = cs_numCPUs c \<and>
    cs_total (cpu_fields fo i vals c) = busy_time fo ds (cs_total c) \<and>
    details (cpu_fields fo i vals c) k = details c k @ (if k = ''cpu_time'' then ds else [])"
  using assms(1,2) unfolding ds_def
proof (induction vals arbitrary: i c)
  case (Cons s vals)
  obtain v where v: "fo_Parse fo s = Some v" using Cons.prems(1) by (cases "fo_Parse fo s") auto
  have i: "i < length cpu_line_format" using Cons.prems(1) v by (cases "i < length cpu_line_format") auto
  have d: "drop i cpu_line_format = cpu_line_format ! i # drop (Suc i) cpu_line_format" using i by (rule Cons_nth_drop_Suc [symmetric])
  let ?w = "fo_mul fo v (Finite 10000)"
  let ?a = "add_detail ''cpu_time'' \<lparr>wd_AttrName = ''mode'', wd_AttrValue = cpu_line_format ! i, wd_Value = ?w\<rparr> c"
  define c' where "c' = (if i \<noteq> 3 then ?a\<lparr>cs_total := fo_add fo (cs_total ?a) ?w\<rparr> else ?a)"
  have step: "cpu_fields fo i (s # vals) c = cpu_fields fo (Suc i) vals c'" using v i by (simp add: c'_def Let_def)
  have c': "cs_Error c' = cs_Error c" "cs_numCPUs c' = cs_numCPUs c"
    "cs_total c' = (if cpu_line_format ! i \<noteq> ''idle'' then fo_add fo (cs_total c) ?w else cs_total c)"
    "details c' k = details c k @ (if k = ''cpu_time''
      then [\<lparr>wd_AttrName = ''mode'', wd_AttrValue = cpu_line_format ! i, wd_Value = ?w\<rparr>] else [])"
    using idle_position [OF i] by (simp_all add: c'_def details_add)
  show ?case using Cons.IH [of "Suc i" c'] Cons.prems(1) i v unfolding step c' d by auto
qed simp

lemma processLine_ok:
  assumes "cs_Error (processCPUStatsLine fo rowtype vals c) = None"
  shows "details (processCPUStatsLine fo rowtype vals c) k = details c k @ row_details fo k (rowtype # vals)"
    and "cs_total (processCPUStatsLine fo rowtype vals c) = busy_time fo (row_details fo ''cpu_time'' (rowtype # vals)) (cs_total c)"
    and "cs_numCPUs (processCPUStatsLine fo rowtype vals c) =
      cs_numCPUs c + (if rowtype \<noteq> ''cpu'' \<and> \<not> counter_row rowtype \<and>
        is_number (strings_TrimPrefix rowtype ''cpu'') then 1 else 0)"
proof (cases "rowtype = ''cpu''", goal_cases)
  case 1
  with assms have "cs_Error (cpu_fields fo 0 vals c) = None" by (simp add: processCPUStatsLine_def)
  from cpu_fields_ok [OF this, of k] 1 show ?case by (simp add: processCPUStatsLine_def row_details_def cpu_row_details_def)
next
  case 2
  with assms show ?case
    by (cases "counter_row rowtype"; cases "fo_Parse fo (hd vals)") (simp_all add: processCPUStatsLine_def row_details_def details_add)
next
  case 3
  show ?case
  proof (cases "rowtype = ''cpu''")
    case True
    with assms have "cs_Error (cpu_fields fo 0 vals c) = None" by (simp add: processCPUStatsLine_def)
    from cpu_fields_ok [OF this] True show ?thesis by (simp add: processCPUStatsLine_def row_details_def cpu_row_details_def)
  next
    case False
    have "field_mapping rowtype \<noteq> ''cpu_time''" by (simp add: field_mapping_def)
    with False assms show ?thesis
      by (cases "counter_row rowtype"; cases "fo_Parse fo (hd vals)") (simp_all add: processCPUStatsLine_def row_details_def)
  qed
next
  case 4
  show ?case
  proof (cases "rowtype = ''cpu''")
    case True
    with assms have "cs_Error (cpu_fields fo 0 vals c) = None" by (simp add: processCPUStatsLine_def)
    from cpu_fields_ok [OF this] True show ?thesis by (simp add: processCPUStatsLine_def)
  next
    case False
    with assms show ?thesis
      by (cases "counter_row rowtype"; cases "fo_Parse fo (hd vals)") (simp_all add: processCPUStatsLine_def)
  qed
qed

text \<open>The rows of a file: the fields of its lines that have any; a row of one core.\<close>

definition rows_of :: "unicode_ops \<Rightarrow> string list \<Rightarrow> string list list" where
  "rows_of uc ls = filter (\<lambda>r. r \<noteq> []) (map (strings_Fields uc) ls)"

definition core_row :: "string list \<Rightarrow> bool" where
  "core_row row \<longleftrightarrow> hd row \<noteq> ''cpu'' \<and> \<not> counter_row (hd row) \<and>
     is_number (strings_TrimPrefix (hd row) ''cpu'')"

text \<open>The details of a field for the rows of a file, after a number of cores and a time found before.\<close>

definition details_of_rows :: "float_ops \<Rightarrow> string list list \<Rightarrow> nat \<Rightarrow> float64 \<Rightarrow> string \<Rightarrow> work_detail list" where
  "details_of_rows fo rows n t k =
     concat (map (row_details fo k) rows) @
     (if k = ''cpu_time'' then [\<lparr>wd_AttrName = ''mode'', wd_AttrValue = ''total'',
         wd_Value = busy_time fo (concat (map (row_details fo ''cpu_time'') rows)) t\<rparr>]
      else if k = ''numcores''
      then [\<lparr>wd_AttrName = [], wd_AttrValue = [], wd_Value = Finite (of_nat (n + length (filter core_row rows)))\<rparr>]
      else [])"

lemma cpu_lines_ok:
  assumes "cs_Error (cpu_lines fo uc ls c) = None"
  shows "details (cpu_lines fo uc ls c) k = details c k @ details_of_rows fo (rows_of uc ls) (cs_numCPUs c) (cs_total c) k"
  using assms
proof (induction ls arbitrary: c)
  case Nil
  then show ?case by (auto simp: details_add rows_of_def details_of_rows_def)
next
  case (Cons line ls)
  show ?case
  proof (cases "strings_Fields uc line")
    case Nil
    then have "rows_of uc (line # ls) = rows_of uc ls" "cpu_lines fo uc (line # ls) c = cpu_lines fo uc ls c" by (simp_all add: rows_of_def)
    then show ?thesis using Cons.IH [of c] Cons.prems by (simp only:)
  next
    case row: (Cons rowtype vals)
    show ?thesis
    proof (cases vals)
      case Nil
      with Cons.prems row show ?thesis by simp
    next
      case (Cons v vs)
      let ?c = "processCPUStatsLine fo rowtype vals c"
      have run: "cpu_lines fo uc (line # ls) c = (if cs_Error ?c \<noteq> None then ?c else cpu_lines fo uc ls ?c)"
        using row Cons by (simp add: Let_def)
      then have ok: "cs_Error ?c = None" using Cons.prems by (auto split: if_splits)
      then have eq: "cpu_lines fo uc (line # ls) c = cpu_lines fo uc ls ?c" using run by simp
      have rows: "rows_of uc (line # ls) = (rowtype # vals) # rows_of uc ls" using row by (simp add: rows_of_def)
      have "details (cpu_lines fo uc ls ?c) k = details ?c k @ details_of_rows fo (rows_of uc ls) (cs_numCPUs ?c) (cs_total ?c) k"
        using Cons.IH [of ?c] Cons.prems eq by simp
      then show ?thesis unfolding eq rows processLine_ok [OF ok]
        by (simp add: details_of_rows_def core_row_def)
    qed
  qed
qed

text \<open>
  When the statistics parse, every field has the details of the rows of the file that report it, in
  order: a value per mode of the \<open>cpu\<close> rows and the sum of those that are not idle for the processor
  time, the counters with their states, and the number of rows of single cores as the number of cores.
\<close>

theorem cpu_stats_of_rows:
  assumes "cs_Error (parseCPUStatsLinux fo uc file) = None"
  shows "details (parseCPUStatsLinux fo uc file) k =
    details_of_rows fo (rows_of uc (butlast (strings_Split file CHR 0x0A))) 0 (Finite 0) k"
  using cpu_lines_ok [OF assms [unfolded parseCPUStatsLinux_def], of k] by (simp add: parseCPUStatsLinux_def gomap_simps)

text \<open>A file with a row for the machine, one for its only core and the counter of context switches.\<close>

definition sample_stat :: string where
  "sample_stat = ''cpu 1 1'' @ [CHR 0x0A] @ ''cpu0 1 1'' @ [CHR 0x0A] @ ''ctxt 1'' @ [CHR 0x0A]"

definition sample_float :: float_ops where
  "sample_float = \<lparr>fo_Parse = (\<lambda>s. if s = ''1'' then Some (Finite 1) else None), fo_mul = (\<lambda>a b. b), fo_add = (\<lambda>a b. b)\<rparr>"

definition sample_unicode :: unicode_ops where
  "sample_unicode = \<lparr>uc_Fields = (\<lambda>s. []), uc_TrimSpace = id\<rparr>"

theorem cpu_stats_of_rows_witness:
  "map wd_Value (details (parseCPUStatsLinux sample_float sample_unicode sample_stat) ''numcores'') = [Finite 1]"
proof -
  have "cs_Error (parseCPUStatsLinux sample_float sample_unicode sample_stat) = None" by code_simp
  from cpu_stats_of_rows [OF this, of "''numcores''"]
  have "details (parseCPUStatsLinux sample_float sample_unicode sample_stat) ''numcores'' =
    details_of_rows sample_float (rows_of sample_unicode (butlast (strings_Split sample_stat CHR 0x0A))) 0 (Finite 0) ''numcores''" .
  moreover have "rows_of sample_unicode (butlast (strings_Split sample_stat CHR 0x0A)) = [[''cpu'', ''1'', ''1''], [''cpu0'', ''1'', ''1''], [''ctxt'', ''1'']]"
    by code_simp
  moreover have "\<not> core_row [''cpu'', ''1'', ''1'']" "core_row [''cpu0'', ''1'', ''1'']" "\<not> core_row [''ctxt'', ''1'']" by code_simp+
  ultimately show ?thesis by (simp add: details_of_rows_def row_details_def field_mapping_def counter_row_def)
qed

section \<open>Lists of packages\<close>

lemma Split_concat_lines:
  assumes "\<And>l. l \<in> set ls \<Longrightarrow> c \<notin> set l"
  shows "strings_Split (concat (map (\<lambda>l. l @ [c]) ls)) c = ls @ [[]]"
  using assms by (induction ls) (auto simp: Split_no_sep Split_append_sep)

definition rpm_line :: "string \<times> string \<times> int \<Rightarrow> string" where
  "rpm_line = (\<lambda>(name, version, time). name @ '';'' @ version @ '';'' @ strconv_Itoa time)"

text \<open>The output of the query for packages is read back: for names and versions without the delimiter and
  without line breaks and install times in the range of 64 bits, parsing the lines gives the packages in
  order with their dates.
\<close>

theorem rpm_output_roundtrip:
  assumes "\<forall>(name, version, time) \<in> set pkgs. {CHR '';'', CHR 0x0A} \<inter> (set name \<union> set version) = {} \<and> - (2 ^ 63) \<le> time \<and> time < 2 ^ 63"
  shows "rpm_parse date (concat (map (\<lambda>p. rpm_line p @ [CHR 0x0A]) pkgs)) =
    map (\<lambda>(name, version, time). \<lparr>is_Name = name, is_Publisher = [], is_Version = version,
      is_InstallDate = (let (y, m, d) = date time in
        transformWithPredfinedLength y 4 @ ''-'' @ transformWithPredfinedLength m 2 @ ''-'' @ transformWithPredfinedLength d 2)\<rparr>) pkgs"
proof -
  let ?parse = "\<lambda>pkg. let group = strings_Split pkg CHR '';'' in
       if length group < 3 then []
       else [\<lparr>is_Name = group ! 0, is_Publisher = [], is_Version = group ! 1, is_InstallDate = assemblyTimestamp date (group ! 2)\<rparr>]"
  have num: "c \<notin> set (strconv_Itoa i)" if "c \<in> {CHR '';'', CHR 0x0A}" for c i
    using that show_nat_digits [of c] by (auto simp: strconv_Itoa_def)
  have line: "strings_Split (rpm_line (name, version, time)) CHR '';'' = [name, version, strconv_Itoa time]"
    if "(name, version, time) \<in> set pkgs" for name version time
    using that assms num by (auto simp: rpm_line_def Split_append_sep Split_no_sep)
  have lines: "CHR 0x0A \<notin> set l" if "l \<in> set (map rpm_line pkgs)" for l
    using that assms num by (auto simp: rpm_line_def)
  have "strings_Split (concat (map (\<lambda>p. rpm_line p @ [CHR 0x0A]) pkgs)) CHR 0x0A = map rpm_line pkgs @ [[]]"
    using Split_concat_lines [of "map rpm_line pkgs", OF lines] by (simp add: comp_def)
  then have "rpm_parse date (concat (map (\<lambda>p. rpm_line p @ [CHR 0x0A]) pkgs)) = concat (map (\<lambda>p. ?parse (rpm_line p)) pkgs)"
    by (simp add: rpm_parse_def comp_def)
  also have "\<dots> = concat (map (\<lambda>p. [case p of (name, version, time) \<Rightarrow> \<lparr>is_Name = name, is_Publisher = [], is_Version = version,
      is_InstallDate = assemblyTimestamp date (strconv_Itoa time)\<rparr>]) pkgs)"
    by (rule arg_cong [where f = concat], rule map_cong [OF refl]) (auto simp: line)
  also have "\<dots> = map (\<lambda>(name, version, time). \<lparr>is_Name = name, is_Publisher = [], is_Version = version,
      is_InstallDate = assemblyTimestamp date (strconv_Itoa time)\<rparr>) pkgs" by (simp add: concat_map_singleton)
  also have "\<dots> = map (\<lambda>(name, version, time). \<lparr>is_Name = name, is_Publisher = [], is_Version = version,
      is_InstallDate = (let (y, m, d) = date time in
        transformWithPredfinedLength y 4 @ ''-'' @ transformWithPredfinedLength m 2 @ ''-'' @ transformWithPredfinedLength d 2)\<rparr>) pkgs"
    by (rule map_cong [OF refl]) (use assms in \<open>auto simp: assemblyTimestamp_def ParseInt_Itoa\<close>)
  finally show ?thesis .
qed

text \<open>Two packages installed in 1970.\<close>

theorem rpm_output_roundtrip_witness:
  "map is_InstallDate (rpm_parse (\<lambda>t. (1970, 1, t div 86400 + 1))
     (concat (map (\<lambda>p. rpm_line p @ [CHR 0x0A]) [(''bash'', ''5.1'', 0), (''zlib'', ''1.2'', 86400)]))) = [''1970-01-01'', ''1970-01-02'']"
proof -
  let ?pkgs = "[(''bash'', ''5.1'', 0), (''zlib'', ''1.2'', 86400)] :: (string \<times> string \<times> int) list"
  have ok: "\<forall>(name, version, time) \<in> set ?pkgs. {CHR '';'', CHR 0x0A} \<inter> (set name \<union> set version) = {} \<and> - (2 ^ 63) \<le> time \<and> time < 2 ^ 63"
    by simp
  have "transformWithPredfinedLength 1970 4 = ''1970''" "transformWithPredfinedLength 1 2 = ''01''" "transformWithPredfinedLength 2 2 = ''02''"
    by code_simp+
  then show ?thesis unfolding rpm_output_roundtrip [OF ok] by simp
qed

section \<open>Providers over time\<close>

text \<open>What is provided is the result of the latest read before the call, and nothing before the first read.\<close>

definition latest_read :: "float_ops \<Rightarrow> unicode_ops \<Rightarrow> provider_event list \<Rightarrow> cpu_stats \<Rightarrow> cpu_stats" where
  "latest_read fo uc es c = fold (\<lambda>e c. case e of ReadStats file \<Rightarrow> readCPUFileStats fo uc file | Provided \<Rightarrow> c) es c"

theorem provided_stats_latest:
  "provider_run fo uc (es @ Provided # es') (createProvider None) =
     provider_run fo uc es (createProvider None) @ latest_read fo uc es zero_stats #
     provider_run fo uc es' \<lparr>cp_container = latest_read fo uc es zero_stats\<rparr>"
proof -
  have "provider_run fo uc (es @ Provided # es') p =
     provider_run fo uc es p @ latest_read fo uc es (cp_container p) # provider_run fo uc es' \<lparr>cp_container = latest_read fo uc es (cp_container p)\<rparr>" for p
  proof (induction es arbitrary: p)
    case (Cons e es)
    then show ?case by (cases e) (simp_all add: latest_read_def)
  next
    case Nil
    then show ?case by (cases p) (simp add: latest_read_def)
  qed
  then show ?thesis by (simp add: createProvider_def)
qed

text \<open>The package manager of the installed software: the discovered one; when both are there it depends on the
  order in which Go ranges over the map; when none is there, nothing is reported.\<close>

theorem software_provider_choice:
  assumes "map_order ord"
  shows "NewInstalledSoftwareProvider ord date execute \<in>
    (if rpm_Discover execute then {rpm_GetSoftware date} else {}) \<union> (if dpkg_Discover execute then {dpkg_GetSoftware} else {}) \<union>
    (if rpm_Discover execute \<or> dpkg_Discover execute then {} else {\<lambda>_. Inr []})"
proof -
  let ?m = "[(''rpm'', rpm_Discover execute, rpm_GetSoftware date), (''dpkg'', dpkg_Discover execute, dpkg_GetSoftware)]"
  have set: "set (ord ?m) = set ?m" by (rule map_order_set [OF assms])
  show ?thesis
  proof (cases "find (\<lambda>(_, found, _). found) (ord ?m)")
    case None
    then have "NewInstalledSoftwareProvider ord date execute = (\<lambda>_. Inr [])"
      by (simp add: NewInstalledSoftwareProvider_def discoverProvider_def linuxProvider_GetSoftware_def)
    moreover have "\<not> rpm_Discover execute" "\<not> dpkg_Discover execute" using None set unfolding find_None_iff by auto
    ultimately show ?thesis by simp
  next
    case (Some x)
    then have "x \<in> set ?m" "fst (snd x)" unfolding set [symmetric] by (auto simp: find_Some_iff intro: nth_mem dest: nth_mem)
    with Some show ?thesis by (auto simp: NewInstalledSoftwareProvider_def discoverProvider_def)
  qed
qed

theorem software_provider_depends_on_order:
  assumes "rpm_Discover execute" "dpkg_Discover execute"
  shows "NewInstalledSoftwareProvider (\<lambda>m. m) date execute = rpm_GetSoftware date \<and> NewInstalledSoftwareProvider rev date execute = dpkg_GetSoftware"
  using assms by (simp add: NewInstalledSoftwareProvider_def discoverProvider_def)

end
