(* ===== verification/Scraper_Framework.thy ===== *)
theory Scraper_Framework
  imports Pdata "HOL-Library.Multiset"
begin

text \<open>
  The scraper framework of the host metrics receiver
  (\<open>receiver/swohostmetricsreceiver/internal/scraper/framework\<close> and \<open>internal/types\<close>): the
  selection of the enabled metrics, the creation of metric and scope emitters from their descriptors,
  delayed processing, and the manager that starts the emitters and scrapes them.

  The emitters of a scope and the scopes of a scraper run concurrently and send their results to a
  channel: \<open>arr n\<close> is the order in which \<open>n\<close> results arrive, a permutation of \<open>[0..<n]\<close>.  What a metric
  emitter answers is a function of the time of the call.  Logging and the schema address of a batch are
  not modelled.
\<close>

section \<open>Errors and emitters\<close>

datatype scrape_error =
    Raised string
  | Wrapped string scrape_error
  | Joined "scrape_error list"
  | MetricEmitFailed string scrape_error
  | MetricInitFailed string scrape_error
  | NoMetricEmitters string
  | NoMetricSlices string
  | ScopeInitFailed string scrape_error
  | EmitFailed string scrape_error
  | InitFailed string scrape_error
  | NoScopeMetrics string
  | NotReady string string
  | ContextClosed
  | NoConfiguredMetrics string
  | NoEnabledMetrics string
  | NoScopeEmitters string
  | EnabledMetricsFailed string scrape_error
  | RuntimeFailed string scrape_error
  | SchedulingFailed string scrape_error
  | InvalidInterval int

record metric_emitter =
  me_Name :: string
  me_Init :: "time_ns \<Rightarrow> scrape_error option"
  me_Emit :: "time_ns \<Rightarrow> (scrape_error, metric list) result"

text \<open>An optional \<open>Init\<close> function.\<close>

definition InitFunc_Init :: "(time_ns \<Rightarrow> scrape_error option) option \<Rightarrow> time_ns \<Rightarrow> scrape_error option" where
  "InitFunc_Init f now = (case f of None \<Rightarrow> None | Some g \<Rightarrow> g now)"

section \<open>Arrival order\<close>

type_synonym arrivals = "nat \<Rightarrow> nat list"

definition arrival :: "arrivals \<Rightarrow> 'a list \<Rightarrow> 'a list" where
  "arrival arr xs = map (\<lambda>i. xs ! i) (arr (length xs))"

definition valid_arrivals :: "arrivals \<Rightarrow> bool" where
  "valid_arrivals arr \<longleftrightarrow> (\<forall>n. mset (arr n) = mset [0..<n])"

lemma mset_arrival [simp]: "valid_arrivals arr \<Longrightarrow> mset (arrival arr xs) = mset xs"
proof -
  assume "valid_arrivals arr"
  then have "mset (arrival arr xs) = image_mset (\<lambda>i. xs ! i) (mset [0..<length xs])"
    unfolding arrival_def valid_arrivals_def mset_map by metis
  also have "\<dots> = mset (map (\<lambda>i. xs ! i) [0..<length xs])" by (rule mset_map [symmetric])
  finally show ?thesis unfolding map_nth .
qed

lemma set_arrival [simp]: "valid_arrivals arr \<Longrightarrow> set (arrival arr xs) = set xs"
  by (metis mset_arrival set_mset_mset)

lemma length_arrival [simp]: "valid_arrivals arr \<Longrightarrow> length (arrival arr xs) = length xs"
  by (metis mset_arrival size_mset)

lemma arrival_Nil_iff [simp]: "valid_arrivals arr \<Longrightarrow> arrival arr xs = [] \<longleftrightarrow> xs = []"
  by (metis length_arrival length_0_conv)

section \<open>Enabled metrics\<close>

text \<open>The configuration of a scraper: the metrics and whether they are enabled.\<close>

type_synonym scraper_config = "(string, bool) gomap"

definition GetEnabledMetrics :: "string \<Rightarrow> scraper_config \<Rightarrow> (scrape_error, string list) result" where
  "GetEnabledMetrics scraperName cfg =
     (if length cfg = 0 then Inl (NoConfiguredMetrics scraperName)
      else let em = map fst (filter snd cfg) in
           if length em = 0 then Inl (NoEnabledMetrics scraperName) else Inr em)"

section \<open>Emitters of a scope\<close>

text \<open>A metric descriptor is the creator of its emitter.\<close>

definition TraverseThroughMetricDescriptors ::
  "((string \<times> metric_emitter) list \<Rightarrow> (string \<times> metric_emitter) list) \<Rightarrow> (string, metric_emitter) gomap \<Rightarrow> string list
   \<Rightarrow> (string, metric_emitter) gomap" where
  "TraverseThroughMetricDescriptors ord descriptors enabled =
     fold (\<lambda>(mName, me) mes. if mName \<in> set enabled then gm_put (me_Name me) me mes else mes) (ord descriptors) []"

record scope_emitter =
  se_scopeName :: string
  se_metricEmitters :: "(string, metric_emitter) gomap"

definition CreateDefaultScopeEmitter :: "string \<Rightarrow> (string, metric_emitter) gomap \<Rightarrow> scope_emitter" where
  "CreateDefaultScopeEmitter scopeName mes = \<lparr>se_scopeName = scopeName, se_metricEmitters = mes\<rparr>"

definition checkIfMetricEmittersAreRegistered :: "scope_emitter \<Rightarrow> scrape_error option" where
  "checkIfMetricEmittersAreRegistered s =
     (if length (se_metricEmitters s) = 0 then Some (NoMetricEmitters (se_scopeName s)) else None)"

text \<open>The received results in the order of their arrival; errors are joined.\<close>

definition join_errors :: "scrape_error list \<Rightarrow> scrape_error option" where
  "join_errors errs = (if length errs > 0 then Some (Joined errs) else None)"

definition processEmittedResults ::
  "(string \<times> (scrape_error, metric list) result) list \<Rightarrow> (scrape_error, metric list list) result" where
  "processEmittedResults rs =
     (let errs = concat (map (\<lambda>(name, r). case r of Inl e \<Rightarrow> [MetricEmitFailed name e] | Inr _ \<Rightarrow> []) rs);
          mrs = concat (map (\<lambda>(name, r). case r of Inl _ \<Rightarrow> [] | Inr ms \<Rightarrow> [ms]) rs) in
      case join_errors errs of Some e \<Rightarrow> Inl e | None \<Rightarrow> Inr mrs)"

text \<open>\<open>version\<close> is the version of the collector.\<close>

definition assemblyScopeMetricSlice ::
  "string \<Rightarrow> scope_emitter \<Rightarrow> metric list list \<Rightarrow> (scrape_error, scope_metrics list) result" where
  "assemblyScopeMetricSlice version s ms =
     (if length ms = 0 then Inl (NoMetricSlices (se_scopeName s))
      else let sm = \<lparr>sm_name = se_scopeName s, sm_version = version, sm_attrs = [],
                     sm_metrics = concat (filter (\<lambda>m. length m \<noteq> 0) ms)\<rparr> in
           if length (sm_metrics sm) = 0 then Inr [] else Inr [sm])"

definition processMetricEmitters ::
  "string \<Rightarrow> arrivals \<Rightarrow> time_ns \<Rightarrow> scope_emitter \<Rightarrow> (scrape_error, scope_metrics list) result" where
  "processMetricEmitters version arr now s =
     (case processEmittedResults (arrival arr (map (\<lambda>(name, me). (name, me_Emit me now)) (se_metricEmitters s))) of
        Inl e \<Rightarrow> Inl e
      | Inr ms \<Rightarrow> assemblyScopeMetricSlice version s ms)"

definition scope_Emit :: "string \<Rightarrow> arrivals \<Rightarrow> time_ns \<Rightarrow> scope_emitter \<Rightarrow> (scrape_error, scope_metrics list) result" where
  "scope_Emit version arr now s =
     (case checkIfMetricEmittersAreRegistered s of
        Some e \<Rightarrow> Inl e
      | None \<Rightarrow> processMetricEmitters version arr now s)"

definition evaluateInitResults :: "(string \<times> scrape_error option) list \<Rightarrow> scrape_error option" where
  "evaluateInitResults rs =
     join_errors (concat (map (\<lambda>(name, r). case r of Some e \<Rightarrow> [MetricInitFailed name e] | None \<Rightarrow> []) rs))"

definition initializeMetricEmitters :: "arrivals \<Rightarrow> time_ns \<Rightarrow> scope_emitter \<Rightarrow> scrape_error option" where
  "initializeMetricEmitters arr now s =
     evaluateInitResults (arrival arr (map (\<lambda>(name, me). (name, me_Init me now)) (se_metricEmitters s)))"

definition scope_Init :: "arrivals \<Rightarrow> time_ns \<Rightarrow> scope_emitter \<Rightarrow> scrape_error option" where
  "scope_Init arr now s =
     (case checkIfMetricEmittersAreRegistered s of
        Some e \<Rightarrow> Some e
      | None \<Rightarrow> (case initializeMetricEmitters arr now s of
                  Some e \<Rightarrow> Some (ScopeInitFailed (se_scopeName s) e)
                | None \<Rightarrow> None))"

section \<open>Scopes of a scraper\<close>

text \<open>A descriptor of a scope; \<open>sd_Create\<close> is a creator of its own.\<close>

record scope_descriptor =
  sd_ScopeName :: string
  sd_MetricDescriptors :: "(string, metric_emitter) gomap"
  sd_Create :: "(string \<Rightarrow> (string, metric_emitter) gomap \<Rightarrow> scope_emitter) option"

record scraper_descriptor =
  sc_Type :: string
  sc_ScopeDescriptors :: "(string, scope_descriptor) gomap"

definition chooseEmitterAllocator :: "scope_descriptor \<Rightarrow> string \<Rightarrow> (string, metric_emitter) gomap \<Rightarrow> scope_emitter" where
  "chooseEmitterAllocator d = (case sd_Create d of Some create \<Rightarrow> create | None \<Rightarrow> CreateDefaultScopeEmitter)"

definition TraverseThroughScopeDescriptors ::
  "((string \<times> metric_emitter) list \<Rightarrow> (string \<times> metric_emitter) list)
   \<Rightarrow> ((string \<times> scope_descriptor) list \<Rightarrow> (string \<times> scope_descriptor) list)
   \<Rightarrow> (string, scope_descriptor) gomap \<Rightarrow> string list \<Rightarrow> (string, scope_emitter) gomap" where
  "TraverseThroughScopeDescriptors mord sord descriptors enabled =
     fold (\<lambda>(sName, d) ses.
       let mes = TraverseThroughMetricDescriptors mord (sd_MetricDescriptors d) enabled in
       if length mes = 0 then ses
       else let se = chooseEmitterAllocator d (sd_ScopeName d) mes in gm_put (se_scopeName se) se ses) (sord descriptors) []"

text \<open>The runtime of a scraper is the map of its scope emitters.\<close>

type_synonym runtime = "(string, scope_emitter) gomap"

definition createScraperRuntime ::
  "((string \<times> metric_emitter) list \<Rightarrow> (string \<times> metric_emitter) list)
   \<Rightarrow> ((string \<times> scope_descriptor) list \<Rightarrow> (string \<times> scope_descriptor) list)
   \<Rightarrow> scraper_descriptor \<Rightarrow> string list \<Rightarrow> (scrape_error, runtime) result" where
  "createScraperRuntime mord sord d enabled =
     (let ses = TraverseThroughScopeDescriptors mord sord (sc_ScopeDescriptors d) enabled in
      if length ses = 0 then Inl (NoScopeEmitters (sc_Type d)) else Inr ses)"

definition Schedule ::
  "((string \<times> metric_emitter) list \<Rightarrow> (string \<times> metric_emitter) list)
   \<Rightarrow> ((string \<times> scope_descriptor) list \<Rightarrow> (string \<times> scope_descriptor) list)
   \<Rightarrow> scraper_descriptor \<Rightarrow> scraper_config \<Rightarrow> (scrape_error, runtime) result" where
  "Schedule mord sord d cfg =
     (case GetEnabledMetrics (sc_Type d) cfg of
        Inl e \<Rightarrow> Inl (EnabledMetricsFailed (sc_Type d) e)
      | Inr enabled \<Rightarrow>
        (case createScraperRuntime mord sord d enabled of
           Inl e \<Rightarrow> Inl (RuntimeFailed (sc_Type d) e)
         | Inr rt \<Rightarrow> Inr rt))"

section \<open>Delayed processing\<close>

text \<open>The zero time before the first initialisation is \<open>zeroTime\<close>.\<close>

record delayed_processing =
  dp_last :: time_ns
  dp_interval :: time_ns

definition zeroTime :: time_ns where
  "zeroTime = - 62135596800 * 10 ^ 9"

definition NewDelayedProcessing :: delayed_processing where
  "NewDelayedProcessing = \<lparr>dp_last = zeroTime, dp_interval = 0\<rparr>"

definition delayed_Init :: "time_ns \<Rightarrow> time_ns \<Rightarrow> delayed_processing \<Rightarrow> delayed_processing" where
  "delayed_Init collectionInterval initialTime d = d\<lparr>dp_interval := collectionInterval, dp_last := initialTime\<rparr>"

definition delayed_IsReady :: "time_ns \<Rightarrow> delayed_processing \<Rightarrow> bool" where
  "delayed_IsReady consideredTime d = (\<not> dp_last d + dp_interval d > consideredTime)"

definition delayed_Update :: "time_ns \<Rightarrow> delayed_processing \<Rightarrow> delayed_processing" where
  "delayed_Update time d = d\<lparr>dp_last := time\<rparr>"

text \<open>The variant of \<open>internal/types\<close> that other receivers embed; it rejects a negative interval.\<close>

definition internals_InitDelayedProcessing ::
  "time_ns \<Rightarrow> time_ns \<Rightarrow> delayed_processing \<Rightarrow> (scrape_error, delayed_processing) result" where
  "internals_InitDelayedProcessing interval now d =
     (if interval < 0 then Inl (InvalidInterval interval) else Inr (d\<lparr>dp_interval := interval, dp_last := now\<rparr>))"

definition internals_IsReadyForProcessing :: "time_ns \<Rightarrow> delayed_processing \<Rightarrow> bool" where
  "internals_IsReadyForProcessing nextProcessing d = (\<not> dp_last d + dp_interval d > nextProcessing)"

definition internals_ShouldDelayRun :: "time_ns \<Rightarrow> delayed_processing \<Rightarrow> bool \<times> delayed_processing" where
  "internals_ShouldDelayRun now d = (if internals_IsReadyForProcessing now d then (False, d\<lparr>dp_last := now\<rparr>) else (True, d))"

text \<open>The feature manager: whether delayed processing is activated, and its state.\<close>

record feature_manager =
  fm_activated :: bool
  fm_delayed :: delayed_processing

definition NewFeatureManager :: feature_manager where
  "NewFeatureManager = \<lparr>fm_activated = False, fm_delayed = NewDelayedProcessing\<rparr>"

definition feature_Init :: "time_ns option \<Rightarrow> feature_manager \<Rightarrow> feature_manager" where
  "feature_Init delayedConfig fm = (if delayedConfig \<noteq> None then fm\<lparr>fm_activated := True\<rparr> else fm)"

text \<open>A nil configuration is dereferenced only when the feature was activated by one that is not.\<close>

definition feature_InitDelayedProcessing :: "time_ns option \<Rightarrow> time_ns \<Rightarrow> feature_manager \<Rightarrow> (scrape_error, feature_manager) result" where
  "feature_InitDelayedProcessing c it fm =
     (if \<not> fm_activated fm then Inr fm
      else case c of
             None \<Rightarrow> Inl (Raised ''nil pointer dereference'')
           | Some interval \<Rightarrow> Inr (fm\<lparr>fm_delayed := delayed_Init interval it (fm_delayed fm)\<rparr>))"

definition feature_IsReady :: "time_ns \<Rightarrow> feature_manager \<Rightarrow> bool" where
  "feature_IsReady t fm = (if \<not> fm_activated fm then True else delayed_IsReady t (fm_delayed fm))"

definition feature_UpdateLastProcessedTime :: "time_ns \<Rightarrow> feature_manager \<Rightarrow> feature_manager" where
  "feature_UpdateLastProcessedTime t fm =
     (if \<not> fm_activated fm then fm else fm\<lparr>fm_delayed := delayed_Update t (fm_delayed fm)\<rparr>)"

section \<open>The scraper manager\<close>

record manager_config =
  mc_Scraper :: scraper_config
  mc_Delayed :: "time_ns option"

record manager =
  mg_features :: feature_manager
  mg_runtime :: "runtime option"
  mg_type :: string
  mg_config :: "manager_config option"

definition NewScraperManager :: manager where
  "NewScraperManager = \<lparr>mg_features = NewFeatureManager, mg_runtime = None, mg_type = [], mg_config = None\<rparr>"

definition manager_Init ::
  "((string \<times> metric_emitter) list \<Rightarrow> (string \<times> metric_emitter) list)
   \<Rightarrow> ((string \<times> scope_descriptor) list \<Rightarrow> (string \<times> scope_descriptor) list)
   \<Rightarrow> scraper_descriptor \<Rightarrow> manager_config \<Rightarrow> manager \<Rightarrow> scrape_error option \<times> manager" where
  "manager_Init mord sord d c m =
     (let m = m\<lparr>mg_features := feature_Init (mc_Delayed c) (mg_features m)\<rparr> in
      case Schedule mord sord d (mc_Scraper c) of
        Inl e \<Rightarrow> (Some (SchedulingFailed (sc_Type d) e), m)
      | Inr rt \<Rightarrow> (None, m\<lparr>mg_runtime := Some rt, mg_type := sc_Type d, mg_config := Some c\<rparr>))"

definition receiveAndEvaluateInitResults :: "string \<Rightarrow> scrape_error option list \<Rightarrow> scrape_error option" where
  "receiveAndEvaluateInitResults ty rs =
     (case join_errors (concat (map (\<lambda>r. case r of Some e \<Rightarrow> [e] | None \<Rightarrow> []) rs)) of
        Some e \<Rightarrow> Some (InitFailed ty e)
      | None \<Rightarrow> None)"

text \<open>
  \<open>ctxClosed\<close>: the context of the call is closed.  \<open>arr\<close> is the order of the results of the scopes and \<open>sch name\<close>
  the order of the results within a scope.
\<close>

definition processInitOnScopeEmitters :: "arrivals \<Rightarrow> (string \<Rightarrow> arrivals) \<Rightarrow> time_ns \<Rightarrow> runtime \<Rightarrow> scrape_error option list" where
  "processInitOnScopeEmitters arr sch now rt = arrival arr (map (\<lambda>(name, se). scope_Init (sch name) now se) rt)"

definition manager_Start :: "bool \<Rightarrow> arrivals \<Rightarrow> (string \<Rightarrow> arrivals) \<Rightarrow> time_ns \<Rightarrow> manager \<Rightarrow> scrape_error option \<times> manager" where
  "manager_Start ctxClosed arr sch now m =
     (if ctxClosed then (Some ContextClosed, m)
      else case mg_runtime m of
             None \<Rightarrow> (Some (NotReady ''start'' (mg_type m)), m)
           | Some rt \<Rightarrow>
             (case receiveAndEvaluateInitResults (mg_type m) (processInitOnScopeEmitters arr sch now rt) of
                Some e \<Rightarrow> (Some e, m)
              | None \<Rightarrow>
                (case feature_InitDelayedProcessing (Option.bind (mg_config m) mc_Delayed) now (mg_features m) of
                   Inl e \<Rightarrow> (Some e, m)
                 | Inr fm \<Rightarrow> (None, m\<lparr>mg_features := fm\<rparr>))))"

definition receiveAndEvaluateEmitResults ::
  "string \<Rightarrow> (scrape_error, scope_metrics list) result list \<Rightarrow> (scrape_error, scope_metrics list list) result" where
  "receiveAndEvaluateEmitResults ty rs =
     (case join_errors (concat (map (\<lambda>r. case r of Inl e \<Rightarrow> [e] | Inr _ \<Rightarrow> []) rs)) of
        Some e \<Rightarrow> Inl (EmitFailed ty e)
      | None \<Rightarrow> Inr (concat (map (\<lambda>r. case r of Inl _ \<Rightarrow> [] | Inr d \<Rightarrow> [d]) rs)))"

definition assemblyMetrics :: "string \<Rightarrow> scope_metrics list list \<Rightarrow> (scrape_error, metrics) result" where
  "assemblyMetrics ty sms =
     (if length sms = 0 then Inl (NoScopeMetrics ty) else Inr [\<lparr>rm_attrs = [], rm_scopes = concat sms\<rparr>])"

definition processEmitOnScopeEmitters ::
  "string \<Rightarrow> arrivals \<Rightarrow> (string \<Rightarrow> arrivals) \<Rightarrow> time_ns \<Rightarrow> runtime \<Rightarrow> (scrape_error, scope_metrics list) result list" where
  "processEmitOnScopeEmitters version arr sch now rt = arrival arr (map (\<lambda>(name, se). scope_Emit version (sch name) now se) rt)"

text \<open>The metrics and the error of a scrape, and the manager after it.\<close>

definition manager_Scrape :: "string \<Rightarrow> bool \<Rightarrow> arrivals \<Rightarrow> (string \<Rightarrow> arrivals) \<Rightarrow> time_ns \<Rightarrow> manager \<Rightarrow> (metrics \<times> scrape_error option) \<times> manager" where
  "manager_Scrape version ctxClosed arr sch now m =
     (if ctxClosed then (([], Some ContextClosed), m)
      else case mg_runtime m of
             None \<Rightarrow> (([], Some (NotReady ''scrape'' (mg_type m))), m)
           | Some rt \<Rightarrow>
             if \<not> feature_IsReady now (mg_features m) then (([], None), m)
             else case receiveAndEvaluateEmitResults (mg_type m) (processEmitOnScopeEmitters version arr sch now rt) of
                    Inl e \<Rightarrow> (([], Some e), m)
                  | Inr sms \<Rightarrow>
                    (case assemblyMetrics (mg_type m) sms of
                       Inl e \<Rightarrow> (([], Some e), m)
                     | Inr ms \<Rightarrow> ((ms, None), m\<lparr>mg_features := feature_UpdateLastProcessedTime now (mg_features m)\<rparr>)))"

section \<open>Scheduled emitters\<close>

text \<open>Descriptors whose creators name their emitters as the descriptor is named.\<close>

definition well_named :: "scraper_descriptor \<Rightarrow> bool" where
  "well_named d \<longleftrightarrow> gm_wf (sc_ScopeDescriptors d) \<and>
     (\<forall>(s, sd) \<in> set (sc_ScopeDescriptors d).
        sd_ScopeName sd = s \<and> sd_Create sd = None \<and> gm_wf (sd_MetricDescriptors sd) \<and>
        (\<forall>(n, me) \<in> set (sd_MetricDescriptors sd). me_Name me = n))"

lemma gm_get_fold_filtered_put:
  assumes "distinct (map fst xs)" "\<And>k v w. (k, v) \<in> set xs \<Longrightarrow> g v k = Some w \<Longrightarrow> name w = k"
  shows "gm_get (fold (\<lambda>(k, v) m. case g v k of Some w \<Rightarrow> gm_put (name w) w m | None \<Rightarrow> m) xs m) n =
    (case Option.bind (map_of xs n) (\<lambda>v. g v n) of Some w \<Rightarrow> Some w | None \<Rightarrow> gm_get m n)"
  using assms
proof (induction xs arbitrary: m)
  case (Cons kv xs)
  obtain k v where kv: "kv = (k, v)" by fastforce
  have k: "map_of xs k = None" using Cons.prems(1) kv by (simp add: map_of_eq_None_iff)
  have "g v k = Some w \<Longrightarrow> name w = k" for w using Cons.prems(2) kv by auto
  moreover have "distinct (map fst xs)" "\<And>k v w. (k, v) \<in> set xs \<Longrightarrow> g v k = Some w \<Longrightarrow> name w = k"
    using Cons.prems by auto
  note IH = Cons.IH [OF this]
  ultimately show ?case using kv k by (cases "g v k") (auto simp: IH gomap_simps split: option.split)
qed simp

lemma metric_descriptors_get:
  assumes "map_order ord" "gm_wf ds" "\<forall>(n, me) \<in> set ds. me_Name me = n"
  shows "gm_get (TraverseThroughMetricDescriptors ord ds enabled) n = (if n \<in> set enabled then gm_get ds n else None)"
proof -
  let ?g = "\<lambda>me k. if k \<in> set enabled then Some me else None"
  have d: "distinct (map fst (ord ds))" "map_of (ord ds) = map_of ds"
    using assms map_order_wf map_order_map_of by (auto simp: gm_wf_def)
  have "me_Name w = k" if "(k, v) \<in> set (ord ds)" "?g v k = Some w" for k v w
    using that assms(3) map_order_set [OF assms(1)] by (fastforce split: if_splits)
  from gm_get_fold_filtered_put [OF d(1), where g = ?g and name = me_Name and m = "[]" and n = n] this
  have get: "gm_get (fold (\<lambda>(k, v) m. case ?g v k of Some w \<Rightarrow> gm_put (me_Name w) w m | None \<Rightarrow> m) (ord ds) []) n =
    Option.bind (map_of ds n) (\<lambda>v. ?g v n)" using d(2) by (simp split: option.split)
  have eq: "(\<lambda>(mName, me) mes. if mName \<in> set enabled then gm_put (me_Name me) me mes else mes) =
    (\<lambda>(k, v) m. case ?g v k of Some w \<Rightarrow> gm_put (me_Name w) w m | None \<Rightarrow> m)" by (auto intro!: ext)
  show ?thesis unfolding TraverseThroughMetricDescriptors_def eq get by (cases "map_of ds n") auto
qed

text \<open>The emitter of a scope for the enabled metrics.\<close>

definition scheduled ::
  "((string \<times> metric_emitter) list \<Rightarrow> (string \<times> metric_emitter) list) \<Rightarrow> string list \<Rightarrow> scope_descriptor \<Rightarrow> scope_emitter option" where
  "scheduled mord enabled sd =
     (let mes = TraverseThroughMetricDescriptors mord (sd_MetricDescriptors sd) enabled in
      if mes = [] then None else Some \<lparr>se_scopeName = sd_ScopeName sd, se_metricEmitters = mes\<rparr>)"

lemma scope_descriptors_get:
  assumes "map_order sord" "well_named d"
  shows "gm_get (TraverseThroughScopeDescriptors mord sord (sc_ScopeDescriptors d) enabled) s =
    Option.bind (gm_get (sc_ScopeDescriptors d) s) (scheduled mord enabled)"
proof -
  let ?ds = "sc_ScopeDescriptors d"
  let ?g = "\<lambda>sd (_ :: string). scheduled mord enabled sd"
  have d: "distinct (map fst (sord ?ds))" "map_of (sord ?ds) = map_of ?ds"
    using assms map_order_wf map_order_map_of by (auto simp: gm_wf_def well_named_def)
  have mem: "sd_ScopeName v = k \<and> sd_Create v = None" if "(k, v) \<in> set (sord ?ds)" for k v
    using that assms(2) map_order_set [OF assms(1)] by (fastforce simp: well_named_def)
  have "se_scopeName w = k" if "(k, v) \<in> set (sord ?ds)" "?g v k = Some w" for k v w
    using that mem by (auto simp: scheduled_def Let_def split: if_splits)
  from gm_get_fold_filtered_put [OF d(1), where g = ?g and name = se_scopeName and m = "[]" and n = s] this
  have "gm_get (fold (\<lambda>(k, v) m. case ?g v k of Some w \<Rightarrow> gm_put (se_scopeName w) w m | None \<Rightarrow> m) (sord ?ds) []) s =
    Option.bind (map_of ?ds s) (scheduled mord enabled)" using d(2) by (simp split: option.split)
  moreover have "TraverseThroughScopeDescriptors mord sord ?ds enabled =
    fold (\<lambda>(k, v) m. case ?g v k of Some w \<Rightarrow> gm_put (se_scopeName w) w m | None \<Rightarrow> m) (sord ?ds) []"
    unfolding TraverseThroughScopeDescriptors_def
    by (rule fold_cong)
      (auto simp: scheduled_def chooseEmitterAllocator_def CreateDefaultScopeEmitter_def Let_def dest: mem intro!: ext split: option.split)
  ultimately show ?thesis by simp
qed

lemma enabled_metrics_mem: "gm_wf cfg \<Longrightarrow> n \<in> set (map fst (filter snd cfg)) \<longleftrightarrow> gm_get cfg n = Some True"
  by (force simp: gm_get_in)

lemma Schedule_Inr:
  assumes "Schedule mord sord d cfg = Inr rt"
  shows "rt = TraverseThroughScopeDescriptors mord sord (sc_ScopeDescriptors d) (map fst (filter snd cfg)) \<and> rt \<noteq> []"
  using assms by (auto simp: Schedule_def GetEnabledMetrics_def createScraperRuntime_def Let_def split: sum.splits if_splits)

lemma map_of_empty_iff: "xs = [] \<longleftrightarrow> (\<forall>k. map_of xs k = None)"
proof
  assume "\<forall>k. map_of xs k = None"
  then show "xs = []" by (cases xs) (auto split: if_splits dest: spec)
qed simp

lemma scheduled_Some:
  assumes "map_order mord" "gm_wf (sd_MetricDescriptors sd)" "\<forall>(n, me) \<in> set (sd_MetricDescriptors sd). me_Name me = n"
  shows "scheduled mord enabled sd = None \<longleftrightarrow> (\<forall>n \<in> set enabled. gm_get (sd_MetricDescriptors sd) n = None)"
    and "scheduled mord enabled sd = Some se \<Longrightarrow>
      gm_get (se_metricEmitters se) n = (if n \<in> set enabled then gm_get (sd_MetricDescriptors sd) n else None)"
  using metric_descriptors_get [OF assms]
  by (auto simp: scheduled_def Let_def map_of_empty_iff [of "TraverseThroughMetricDescriptors _ _ _"] split: if_splits)

lemma well_named_scope:
  assumes "well_named d" "gm_get (sc_ScopeDescriptors d) s = Some sd"
  shows "gm_wf (sd_MetricDescriptors sd)" "\<forall>(n, me) \<in> set (sd_MetricDescriptors sd). me_Name me = n" "sd_ScopeName sd = s"
proof -
  have "(s, sd) \<in> set (sc_ScopeDescriptors d)" using assms(2) by (rule map_of_SomeD)
  then show "gm_wf (sd_MetricDescriptors sd)" "\<forall>(n, me) \<in> set (sd_MetricDescriptors sd). me_Name me = n" "sd_ScopeName sd = s"
    using assms(1) unfolding well_named_def by blast+
qed

text \<open>The metric \<open>n\<close>, emitted by \<open>me\<close>, is described in the scope \<open>s\<close> and enabled by the configuration.\<close>

definition enabled_in :: "scraper_descriptor \<Rightarrow> scraper_config \<Rightarrow> string \<Rightarrow> string \<Rightarrow> metric_emitter \<Rightarrow> bool" where
  "enabled_in d cfg s n me \<longleftrightarrow>
     (\<exists>sd. gm_get (sc_ScopeDescriptors d) s = Some sd \<and> gm_get cfg n = Some True \<and> gm_get (sd_MetricDescriptors sd) n = Some me)"

text \<open>The scopes that the traversal keeps are those with an enabled metric, with the emitters of their enabled metrics.\<close>

lemma scopes_enabled:
  assumes "map_order mord" "map_order sord" "well_named d" "gm_wf cfg"
    and rt: "rt = TraverseThroughScopeDescriptors mord sord (sc_ScopeDescriptors d) (map fst (filter snd cfg))"
  shows "gm_get rt s \<noteq> None \<longleftrightarrow> (\<exists>n me. enabled_in d cfg s n me)"
    and "gm_get rt s = Some se \<Longrightarrow> se_scopeName se = s \<and>
      (\<forall>n me. gm_get (se_metricEmitters se) n = Some me \<longleftrightarrow> enabled_in d cfg s n me)"
proof -
  let ?en = "map fst (filter snd cfg)"
  note sch = scheduled_Some [OF assms(1) well_named_scope(1,2) [OF assms(3)]]
  note en = enabled_metrics_mem [OF assms(4)]
  have get: "gm_get rt s = Option.bind (gm_get (sc_ScopeDescriptors d) s) (scheduled mord ?en)"
    unfolding rt by (rule scope_descriptors_get [OF assms(2,3)])
  show "gm_get rt s \<noteq> None \<longleftrightarrow> (\<exists>n me. enabled_in d cfg s n me)"
  proof (cases "gm_get (sc_ScopeDescriptors d) s")
    case (Some sd)
    with get sch(1) [OF Some Some, of ?en] en show ?thesis
      by (simp add: enabled_in_def del: set_map set_filter) (metis not_None_eq)
  qed (simp add: get enabled_in_def)
  assume se: "gm_get rt s = Some se"
  with get obtain sd where sd: "gm_get (sc_ScopeDescriptors d) s = Some sd" "scheduled mord ?en sd = Some se"
    by (cases "gm_get (sc_ScopeDescriptors d) s") auto
  have "se_scopeName se = s" using sd(2) well_named_scope(3) [OF assms(3) sd(1)] by (auto simp: scheduled_def Let_def split: if_splits)
  moreover have "gm_get (se_metricEmitters se) n = Some me \<longleftrightarrow> enabled_in d cfg s n me" for n me
    using sch(2) [OF sd(1) sd(1) sd(2), of n] en [of n] by (simp add: enabled_in_def sd(1) del: set_map set_filter)
  ultimately show "se_scopeName se = s \<and> (\<forall>n me. gm_get (se_metricEmitters se) n = Some me \<longleftrightarrow> enabled_in d cfg s n me)" by blast
qed

lemma Schedule_iff:
  "Schedule mord sord d cfg = Inr rt \<longleftrightarrow>
     rt = TraverseThroughScopeDescriptors mord sord (sc_ScopeDescriptors d) (map fst (filter snd cfg)) \<and> rt \<noteq> [] \<and> filter snd cfg \<noteq> []"
  by (auto simp: Schedule_def GetEnabledMetrics_def createScraperRuntime_def Let_def split: sum.splits if_splits)

text \<open>C35: Scheduling fails exactly when no described metric is enabled.  Otherwise the runtime has exactly the scopes
  in which an enabled metric is described, so that no scope is left without emitters, and the emitters of each
  scope are exactly those of the enabled metrics it describes, under their names.
\<close>

theorem scheduled_emitters_enabled:
  assumes "map_order mord" "map_order sord" "well_named d" "gm_wf cfg"
  shows "((\<exists>e. Schedule mord sord d cfg = Inl e) \<longleftrightarrow> \<not> (\<exists>s n me. enabled_in d cfg s n me)) \<and>
    (\<forall>rt. Schedule mord sord d cfg = Inr rt \<longrightarrow>
       (\<forall>s. gm_get rt s \<noteq> None \<longleftrightarrow> (\<exists>n me. enabled_in d cfg s n me)) \<and>
       (\<forall>s se. gm_get rt s = Some se \<longrightarrow> se_scopeName se = s \<and>
          (\<forall>n me. gm_get (se_metricEmitters se) n = Some me \<longleftrightarrow> enabled_in d cfg s n me)))"
proof -
  define rt where "rt = TraverseThroughScopeDescriptors mord sord (sc_ScopeDescriptors d) (map fst (filter snd cfg))"
  note spec = scopes_enabled [OF assms rt_def]
  have "rt = [] \<longleftrightarrow> \<not> (\<exists>s n me. enabled_in d cfg s n me)" using spec(1) map_of_empty_iff [of rt] by blast
  moreover have "enabled_in d cfg s n me \<Longrightarrow> filter snd cfg \<noteq> []" for s n me
    using enabled_metrics_mem [OF assms(4), of n] by (auto simp: enabled_in_def simp del: set_map set_filter)
  moreover have "(\<exists>e. Schedule mord sord d cfg = Inl e) \<longleftrightarrow> \<not> (\<exists>rt. Schedule mord sord d cfg = Inr rt)"
    by (cases "Schedule mord sord d cfg") auto
  ultimately have "(\<exists>e. Schedule mord sord d cfg = Inl e) \<longleftrightarrow> \<not> (\<exists>s n me. enabled_in d cfg s n me)"
    unfolding Schedule_iff rt_def [symmetric] by blast
  moreover have "Schedule mord sord d cfg = Inr rt' \<Longrightarrow> rt' = rt" for rt' by (simp add: Schedule_iff rt_def)
  ultimately show ?thesis using spec by blast
qed

text \<open>Two metrics of one scope, of which one is enabled.\<close>

definition sample_emitter :: "string \<Rightarrow> (time_ns \<Rightarrow> (scrape_error, metric list) result) \<Rightarrow> metric_emitter" where
  "sample_emitter name emit = \<lparr>me_Name = name, me_Init = (\<lambda>_. None), me_Emit = emit\<rparr>"

definition sample_metric :: metric where
  "sample_metric = \<lparr>mt_name = ''m'', mt_description = [], mt_unit = [], mt_metadata = [], mt_data = MEmpty\<rparr>"

definition sample_descriptor :: scraper_descriptor where
  "sample_descriptor = \<lparr>sc_Type = ''host'', sc_ScopeDescriptors = [(''s'', \<lparr>sd_ScopeName = ''s'', sd_MetricDescriptors =
     [(''up'', sample_emitter ''up'' (\<lambda>_. Inr [sample_metric])), (''cpu'', sample_emitter ''cpu'' (\<lambda>_. Inl (Raised [])))],
     sd_Create = None\<rparr>)]\<rparr>"

lemma sample_well_named: "well_named sample_descriptor"
  by (simp add: well_named_def sample_descriptor_def gm_wf_def sample_emitter_def)

theorem scheduled_emitters_enabled_witness:
  "\<exists>rt. Schedule rev rev sample_descriptor [(''up'', True), (''cpu'', False)] = Inr rt \<and>
     (\<exists>se. gm_get rt ''s'' = Some se \<and> gm_get (se_metricEmitters se) ''up'' \<noteq> None \<and> gm_get (se_metricEmitters se) ''cpu'' = None)"
proof -
  let ?cfg = "[(''up'', True), (''cpu'', False)]"
  have "gm_wf ?cfg" by (simp add: gm_wf_def)
  note sched = scheduled_emitters_enabled [OF map_order_rev map_order_rev sample_well_named this]
  have up: "enabled_in sample_descriptor ?cfg ''s'' ''up'' (sample_emitter ''up'' (\<lambda>_. Inr [sample_metric]))"
    and cpu: "\<not> enabled_in sample_descriptor ?cfg ''s'' ''cpu'' me" for me
    by (simp_all add: enabled_in_def sample_descriptor_def)
  have "\<nexists>e. Schedule rev rev sample_descriptor ?cfg = Inl e" using conjunct1 [OF sched] up by blast
  then obtain rt where rt: "Schedule rev rev sample_descriptor ?cfg = Inr rt"
    by (cases "Schedule rev rev sample_descriptor ?cfg") simp_all
  note rt_spec = mp [OF sched [THEN conjunct2, THEN spec] rt]
  from rt_spec up obtain se where se: "gm_get rt ''s'' = Some se" by blast
  note iff = rt_spec [THEN conjunct2, rule_format, OF se, THEN conjunct2, rule_format]
  have "gm_get (se_metricEmitters se) ''up'' \<noteq> None" using iff up by blast
  moreover have "gm_get (se_metricEmitters se) ''cpu'' = None"
    using iff [of "''cpu''"] cpu by (metis not_None_eq)
  ultimately show ?thesis using rt se by blast
qed

section \<open>Results of a scrape\<close>

text \<open>Some metric emitter of the scope fails; what the emitters of a scope produce together.\<close>

definition scope_fails :: "time_ns \<Rightarrow> scope_emitter \<Rightarrow> bool" where
  "scope_fails now se \<longleftrightarrow> (\<exists>(n, me) \<in> set (se_metricEmitters se). \<exists>e. me_Emit me now = Inl e)"

definition scope_output :: "time_ns \<Rightarrow> scope_emitter \<Rightarrow> metric list" where
  "scope_output now se = concat (map (\<lambda>(n, me). case me_Emit me now of Inl _ \<Rightarrow> [] | Inr ms \<Rightarrow> ms) (se_metricEmitters se))"

lemma join_errors_None: "join_errors errs = None \<longleftrightarrow> errs = []"
  by (simp add: join_errors_def)

lemma mset_concat_map_sum: "mset (concat (map f xs)) = \<Sum>\<^sub># (image_mset (\<lambda>x. mset (f x)) (mset xs))"
  by (induction xs) simp_all

lemma mset_concat_arrival: "valid_arrivals arr \<Longrightarrow> mset (concat (map f (arrival arr xs))) = mset (concat (map f xs))"
  by (simp add: mset_concat_map_sum)

lemma concat_results:
  "concat (concat (map (\<lambda>(n, r). case r of Inl _ \<Rightarrow> [] | Inr ms \<Rightarrow> [ms]) xs)) = concat (map (\<lambda>(n, r). case r of Inl _ \<Rightarrow> [] | Inr ms \<Rightarrow> ms) xs)"
  "\<not> (\<exists>(n, r) \<in> set xs. \<exists>e. r = Inl e) \<Longrightarrow> length (concat (map (\<lambda>(n, r). case r of Inl _ \<Rightarrow> [] | Inr ms \<Rightarrow> [ms]) xs)) = length xs"
  by (induction xs) (auto split: sum.split)

lemma no_errors:
  "concat (map (\<lambda>(name, r). case r of Inl e \<Rightarrow> [MetricEmitFailed name e] | Inr _ \<Rightarrow> []) xs) = [] \<longleftrightarrow> \<not> (\<exists>(n, r) \<in> set xs. \<exists>e. r = Inl e)"
  by (induction xs) (auto split: sum.split)

lemma processEmittedResults_fails:
  "\<exists>(n, r) \<in> set xs. \<exists>e. r = Inl e \<Longrightarrow> \<exists>e. processEmittedResults xs = Inl e"
  unfolding processEmittedResults_def Let_def using no_errors [of xs] by (simp add: join_errors_def)

lemma processEmittedResults_ok:
  "\<not> (\<exists>(n, r) \<in> set xs. \<exists>e. r = Inl e) \<Longrightarrow>
   processEmittedResults xs = Inr (concat (map (\<lambda>(n, r). case r of Inl _ \<Rightarrow> [] | Inr ms \<Rightarrow> [ms]) xs))"
  unfolding processEmittedResults_def Let_def using no_errors [of xs] by (simp add: join_errors_def)

lemma concat_nonempty: "concat (filter (\<lambda>m. length m \<noteq> 0) ms) = concat ms"
  by (induction ms) auto

lemma assemblyScope_eq:
  "ms \<noteq> [] \<Longrightarrow> assemblyScopeMetricSlice version s ms =
   Inr (if concat ms = [] then [] else [\<lparr>sm_name = se_scopeName s, sm_version = version, sm_attrs = [], sm_metrics = concat ms\<rparr>])"
  unfolding assemblyScopeMetricSlice_def concat_nonempty by (simp add: Let_def del: concat_eq_Nil_conv)

lemma scope_Emit_cases:
  assumes "valid_arrivals arr" "se_metricEmitters se \<noteq> []"
  shows "scope_fails now se \<Longrightarrow> \<exists>e. scope_Emit version arr now se = Inl e"
    and "\<not> scope_fails now se \<Longrightarrow> \<exists>ms. mset ms = mset (scope_output now se) \<and>
      scope_Emit version arr now se =
        Inr (if ms = [] then [] else [\<lparr>sm_name = se_scopeName se, sm_version = version, sm_attrs = [], sm_metrics = ms\<rparr>])"
proof -
  let ?xs = "map (\<lambda>(name, me). (name, me_Emit me now)) (se_metricEmitters se)"
  have fails: "(\<exists>(n, r) \<in> set (arrival arr ?xs). \<exists>e. r = Inl e) \<longleftrightarrow> scope_fails now se"
    unfolding set_arrival [OF assms(1)] by (auto simp: scope_fails_def case_prod_beta)
  have emit: "scope_Emit version arr now se =
    (case processEmittedResults (arrival arr ?xs) of Inl e \<Rightarrow> Inl e | Inr ms \<Rightarrow> assemblyScopeMetricSlice version se ms)"
    using assms(2) by (simp add: scope_Emit_def checkIfMetricEmittersAreRegistered_def processMetricEmitters_def)
  show "\<exists>e. scope_Emit version arr now se = Inl e" if "scope_fails now se"
    using processEmittedResults_fails fails that emit by fastforce
  assume ok: "\<not> scope_fails now se"
  define ms where "ms = concat (map (\<lambda>(n, r). case r of Inl _ \<Rightarrow> [] | Inr ms \<Rightarrow> [ms]) (arrival arr ?xs))"
  have r: "processEmittedResults (arrival arr ?xs) = Inr ms" unfolding ms_def using processEmittedResults_ok fails ok by blast
  have "length ms = length (arrival arr ?xs)" unfolding ms_def by (rule concat_results(2)) (use fails ok in blast)
  then have "ms \<noteq> []" using assms by auto
  then have "scope_Emit version arr now se =
    Inr (if concat ms = [] then [] else [\<lparr>sm_name = se_scopeName se, sm_version = version, sm_attrs = [], sm_metrics = concat ms\<rparr>])"
    unfolding emit r sum.case by (rule assemblyScope_eq)
  moreover have "mset (concat ms) = mset (scope_output now se)"
    unfolding ms_def concat_results(1) mset_concat_arrival [OF assms(1)] by (simp add: scope_output_def comp_def case_prod_unfold)
  ultimately show "\<exists>ms. mset ms = mset (scope_output now se) \<and>
      scope_Emit version arr now se =
        Inr (if ms = [] then [] else [\<lparr>sm_name = se_scopeName se, sm_version = version, sm_attrs = [], sm_metrics = ms\<rparr>])" by blast
qed

text \<open>A runtime as it is scheduled: it has scopes, and they have emitters.\<close>

definition runtime_wf :: "runtime \<Rightarrow> bool" where
  "runtime_wf rt \<longleftrightarrow> rt \<noteq> [] \<and> (\<forall>(s, se) \<in> set rt. se_scopeName se = s \<and> se_metricEmitters se \<noteq> [])"

lemma fold_gm_all:
  assumes "gm_all P m" "\<And>x m. x \<in> set xs \<Longrightarrow> gm_all P m \<Longrightarrow> gm_all P (f x m)"
  shows "gm_all P (fold f xs m)"
  using assms by (induction xs arbitrary: m) auto

lemma manager_Init_runtime:
  assumes "manager_Init mord sord d c m = (None, m')" "\<forall>(s, sd) \<in> set (sc_ScopeDescriptors d). sd_Create sd = None" "map_order sord"
  shows "\<exists>rt. mg_runtime m' = Some rt \<and> runtime_wf rt"
proof -
  from assms(1) obtain rt where rt: "mg_runtime m' = Some rt" "Schedule mord sord d (mc_Scraper c) = Inr rt"
    by (auto simp: manager_Init_def Let_def split: sum.splits)
  have "gm_all (\<lambda>s se. se_scopeName se = s \<and> se_metricEmitters se \<noteq> [])
    (TraverseThroughScopeDescriptors mord sord (sc_ScopeDescriptors d) enabled)" for enabled
    unfolding TraverseThroughScopeDescriptors_def
    by (rule fold_gm_all) (use assms(2) map_order_set [OF assms(3)] in
        \<open>auto simp: Let_def chooseEmitterAllocator_def CreateDefaultScopeEmitter_def intro!: gm_all_put split: prod.split\<close>)
  with Schedule_Inr [OF rt(2)] have "runtime_wf rt" by (auto simp: runtime_wf_def dest: gm_all_mem)
  with rt(1) show ?thesis by blast
qed

text \<open>The scopes of a successful scrape, up to the order of scopes and of metrics.\<close>

definition scrape_output :: "time_ns \<Rightarrow> runtime \<Rightarrow> (string \<times> metric multiset) multiset" where
  "scrape_output now rt =
     mset (map (\<lambda>(s, se). (s, mset (scope_output now se))) (filter (\<lambda>(s, se). scope_output now se \<noteq> []) rt))"

definition scope_summary :: "scope_metrics \<Rightarrow> string \<times> metric multiset" where
  "scope_summary sm = (sm_name sm, mset (sm_metrics sm))"

lemma scrape_output_Cons:
  "scrape_output now ((s, se) # rt) =
   (if scope_output now se = [] then {#} else {#(s, mset (scope_output now se))#}) + scrape_output now rt"
  by (simp add: scrape_output_def)

lemma scopes_ok:
  assumes "\<forall>s. valid_arrivals (sch s)" "\<forall>(s, se) \<in> set rt. se_scopeName se = s \<and> se_metricEmitters se \<noteq> []"
    and "\<forall>(s, se) \<in> set rt. \<not> scope_fails now se"
  shows "\<exists>sms. map (\<lambda>(name, se). scope_Emit version (sch name) now se) rt = map Inr sms \<and>
    mset (map scope_summary (concat sms)) = scrape_output now rt \<and>
    (\<forall>sm \<in> set (concat sms). sm_version sm = version \<and> sm_attrs sm = [])"
  using assms
proof (induction rt)
  case (Cons x rt)
  obtain s se where x: "x = (s, se)" by fastforce
  have IH: "\<exists>sms. map (\<lambda>(name, se). scope_Emit version (sch name) now se) rt = map Inr sms \<and>
    mset (map scope_summary (concat sms)) = scrape_output now rt \<and>
    (\<forall>sm \<in> set (concat sms). sm_version sm = version \<and> sm_attrs sm = [])"
    using Cons.prems by (intro Cons.IH) auto
  then obtain sms where sms: "map (\<lambda>(name, se). scope_Emit version (sch name) now se) rt = map Inr sms"
    "mset (map scope_summary (concat sms)) = scrape_output now rt" "\<forall>sm \<in> set (concat sms). sm_version sm = version \<and> sm_attrs sm = []"
    by blast
  have "valid_arrivals (sch s)" "se_metricEmitters se \<noteq> []" "\<not> scope_fails now se" "se_scopeName se = s" using Cons.prems x by auto
  with scope_Emit_cases(2) [of "sch s" se now version] obtain ms where ms: "mset ms = mset (scope_output now se)"
    "scope_Emit version (sch s) now se = Inr (if ms = [] then [] else [\<lparr>sm_name = s, sm_version = version, sm_attrs = [], sm_metrics = ms\<rparr>])"
    by metis
  let ?sm = "\<lparr>sm_name = s, sm_version = version, sm_attrs = [], sm_metrics = ms\<rparr>"
  have "ms = [] \<longleftrightarrow> scope_output now se = []" using ms(1) by (metis mset_zero_iff)
  moreover have "scope_summary ?sm = (s, mset (scope_output now se))" by (simp add: scope_summary_def ms(1))
  ultimately show ?case using sms ms(2) x by (intro exI [of _ "(if ms = [] then [] else [?sm]) # sms"]) (auto simp: scrape_output_Cons)
qed (simp add: scrape_output_def)

lemma receiveEmit_Inr: "receiveAndEvaluateEmitResults ty (map Inr sms) = Inr sms"
  by (simp add: receiveAndEvaluateEmitResults_def join_errors_def comp_def concat_map_singleton)

lemma receiveEmit_fails: "Inl e \<in> set rs \<Longrightarrow> \<exists>e. receiveAndEvaluateEmitResults ty rs = Inl e"
  by (induction rs) (auto simp: receiveAndEvaluateEmitResults_def join_errors_def split: sum.splits)

lemma arrival_map: "arrival arr (map f xs) = map f (arrival arr xs)" if "valid_arrivals arr"
proof -
  have "set (arr (length xs)) = {0..<length xs}" using that by (metis valid_arrivals_def set_mset_mset set_upt)
  then show ?thesis by (auto simp: arrival_def)
qed

text \<open>C33: A scrape of an initialised manager is all or nothing.  When its context is open and the scraper is
  ready, it fails if some metric emitter fails, returning no metrics and leaving the manager as it was;
  otherwise it returns one resource with one scope per scope emitter that produced metrics, which has
  all the metrics of its emitters, and the time of the scrape becomes the last processed one.
\<close>

theorem scrape_all_or_nothing:
  assumes "valid_arrivals arr" "\<forall>s. valid_arrivals (sch s)" "map_order sord"
    and "manager_Init mord sord d c m0 = (None, m)" "\<forall>(s, sd) \<in> set (sc_ScopeDescriptors d). sd_Create sd = None"
    and "feature_IsReady now (mg_features m)" "mg_runtime m = Some rt"
  shows "if \<exists>(s, se) \<in> set rt. scope_fails now se
    then \<exists>e. manager_Scrape version False arr sch now m = (([], Some e), m)
    else \<exists>scopes. manager_Scrape version False arr sch now m =
           (([\<lparr>rm_attrs = [], rm_scopes = scopes\<rparr>], None),
            m\<lparr>mg_features := feature_UpdateLastProcessedTime now (mg_features m)\<rparr>) \<and>
         mset (map scope_summary scopes) = scrape_output now rt \<and>
         (\<forall>sm \<in> set scopes. sm_version sm = version \<and> sm_attrs sm = [])"
proof -
  have wf: "runtime_wf rt" using manager_Init_runtime [OF assms(4,5,3)] assms(7) by auto
  let ?rs = "map (\<lambda>(name, se). scope_Emit version (sch name) now se) rt"
  show ?thesis
  proof (cases "\<exists>(s, se) \<in> set rt. scope_fails now se")
    case True
    then obtain s se where se: "(s, se) \<in> set rt" "scope_fails now se" by blast
    then have "se_metricEmitters se \<noteq> []" using wf by (auto simp: runtime_wf_def)
    from scope_Emit_cases(1) [OF _ this se(2)] assms(2) obtain e where "scope_Emit version (sch s) now se = Inl e" by blast
    then have "Inl e \<in> set (arrival arr ?rs)" unfolding set_arrival [OF assms(1)] using se(1) by force
    from receiveEmit_fails [OF this] obtain e' where "receiveAndEvaluateEmitResults (mg_type m) (arrival arr ?rs) = Inl e'" by blast
    then show ?thesis using True assms(6,7) by (simp add: manager_Scrape_def processEmitOnScopeEmitters_def)
  next
    case False
    then have "\<forall>(s, se) \<in> set rt. \<not> scope_fails now se" by blast
    from scopes_ok [OF assms(2) _ this] wf obtain sms where sms: "?rs = map Inr sms"
      "mset (map scope_summary (concat sms)) = scrape_output now rt" "\<forall>sm \<in> set (concat sms). sm_version sm = version \<and> sm_attrs sm = []"
      unfolding runtime_wf_def by blast
    let ?sms = "arrival arr sms"
    have rec: "receiveAndEvaluateEmitResults ty (arrival arr ?rs) = Inr ?sms" for ty
      unfolding sms(1) arrival_map [OF assms(1)] by (rule receiveEmit_Inr)
    have "length sms = length rt" using sms(1) by (metis length_map)
    then have "?sms \<noteq> []" using wf assms(1) by (auto simp: runtime_wf_def)
    then have "manager_Scrape version False arr sch now m =
       (([\<lparr>rm_attrs = [], rm_scopes = concat ?sms\<rparr>], None), m\<lparr>mg_features := feature_UpdateLastProcessedTime now (mg_features m)\<rparr>)"
      using assms(6,7) by (simp add: manager_Scrape_def processEmitOnScopeEmitters_def rec assemblyMetrics_def)
    moreover have "mset (map scope_summary (concat ?sms)) = scrape_output now rt"
      using sms(2) mset_concat_arrival [OF assms(1), of id sms] by simp
    moreover have "\<forall>sm \<in> set (concat ?sms). sm_version sm = version \<and> sm_attrs sm = []" using sms(3) assms(1) by simp
    ultimately show ?thesis using False by auto
  qed
qed

section \<open>Delayed scrapes\<close>

text \<open>The times of the scrapes of a run that produced data, for the calls in order.\<close>

fun processed_times :: "string \<Rightarrow> (bool \<times> arrivals \<times> (string \<Rightarrow> arrivals) \<times> time_ns) list \<Rightarrow> manager \<Rightarrow> time_ns list" where
  "processed_times version [] m = []"
| "processed_times version ((ctxClosed, arr, sch, now) # calls) m =
     (let ((ms, err), m') = manager_Scrape version ctxClosed arr sch now m in
      (if ms \<noteq> [] then [now] else []) @ processed_times version calls m')"

lemma scrape_effect:
  assumes "manager_Scrape version ctxClosed arr sch now m = ((ms, err), m')" "fm_activated (mg_features m)"
  shows "if ms = [] then m' = m
    else dp_last (fm_delayed (mg_features m)) + dp_interval (fm_delayed (mg_features m)) \<le> now \<and>
      m' = m\<lparr>mg_features := (mg_features m)\<lparr>fm_delayed := (fm_delayed (mg_features m))\<lparr>dp_last := now\<rparr>\<rparr>\<rparr>"
  using assms
  by (auto simp: manager_Scrape_def feature_IsReady_def delayed_IsReady_def feature_UpdateLastProcessedTime_def delayed_Update_def
      assemblyMetrics_def not_less split: if_splits option.splits sum.splits)

text \<open>C34: With delayed processing, a manager started at some time produces data at times that keep the
  configured interval between each other and from the start, whatever calls are made.
\<close>

theorem delayed_scrapes_apart:
  assumes "manager_Start False arr sch start m = (None, m')" "fm_activated (mg_features m)"
    and "mg_config m = Some c" "mc_Delayed c = Some interval"
  shows "successively (\<lambda>t t'. t + interval \<le> t') (start # processed_times version calls m')"
proof -
  have gaps: "successively (\<lambda>t t'. t + dp_interval (fm_delayed (mg_features m)) \<le> t')
      (dp_last (fm_delayed (mg_features m)) # processed_times version calls m)" if "fm_activated (mg_features m)" for m
    using that
  proof (induction calls arbitrary: m)
    case (Cons call calls)
    obtain ctxClosed arr sch now where call: "call = (ctxClosed, arr, sch, now)" by (metis prod_cases4)
    obtain ms err m'' where s: "manager_Scrape version ctxClosed arr sch now m = ((ms, err), m'')" by (metis surj_pair)
    show ?case using scrape_effect [OF s Cons.prems] Cons.IH [of m''] Cons.prems s call by (cases "ms = []") auto
  qed simp
  from assms have "fm_activated (mg_features m')" "dp_last (fm_delayed (mg_features m')) = start"
    "dp_interval (fm_delayed (mg_features m')) = interval"
    by (auto simp: manager_Start_def feature_InitDelayedProcessing_def delayed_Init_def split: if_splits option.splits sum.splits)
  with gaps [of m'] show ?thesis by simp
qed

text \<open>Two scrapes of the sample scraper: the first comes too early, the second is processed.\<close>

definition sample_config :: manager_config where
  "sample_config = \<lparr>mc_Scraper = [(''up'', True)], mc_Delayed = Some 10\<rparr>"

lemma sample_Init:
  "\<exists>m. manager_Init rev rev sample_descriptor sample_config NewScraperManager = (None, m) \<and>
     mg_runtime m = Some [(''s'', \<lparr>se_scopeName = ''s'', se_metricEmitters = [(''up'', sample_emitter ''up'' (\<lambda>_. Inr [sample_metric]))]\<rparr>)] \<and>
     mg_features m = \<lparr>fm_activated = True, fm_delayed = NewDelayedProcessing\<rparr> \<and> mg_config m = Some sample_config"
  by (simp add: manager_Init_def feature_Init_def sample_config_def sample_descriptor_def Schedule_def GetEnabledMetrics_def
      createScraperRuntime_def TraverseThroughScopeDescriptors_def TraverseThroughMetricDescriptors_def sample_emitter_def
      chooseEmitterAllocator_def CreateDefaultScopeEmitter_def NewScraperManager_def NewFeatureManager_def Let_def)

lemma upt_arrivals: "valid_arrivals (\<lambda>n. [0..<n])"
  by (simp add: valid_arrivals_def)

theorem scrape_all_or_nothing_witness:
  "\<exists>m m' scopes. manager_Init rev rev sample_descriptor sample_config NewScraperManager = (None, m) \<and>
     manager_Scrape ''1'' False (\<lambda>n. [0..<n]) (\<lambda>_ n. [0..<n]) 0 m = (([\<lparr>rm_attrs = [], rm_scopes = scopes\<rparr>], None), m') \<and>
     map scope_summary scopes = [(''s'', {#sample_metric#})]"
proof -
  obtain m where m: "manager_Init rev rev sample_descriptor sample_config NewScraperManager = (None, m)"
    "mg_runtime m = Some [(''s'', \<lparr>se_scopeName = ''s'', se_metricEmitters = [(''up'', sample_emitter ''up'' (\<lambda>_. Inr [sample_metric]))]\<rparr>)]"
    "mg_features m = \<lparr>fm_activated = True, fm_delayed = NewDelayedProcessing\<rparr>" using sample_Init by blast
  have "\<forall>(s, sd) \<in> set (sc_ScopeDescriptors sample_descriptor). sd_Create sd = None" by (simp add: sample_descriptor_def)
  moreover have "feature_IsReady 0 (mg_features m)"
    by (simp add: m(3) feature_IsReady_def delayed_IsReady_def NewDelayedProcessing_def zeroTime_def)
  ultimately have "\<exists>scopes m'. manager_Scrape ''1'' False (\<lambda>n. [0..<n]) (\<lambda>_ n. [0..<n]) 0 m =
      (([\<lparr>rm_attrs = [], rm_scopes = scopes\<rparr>], None), m') \<and> mset (map scope_summary scopes) = {#(''s'', {#sample_metric#})#}"
    using scrape_all_or_nothing [OF upt_arrivals _ map_order_rev m(1) _ _ m(2), where sch = "\<lambda>_ n. [0..<n]" and now = 0 and version = "''1''"]
    by (auto simp: upt_arrivals scope_fails_def sample_emitter_def scrape_output_def scope_output_def)
  then show ?thesis using m(1) by (metis mset_single_iff_right)
qed

theorem delayed_scrapes_apart_witness:
  "\<exists>m. snd (manager_Start False (\<lambda>n. [0..<n]) (\<lambda>_ n. [0..<n]) 5
      (snd (manager_Init rev rev sample_descriptor sample_config NewScraperManager))) = m \<and>
     successively (\<lambda>t t'. t + 10 \<le> t')
       (5 # processed_times ''1'' [(False, (\<lambda>n. [0..<n]), (\<lambda>_ n. [0..<n]), 7), (False, (\<lambda>n. [0..<n]), (\<lambda>_ n. [0..<n]), 16)] m)"
proof -
  obtain m where m: "manager_Init rev rev sample_descriptor sample_config NewScraperManager = (None, m)"
    "mg_runtime m = Some [(''s'', \<lparr>se_scopeName = ''s'', se_metricEmitters = [(''up'', sample_emitter ''up'' (\<lambda>_. Inr [sample_metric]))]\<rparr>)]"
    "mg_features m = \<lparr>fm_activated = True, fm_delayed = NewDelayedProcessing\<rparr>" "mg_config m = Some sample_config"
    using sample_Init by blast
  obtain m' where "manager_Start False (\<lambda>n. [0..<n]) (\<lambda>_ n. [0..<n]) 5 m = (None, m')"
    by (simp add: manager_Start_def m processInitOnScopeEmitters_def arrival_def scope_Init_def checkIfMetricEmittersAreRegistered_def initializeMetricEmitters_def
        evaluateInitResults_def sample_emitter_def join_errors_def receiveAndEvaluateInitResults_def feature_InitDelayedProcessing_def
        sample_config_def)
  from delayed_scrapes_apart [OF this _ m(4), where interval = 10] m(1,3) this show ?thesis
    by (simp add: sample_config_def del: processed_times.simps)
qed

end
