(* ===== verification/Select_Loops.thy ===== *)
theory Select_Loops
  imports Go_Prelude "HOL-Library.Multiset"
begin

text \<open>
  The loops of the host metrics receiver that collect what several goroutines send
  (\<open>receiver/swohostmetricsreceiver/internal/synchronization\<close> and its users in \<open>internal/attributes\<close>, \<open>internal/providers\<close> and the uptime
  emitter).  A goroutine is the list of the values that it sends before it closes its channel.  The loop
  is first a function of the sequence of its receptions; the sequences that can happen are the interleavings of the
  channels.  Then it is a transition system with the wait group, the supervising routine and the channel
  variables that are set to nil, and this system refines the function.
\<close>

section \<open>Contexts\<close>

text \<open>The state of a context with a cause: open (\<open>None\<close>), or closed with the cause.  Cancelling a closed context does nothing.\<close>

type_synonym 'e ctx = "'e option"

definition cancelCause :: "'e \<Rightarrow> 'e ctx \<Rightarrow> 'e ctx" where
  "cancelCause cause c = (case c of None \<Rightarrow> Some cause | Some first \<Rightarrow> Some first)"

definition IsContextClosed :: "'e ctx \<Rightarrow> bool" where
  "IsContextClosed c = (c \<noteq> None)"

definition CancelContextWithCauseIfNotClosed :: "('e \<Rightarrow> 'e ctx \<Rightarrow> 'e ctx) \<Rightarrow> 'e \<Rightarrow> 'e ctx \<Rightarrow> 'e ctx" where
  "CancelContextWithCauseIfNotClosed cancelFn cause c = (if \<not> IsContextClosed c then cancelFn cause c else c)"

text \<open>After any number of calls the context has the first cause; the check before the call changes nothing.\<close>

lemma first_cause_kept:
  "fold (CancelContextWithCauseIfNotClosed cancelCause) causes c = (case c of None \<Rightarrow> (case causes of [] \<Rightarrow> None | e # _ \<Rightarrow> Some e) | Some e \<Rightarrow> Some e)"
  by (induction causes arbitrary: c) (auto simp: CancelContextWithCauseIfNotClosed_def IsContextClosed_def cancelCause_def split: option.split list.split)

lemma cancel_unconditional: "CancelContextWithCauseIfNotClosed cancelCause = cancelCause"
  by (auto simp: fun_eq_iff CancelContextWithCauseIfNotClosed_def IsContextClosed_def cancelCause_def)

section \<open>Channels\<close>

text \<open>What a loop receives from a channel: its values and then that it is closed.\<close>

definition channel :: "'a list \<Rightarrow> 'a option list" where
  "channel xs = map Some xs @ [None]"

fun interleavings :: "'a list list \<Rightarrow> 'a list set" where
  "interleavings [] = {[]}"
| "interleavings (c # cs) = (\<Union>zs \<in> interleavings cs. shuffles c zs)"

text \<open>
  A loop that waits for \<open>n\<close> channels: a value is processed, a closed channel is set to nil and
  lowers the wait group, and the supervising routine ends the loop when the group is done.  A loop
  that still waits when nothing is received any more is blocked (\<open>None\<close>).
\<close>

fun select_loop :: "('a \<Rightarrow> 's \<Rightarrow> 's) \<Rightarrow> 'a option list \<Rightarrow> nat \<Rightarrow> 's \<Rightarrow> 's option" where
  "select_loop f es 0 s = Some s"
| "select_loop f [] (Suc n) s = None"
| "select_loop f (None # es) (Suc n) s = select_loop f es n s"
| "select_loop f (Some x # es) (Suc n) s = select_loop f es (Suc n) (f x s)"

section \<open>Receiving from all channels\<close>

definition received :: "'a option list \<Rightarrow> 'a list" where
  "received es = concat (map (\<lambda>e. case e of None \<Rightarrow> [] | Some x \<Rightarrow> [x]) es)"

lemma received_simps [simp]:
  "received [] = []" "received (None # es) = received es" "received (Some x # es) = x # received es"
  by (simp_all add: received_def)

lemma select_loop_received:
  assumes "count_list es None = n" "es = [] \<or> last es = None"
  shows "select_loop f es n s = Some (fold f (received es) s)"
  using assms
proof (induction f es n s rule: select_loop.induct)
  case (1 f es s)
  then have "None \<notin> set es" by (simp add: count_list_0_iff)
  with 1 have "es = []" by (metis last_in_set)
  then show ?case by simp
qed (auto split: if_splits)

lemma last_shuffles: "zs \<in> shuffles xs ys \<Longrightarrow> (xs = [] \<or> last xs = a) \<Longrightarrow> (ys = [] \<or> last ys = a) \<Longrightarrow> zs = [] \<or> last zs = a"
  by (induction xs ys arbitrary: zs rule: shuffles.induct) (auto split: if_splits, blast+)

lemma count_list_mset: "count_list xs a = count (mset xs) a"
  by (induction xs) auto

lemma mset_received: "mset (received es) = image_mset the (filter_mset (\<lambda>e. e \<noteq> None) (mset es))"
  by (induction es) (auto split: option.split simp: received_def)

lemma received_channel [simp]: "received (channel xs) = xs"
  by (induction xs) (auto simp: channel_def)

lemma interleaved_channels:
  assumes "es \<in> interleavings (map channel cs)"
  shows "count (mset es) None = length cs" "es = [] \<or> last es = None" "mset (received es) = mset (concat cs)"
proof -
  have *: "count (mset es) None = length cs \<and> (es = [] \<or> last es = None) \<and> mset (received es) = mset (concat cs)"
    using assms
  proof (induction cs arbitrary: es)
    case (Cons c cs)
    then obtain zs where zs: "zs \<in> interleavings (map channel cs)" "es \<in> shuffles (channel c) zs" by auto
    note IH = Cons.IH [OF zs(1)]
    have c: "last (channel c) = None" "count (mset (channel c)) None = 1" "mset (received (channel c)) = mset c"
      by (simp add: channel_def) (induction c; simp add: channel_def)+
    have "mset (received es) = mset (received (channel c)) + mset (received zs)"
      unfolding mset_received mset_shuffles [OF zs(2)] by simp
    then show ?case using IH c last_shuffles [OF zs(2), of None] mset_shuffles [OF zs(2)] by auto
  qed simp
  then show "count (mset es) None = length cs" "es = [] \<or> last es = None" "mset (received es) = mset (concat cs)" by auto
qed

lemma select_loop_channels:
  assumes "es \<in> interleavings (map channel cs)"
  shows "\<exists>xs. mset xs = mset (concat cs) \<and> select_loop f es (length cs) s = Some (fold f xs s)"
  using interleaved_channels [OF assms] select_loop_received [of es "length cs" f s] by (auto simp: count_list_mset)

lemma append_in_shuffles: "xs @ ys \<in> shuffles xs ys"
  by (induction xs) (auto intro: Cons_in_shuffles_leftI)

lemma concat_in_interleavings: "concat cs \<in> interleavings cs"
  by (induction cs) (auto intro: append_in_shuffles)

section \<open>The loop with its wait group\<close>

text \<open>
  The channel variables of the loop: what the goroutine behind a channel still has to send before it closes it, \<open>None\<close> for
  a variable that was set to nil, on which a \<open>select\<close> never receives.  The counter of the wait group,
  whether the supervising routine has closed the termination channel, the data that the loop has collected, whether it was left and whether it panicked.
\<close>

record ('a, 's) loop_state =
  sel_channels :: "'a list option list"
  sel_wg :: int
  sel_terminated :: bool
  sel_result :: 's
  sel_done :: bool
  sel_panic :: bool

definition loop_init :: "'a list list \<Rightarrow> int \<Rightarrow> 's \<Rightarrow> ('a, 's) loop_state" where
  "loop_init sources sourcesCount s =
     \<lparr>sel_channels = map Some sources, sel_wg = sourcesCount, sel_terminated = False, sel_result = s, sel_done = False, sel_panic = False\<rparr>"

text \<open>A negative counter panics.\<close>

definition wg_Done :: "('a, 's) loop_state \<Rightarrow> ('a, 's) loop_state" where
  "wg_Done s = s\<lparr>sel_wg := sel_wg s - 1, sel_panic := (sel_panic s \<or> sel_wg s - 1 < 0)\<rparr>"

text \<open>A reception from the channel at an index: a value, or that the channel is closed.\<close>

definition receive_from :: "('a \<Rightarrow> 's \<Rightarrow> 's) \<Rightarrow> nat \<Rightarrow> ('a, 's) loop_state \<Rightarrow> ('a, 's) loop_state" where
  "receive_from f i s =
     (case sel_channels s ! i of
        Some (v # vs) \<Rightarrow> s\<lparr>sel_channels := (sel_channels s)[i := Some vs], sel_result := f v (sel_result s)\<rparr>
      | Some [] \<Rightarrow> wg_Done (s\<lparr>sel_channels := (sel_channels s)[i := None]\<rparr>)
      | None \<Rightarrow> s)"

definition supervise :: "('a, 's) loop_state \<Rightarrow> ('a, 's) loop_state" where
  "supervise s = s\<lparr>sel_terminated := True\<rparr>"

inductive loop_step :: "('a \<Rightarrow> 's \<Rightarrow> 's) \<Rightarrow> ('a, 's) loop_state \<Rightarrow> ('a, 's) loop_state \<Rightarrow> bool" for f where
  loop_receive: "\<not> sel_done s \<Longrightarrow> i < length (sel_channels s) \<Longrightarrow> sel_channels s ! i \<noteq> None \<Longrightarrow> loop_step f s (receive_from f i s)"
| loop_supervise: "sel_wg s = 0 \<Longrightarrow> \<not> sel_terminated s \<Longrightarrow> loop_step f s (supervise s)"
| loop_break: "\<not> sel_done s \<Longrightarrow> sel_terminated s \<Longrightarrow> loop_step f s (s\<lparr>sel_done := True\<rparr>)"

inductive_cases loop_step_cases: "loop_step f s s'"

subsection \<open>Interleavings, one reception at a time\<close>

lemma interleavings_Cons:
  assumes "i < length cs" "cs ! i = x # c" "zs \<in> interleavings (cs[i := c])"
  shows "x # zs \<in> interleavings cs"
  using assms
proof (induction cs arbitrary: i zs)
  case (Cons d cs)
  show ?case
  proof (cases i)
    case 0
    with Cons.prems show ?thesis by (auto intro: Cons_in_shuffles_leftI)
  next
    case (Suc j)
    with Cons.prems obtain ys where ys: "ys \<in> interleavings (cs[j := c])" "zs \<in> shuffles d ys" by auto
    with Cons.IH [of j ys] Cons.prems Suc have "x # ys \<in> interleavings cs" by simp
    with ys(2) show ?thesis by (auto intro: Cons_in_shuffles_rightI)
  qed
qed simp

lemma interleavings_ConsD:
  assumes "x # zs \<in> interleavings cs"
  shows "\<exists>i c. i < length cs \<and> cs ! i = x # c \<and> zs \<in> interleavings (cs[i := c])"
  using assms
proof (induction cs arbitrary: zs)
  case (Cons d cs)
  then obtain ys where ys: "ys \<in> interleavings cs" "x # zs \<in> shuffles d ys" by auto
  from ys(2) consider c where "d = x # c" "zs \<in> shuffles c ys" | ys' where "ys = x # ys'" "zs \<in> shuffles d ys'"
    by (auto simp: Cons_in_shuffles_iff neq_Nil_conv)
  then show ?case
  proof cases
    case 1
    with ys(1) show ?thesis by (intro exI [of _ 0]) auto
  next
    case 2
    with Cons.IH [of ys'] ys(1) obtain i c where "i < length cs" "cs ! i = x # c" "ys' \<in> interleavings (cs[i := c])" by blast
    with 2(2) show ?thesis by (intro exI [of _ "Suc i"]) auto
  qed
qed simp

lemma Nil_interleavings: "[] \<in> interleavings cs \<longleftrightarrow> (\<forall>c \<in> set cs. c = [])"
  by (induction cs) auto

subsection \<open>The invariant of the loop\<close>

text \<open>What can still be received from a channel variable.\<close>

definition remaining :: "'a list option \<Rightarrow> 'a option list" where
  "remaining c = (case c of None \<Rightarrow> [] | Some vs \<Rightarrow> channel vs)"

primrec open_channels :: "'a option list \<Rightarrow> nat" where
  "open_channels [] = 0"
| "open_channels (c # cs) = (if c = None then 0 else 1) + open_channels cs"

text \<open>The receptions so far continue to an interleaving of the channels with any interleaving of what remains.\<close>

definition loop_inv :: "('a \<Rightarrow> 's \<Rightarrow> 's) \<Rightarrow> 'a list list \<Rightarrow> 's \<Rightarrow> ('a, 's) loop_state \<Rightarrow> bool" where
  "loop_inv f sources s0 s \<longleftrightarrow>
     \<not> sel_panic s \<and> sel_wg s = int (open_channels (sel_channels s)) \<and> (sel_terminated s \<longrightarrow> sel_wg s = 0) \<and> (sel_done s \<longrightarrow> sel_terminated s) \<and>
     (\<exists>es. sel_result s = fold f (received es) s0 \<and>
        (\<forall>zs \<in> interleavings (map remaining (sel_channels s)). es @ zs \<in> interleavings (map channel sources)))"

definition loop_size :: "('a, 's) loop_state \<Rightarrow> nat" where
  "loop_size s = sum_list (map (\<lambda>c. length (remaining c)) (sel_channels s)) +
     (if sel_terminated s then 0 else 1) + (if sel_done s then 0 else 1)"

lemma remaining_simps [simp]: "remaining None = []" "remaining (Some []) = [None]" "remaining (Some (v # vs)) = Some v # remaining (Some vs)"
  by (simp_all add: remaining_def channel_def)

lemma open_channels_0: "open_channels cs = 0 \<longleftrightarrow> (\<forall>c \<in> set cs. c = None)"
  by (induction cs) auto

lemma open_channels_update:
  "i < length cs \<Longrightarrow> open_channels (cs[i := c]) + (if cs ! i = None then 0 else 1) = open_channels cs + (if c = None then 0 else 1)"
proof (induction cs arbitrary: i)
  case (Cons d cs)
  then show ?case using Cons.IH [of "i - 1"] by (cases i) auto
qed simp

lemma open_channels_Some [simp]: "open_channels (map Some xs) = length xs"
  by (induction xs) auto

lemma loop_inv_init: "loop_inv f sources s0 (loop_init sources (int (length sources)) s0)"
proof -
  have rem: "map remaining (map Some sources) = map channel sources" by (simp add: remaining_def)
  show ?thesis unfolding loop_inv_def loop_init_def loop_state.simps rem by (auto intro: exI [of _ "[]"])
qed

lemma sum_list_changed:
  fixes g :: "'a \<Rightarrow> nat"
  assumes "i < length xs"
  shows "sum_list (map g (xs[i := y])) + g (xs ! i) = sum_list (map g xs) + g y"
proof -
  have "g (xs ! i) \<le> sum_list (map g xs)" using elem_le_sum_list [of i "map g xs"] assms by simp
  then show ?thesis using assms by (simp add: map_update sum_list_update)
qed

lemma receive_inv:
  assumes "loop_inv f sources s0 s" "\<not> sel_done s" "i < length (sel_channels s)" "sel_channels s ! i \<noteq> None"
  shows "loop_inv f sources s0 (receive_from f i s)"
proof -
  obtain es where es: "sel_result s = fold f (received es) s0"
    "\<And>zs. zs \<in> interleavings (map remaining (sel_channels s)) \<Longrightarrow> es @ zs \<in> interleavings (map channel sources)"
    using assms(1) unfolding loop_inv_def by blast
  have continue: "(es @ [x]) @ zs \<in> interleavings (map channel sources)"
    if "remaining (sel_channels s ! i) = x # remaining c" "zs \<in> interleavings (map remaining ((sel_channels s)[i := c]))" for x c zs
    using es(2) [OF interleavings_Cons [of i _ x "remaining c" zs]] that assms(3) by (simp add: map_update)
  note open_count = open_channels_update [OF assms(3)]
  have pos: "open_channels (sel_channels s) \<noteq> 0" unfolding open_channels_0 using assms(3,4) nth_mem by fastforce
  obtain vs where vs: "sel_channels s ! i = Some vs" using assms(4) by blast
  show ?thesis
  proof (cases vs)
    case Nil
    have "\<exists>es'. sel_result s = fold f (received es') s0 \<and>
      (\<forall>zs \<in> interleavings (map remaining ((sel_channels s)[i := None])). es' @ zs \<in> interleavings (map channel sources))"
      using continue [of None None] es(1) vs Nil by (intro exI [of _ "es @ [None]"]) (auto simp: received_def)
    with assms(1) pos open_count [of None] vs Nil show ?thesis
      by (auto simp: loop_inv_def receive_from_def wg_Done_def)
  next
    case (Cons v ws)
    have "\<exists>es'. f v (sel_result s) = fold f (received es') s0 \<and>
      (\<forall>zs \<in> interleavings (map remaining ((sel_channels s)[i := Some ws])). es' @ zs \<in> interleavings (map channel sources))"
      using continue [of "Some v" "Some ws"] es(1) vs Cons by (intro exI [of _ "es @ [Some v]"]) (auto simp: received_def)
    with assms(1) open_count [of "Some ws"] vs Cons show ?thesis
      by (auto simp: loop_inv_def receive_from_def)
  qed
qed

lemma loop_inv_step: "loop_inv f sources s0 s \<Longrightarrow> loop_step f s s' \<Longrightarrow> loop_inv f sources s0 s'"
  by (erule loop_step_cases) (simp_all add: receive_inv, auto simp: loop_inv_def supervise_def)

lemma loop_decreases:
  assumes "loop_step f s s'"
  shows "loop_size s' < loop_size s"
  using assms
proof cases
  case (loop_receive i)
  then obtain vs where vs: "sel_channels s ! i = Some vs" by blast
  show ?thesis using loop_receive(1,2) vs sum_list_changed [OF loop_receive(3), of "\<lambda>c. length (remaining c)" None]
      sum_list_changed [OF loop_receive(3), of "\<lambda>c. length (remaining c)" "Some (tl vs)"]
    by (cases vs) (auto simp: loop_size_def receive_from_def wg_Done_def)
qed (auto simp: loop_size_def supervise_def)

interpretation supervised: terminating_system "\<lambda>s. s = loop_init sources (int (length sources)) s0" "loop_step f" "loop_inv f sources s0" loop_size
  for f sources s0
  by unfold_locales (auto intro: loop_inv_init loop_inv_step loop_decreases)

subsection \<open>The loop computes what the receptions say\<close>

lemma remaining_Nil: "remaining c = [] \<longleftrightarrow> c = None"
  by (simp add: remaining_def channel_def split: option.split)

lemma receive_from_remaining:
  assumes "i < length (sel_channels s)" "remaining (sel_channels s ! i) = x # r"
  shows "map remaining (sel_channels (receive_from f i s)) = (map remaining (sel_channels s))[i := r] \<and>
    sel_result (receive_from f i s) = fold f (received [x]) (sel_result s) \<and> sel_channels s ! i \<noteq> None \<and>
    sel_done (receive_from f i s) = sel_done s"
proof -
  obtain vs where vs: "sel_channels s ! i = Some vs" using assms(2) by (cases "sel_channels s ! i") auto
  with assms show ?thesis by (cases vs) (auto simp: receive_from_def wg_Done_def map_update)
qed

lemma receive_all:
  assumes "zs \<in> interleavings (map remaining (sel_channels s))" "\<not> sel_done s"
  shows "\<exists>s'. (loop_step f)\<^sup>*\<^sup>* s s' \<and> \<not> sel_done s' \<and> sel_result s' = fold f (received zs) (sel_result s) \<and> (\<forall>c \<in> set (sel_channels s'). c = None)"
  using assms
proof (induction zs arbitrary: s)
  case Nil
  then have "\<forall>c \<in> set (sel_channels s). c = None" by (simp add: Nil_interleavings remaining_Nil)
  with Nil(2) show ?case by (intro exI [of _ s]) simp
next
  case (Cons x zs)
  obtain i r where i: "i < length (sel_channels s)" "remaining (sel_channels s ! i) = x # r" "zs \<in> interleavings ((map remaining (sel_channels s))[i := r])"
    using interleavings_ConsD [OF Cons.prems(1)] by auto
  note next_state = receive_from_remaining [OF i(1,2), of f]
  then have step: "loop_step f s (receive_from f i s)" by (intro loop_receive) (use i Cons.prems(2) in auto)
  have "\<exists>s'. (loop_step f)\<^sup>*\<^sup>* (receive_from f i s) s' \<and> \<not> sel_done s' \<and>
      sel_result s' = fold f (received zs) (sel_result (receive_from f i s)) \<and> (\<forall>c \<in> set (sel_channels s'). c = None)"
    by (rule Cons.IH) (use next_state i(3) Cons.prems(2) in auto)
  then obtain s' where s': "(loop_step f)\<^sup>*\<^sup>* (receive_from f i s) s'" "\<not> sel_done s'"
    "sel_result s' = fold f (received zs) (sel_result (receive_from f i s))" "\<forall>c \<in> set (sel_channels s'). c = None" by blast
  have "received (x # zs) = received [x] @ received zs" by (simp add: received_def)
  with s' next_state converse_rtranclp_into_rtranclp [OF step s'(1)] show ?case by (intro exI [of _ s']) simp
qed

lemma loop_finishes:
  assumes "loop_inv f sources s0 s" "\<forall>c \<in> set (sel_channels s). c = None" "\<not> sel_done s"
  shows "\<exists>s'. (loop_step f)\<^sup>*\<^sup>* s s' \<and> sel_done s' \<and> sel_result s' = sel_result s"
proof -
  have "sel_wg s = 0" using assms(1,2) by (simp add: loop_inv_def open_channels_0 [THEN iffD2])
  then have "\<exists>t. (loop_step f)\<^sup>*\<^sup>* s t \<and> sel_terminated t \<and> \<not> sel_done t \<and> sel_result t = sel_result s"
    using loop_supervise [of s f] assms(3) by (cases "sel_terminated s") (auto simp: supervise_def)
  then obtain t where t: "(loop_step f)\<^sup>*\<^sup>* s t" "sel_terminated t" "\<not> sel_done t" "sel_result t = sel_result s" by blast
  from rtranclp.rtrancl_into_rtrancl [OF t(1) loop_break [OF t(3,2)]] t(4) show ?thesis by (intro exI [of _ "t\<lparr>sel_done := True\<rparr>"]) simp
qed

lemma done_result:
  assumes "loop_inv f sources s0 s" "sel_done s"
  shows "\<exists>es \<in> interleavings (map channel sources). select_loop f es (length sources) s0 = Some (sel_result s)"
proof -
  have "\<forall>c \<in> set (sel_channels s). c = None" using assms unfolding loop_inv_def open_channels_0 [symmetric] by linarith
  then have "[] \<in> interleavings (map remaining (sel_channels s))" by (auto simp: Nil_interleavings)
  with assms(1) obtain es where es: "sel_result s = fold f (received es) s0" "es @ [] \<in> interleavings (map channel sources)"
    unfolding loop_inv_def by blast
  then have mem: "es \<in> interleavings (map channel sources)" by simp
  from interleaved_channels [OF this] have "select_loop f es (length sources) s0 = Some (sel_result s)"
    unfolding es(1) by (intro select_loop_received) (simp_all add: count_list_mset)
  with mem show ?thesis by blast
qed

text \<open>C8: The concurrent loop is what the receptions say.  For any goroutines behind the channels, with the counter of the wait group set to the number
  of channels: the loop never panics and never blocks, every run of it and of the supervising
  routine ends within a bound, and its possible results are exactly those of reading some
  interleaving of the channels until all of them are closed.
\<close>

theorem supervised_loop_correct:
  "(\<forall>s. (loop_step f)\<^sup>*\<^sup>* (loop_init sources (int (length sources)) s0) s \<longrightarrow> \<not> sel_panic s \<and> (\<not> sel_done s \<longrightarrow> (\<exists>s'. loop_step f s s'))) \<and>
   (\<forall>k s. (loop_step f ^^ k) (loop_init sources (int (length sources)) s0) s \<longrightarrow> k \<le> sum_list (map (\<lambda>vs. Suc (length vs)) sources) + 2) \<and>
   {sel_result s |s. (loop_step f)\<^sup>*\<^sup>* (loop_init sources (int (length sources)) s0) s \<and> sel_done s} =
     {r. \<exists>es \<in> interleavings (map channel sources). select_loop f es (length sources) s0 = Some r}"
proof -
  let ?i = "loop_init sources (int (length sources)) s0"
  have size: "loop_size ?i = sum_list (map (\<lambda>vs. Suc (length vs)) sources) + 2"
    by (simp add: loop_size_def loop_init_def remaining_def channel_def comp_def)
  have inv: "loop_inv f sources s0 s" if "(loop_step f)\<^sup>*\<^sup>* ?i s" for s using supervised.reachable_inv [OF refl that] .
  have progress: "\<exists>s'. loop_step f s s'" if inv_s: "loop_inv f sources s0 s" and not_done: "\<not> sel_done s" for s
  proof (cases "\<forall>c \<in> set (sel_channels s). c = None")
    case True
    obtain s' where s': "(loop_step f)\<^sup>*\<^sup>* s s'" "sel_done s'" using loop_finishes [OF inv_s True not_done] by blast
    then have "s \<noteq> s'" using not_done by blast
    with s'(1) show ?thesis by (blast elim: converse_rtranclpE)
  next
    case False
    then obtain i where "i < length (sel_channels s)" "sel_channels s ! i \<noteq> None" by (metis in_set_conv_nth)
    with loop_receive [OF not_done] show ?thesis by blast
  qed
  have bound: "k \<le> loop_size ?i" if "(loop_step f ^^ k) ?i s" for k s using supervised.run_bounded [OF refl that] by simp
  have reach: "\<exists>s. (loop_step f)\<^sup>*\<^sup>* ?i s \<and> sel_done s \<and> sel_result s = r"
    if es: "es \<in> interleavings (map channel sources)" "select_loop f es (length sources) s0 = Some r" for es r
  proof -
    have "es \<in> interleavings (map remaining (sel_channels ?i))" using es(1) by (simp add: loop_init_def remaining_def comp_def)
    moreover have "\<not> sel_done ?i" "sel_result ?i = s0" by (simp_all add: loop_init_def)
    ultimately obtain t where t: "(loop_step f)\<^sup>*\<^sup>* ?i t" "\<not> sel_done t" "sel_result t = fold f (received es) s0" "\<forall>c \<in> set (sel_channels t). c = None"
      using receive_all [of es ?i f] by auto
    have "r = fold f (received es) s0"
      using interleaved_channels [OF es(1)] es(2) select_loop_received [of es "length sources" f s0] by (simp add: count_list_mset)
    moreover obtain u where "(loop_step f)\<^sup>*\<^sup>* t u" "sel_done u" "sel_result u = sel_result t" using loop_finishes [OF inv [OF t(1)] t(4,2)] by blast
    ultimately show ?thesis using rtranclp_trans [OF t(1)] t(3) by (intro exI [of _ u]) simp
  qed
  have safe: "\<not> sel_panic s \<and> (\<not> sel_done s \<longrightarrow> (\<exists>s'. loop_step f s s'))" if "(loop_step f)\<^sup>*\<^sup>* ?i s" for s using inv [OF that] progress [OF inv [OF that]] unfolding loop_inv_def by blast
  have results: "{sel_result s |s. (loop_step f)\<^sup>*\<^sup>* ?i s \<and> sel_done s} =
     {r. \<exists>es \<in> interleavings (map channel sources). select_loop f es (length sources) s0 = Some r}"
  proof (intro set_eqI iffI; clarify)
    fix s
    assume "(loop_step f)\<^sup>*\<^sup>* ?i s" "sel_done s"
    then show "\<exists>es \<in> interleavings (map channel sources). select_loop f es (length sources) s0 = Some (sel_result s)" by (intro done_result inv)
  next
    fix r es
    assume "es \<in> interleavings (map channel sources)" "select_loop f es (length sources) s0 = Some r"
    from reach [OF this] show "\<exists>s. r = sel_result s \<and> (loop_step f)\<^sup>*\<^sup>* ?i s \<and> sel_done s" by blast
  qed
  have "\<forall>k s. (loop_step f ^^ k) ?i s \<longrightarrow> k \<le> sum_list (map (\<lambda>vs. Suc (length vs)) sources) + 2" using bound unfolding size by blast
  with safe results show ?thesis by blast
qed

text \<open>Two channels with one value each: both orders are possible, and nothing else.\<close>

theorem supervised_loop_correct_witness:
  "{sel_result s |s. (loop_step Cons)\<^sup>*\<^sup>* (loop_init [[1], [2 :: nat]] 2 []) s \<and> sel_done s} = {[2, 1], [1, 2]}"
proof -
  have res: "{r. \<exists>es \<in> interleavings (map channel [[1], [2 :: nat]]). select_loop Cons es (length [[1], [2 :: nat]]) [] = Some r} = {[2, 1], [1, 2]}"
    by (auto simp: channel_def)
  have two: "int (length [[1], [2 :: nat]]) = 2" by simp_all
  from supervised_loop_correct [of Cons "[[1], [2 :: nat]]" "[]", unfolded res two] show ?thesis by blast
qed

text \<open>With a counter that is too small the loop can be left before everything was received.\<close>

lemma small_counter_loses_data: "\<exists>s. (loop_step Cons)\<^sup>*\<^sup>* (loop_init [[], [1 :: nat]] 1 []) s \<and> sel_done s \<and> sel_result s = []"
proof -
  let ?a = "loop_init [[], [1 :: nat]] 1 []"
  let ?b = "receive_from Cons 0 ?a"
  let ?d = "supervise ?b"
  note defs = loop_init_def receive_from_def wg_Done_def supervise_def
  have "loop_step Cons ?a ?b" by (rule loop_receive) (simp_all add: defs)
  moreover have "loop_step Cons ?b ?d" by (rule loop_supervise) (simp_all add: defs)
  moreover have "loop_step Cons ?d (?d\<lparr>sel_done := True\<rparr>)" by (rule loop_break) (simp_all add: defs)
  ultimately have "(loop_step Cons)\<^sup>*\<^sup>* ?a (?d\<lparr>sel_done := True\<rparr>)" by (meson rtranclp.rtrancl_into_rtrancl rtranclp.rtrancl_refl)
  then show ?thesis by (intro exI conjI) (assumption, simp_all add: defs)
qed

end
