(* ===== verification/Host_Emitters.thy ===== *)
theory Host_Emitters
  imports Host_Providers Scraper_Framework Metric_Builder Select_Loops
begin

text \<open>
  The metric emitters of the host metrics receiver and the attribute generators they use
  (\<open>receiver/swohostmetricsreceiver/internal/attributes\<close>, \<open>.../scraper/*/metrics\<close>).  A generator or provider is the list of the values that
  it sends before it closes its channel, and a \<open>select\<close> loop over several of them is a function of the
  sequence of its receptions (\<open>Select_Loops\<close>).
  \<open>FromRaw\<close> fails for unsupported types only and the emitters give it strings.
\<close>

section \<open>Attributes\<close>

type_synonym attributes = "(string, string) gomap"

definition mergeAttributes :: "attributes \<Rightarrow> attributes \<Rightarrow> attributes" where
  "mergeAttributes increment result = fold (\<lambda>(k, v). gm_put k v) increment result"

text \<open>\<open>if len(v) > 0 { m[k] = v }\<close>.\<close>

definition put_nonempty :: "string \<Rightarrow> string \<Rightarrow> attributes \<Rightarrow> attributes" where
  "put_nonempty k v m = (if v = [] then m else gm_put k v m)"

definition processDomainAttributes :: "host_domain \<Rightarrow> attributes" where
  "processDomainAttributes d =
     (let m = put_nonempty ''hostdetails.domain.workgroup'' (hd_Workgroup d)
                (put_nonempty ''hostdetails.domain.fqdn'' (hd_FQDN d) (put_nonempty ''hostdetails.domain'' (hd_Domain d) []))
      in if hd_Domain d \<noteq> [] \<and> hd_DomainRole d \<ge> 0 then gm_put ''hostdetails.domain.role'' (strconv_Itoa (hd_DomainRole d)) m else m)"

record host_model =
  hm_Manufacturer :: string
  hm_Name :: string
  hm_SerialNumber :: string

definition processModelAttributes :: "host_model \<Rightarrow> attributes" where
  "processModelAttributes model =
     put_nonempty ''hostdetails.model.serialnumber'' (hm_SerialNumber model)
       (put_nonempty ''hostdetails.model.name'' (hm_Name model)
         (put_nonempty ''hostdetails.model.manufacturer'' (hm_Manufacturer model) []))"

text \<open>\<open>%\<close> truncates, which does not matter for a remainder of zero.\<close>

definition processTimeZoneAttributes :: "time_zone \<Rightarrow> attributes" where
  "processTimeZoneAttributes tz =
     (let m = put_nonempty ''hostdetails.timezone.standardname'' (tz_StandardName tz)
                (put_nonempty ''hostdetails.timezone.caption'' (tz_Caption tz) [])
      in if tz_Bias tz mod 60 = 0 then gm_put ''hostdetails.timezone.bias'' (strconv_Itoa (tz_Bias tz)) m else m)"

record info_stat =
  if_Hostname :: string
  if_BootTime :: u64
  if_Os :: string
  if_Platform :: string
  if_PlatformFamily :: string
  if_PlatformVersion :: string
  if_KernelVersion :: string
  if_KernelArchitecture :: string
  if_VirtualizationSystem :: string
  if_VirtualizationRole :: string
  if_HostID :: string

definition processInfoStatAttributes :: "info_stat \<Rightarrow> attributes" where
  "processInfoStatAttributes is =
     (let m = put_nonempty ''osdetails.hostname'' (if_Hostname is) [];
          m = put_nonempty ''osdetails.os'' (if_Os is) m;
          m = put_nonempty ''osdetails.platform'' (if_Platform is) m;
          m = put_nonempty ''osdetails.platform.family'' (if_PlatformFamily is) m;
          m = put_nonempty ''osdetails.platform.version'' (if_PlatformVersion is) m;
          m = put_nonempty ''osdetails.kernel.version'' (if_KernelVersion is) m;
          m = put_nonempty ''osdetails.kernel.architecture'' (if_KernelArchitecture is) m;
          m = put_nonempty ''osdetails.virtualization.system'' (if_VirtualizationSystem is) m;
          m = put_nonempty ''osdetails.virtualization.role'' (if_VirtualizationRole is) m;
          m = put_nonempty ''osdetails.host.id'' (if_HostID is) m
      in gm_put ''osdetails.boottime'' (show_nat (unat (if_BootTime is))) m)"

definition processLanguageAttributes :: "host_language \<Rightarrow> attributes" where
  "processLanguageAttributes l =
     (let m = put_nonempty ''osdetails.language.displayname'' (hl_DisplayName l) (put_nonempty ''osdetails.language.name'' (hl_Name l) [])
      in if hl_LCID l \<noteq> 0 then gm_put ''osdetails.language.lcid'' (strconv_Itoa (hl_LCID l)) m else m)"

text \<open>The provider of the model sends nothing on Linux, that of the system information what the host library returns.\<close>

definition model_Provide :: "host_model list" where
  "model_Provide = []"

definition infostat_Provide :: "(string, info_stat) result \<Rightarrow> info_stat list" where
  "infostat_Provide info = (case info of Inl _ \<Rightarrow> [] | Inr i \<Rightarrow> [i])"

text \<open>The two composed generators, for a sequence of receptions.\<close>

definition details_generate :: "attributes option list \<Rightarrow> nat \<Rightarrow> attributes option" where
  "details_generate es n = select_loop mergeAttributes es n []"

definition hostdetails_channels :: "host_domain list \<Rightarrow> host_model list \<Rightarrow> time_zone list \<Rightarrow> attributes list list" where
  "hostdetails_channels ds ms ts = [map processDomainAttributes ds, map processModelAttributes ms, map processTimeZoneAttributes ts]"

definition osdetails_channels :: "info_stat list \<Rightarrow> host_language list \<Rightarrow> attributes list list" where
  "osdetails_channels is ls = [map processInfoStatAttributes is, map processLanguageAttributes ls]"

section \<open>Uptime\<close>

definition safeUint64ToInt64 :: "u64 \<Rightarrow> int option" where
  "safeUint64ToInt64 i = (if uint i > 2 ^ 63 - 1 then None else Some (uint i))"

text \<open>The uptime that the provider sends, with its error.\<close>

type_synonym uptime_value = "u64 \<times> string option"

definition calculateUptime :: "uptime_value \<Rightarrow> (scrape_error, int) result" where
  "calculateUptime = (\<lambda>(uptime, err).
     case err of
       Some e \<Rightarrow> Inl (Wrapped ''failed to receive uptime from swo.hostinfo.uptime emitter'' (Raised e))
     | None \<Rightarrow> (case safeUint64ToInt64 uptime of None \<Rightarrow> Inl (Raised ''number overflows int64'') | Some i \<Rightarrow> Inr i))"

datatype uptime_event = HostAtts attributes | OsAtts attributes | UptimeValue uptime_value

type_synonym uptime_state = "(scrape_error, int) result \<times> attributes"

fun uptime_receive :: "uptime_event \<Rightarrow> uptime_state \<Rightarrow> uptime_state" where
  "uptime_receive (HostAtts a) (u, atts) = (u, mergeAttributes a atts)"
| "uptime_receive (OsAtts a) (u, atts) = (u, mergeAttributes a atts)"
| "uptime_receive (UptimeValue v) (u, atts) = (calculateUptime v, atts)"

definition uptime_getMetricData :: "uptime_event option list \<Rightarrow> uptime_state option" where
  "uptime_getMetricData es = select_loop uptime_receive es 3 (Inr 0, [])"

definition to_timestamp :: "time_ns \<Rightarrow> u64" where
  "to_timestamp t = of_int t"

definition fromRaw :: "((string \<times> string) list \<Rightarrow> (string \<times> string) list) \<Rightarrow> attributes \<Rightarrow> pmap" where
  "fromRaw ord m = map (\<lambda>(k, v). (k, VStr v)) (ord m)"

definition host_metric :: "string \<Rightarrow> string \<Rightarrow> string \<Rightarrow> metric_data \<Rightarrow> metric" where
  "host_metric name description unit data =
     \<lparr>mt_name = name, mt_description = description, mt_unit = unit, mt_metadata = [], mt_data = data\<rparr>"

type_synonym raw_order = "(string \<times> string) list \<Rightarrow> (string \<times> string) list"

definition uptime_constructMetricSlice :: "raw_order \<Rightarrow> time_ns \<Rightarrow> time_ns \<Rightarrow> int \<Rightarrow> attributes \<Rightarrow> metric list" where
  "uptime_constructMetricSlice ord startTime now dpValue atts =
     [host_metric ''swo.hostinfo.uptime'' ''Host uptime in seconds'' ''s''
        (MSum [\<lparr>dp_attrs = fromRaw ord atts, dp_startTimestamp = to_timestamp startTime, dp_timestamp = to_timestamp now, dp_value = VInt dpValue\<rparr>])]"

definition uptime_Emit ::
  "raw_order \<Rightarrow> uptime_event option list \<Rightarrow> time_ns \<Rightarrow> time_ns \<Rightarrow> (scrape_error, metric list) result option" where
  "uptime_Emit ord es startTime now =
     map_option (\<lambda>(u, atts).
       case u of
         Inl err \<Rightarrow> Inl (Wrapped ''uptime calculation failed'' err)
       | Inr uptime \<Rightarrow> Inr (uptime_constructMetricSlice ord startTime now uptime atts)) (uptime_getMetricData es)"

section \<open>Processor statistics\<close>

definition getMetricFieldMapping :: "string \<Rightarrow> string" where
  "getMetricFieldMapping metricName =
     (if metricName = ''os.cpu.time_microseconds'' then ''cpu_time''
      else if metricName = ''os.cpu.procs'' then ''processes''
      else if metricName = ''os.cpu.current_procs'' then ''current_procs''
      else if metricName = ''os.cpu.intr'' then ''ctxt''
      else if metricName = ''os.cpu.ctxt'' then ''ctxt''
      else if metricName = ''os.cpu.numcores'' then ''numcores''
      else [])"

definition cpustats_description :: "string \<Rightarrow> string" where
  "cpustats_description metricName =
     (if metricName = ''os.cpu.time_microseconds'' then ''Amount of time CPU has spent performing work''
      else if metricName = ''os.cpu.procs'' then ''Total number of processes and threads created''
      else if metricName = ''os.cpu.current_procs'' then ''Number of processes currently running on CPUs''
      else if metricName = ''os.cpu.intr'' then ''Count of interrupts serviced since boot time''
      else if metricName = ''os.cpu.ctxt'' then ''Total number of context switches across all CPUs''
      else if metricName = ''os.cpu.numcores'' then ''Number of CPU cores''
      else [])"

definition detail_point :: "time_ns \<Rightarrow> work_detail \<Rightarrow> data_point" where
  "detail_point now attr =
     \<lparr>dp_attrs = (if wd_AttrName attr \<noteq> [] then [(wd_AttrName attr, VStr (wd_AttrValue attr))] else []),
      dp_startTimestamp = 0, dp_timestamp = to_timestamp now, dp_value = VDouble (wd_Value attr)\<rparr>"

definition cpustats_constructMetricSlice :: "string \<Rightarrow> time_ns \<Rightarrow> cpu_stats \<Rightarrow> metric list" where
  "cpustats_constructMetricSlice metricName now data =
     (let fieldType = getMetricFieldMapping metricName in
      if fieldType = [] then []
      else case gm_get (cs_WorkDetails data) fieldType of
             None \<Rightarrow> []
           | Some attrs \<Rightarrow> [host_metric metricName (cpustats_description metricName) [] (MGauge (map (detail_point now) attrs))])"

definition cpustats_Emit :: "string \<Rightarrow> time_ns \<Rightarrow> cpu_stats \<Rightarrow> (cpu_error, metric list) result" where
  "cpustats_Emit metricName now data =
     (case cs_Error data of Some e \<Rightarrow> Inl e | None \<Rightarrow> Inr (cpustats_constructMetricSlice metricName now data))"

section \<open>Users and processors\<close>

definition user_attributes :: "logged_user \<Rightarrow> attributes" where
  "user_attributes user =
     put_nonempty ''user.tty'' (us_TTY user) (put_nonempty ''user.displayname'' (us_DisplayName user) (put_nonempty ''user.name'' (us_Name user) []))"

text \<open>Every point takes the time anew: \<open>now i\<close> for the point at index \<open>i\<close>.\<close>

definition gauge_points :: "raw_order \<Rightarrow> (nat \<Rightarrow> time_ns) \<Rightarrow> ('a \<Rightarrow> attributes) \<Rightarrow> ('a \<Rightarrow> pvalue) \<Rightarrow> 'a list \<Rightarrow> data_point list" where
  "gauge_points ord now atts val xs =
     map (\<lambda>(i, x). \<lparr>dp_attrs = fromRaw ord (atts x), dp_startTimestamp = 0, dp_timestamp = to_timestamp (now i), dp_value = val x\<rparr>)
       (enumerate 0 xs)"

definition lastlogged_constructMetricSlice :: "raw_order \<Rightarrow> (nat \<Rightarrow> time_ns) \<Rightarrow> logged_user list \<Rightarrow> metric list" where
  "lastlogged_constructMetricSlice ord now users =
     (if users = [] then []
      else [host_metric ''swo.hostinfo.user.lastLogged'' ''Last logged-in users on given host'' ''User''
              (MGauge (gauge_points ord now user_attributes (\<lambda>_. VInt 1) users))])"

definition lastlogged_Emit :: "raw_order \<Rightarrow> (nat \<Rightarrow> time_ns) \<Rightarrow> (string, logged_user list) result \<Rightarrow> (string, metric list) result" where
  "lastlogged_Emit ord now data = map_sum id (lastlogged_constructMetricSlice ord now) data"

definition processor_attributes :: "processor \<Rightarrow> attributes" where
  "processor_attributes p =
     (let m = put_nonempty ''processor.name'' (pc_Name p) [];
          m = put_nonempty ''processor.manufacturer'' (pc_Manufacturer p) m;
          m = put_nonempty ''processor.model'' (pc_Model p) m;
          m = put_nonempty ''processor.stepping'' (pc_Stepping p) m;
          m = (if pc_Cores p \<noteq> 0 then gm_put ''processor.cores'' (show_nat (unat (pc_Cores p))) m else m);
          m = (if pc_Threads p \<noteq> 0 then gm_put ''processor.threads'' (show_nat (unat (pc_Threads p))) m else m)
      in put_nonempty ''processor.socket_id'' (pc_SocketID p) m)"

text \<open>\<open>to_int64\<close> converts the speed.\<close>

definition cpu_constructMetricSlice :: "raw_order \<Rightarrow> (float64 \<Rightarrow> int) \<Rightarrow> (nat \<Rightarrow> time_ns) \<Rightarrow> processor list \<Rightarrow> metric list" where
  "cpu_constructMetricSlice ord to_int64 now processors =
     (if processors = [] then []
      else [host_metric ''swo.hardwareinventory.cpu'' ''Current CPU clock speed'' ''MHz''
              (MGauge (gauge_points ord now processor_attributes (\<lambda>p. VInt (to_int64 (pc_Speed p))) processors))])"

definition cpu_Emit ::
  "raw_order \<Rightarrow> (float64 \<Rightarrow> int) \<Rightarrow> (nat \<Rightarrow> time_ns) \<Rightarrow> (string, processor list) result \<Rightarrow> (string, metric list) result" where
  "cpu_Emit ord to_int64 now data = map_sum id (cpu_constructMetricSlice ord to_int64 now) data"

section \<open>Assets\<close>

definition ConstructMetricBase :: "string \<Rightarrow> string \<Rightarrow> string \<Rightarrow> metric" where
  "ConstructMetricBase name description unit = host_metric name description unit MEmpty"

definition AppendNumberDataPoint :: "time_ns \<Rightarrow> time_ns \<Rightarrow> pmap \<Rightarrow> data_point" where
  "AppendNumberDataPoint startTimestampNano now attrs =
     \<lparr>dp_attrs = attrs, dp_startTimestamp = to_timestamp startTimestampNano, dp_timestamp = to_timestamp now, dp_value = VInt 0\<rparr>"

definition asset_points :: "raw_order \<Rightarrow> time_ns \<Rightarrow> (nat \<Rightarrow> time_ns) \<Rightarrow> ('a \<Rightarrow> attributes) \<Rightarrow> 'a list \<Rightarrow> data_point list" where
  "asset_points ord start now atts xs = map (\<lambda>(i, x). AppendNumberDataPoint start (now i) (fromRaw ord (atts x))) (enumerate 0 xs)"

definition software_attributes :: "installed_software \<Rightarrow> attributes" where
  "software_attributes is =
     (let m = put_nonempty ''installedsoftware.name'' (is_Name is) [];
          m = put_nonempty ''installedsoftware.date'' (is_InstallDate is) m;
          m = put_nonempty ''installedsoftware.publisher'' (is_Publisher is) m
      in put_nonempty ''installedsoftware.version'' (is_Version is) m)"

definition software_populateMetric ::
  "raw_order \<Rightarrow> time_ns \<Rightarrow> (nat \<Rightarrow> time_ns) \<Rightarrow> (string, installed_software list) result \<Rightarrow> (scrape_error, metric list) result" where
  "software_populateMetric ord start now software =
     (case software of
        Inl e \<Rightarrow> Inl (Wrapped ''obtaining installed software failed'' (Raised e))
      | Inr isCollection \<Rightarrow>
          Inr (if isCollection = [] then []
               else [(ConstructMetricBase ''swo.asset.installedsoftware'' ''carries attributes describing installed software'' [])
                       \<lparr>mt_data := MSum (asset_points ord start now software_attributes isCollection)\<rparr>]))"

definition software_Emit ::
  "raw_order \<Rightarrow> time_ns \<Rightarrow> (nat \<Rightarrow> time_ns) \<Rightarrow> (string, installed_software list) result \<Rightarrow> (scrape_error, metric list) result" where
  "software_Emit ord start now software =
     map_sum (Wrapped ''metric swo.asset.installedsoftware population failed'') id (software_populateMetric ord start now software)"

record installed_update =
  iu_Caption :: string
  iu_HotFixID :: string
  iu_InstalledOn :: string
  iu_InstalledBy :: string
  iu_Description :: string

definition update_attributes :: "installed_update \<Rightarrow> attributes" where
  "update_attributes u =
     (let m = put_nonempty ''installedupdate.caption'' (iu_Caption u) [];
          m = put_nonempty ''installedupdate.hotfixid'' (iu_HotFixID u) m;
          m = put_nonempty ''installedupdate.installedon'' (iu_InstalledOn u) m;
          m = put_nonempty ''installedupdate.installedby'' (iu_InstalledBy u) m
      in put_nonempty ''installedupdate.description'' (iu_Description u) m)"

definition updates_populateMetric ::
  "raw_order \<Rightarrow> time_ns \<Rightarrow> (nat \<Rightarrow> time_ns) \<Rightarrow> (string, installed_update list) result \<Rightarrow> (scrape_error, metric list) result" where
  "updates_populateMetric ord start now updates =
     (case updates of
        Inl e \<Rightarrow> Inl (Wrapped ''failed to obtain installed updates'' (Raised e))
      | Inr installedUpdates \<Rightarrow>
          Inr (if installedUpdates = [] then []
               else [(ConstructMetricBase ''swo.asset.installedupdates'' ''carries attributes describing installed OS updates'' [])
                       \<lparr>mt_data := MSum (asset_points ord start now update_attributes installedUpdates)\<rparr>]))"

definition updates_Emit ::
  "raw_order \<Rightarrow> time_ns \<Rightarrow> (nat \<Rightarrow> time_ns) \<Rightarrow> (string, installed_update list) result \<Rightarrow> (scrape_error, metric list) result" where
  "updates_Emit ord start now updates =
     map_sum (Wrapped ''failed to populate metric swo.asset.installedupdates'') id (updates_populateMetric ord start now updates)"

section \<open>Firewall\<close>

record firewall_profile =
  fp_Name :: string
  fp_Enabled :: int

definition firewall_point :: "time_ns \<Rightarrow> time_ns \<Rightarrow> firewall_profile \<Rightarrow> data_point" where
  "firewall_point start now fp =
     \<lparr>dp_attrs = [(''firewall.profile.name'', VStr (fp_Name fp))], dp_startTimestamp = to_timestamp start, dp_timestamp = to_timestamp now,
      dp_value = VInt (fp_Enabled fp)\<rparr>"

definition firewall_constructMetric :: "time_ns \<Rightarrow> (nat \<Rightarrow> time_ns) \<Rightarrow> firewall_profile list \<Rightarrow> metric list" where
  "firewall_constructMetric start now fps =
     (if fps = [] then []
      else [host_metric ''swo.hostinfo.firewall''
              ''Windows firewall profile statuses. Value 1 means profile is enabled, value 0 means profile is disabled.'' ''{status}''
              (MGauge (map (\<lambda>(i, fp). firewall_point start (now i) fp) (enumerate 0 (filter (\<lambda>fp. fp_Name fp \<noteq> []) fps))))])"

definition firewall_Emit ::
  "string \<Rightarrow> time_ns \<Rightarrow> (nat \<Rightarrow> time_ns) \<Rightarrow> (string, firewall_profile list) result \<Rightarrow> (scrape_error, metric list) result" where
  "firewall_Emit goos start now data =
     (if goos \<noteq> ''windows'' then Inr []
      else case data of
             Inl e \<Rightarrow> Inl (Wrapped ''getting data from firewall provider failed'' (Raised e))
           | Inr fps \<Rightarrow> Inr (firewall_constructMetric start now fps))"

section \<open>Attributes of the sources\<close>

lemma put_nonempty_wf [simp]: "gm_wf m \<Longrightarrow> gm_wf (put_nonempty k v m)"
  by (simp add: put_nonempty_def)

lemma put_nonempty_all [simp]: "P k v \<Longrightarrow> gm_all P m \<Longrightarrow> gm_all P (put_nonempty k v m)"
  by (simp add: put_nonempty_def)

lemma mergeAttributes_get:
  "gm_wf inc \<Longrightarrow> gm_get (mergeAttributes inc res) k = (case gm_get inc k of Some v \<Rightarrow> Some v | None \<Rightarrow> gm_get res k)"
  unfolding mergeAttributes_def
proof (induction inc arbitrary: res)
  case (Cons p inc)
  obtain k' v' where p: "p = (k', v')" by fastforce
  from Cons.prems p have "gm_wf inc" "gm_get inc k' = None" by (auto simp: gm_wf_def map_of_eq_None_iff)
  then show ?case using Cons.IH by (auto simp: p gomap_simps split: option.split)
qed simp

lemma mergeAttributes_wf [simp]: "gm_wf res \<Longrightarrow> gm_wf (mergeAttributes inc res)"
  unfolding mergeAttributes_def by (induction inc arbitrary: res) auto

text \<open>Sources that do not contradict each other.\<close>

definition agree :: "attributes set \<Rightarrow> bool" where
  "agree ms \<longleftrightarrow> (\<forall>a \<in> ms. \<forall>b \<in> ms. \<forall>k v w. gm_get a k = Some v \<longrightarrow> gm_get b k = Some w \<longrightarrow> v = w)"

lemma merge_all_get:
  assumes "\<And>m. m \<in> set xs \<Longrightarrow> gm_wf m" "agree (insert s (set xs))"
  shows "gm_get (fold mergeAttributes xs s) k = Some v \<longleftrightarrow> (\<exists>m \<in> insert s (set xs). gm_get m k = Some v)"
  using assms
proof (induction xs arbitrary: s)
  case (Cons x xs)
  have x: "gm_wf x" using Cons.prems(1) by simp
  have get: "gm_get (mergeAttributes x s) k = Some v \<longleftrightarrow> gm_get x k = Some v \<or> gm_get s k = Some v" for k v
    using mergeAttributes_get [OF x, of s k] Cons.prems(2) unfolding agree_def by (auto split: option.splits)
  have "agree (insert (mergeAttributes x s) (set xs))"
    using Cons.prems(2) unfolding agree_def by (simp add: get)
  then show ?case using Cons.IH [of "mergeAttributes x s"] Cons.prems(1) get by auto
qed simp

lemma agree_subset: "agree ms \<Longrightarrow> ns \<subseteq> ms \<Longrightarrow> agree ns"
  unfolding agree_def by blast

text \<open>The source of a key.\<close>

definition family :: "string \<Rightarrow> nat" where
  "family k =
     (if strings_HasPrefix k ''hostdetails.domain'' then 0 else if strings_HasPrefix k ''hostdetails.model'' then 1
      else if strings_HasPrefix k ''hostdetails.timezone'' then 2 else if strings_HasPrefix k ''osdetails.language'' then 4 else 3)"

lemma source_families:
  "gm_all (\<lambda>k v. family k = 0) (processDomainAttributes d)" "gm_wf (processDomainAttributes d)"
  "gm_all (\<lambda>k v. family k = 1) (processModelAttributes m)" "gm_wf (processModelAttributes m)"
  "gm_all (\<lambda>k v. family k = 2) (processTimeZoneAttributes t)" "gm_wf (processTimeZoneAttributes t)"
  "gm_all (\<lambda>k v. family k = 3) (processInfoStatAttributes i)" "gm_wf (processInfoStatAttributes i)"
  "gm_all (\<lambda>k v. family k = 4) (processLanguageAttributes l)" "gm_wf (processLanguageAttributes l)"
  by (simp_all add: processDomainAttributes_def processModelAttributes_def processTimeZoneAttributes_def processInfoStatAttributes_def
      processLanguageAttributes_def Let_def family_def strings_HasPrefix_def)

definition all_sources ::
  "host_domain list \<Rightarrow> host_model list \<Rightarrow> time_zone list \<Rightarrow> info_stat list \<Rightarrow> host_language list \<Rightarrow> attributes list" where
  "all_sources ds ms ts is ls = concat (hostdetails_channels ds ms ts) @ concat (osdetails_channels is ls)"

lemma all_sources_wf: "a \<in> set (all_sources ds ms ts is ls) \<Longrightarrow> gm_wf a"
  by (auto simp: all_sources_def hostdetails_channels_def osdetails_channels_def source_families)

definition at_most_one :: "'a list \<Rightarrow> bool" where
  "at_most_one xs \<longleftrightarrow> length xs \<le> 1"

lemma at_most_one_image: "at_most_one xs \<Longrightarrow> a \<in> f ` set xs \<Longrightarrow> b \<in> f ` set xs \<Longrightarrow> a = b"
  unfolding at_most_one_def by (cases xs) auto

lemma sources_agree:
  assumes "at_most_one ds" "at_most_one ms" "at_most_one ts" "at_most_one is" "at_most_one ls"
  shows "agree (insert [] (set (all_sources ds ms ts is ls)))"
proof -
  define src where "src i = (if i = 0 then processDomainAttributes ` set ds else if i = 1 then processModelAttributes ` set ms
    else if i = 2 then processTimeZoneAttributes ` set ts else if i = (3 :: nat) then processInfoStatAttributes ` set is
    else processLanguageAttributes ` set ls)" for i
  have one: "a = b" if "a \<in> src i" "b \<in> src i" for a b i
    using that at_most_one_image [OF assms(1), of a processDomainAttributes b] at_most_one_image [OF assms(2), of a processModelAttributes b]
      at_most_one_image [OF assms(3), of a processTimeZoneAttributes b] at_most_one_image [OF assms(4), of a processInfoStatAttributes b]
      at_most_one_image [OF assms(5), of a processLanguageAttributes b] unfolding src_def by (simp split: if_splits)
  have mem: "a \<in> src (family k)" if a: "a \<in> set (all_sources ds ms ts is ls)" and k: "gm_get a k = Some v" for a k v
  proof -
    have fam: "a \<in> src 0 \<Longrightarrow> family k = 0" "a \<in> src 1 \<Longrightarrow> family k = 1" "a \<in> src 2 \<Longrightarrow> family k = 2"
      "a \<in> src 3 \<Longrightarrow> family k = 3" "a \<in> src 4 \<Longrightarrow> family k = 4"
      using k source_families(1,3,5,7,9) [THEN gm_all_get, of _ k v] by (auto simp: src_def)
    have "a \<in> src 0 \<or> a \<in> src 1 \<or> a \<in> src 2 \<or> a \<in> src 3 \<or> a \<in> src 4"
      using a by (simp add: all_sources_def hostdetails_channels_def osdetails_channels_def src_def)
    then show ?thesis using fam by (elim disjE) simp_all
  qed
  have "v = w" if "a \<in> set (all_sources ds ms ts is ls)" "b \<in> set (all_sources ds ms ts is ls)"
    "gm_get a k = Some v" "gm_get b k = Some w" for a b k v w
    using one [OF mem [OF that(1,3)] mem [OF that(2,4)]] that(3,4) by simp
  then show ?thesis unfolding agree_def by (metis insert_iff map_of.simps(1) option.distinct(1))
qed

section \<open>The uptime metric\<close>

definition event_atts :: "uptime_event list \<Rightarrow> attributes list" where
  "event_atts xs = concat (map (\<lambda>e. case e of HostAtts a \<Rightarrow> [a] | OsAtts a \<Rightarrow> [a] | UptimeValue _ \<Rightarrow> []) xs)"

lemma event_atts_simps [simp]:
  "event_atts [] = []" "event_atts (HostAtts a # xs) = a # event_atts xs" "event_atts (OsAtts a # xs) = a # event_atts xs"
  "event_atts (UptimeValue u # xs) = event_atts xs"
  by (simp_all add: event_atts_def)

lemma uptime_fold:
  assumes "\<And>v. UptimeValue v \<in> set xs \<Longrightarrow> v = u"
  shows "fold uptime_receive xs (u0, a0) =
    (if UptimeValue u \<in> set xs then calculateUptime u else u0, fold mergeAttributes (event_atts xs) a0)"
  using assms
proof (induction xs arbitrary: u0 a0)
  case (Cons x xs)
  have xs: "v = u" if "UptimeValue v \<in> set xs" for v using Cons.prems that by simp
  have x: "v = u" if "x = UptimeValue v" for v using Cons.prems that by simp
  note IH = Cons.IH [OF xs]
  show ?case
  proof (cases x)
    case (UptimeValue v)
    then show ?thesis using x [of v] by (simp add: IH)
  qed (simp_all add: IH)
qed simp

lemma set_event_atts: "set (event_atts xs) = {a. HostAtts a \<in> set xs \<or> OsAtts a \<in> set xs}"
proof (induction xs)
  case (Cons x xs)
  then show ?case by (cases x) auto
qed simp

lemma details_generated:
  assumes "es \<in> interleavings (map channel cs)" "\<And>a. a \<in> set (concat cs) \<Longrightarrow> gm_wf a" "agree (insert [] (set (concat cs)))"
  shows "\<exists>h. details_generate es (length cs) = Some h \<and> gm_wf h \<and>
    (\<forall>k v. gm_get h k = Some v \<longleftrightarrow> (\<exists>a \<in> set (concat cs). gm_get a k = Some v))"
proof -
  obtain xs where xs: "mset xs = mset (concat cs)" "select_loop mergeAttributes es (length cs) [] = Some (fold mergeAttributes xs [])"
    using select_loop_channels [OF assms(1), of mergeAttributes "[]"] by blast
  have set: "set xs = set (concat cs)" using xs(1) by (metis set_mset_mset)
  have "gm_wf s \<Longrightarrow> gm_wf (fold mergeAttributes xs s)" for s by (induction xs arbitrary: s) auto
  moreover have "gm_get (fold mergeAttributes xs []) k = Some v \<longleftrightarrow> (\<exists>a \<in> set (concat cs). gm_get a k = Some v)" for k v
    using merge_all_get [of xs "[]" k v] assms(2,3) unfolding set by auto
  ultimately show ?thesis using xs(2) unfolding details_generate_def by auto
qed

lemma fromRaw_get:
  assumes "map_order ord" "gm_wf m"
  shows "p_get (fromRaw ord m) k = map_option VStr (gm_get m k)"
proof -
  have "gm_get (map (\<lambda>(k, v). (k, VStr v)) xs) k = map_option VStr (gm_get xs k)" for xs by (induction xs) auto
  then show ?thesis by (simp add: fromRaw_def p_get_def map_order_map_of [OF assms])
qed

lemma uptime_data:
  assumes "es \<in> interleavings (map channel [[HostAtts h], [OsAtts os], [UptimeValue u]])" "gm_wf h" "gm_wf os" "agree {[], h, os}"
  shows "\<exists>atts. uptime_getMetricData es = Some (calculateUptime u, atts) \<and> gm_wf atts \<and>
    (\<forall>k v. gm_get atts k = Some v \<longleftrightarrow> gm_get h k = Some v \<or> gm_get os k = Some v)"
proof -
  obtain xs where xs: "mset xs = mset [HostAtts h, OsAtts os, UptimeValue u]"
    "uptime_getMetricData es = Some (fold uptime_receive xs (Inr 0, []))"
    using select_loop_channels [OF assms(1), of uptime_receive "(Inr 0, [])"] that
    by (auto simp add: uptime_getMetricData_def numeral_3_eq_3)
  have set: "set xs = {HostAtts h, OsAtts os, UptimeValue u}" using mset_eq_setD [OF xs(1)] by simp
  have atts: "set (event_atts xs) = {h, os}" unfolding set_event_atts set by auto
  have "gm_wf s \<Longrightarrow> gm_wf (fold mergeAttributes ys s)" for ys s by (induction ys arbitrary: s) auto
  moreover have "gm_get (fold mergeAttributes (event_atts xs) []) k = Some v \<longleftrightarrow> gm_get h k = Some v \<or> gm_get os k = Some v" for k v
    using merge_all_get [of "event_atts xs" "[]" k v] assms(2-4) unfolding atts by auto
  ultimately show ?thesis using uptime_fold [of xs u "Inr 0" "[]"] xs(2) set by auto
qed

text \<open>However the goroutines of the generators and of the uptime provider interleave, the composed
  generators and the emitter finish. When the provider reports an uptime that fits 63 bits, the metric has one point with that
  uptime and exactly the attributes of all the sources; otherwise the emitter fails.
\<close>

lemma uptime_independent_of_order:
  assumes "map_order ord" "at_most_one ds" "at_most_one ms" "at_most_one ts" "at_most_one is" "at_most_one ls"
    and "eh \<in> interleavings (map channel (hostdetails_channels ds ms ts))"
    and "eo \<in> interleavings (map channel (osdetails_channels is ls))"
  shows "\<exists>h os. details_generate eh 3 = Some h \<and> details_generate eo 2 = Some os \<and>
    (\<forall>es \<in> interleavings (map channel [[HostAtts h], [OsAtts os], [UptimeValue (n, err)]]).
       \<exists>r. uptime_Emit ord es start now = Some r \<and>
         (if err = None \<and> uint n < 2 ^ 63
          then \<exists>attrs. r = Inr [host_metric ''swo.hostinfo.uptime'' ''Host uptime in seconds'' ''s''
                 (MSum [\<lparr>dp_attrs = attrs, dp_startTimestamp = to_timestamp start, dp_timestamp = to_timestamp now, dp_value = VInt (uint n)\<rparr>])] \<and>
               (\<forall>k v. p_get attrs k = Some v \<longleftrightarrow>
                  (\<exists>a \<in> set (all_sources ds ms ts is ls). \<exists>s. gm_get a k = Some s \<and> v = VStr s))
          else \<exists>e. r = Inl e))"
proof -
  note agree = sources_agree [OF assms(2-6)]
  have sub: "set (concat (hostdetails_channels ds ms ts)) \<union> set (concat (osdetails_channels is ls)) = set (all_sources ds ms ts is ls)"
    by (simp add: all_sources_def)
  have len: "length (hostdetails_channels ds ms ts) = 3" "length (osdetails_channels is ls) = 2"
    by (simp_all add: hostdetails_channels_def osdetails_channels_def)
  have wf: "gm_wf a" if "a \<in> set (concat (hostdetails_channels ds ms ts)) \<union> set (concat (osdetails_channels is ls))" for a
    using that all_sources_wf unfolding sub by blast
  have ag: "agree (insert [] (set (concat (hostdetails_channels ds ms ts))))" "agree (insert [] (set (concat (osdetails_channels is ls))))"
    by (rule agree_subset [OF agree], use sub in blast)+
  obtain h where h: "details_generate eh 3 = Some h" "gm_wf h"
    "\<And>k v. gm_get h k = Some v \<longleftrightarrow> (\<exists>a \<in> set (concat (hostdetails_channels ds ms ts)). gm_get a k = Some v)"
    using details_generated [OF assms(7) wf [OF UnI1] ag(1)] unfolding len by blast
  obtain os where os: "details_generate eo 2 = Some os" "gm_wf os"
    "\<And>k v. gm_get os k = Some v \<longleftrightarrow> (\<exists>a \<in> set (concat (osdetails_channels is ls)). gm_get a k = Some v)"
    using details_generated [OF assms(8) wf [OF UnI2] ag(2)] unfolding len by blast
  have both: "gm_get h k = Some v \<or> gm_get os k = Some v \<longleftrightarrow> (\<exists>a \<in> set (all_sources ds ms ts is ls). gm_get a k = Some v)" for k v
    unfolding sub [symmetric] h(3) os(3) by blast
  have "v = w" if "x \<in> {[], h, os}" "y \<in> {[], h, os}" "gm_get x k = Some v" "gm_get y k = Some w" for x y k v w
  proof -
    have "\<exists>a \<in> set (all_sources ds ms ts is ls). gm_get a k = Some v" if "x \<in> {[], h, os}" "gm_get x k = Some v" for x v
      using that both by auto
    from this [OF that(1,3)] this [OF that(2,4)] show ?thesis using agree unfolding agree_def by blast
  qed
  then have "agree {[], h, os}" unfolding agree_def by blast
  note data = uptime_data [OF _ h(2) os(2) this]
  have "\<exists>r. uptime_Emit ord es start now = Some r \<and>
         (if err = None \<and> uint n < 2 ^ 63
          then \<exists>attrs. r = Inr [host_metric ''swo.hostinfo.uptime'' ''Host uptime in seconds'' ''s''
                 (MSum [\<lparr>dp_attrs = attrs, dp_startTimestamp = to_timestamp start, dp_timestamp = to_timestamp now, dp_value = VInt (uint n)\<rparr>])] \<and>
               (\<forall>k v. p_get attrs k = Some v \<longleftrightarrow>
                  (\<exists>a \<in> set (all_sources ds ms ts is ls). \<exists>s. gm_get a k = Some s \<and> v = VStr s))
          else \<exists>e. r = Inl e)"
    if es: "es \<in> interleavings (map channel [[HostAtts h], [OsAtts os], [UptimeValue (n, err)]])" for es
  proof -
    obtain atts where atts: "uptime_getMetricData es = Some (calculateUptime (n, err), atts)" "gm_wf atts"
      "\<And>k v. gm_get atts k = Some v \<longleftrightarrow> gm_get h k = Some v \<or> gm_get os k = Some v" using data [OF es] by blast
    have "p_get (fromRaw ord atts) k = Some v \<longleftrightarrow> (\<exists>a \<in> set (all_sources ds ms ts is ls). \<exists>s. gm_get a k = Some s \<and> v = VStr s)" for k v
      unfolding fromRaw_get [OF assms(1) atts(2)] using atts(3) both by (cases "gm_get atts k") fastforce+
    then show ?thesis using atts(1)
      by (auto simp: uptime_Emit_def calculateUptime_def safeUint64ToInt64_def uptime_constructMetricSlice_def split: option.split)
  qed
  then show ?thesis using h(1) os(1) by blast
qed

text \<open>A host whose only known detail is its name, with the channels read one after the other.\<close>

definition sample_domain :: host_domain where
  "sample_domain = \<lparr>hd_Domain = [], hd_FQDN = ''h'', hd_DomainRole = - 1, hd_Workgroup = []\<rparr>"

section \<open>The metrics of the processor statistics\<close>

abbreviation reported :: "cpu_stats \<Rightarrow> bool" where
  "reported c \<equiv> gm_all (\<lambda>k ds. ds \<noteq> []) (cs_WorkDetails c)"

lemma add_detail_reported [simp]: "reported c \<Longrightarrow> reported (add_detail k d c)"
  by (simp add: add_detail_def)

lemma cpu_fields_reported: "reported c \<Longrightarrow> reported (cpu_fields fo i vals c)"
  by (induction fo i vals c rule: cpu_fields.induct) (simp_all add: Let_def split: option.split)

lemma processLine_reported: "reported c \<Longrightarrow> reported (processCPUStatsLine fo rowtype vals c)"
  by (simp add: processCPUStatsLine_def cpu_fields_reported split: option.split)

lemma cpu_lines_reported: "reported c \<Longrightarrow> reported (cpu_lines fo uc ls c)"
proof (induction ls arbitrary: c)
  case (Cons line ls)
  show ?case
  proof (cases "strings_Fields uc line")
    case row: (Cons rowtype vals)
    have "reported (processCPUStatsLine fo rowtype vals c)" by (rule processLine_reported [OF Cons.prems])
    with row Cons show ?thesis by (cases vals) (simp_all add: Let_def)
  qed (use Cons in simp)
qed simp

text \<open>
  What each metric of the statistics should report, stated from the rows of \<open>/proc/stat\<close> and not through the tables of the
  code: its description, and its points as pairs of an attribute, if any, and a value.  (In a file that parses, the values of the rows that are used
  can be read as floats.)
\<close>

definition documented_cpu_metrics :: "(string \<times> string) list" where
  "documented_cpu_metrics =
     [(''os.cpu.time_microseconds'', ''Amount of time CPU has spent performing work''),
      (''os.cpu.procs'', ''Total number of processes and threads created''),
      (''os.cpu.current_procs'', ''Number of processes currently running on CPUs''),
      (''os.cpu.ctxt'', ''Total number of context switches across all CPUs''),
      (''os.cpu.numcores'', ''Number of CPU cores'')]"

definition counters :: "float_ops \<Rightarrow> string list list \<Rightarrow> string list \<Rightarrow> (string \<times> float64) list" where
  "counters fo rows names = map (\<lambda>row. (hd row, the (fo_Parse fo (hd (tl row))))) (filter (\<lambda>row. hd row \<in> set names) rows)"

definition mode_times :: "float_ops \<Rightarrow> string list list \<Rightarrow> (string \<times> float64) list" where
  "mode_times fo rows =
     concat (map (\<lambda>row. zip [''user'', ''nice'', ''system'', ''idle'', ''io_waits'', ''irq'', ''softirq'', ''steal'', ''guest'', ''guest_nice'']
         (map (\<lambda>s. fo_mul fo (the (fo_Parse fo s)) (Finite 10000)) (tl row))) (filter (\<lambda>row. hd row = ''cpu'') rows))"

definition cpu_points :: "float_ops \<Rightarrow> string list list \<Rightarrow> string \<Rightarrow> ((string \<times> string) option \<times> float64) list" where
  "cpu_points fo rows name =
     (if name = ''os.cpu.procs'' then map (\<lambda>(_, v). (None, v)) (counters fo rows [''processes''])
      else if name = ''os.cpu.ctxt'' then map (\<lambda>(_, v). (None, v)) (counters fo rows [''ctxt''])
      else if name = ''os.cpu.current_procs''
      then map (\<lambda>(state, v). (Some (''state'', state), v)) (counters fo rows [''procs_running'', ''procs_blocked''])
      else if name = ''os.cpu.numcores'' then [(None, Finite (of_nat (length (filter core_row rows))))]
      else if name = ''os.cpu.time_microseconds''
      then map (\<lambda>(mode, v). (Some (''mode'', mode), v))
             (mode_times fo rows @
              [(''total'', fold (\<lambda>(_, v) t. fo_add fo t v) (filter (\<lambda>(mode, _). mode \<noteq> ''idle'') (mode_times fo rows)) (Finite 0))])
      else [])"

definition cpu_data_point :: "time_ns \<Rightarrow> (string \<times> string) option \<times> float64 \<Rightarrow> data_point" where
  "cpu_data_point now p =
     \<lparr>dp_attrs = (case fst p of None \<Rightarrow> [] | Some (k, v) \<Rightarrow> [(k, VStr v)]), dp_startTimestamp = 0, dp_timestamp = to_timestamp now,
      dp_value = VDouble (snd p)\<rparr>"

definition cpu_metric :: "float_ops \<Rightarrow> string list list \<Rightarrow> time_ns \<Rightarrow> string \<Rightarrow> string \<Rightarrow> string \<Rightarrow> metric list" where
  "cpu_metric fo rows now name description reported_as =
     (let ps = map (cpu_data_point now) (cpu_points fo rows reported_as) in
      if ps = [] then [] else [host_metric name description [] (MGauge ps)])"

text \<open>The details of a counter are those of the rows that are mapped to its field.\<close>

lemma counter_details:
  assumes "\<And>rowtype. counter_row rowtype \<and> field_mapping rowtype = k \<longleftrightarrow> rowtype \<in> set names" "k \<noteq> ''cpu_time''" "''cpu'' \<notin> set names"
  shows "concat (map (row_details fo k) rows) =
    map (\<lambda>(rowtype, v). \<lparr>wd_AttrName = (if rowtype \<in> {''procs_running'', ''procs_blocked''} then ''state'' else []),
        wd_AttrValue = rowtype, wd_Value = v\<rparr>) (counters fo rows names)"
proof (induction rows)
  case (Cons row rows)
  have "row_details fo k row = (if hd row \<in> set names
    then [\<lparr>wd_AttrName = (if hd row \<in> {''procs_running'', ''procs_blocked''} then ''state'' else []), wd_AttrValue = hd row,
           wd_Value = the (fo_Parse fo (hd (tl row)))\<rparr>] else [])"
    using assms by (simp only: row_details_def Let_def) auto
  with Cons show ?case by (simp add: counters_def)
qed (simp add: counters_def)

lemma detail_points:
  "detail_point now \<lparr>wd_AttrName = [], wd_AttrValue = x, wd_Value = v\<rparr> = cpu_data_point now (None, v)"
  "detail_point now \<lparr>wd_AttrName = c # n, wd_AttrValue = x, wd_Value = v\<rparr> = cpu_data_point now (Some (c # n, x), v)"
  by (simp_all add: detail_point_def cpu_data_point_def)

lemma counters_names: "(x, v) \<in> set (counters fo rows names) \<Longrightarrow> x \<in> set names"
  by (auto simp: counters_def)

lemma row_details_cpu: "row_details fo ''cpu_time'' row = (if hd row = ''cpu'' then cpu_row_details fo (tl row) else [])"
  by (simp add: row_details_def field_mapping_def Let_def)

lemma mode_details:
  "concat (map (row_details fo ''cpu_time'') rows) =
     map (\<lambda>(mode, v). \<lparr>wd_AttrName = ''mode'', wd_AttrValue = mode, wd_Value = v\<rparr>) (mode_times fo rows)"
  by (induction rows)
    (simp_all add: mode_times_def row_details_cpu cpu_row_details_def cpu_line_format_def zip_map2 split_def)

lemma busy_modes:
  "busy_time fo (map (\<lambda>(mode, v). \<lparr>wd_AttrName = ''mode'', wd_AttrValue = mode, wd_Value = v\<rparr>) ms) t =
     fold (\<lambda>(_, v) t. fo_add fo t v) (filter (\<lambda>(mode, _). mode \<noteq> ''idle'') ms) t"
  by (induction ms arbitrary: t) auto

lemma counter_points:
  assumes "k \<in> {''processes'', ''ctxt'', ''current_procs''}"
  shows "map (detail_point now) (details_of_rows fo rows 0 (Finite 0) k) =
    map (cpu_data_point now) (cpu_points fo rows (if k = ''processes'' then ''os.cpu.procs'' else if k = ''ctxt'' then ''os.cpu.ctxt'' else ''os.cpu.current_procs''))"
proof -
  have rows: "counter_row x \<and> field_mapping x = ''processes'' \<longleftrightarrow> x \<in> set [''processes'']"
    "counter_row x \<and> field_mapping x = ''ctxt'' \<longleftrightarrow> x \<in> set [''ctxt'']"
    "counter_row x \<and> field_mapping x = ''current_procs'' \<longleftrightarrow> x \<in> set [''procs_running'', ''procs_blocked'']" for x
    by (simp_all add: counter_row_def field_mapping_def)
  have d: "details_of_rows fo rows 0 (Finite 0) k = concat (map (row_details fo k) rows)"
    using assms by (auto simp: details_of_rows_def)
  from assms consider "k = ''processes''" | "k = ''ctxt''" | "k = ''current_procs''" by blast
  then show ?thesis
  proof cases
    case 1
    show ?thesis unfolding d unfolding 1 counter_details [OF rows(1), simplified]
      by (auto simp: cpu_points_def detail_points dest!: counters_names)
  next
    case 2
    show ?thesis unfolding d unfolding 2 counter_details [OF rows(2), simplified]
      by (auto simp: cpu_points_def detail_points dest!: counters_names)
  next
    case 3
    show ?thesis unfolding d unfolding 3 counter_details [OF rows(3), simplified]
      by (auto simp: cpu_points_def detail_points dest!: counters_names)
  qed
qed

lemma numcores_points:
  "map (detail_point now) (details_of_rows fo rows 0 (Finite 0) ''numcores'') = map (cpu_data_point now) (cpu_points fo rows ''os.cpu.numcores'')"
proof -
  have "row_details fo ''numcores'' row = []" for row by (simp add: row_details_def field_mapping_def Let_def)
  then show ?thesis by (simp add: details_of_rows_def cpu_points_def detail_points concat_eq_Nil_conv)
qed

lemma time_points:
  "map (detail_point now) (details_of_rows fo rows 0 (Finite 0) ''cpu_time'') =
     map (cpu_data_point now) (cpu_points fo rows ''os.cpu.time_microseconds'')"
  by (simp add: details_of_rows_def cpu_points_def mode_details busy_modes [unfolded split_def] detail_points split_def)

lemma cpu_points_details:
  assumes "(name, field) \<in> {(''os.cpu.time_microseconds'', ''cpu_time''), (''os.cpu.procs'', ''processes''),
    (''os.cpu.current_procs'', ''current_procs''), (''os.cpu.ctxt'', ''ctxt''), (''os.cpu.numcores'', ''numcores'')}"
  shows "map (detail_point now) (details_of_rows fo rows 0 (Finite 0) field) = map (cpu_data_point now) (cpu_points fo rows name)"
  using assms numcores_points time_points counter_points [of "''processes''"] counter_points [of "''ctxt''"] counter_points [of "''current_procs''"]
  by auto

lemma cpu_emit_field:
  assumes "cs_Error (parseCPUStatsLinux fo uc file) = None" "getMetricFieldMapping name = field" "field \<noteq> []"
    and "\<And>rows. map (detail_point now) (details_of_rows fo rows 0 (Finite 0) field) = map (cpu_data_point now) (cpu_points fo rows as)"
  shows "cpustats_Emit name now (readCPUFileStats fo uc (Inr file)) =
    Inr (cpu_metric fo (rows_of uc (butlast (strings_Split file CHR 0x0A))) now name (cpustats_description name) as)"
proof -
  let ?c = "parseCPUStatsLinux fo uc file"
  have ds: "details ?c field = details_of_rows fo (rows_of uc (butlast (strings_Split file CHR 0x0A))) 0 (Finite 0) field"
    using cpu_lines_ok [OF assms(1) [unfolded parseCPUStatsLinux_def], of field] by (simp add: parseCPUStatsLinux_def)
  have "reported ?c" unfolding parseCPUStatsLinux_def by (rule cpu_lines_reported) simp
  then have "gm_get (cs_WorkDetails ?c) field \<noteq> Some []" using gm_all_get by fastforce
  with assms(1-3) show ?thesis unfolding cpu_metric_def Let_def assms(4) [symmetric] ds [symmetric]
    by (auto simp: cpustats_Emit_def readCPUFileStats_def cpustats_constructMetricSlice_def Let_def split: option.split)
qed

text \<open>C37: From the file of processor statistics to the metrics: when the file parses, the emitter of each documented metric
  reports one gauge with its description and with the points that the rows of the file give it, or nothing when there are none: a value per mode of
  the \<open>cpu\<close> rows and the sum of those that are not idle, the counters of their own rows, and the number of
  cores.  The metric of interrupts is the exception: it is described as their count and reports the context switches.
\<close>

theorem cpu_metrics_report_rows:
  assumes "cs_Error (parseCPUStatsLinux fo uc file) = None" "(name, description) \<in> set documented_cpu_metrics"
  shows "let rows = rows_of uc (butlast (strings_Split file CHR 0x0A)) in
    cpustats_Emit name now (readCPUFileStats fo uc (Inr file)) = Inr (cpu_metric fo rows now name description name) \<and>
    cpustats_Emit ''os.cpu.intr'' now (readCPUFileStats fo uc (Inr file)) =
      Inr (cpu_metric fo rows now ''os.cpu.intr'' ''Count of interrupts serviced since boot time'' ''os.cpu.ctxt'')"
proof -
  let ?k = "getMetricFieldMapping name"
  have "(name, ?k) \<in> {(''os.cpu.time_microseconds'', ''cpu_time''), (''os.cpu.procs'', ''processes''),
    (''os.cpu.current_procs'', ''current_procs''), (''os.cpu.ctxt'', ''ctxt''), (''os.cpu.numcores'', ''numcores'')}"
    "?k \<noteq> []" "cpustats_description name = description"
    using assms(2) by (auto simp: documented_cpu_metrics_def getMetricFieldMapping_def cpustats_description_def)
  note own = this
  have intr: "getMetricFieldMapping ''os.cpu.intr'' = ''ctxt''"
    "cpustats_description ''os.cpu.intr'' = ''Count of interrupts serviced since boot time''"
    by (simp_all add: getMetricFieldMapping_def cpustats_description_def)
  show ?thesis unfolding Let_def
    using cpu_emit_field [OF assms(1) refl own(2) cpu_points_details [OF own(1)], of now, unfolded own(3)]
      cpu_emit_field [OF assms(1) intr(1) _ cpu_points_details, of "''os.cpu.ctxt''" now, unfolded intr(2)] by simp
qed

theorem cpu_metrics_report_rows_witness:
  "\<exists>ps qs. cpustats_Emit ''os.cpu.numcores'' 7 (readCPUFileStats sample_float sample_unicode (Inr sample_stat)) =
       Inr [host_metric ''os.cpu.numcores'' ''Number of CPU cores'' [] (MGauge ps)] \<and> map dp_value ps = [VDouble (Finite 1)] \<and>
     cpustats_Emit ''os.cpu.intr'' 7 (readCPUFileStats sample_float sample_unicode (Inr sample_stat)) =
       Inr [host_metric ''os.cpu.intr'' ''Count of interrupts serviced since boot time'' [] (MGauge qs)] \<and>
     map dp_value qs = [VDouble (Finite 1)]"
proof -
  have ok: "cs_Error (parseCPUStatsLinux sample_float sample_unicode sample_stat) = None" by code_simp
  have rows: "rows_of sample_unicode (butlast (strings_Split sample_stat CHR 0x0A)) = [[''cpu'', ''1'', ''1''], [''cpu0'', ''1'', ''1''], [''ctxt'', ''1'']]"
    by code_simp
  have core: "\<not> core_row [''cpu'', ''1'', ''1'']" "core_row [''cpu0'', ''1'', ''1'']" "\<not> core_row [''ctxt'', ''1'']" by code_simp+
  have "(''os.cpu.numcores'', ''Number of CPU cores'') \<in> set documented_cpu_metrics" by (simp add: documented_cpu_metrics_def)
  note report = cpu_metrics_report_rows [OF ok this, of 7, unfolded rows Let_def]
  have parse: "fo_Parse sample_float ''1'' = Some (Finite 1)" by (simp add: sample_float_def)
  have "cpu_metric sample_float [[''cpu'', ''1'', ''1''], [''cpu0'', ''1'', ''1''], [''ctxt'', ''1'']] 7 name d as =
    [host_metric name d [] (MGauge [\<lparr>dp_attrs = [], dp_startTimestamp = 0, dp_timestamp = to_timestamp 7, dp_value = VDouble (Finite 1)\<rparr>])]"
    if "as = ''os.cpu.numcores'' \<or> as = ''os.cpu.ctxt''" for name d as
    using that core parse by (auto simp: cpu_metric_def cpu_points_def counters_def cpu_data_point_def)
  with report show ?thesis by (intro exI conjI) (auto simp only:, simp_all)
qed

text \<open>The metric of interrupts has the data of the metric of context switches, although the statistics have the interrupts too.\<close>

theorem interrupts_report_context_switches:
  "map mt_data (cpustats_constructMetricSlice ''os.cpu.intr'' now data) = map mt_data (cpustats_constructMetricSlice ''os.cpu.ctxt'' now data)"
  by (simp add: cpustats_constructMetricSlice_def getMetricFieldMapping_def host_metric_def Let_def split: option.split)

end
