(* ===== verification/Host_Receiver.thy ===== *)
theory Host_Receiver
  imports Host_Emitters
begin

text \<open>
  The host metrics receiver as a whole (\<open>receiver/swohostmetricsreceiver\<close>): the emitter of the number of
  processes with its metrics builder, the descriptors of the four scrapers and their
  default settings, the factories of the receiver, the creation of its scrapers and the reading of its configuration.
  Emitters are arguments by the name of their metric, and so is the configuration library: what
  unmarshalling and cutting out a section return, and the check of component types.
\<close>

section \<open>Number of processes\<close>

record processes_builder =
  pb_startTime :: u64
  pb_version :: string
  pb_enabled :: bool
  pb_points :: "data_point list"
  pb_buffer :: metrics

definition processes_scope :: string where
  "processes_scope = ''github.com/solarwinds/solarwinds-otel-collector-contrib/receiver/swohostmetricsreceiver/internal/scraper/processesscraper''"

definition NewProcessesBuilder :: "bool \<Rightarrow> string \<Rightarrow> u64 \<Rightarrow> processes_builder" where
  "NewProcessesBuilder enabled version now =
     \<lparr>pb_startTime = now, pb_version = version, pb_enabled = enabled, pb_points = [], pb_buffer = []\<rparr>"

definition RecordSwoSystemProcessesCountDataPoint :: "u64 \<Rightarrow> int \<Rightarrow> processes_builder \<Rightarrow> processes_builder" where
  "RecordSwoSystemProcessesCountDataPoint ts val mb =
     (if \<not> pb_enabled mb then mb
      else mb\<lparr>pb_points := pb_points mb @ [\<lparr>dp_attrs = [], dp_startTimestamp = pb_startTime mb, dp_timestamp = ts, dp_value = VInt val\<rparr>]\<rparr>)"

definition processes_metric :: "data_point list \<Rightarrow> metric" where
  "processes_metric dps = host_metric ''swo.system.processes.count'' ''Total number of processes.'' ''{processes}'' (MSum dps)"

definition processes_emit :: "processes_builder \<Rightarrow> metric list \<times> processes_builder" where
  "processes_emit mb =
     (if pb_enabled mb \<and> length (pb_points mb) > 0 then ([processes_metric (pb_points mb)], mb\<lparr>pb_points := []\<rparr>) else ([], mb))"

definition processes_EmitForResource :: "processes_builder \<Rightarrow> processes_builder" where
  "processes_EmitForResource mb =
     (let (ms, mb) = processes_emit mb in
      if length ms > 0
      then mb\<lparr>pb_buffer := pb_buffer mb @ [\<lparr>rm_attrs = [], rm_scopes = [\<lparr>sm_name = processes_scope, sm_version = pb_version mb,
                sm_attrs = [], sm_metrics = ms\<rparr>]\<rparr>]\<rparr>
      else mb)"

definition processes_Emit :: "processes_builder \<Rightarrow> metrics \<times> processes_builder" where
  "processes_Emit mb = (let mb = processes_EmitForResource mb in (pb_buffer mb, mb\<lparr>pb_buffer := []\<rparr>))"

text \<open>The emitter; \<open>None\<close> is the panic of \<open>At(0)\<close> on an empty slice.\<close>

definition count_Emit ::
  "u64 \<Rightarrow> int \<times> string option \<Rightarrow> processes_builder \<Rightarrow> (scrape_error, metric list) result option \<times> processes_builder" where
  "count_Emit now = (\<lambda>(value, err) mb.
     case err of
       Some e \<Rightarrow> (Some (Inl (Wrapped ''count calculation failed'' (Raised e))), mb)
     | None \<Rightarrow>
       (let mb = RecordSwoSystemProcessesCountDataPoint now value mb;
            (ms, mb) = processes_Emit mb
        in (case ms of
              rm # _ \<Rightarrow> (case rm_scopes rm of sm # _ \<Rightarrow> Some (Inr (sm_metrics sm)) | [] \<Rightarrow> None)
            | [] \<Rightarrow> None, mb)))"

section \<open>Scrapers\<close>

text \<open>The settings of the scrapers, one constructor per configuration type.\<close>

datatype scraper_settings =
    AssetSettings scraper_config time_ns
  | HardwareSettings scraper_config time_ns
  | HostInfoSettings scraper_config
  | ProcessesSettings bool

type_synonym emitters = "string \<Rightarrow> metric_emitter"

definition scope_of :: "emitters \<Rightarrow> string \<Rightarrow> string list \<Rightarrow> string \<times> scope_descriptor" where
  "scope_of emitter name ms = (name, \<lparr>sd_ScopeName = name, sd_MetricDescriptors = map (\<lambda>m. (m, emitter m)) ms, sd_Create = None\<rparr>)"

definition asset_descriptor :: "emitters \<Rightarrow> scraper_descriptor" where
  "asset_descriptor emitter =
     \<lparr>sc_Type = ''asset'',
      sc_ScopeDescriptors = [scope_of emitter ''otelcol/swohostmetricsreceiver/asset'' [''swo.asset.installedsoftware'', ''swo.asset.installedupdates'']]\<rparr>"

definition hardware_descriptor :: "emitters \<Rightarrow> scraper_descriptor" where
  "hardware_descriptor emitter =
     \<lparr>sc_Type = ''hardwareinventory'',
      sc_ScopeDescriptors = [scope_of emitter ''otelcol/swohostmetricsreceiver/hardwareinventory/cpu'' [''swo.hardwareinventory.cpu'']]\<rparr>"

definition hostinfo_descriptor :: "emitters \<Rightarrow> scraper_descriptor" where
  "hostinfo_descriptor emitter =
     \<lparr>sc_Type = ''hostinfo'',
      sc_ScopeDescriptors =
        [scope_of emitter ''otelcol/swohostmetricsreceiver/hostinfo'' [''swo.hostinfo.firewall'', ''swo.hostinfo.uptime''],
         scope_of emitter ''otelcol/swohostmetricsreceiver/hostinfo/user'' [''swo.hostinfo.user.lastLogged''],
         scope_of emitter ''otelcol/swohostmetricsreceiver/cpustats''
           [''os.cpu.time_microseconds'', ''os.cpu.procs'', ''os.cpu.current_procs'', ''os.cpu.intr'', ''os.cpu.ctxt'', ''os.cpu.numcores'']]\<rparr>"

definition processes_descriptor :: "emitters \<Rightarrow> scraper_descriptor" where
  "processes_descriptor emitter =
     \<lparr>sc_Type = ''processes'', sc_ScopeDescriptors = [scope_of emitter processes_scope [''swo.system.processes.count'']]\<rparr>"

definition scraperConfigFromMetadata :: "bool \<Rightarrow> scraper_config" where
  "scraperConfigFromMetadata enabled = [(''swo.system.processes.count'', enabled)]"

text \<open>The orders in which Go ranges over the descriptors of metrics and of scopes.\<close>

type_synonym metric_order = "(string \<times> metric_emitter) list \<Rightarrow> (string \<times> metric_emitter) list"
type_synonym scope_order = "(string \<times> scope_descriptor) list \<Rightarrow> (string \<times> scope_descriptor) list"

definition init_scraper ::
  "metric_order \<Rightarrow> scope_order \<Rightarrow> scraper_descriptor \<Rightarrow> manager_config \<Rightarrow> (scrape_error, manager) result" where
  "init_scraper mord sord d c =
     (case manager_Init mord sord d c NewScraperManager of (Some e, _) \<Rightarrow> Inl e | (None, m) \<Rightarrow> Inr m)"

definition NewAssetScraper where
  "NewAssetScraper mord sord emitter cfg delay =
     init_scraper mord sord (asset_descriptor emitter) \<lparr>mc_Scraper = cfg, mc_Delayed = Some delay\<rparr>"

definition NewHardwareInventoryScraper where
  "NewHardwareInventoryScraper mord sord emitter cfg delay =
     init_scraper mord sord (hardware_descriptor emitter) \<lparr>mc_Scraper = cfg, mc_Delayed = Some delay\<rparr>"

definition NewHostInfoScraper where
  "NewHostInfoScraper mord sord emitter cfg = init_scraper mord sord (hostinfo_descriptor emitter) \<lparr>mc_Scraper = cfg, mc_Delayed = None\<rparr>"

definition NewProcessesScraper where
  "NewProcessesScraper mord sord emitter enabled =
     init_scraper mord sord (processes_descriptor emitter) \<lparr>mc_Scraper = scraperConfigFromMetadata enabled, mc_Delayed = None\<rparr>"

section \<open>Factories\<close>

datatype create_error =
    CreationFailed string scrape_error
  | TypeAssertion
  | NilReceiverConfig
  | NilRawConfig
  | ConfigUnmarshalFailed string
  | ScrapersSectionFailed string
  | InvalidScraperKey string
  | FactoryNotFound string string
  | ScraperSectionFailed string string
  | ScraperUnmarshalFailed string string
  | ScraperCreationFailed string create_error

record scraper_factory =
  sf_Type :: string
  sf_CreateDefaultConfig :: scraper_settings
  sf_CreateMetrics :: "scraper_settings \<Rightarrow> (create_error, manager) result"

text \<open>\<open>CreateScraper\<close>: the assertion of the configuration type panics (\<open>TypeAssertion\<close>), an error is wrapped.\<close>

definition CreateScraper :: "string \<Rightarrow> (scrape_error, manager) result option \<Rightarrow> (create_error, manager) result" where
  "CreateScraper scraperName r =
     (case r of None \<Rightarrow> Inl TypeAssertion | Some (Inl e) \<Rightarrow> Inl (CreationFailed scraperName e) | Some (Inr m) \<Rightarrow> Inr m)"

definition asset_factory where
  "asset_factory mord sord emitter =
     \<lparr>sf_Type = ''asset'', sf_CreateDefaultConfig = AssetSettings [(''swo.asset.installedsoftware'', True)] 90000000000,
      sf_CreateMetrics = (\<lambda>cfg. CreateScraper ''asset''
        (case cfg of AssetSettings c d \<Rightarrow> Some (NewAssetScraper mord sord emitter c d) | _ \<Rightarrow> None))\<rparr>"

definition hardware_factory where
  "hardware_factory mord sord emitter =
     \<lparr>sf_Type = ''hardwareinventory'', sf_CreateDefaultConfig = HardwareSettings [(''swo.hardwareinventory.cpu'', True)] 90000000000,
      sf_CreateMetrics = (\<lambda>cfg. CreateScraper ''hardwareinventory''
        (case cfg of HardwareSettings c d \<Rightarrow> Some (NewHardwareInventoryScraper mord sord emitter c d) | _ \<Rightarrow> None))\<rparr>"

definition hostinfo_factory where
  "hostinfo_factory mord sord emitter =
     \<lparr>sf_Type = ''hostinfo'', sf_CreateDefaultConfig = HostInfoSettings [(''swo.hostinfo.uptime'', True)],
      sf_CreateMetrics = (\<lambda>cfg. CreateScraper ''hostinfo''
        (case cfg of HostInfoSettings c \<Rightarrow> Some (NewHostInfoScraper mord sord emitter c) | _ \<Rightarrow> None))\<rparr>"

definition processes_factory where
  "processes_factory mord sord emitter =
     \<lparr>sf_Type = ''processes'', sf_CreateDefaultConfig = ProcessesSettings True,
      sf_CreateMetrics = (\<lambda>cfg. CreateScraper ''processes''
        (case cfg of ProcessesSettings b \<Rightarrow> Some (NewProcessesScraper mord sord emitter b) | _ \<Rightarrow> None))\<rparr>"

type_synonym factories = "(string, scraper_factory) gomap"

text \<open>A duplicate type panics (\<open>None\<close>).\<close>

fun mustMakeFactories :: "scraper_factory list \<Rightarrow> factories \<Rightarrow> factories option" where
  "mustMakeFactories [] fMap = Some fMap"
| "mustMakeFactories (f # fs) fMap =
     (if gm_get fMap (sf_Type f) \<noteq> None then None else mustMakeFactories fs (gm_put (sf_Type f) f fMap))"

definition scraperFactories :: "metric_order \<Rightarrow> scope_order \<Rightarrow> emitters \<Rightarrow> factories option" where
  "scraperFactories mord sord emitter =
     mustMakeFactories [asset_factory mord sord emitter, hardware_factory mord sord emitter, hostinfo_factory mord sord emitter,
       processes_factory mord sord emitter] []"

section \<open>The receiver\<close>

record receiver_config =
  rc_CollectionInterval :: time_ns
  rc_Scrapers :: "(string, scraper_settings) gomap"

type_synonym factory_order = "(string \<times> scraper_factory) list \<Rightarrow> (string \<times> scraper_factory) list"

definition host_createDefaultConfig :: "factory_order \<Rightarrow> factories \<Rightarrow> receiver_config" where
  "host_createDefaultConfig ord factories =
     \<lparr>rc_CollectionInterval = 30000000000,
      rc_Scrapers = fold (\<lambda>(typ, factory). gm_put typ (sf_CreateDefaultConfig factory)) (ord factories) []\<rparr>"

definition GetScraperFactory :: "factories \<Rightarrow> string \<Rightarrow> (string, scraper_factory) result" where
  "GetScraperFactory factories scraperName =
     (case gm_get factories scraperName of None \<Rightarrow> Inl (''Scraper ['' @ scraperName @ ''] is unknown'') | Some f \<Rightarrow> Inr f)"

fun create_scrapers :: "(string \<times> scraper_factory) list \<Rightarrow> receiver_config \<Rightarrow> (create_error, (string \<times> manager) list) result" where
  "create_scrapers [] cfg = Inr []"
| "create_scrapers ((scraperName, factory) # fs) cfg =
     (case gm_get (rc_Scrapers cfg) scraperName of
        None \<Rightarrow> create_scrapers fs cfg
      | Some scraperConfig \<Rightarrow>
        (case sf_CreateMetrics factory scraperConfig of
           Inl e \<Rightarrow> Inl (ScraperCreationFailed scraperName e)
         | Inr s \<Rightarrow> map_sum id (Cons (scraperName, s)) (create_scrapers fs cfg)))"

definition createScraperControllerOptions ::
  "factory_order \<Rightarrow> factories \<Rightarrow> receiver_config \<Rightarrow> (create_error, (string \<times> manager) list) result" where
  "createScraperControllerOptions ord factories cfg = create_scrapers (ord factories) cfg"

section \<open>Configuration\<close>

text \<open>
  A raw configuration as the configuration library answers: the common settings, the section of the
  scrapers, and for a scraper its section; a section is applied to settings that have defaults.
\<close>

type_synonym section_apply = "scraper_settings \<Rightarrow> (string, scraper_settings) result"

record raw_config =
  rw_Unmarshal :: "(string, time_ns) result"
  rw_Scrapers :: "(string, (string, (string, section_apply) result) gomap) result"

type_synonym section_order = "(string \<times> (string, section_apply) result) list \<Rightarrow> (string \<times> (string, section_apply) result) list"

text \<open>\<open>newType\<close> is \<open>component.NewType\<close>; when it fails the message has the zero type, the empty string.\<close>

definition unmarshal_scraper ::
  "(string \<Rightarrow> string option) \<Rightarrow> factories \<Rightarrow> string \<times> (string, section_apply) result
   \<Rightarrow> (string, scraper_settings) gomap \<Rightarrow> create_error option \<times> (string, scraper_settings) gomap" where
  "unmarshal_scraper newType factories = (\<lambda>(scraperName, sub) scrapers.
     case newType scraperName of
       None \<Rightarrow> (Some (InvalidScraperKey []), scrapers)
     | Some scraperId \<Rightarrow>
       (case GetScraperFactory factories scraperId of
          Inl e \<Rightarrow> (Some (FactoryNotFound scraperName e), scrapers)
        | Inr scraperFactory \<Rightarrow>
          (case sub of
             Inl e \<Rightarrow> (Some (ScraperSectionFailed scraperName e), scrapers)
           | Inr apply_section \<Rightarrow>
             (case apply_section (sf_CreateDefaultConfig scraperFactory) of
                Inl e \<Rightarrow> (Some (ScraperUnmarshalFailed scraperName e), scrapers)
              | Inr scraperConfig \<Rightarrow> (None, gm_put scraperName scraperConfig scrapers)))))"

definition Unmarshal ::
  "section_order \<Rightarrow> (string \<Rightarrow> string option) \<Rightarrow> factories \<Rightarrow> raw_config option \<Rightarrow> receiver_config option
   \<Rightarrow> create_error option \<times> receiver_config option" where
  "Unmarshal ord newType factories rawConfig receiverConfig =
     (case receiverConfig of
        None \<Rightarrow> (Some NilReceiverConfig, None)
      | Some rcfg \<Rightarrow>
        (case rawConfig of
           None \<Rightarrow> (Some NilRawConfig, Some rcfg)
         | Some raw \<Rightarrow>
           (case rw_Unmarshal raw of
              Inl e \<Rightarrow> (Some (ConfigUnmarshalFailed e), Some rcfg)
            | Inr interval \<Rightarrow>
              (let rcfg = rcfg\<lparr>rc_CollectionInterval := interval\<rparr> in
               case rw_Scrapers raw of
                 Inl e \<Rightarrow> (Some (ScrapersSectionFailed e), Some rcfg)
               | Inr scraperMap \<Rightarrow>
                 (let (err, scrapers) = for_each (unmarshal_scraper newType factories) (ord scraperMap) []
                  in (err, Some (rcfg\<lparr>rc_Scrapers := scrapers\<rparr>)))))))"

section \<open>The emitters of the host\<close>

text \<open>
  What the emitters read when a scrape calls them at a time: the receptions of the uptime emitter, the
  answers of the providers and the times that the points take.  \<open>hr_start\<close> is the time that \<open>Init\<close> stored, and the builder of
  the process counter is the one its emitter was created with, which every emission leaves as it was
  (\<open>count_Emit_cases\<close>).  \<open>hr_errorText\<close> is the message of an error of the processor statistics.
\<close>

record host_readings =
  hr_start :: time_ns
  hr_rawOrder :: raw_order
  hr_toInt64 :: "float64 \<Rightarrow> int"
  hr_goos :: string
  hr_clock :: "time_ns \<Rightarrow> nat \<Rightarrow> time_ns"
  hr_errorText :: "cpu_error \<Rightarrow> string"
  hr_uptime :: "time_ns \<Rightarrow> uptime_event option list"
  hr_firewall :: "time_ns \<Rightarrow> (string, firewall_profile list) result"
  hr_users :: "time_ns \<Rightarrow> (string, logged_user list) result"
  hr_cpuStats :: "time_ns \<Rightarrow> cpu_stats"
  hr_processors :: "time_ns \<Rightarrow> (string, processor list) result"
  hr_software :: "time_ns \<Rightarrow> (string, installed_software list) result"
  hr_updates :: "time_ns \<Rightarrow> (string, installed_update list) result"
  hr_processCount :: "time_ns \<Rightarrow> int \<times> string option"
  hr_processesBuilder :: processes_builder

text \<open>The emission of the emitter of a metric; \<open>None\<close> when it blocks or panics. The emitter of processor statistics has its name as a parameter.\<close>

definition host_Emit :: "host_readings \<Rightarrow> string \<Rightarrow> time_ns \<Rightarrow> (scrape_error, metric list) result option" where
  "host_Emit h name now =
     (let ord = hr_rawOrder h; start = hr_start h; clock = hr_clock h now in
      if name = ''swo.hostinfo.uptime'' then uptime_Emit ord (hr_uptime h now) start now
      else if name = ''swo.system.processes.count'' then fst (count_Emit (to_timestamp now) (hr_processCount h now) (hr_processesBuilder h))
      else Some
       (if name = ''swo.hostinfo.firewall'' then firewall_Emit (hr_goos h) start clock (hr_firewall h now)
        else if name = ''swo.hostinfo.user.lastLogged'' then map_sum Raised id (lastlogged_Emit ord clock (hr_users h now))
        else if name = ''swo.hardwareinventory.cpu'' then map_sum Raised id (cpu_Emit ord (hr_toInt64 h) clock (hr_processors h now))
        else if name = ''swo.asset.installedsoftware'' then software_Emit ord start clock (hr_software h now)
        else if name = ''swo.asset.installedupdates'' then updates_Emit ord start clock (hr_updates h now)
        else map_sum (\<lambda>e. Raised (hr_errorText h e)) id (cpustats_Emit name now (hr_cpuStats h now))))"

definition host_emitters :: "host_readings \<Rightarrow> emitters" where
  "host_emitters h name = \<lparr>me_Name = name, me_Init = (\<lambda>_. None), me_Emit = (\<lambda>now. the (host_Emit h name now))\<rparr>"

section \<open>One point per scrape\<close>

definition processes_idle :: "processes_builder \<Rightarrow> bool" where
  "processes_idle mb \<longleftrightarrow> pb_points mb = [] \<and> pb_buffer mb = []"

definition count_metric :: "processes_builder \<Rightarrow> u64 \<Rightarrow> int \<Rightarrow> metric" where
  "count_metric mb now n =
     processes_metric [\<lparr>dp_attrs = [], dp_startTimestamp = pb_startTime mb, dp_timestamp = now, dp_value = VInt n\<rparr>]"

lemma count_Emit_cases:
  assumes "processes_idle mb"
  shows "count_Emit now (n, err) mb =
    (case err of Some e \<Rightarrow> Some (Inl (Wrapped ''count calculation failed'' (Raised e)))
     | None \<Rightarrow> if pb_enabled mb then Some (Inr [count_metric mb now n]) else None, mb)"
proof -
  have idle: "pb_points mb = []" "pb_buffer mb = []" "mb\<lparr>pb_points := [], pb_buffer := []\<rparr> = mb"
    using assms by (auto simp: processes_idle_def)
  show ?thesis by (cases "pb_enabled mb") (simp_all add: idle count_Emit_def RecordSwoSystemProcessesCountDataPoint_def processes_Emit_def processes_EmitForResource_def
      processes_emit_def count_metric_def Let_def split: option.split)
qed

text \<open>The results of a sequence of emissions, each with its time and what the provider returned.\<close>

fun count_run :: "(u64 \<times> int \<times> string option) list \<Rightarrow> processes_builder \<Rightarrow> (scrape_error, metric list) result option list" where
  "count_run [] mb = []"
| "count_run ((now, c) # cs) mb = (let (r, mb) = count_Emit now c mb in r # count_run cs mb)"

lemma count_run_results:
  assumes "processes_idle mb"
  shows "count_run cs mb =
    map (\<lambda>(now, n, err). case err of Some e \<Rightarrow> Some (Inl (Wrapped ''count calculation failed'' (Raised e)))
      | None \<Rightarrow> if pb_enabled mb then Some (Inr [count_metric mb now n]) else None) cs"
  by (induction cs) (auto simp: count_Emit_cases [OF assms])

lemma init_scraper_Inr:
  assumes "init_scraper mord sord d c = Inr m"
  shows "\<exists>rt. Schedule mord sord d (mc_Scraper c) = Inr rt \<and> mg_runtime m = Some rt"
  using assms by (auto simp: init_scraper_def manager_Init_def Let_def split: sum.splits)

text \<open>The emitter of a metric in the runtime of a scraper, by scope.\<close>

definition runs :: "manager \<Rightarrow> string \<Rightarrow> string \<Rightarrow> metric_emitter \<Rightarrow> bool" where
  "runs m s n me \<longleftrightarrow> (\<exists>rt se. mg_runtime m = Some rt \<and> gm_get rt s = Some se \<and> gm_get (se_metricEmitters se) n = Some me)"

definition described :: "scraper_descriptor \<Rightarrow> string \<Rightarrow> string \<Rightarrow> metric_emitter \<Rightarrow> bool" where
  "described d s n me \<longleftrightarrow> (\<exists>sd. gm_get (sc_ScopeDescriptors d) s = Some sd \<and> gm_get (sd_MetricDescriptors sd) n = Some me)"

lemma described_scope:
  "described \<lparr>sc_Type = t, sc_ScopeDescriptors = scope_of emitter s' ms # ss\<rparr> s n me \<longleftrightarrow>
    (if s = s' then n \<in> set ms \<and> me = emitter n else described \<lparr>sc_Type = t, sc_ScopeDescriptors = ss\<rparr> s n me)"
  "\<not> described \<lparr>sc_Type = t, sc_ScopeDescriptors = []\<rparr> s n me"
proof -
  have "map_of (map (\<lambda>m. (m, emitter m)) ms) n = (if n \<in> set ms then Some (emitter n) else None)" by (induction ms) auto
  then show "described \<lparr>sc_Type = t, sc_ScopeDescriptors = scope_of emitter s' ms # ss\<rparr> s n me \<longleftrightarrow>
    (if s = s' then n \<in> set ms \<and> me = emitter n else described \<lparr>sc_Type = t, sc_ScopeDescriptors = ss\<rparr> s n me)"
    by (auto simp: described_def scope_of_def)
qed (simp add: described_def)

text \<open>A map with one entry.\<close>

lemma single_entry:
  assumes "gm_wf xs" "\<And>k' v'. gm_get xs k' = Some v' \<longleftrightarrow> k' = k \<and> v' = v"
  shows "xs = [(k, v)]"
proof -
  have "set xs = {(k, v)}" using gm_get_in [OF assms(1)] assms(2) by auto
  moreover have "distinct xs" using assms(1) by (simp add: gm_wf_def distinct_map)
  ultimately show ?thesis by (cases xs; cases "tl xs") auto
qed

lemma fold_wf: "gm_wf m \<Longrightarrow> (\<And>x m. gm_wf m \<Longrightarrow> gm_wf (f x m)) \<Longrightarrow> gm_wf (fold f xs m)"
  by (induction xs arbitrary: m) auto

lemma scheduled_wf:
  "gm_wf (TraverseThroughMetricDescriptors mord ds enabled)" "gm_wf (TraverseThroughScopeDescriptors mord sord sds enabled)"
  unfolding TraverseThroughMetricDescriptors_def TraverseThroughScopeDescriptors_def
  by (rule fold_wf; auto simp: Let_def gm_wf_def split: prod.split intro: distinct_update)+

text \<open>The manager of a scraper that has one enabled metric.\<close>

definition single_manager :: "string \<Rightarrow> string \<Rightarrow> metric_emitter \<Rightarrow> time_ns option \<Rightarrow> manager" where
  "single_manager ty s e dl =
     \<lparr>mg_features = feature_Init dl NewFeatureManager, mg_runtime = Some [(s, \<lparr>se_scopeName = s, se_metricEmitters = [(me_Name e, e)]\<rparr>)],
      mg_type = ty, mg_config = Some \<lparr>mc_Scraper = [(me_Name e, True)], mc_Delayed = dl\<rparr>\<rparr>"

lemma runs_single: "runs (single_manager ty s e dl) s' n me \<longleftrightarrow> s' = s \<and> n = me_Name e \<and> me = e"
  by (auto simp: runs_def single_manager_def)

lemma Schedule_single:
  assumes "map_order mord" "map_order sord" "well_named d" "\<And>s' me. described d s' (me_Name e) me \<longleftrightarrow> s' = s \<and> me = e"
  shows "Schedule mord sord d [(me_Name e, True)] = Inr [(s, \<lparr>se_scopeName = s, se_metricEmitters = [(me_Name e, e)]\<rparr>)]"
proof -
  let ?en = "[me_Name e]"
  obtain sd where sd: "gm_get (sc_ScopeDescriptors d) s = Some sd" "gm_get (sd_MetricDescriptors sd) (me_Name e) = Some e"
    using assms(4) [of s e] by (auto simp: described_def)
  have other: "gm_get (sd_MetricDescriptors sd') (me_Name e) = None" if "gm_get (sc_ScopeDescriptors d) s' = Some sd'" "s' \<noteq> s" for s' sd'
    using assms(4) [of s'] that by (cases "gm_get (sd_MetricDescriptors sd') (me_Name e)") (auto simp: described_def)
  note scope = well_named_scope [OF assms(3)]
  have "TraverseThroughMetricDescriptors mord (sd_MetricDescriptors sd) ?en = [(me_Name e, e)]"
    using metric_descriptors_get [OF assms(1) scope(1,2) [OF sd(1)]] sd(2) by (intro single_entry scheduled_wf) auto
  then have here: "scheduled mord ?en sd = Some \<lparr>se_scopeName = s, se_metricEmitters = [(me_Name e, e)]\<rparr>"
    using scope(3) [OF sd(1)] by (simp add: scheduled_def)
  have none: "scheduled mord ?en sd' = None" if "gm_get (sc_ScopeDescriptors d) s' = Some sd'" "s' \<noteq> s" for s' sd'
    using scheduled_Some(1) [OF assms(1) scope(1,2) [OF that(1)], of ?en] other [OF that] by simp
  have "TraverseThroughScopeDescriptors mord sord (sc_ScopeDescriptors d) ?en =
    [(s, \<lparr>se_scopeName = s, se_metricEmitters = [(me_Name e, e)]\<rparr>)]"
  proof (intro single_entry scheduled_wf)
    fix s' se
    show "gm_get (TraverseThroughScopeDescriptors mord sord (sc_ScopeDescriptors d) ?en) s' = Some se \<longleftrightarrow>
      s' = s \<and> se = \<lparr>se_scopeName = s, se_metricEmitters = [(me_Name e, e)]\<rparr>"
      unfolding scope_descriptors_get [OF assms(2,3)] using sd(1) here none
      by (cases "s' = s"; cases "gm_get (sc_ScopeDescriptors d) s'") auto
  qed
  then show ?thesis by (simp add: Schedule_def GetEnabledMetrics_def createScraperRuntime_def)
qed

lemma default_scraper:
  assumes "map_order mord" "map_order sord" "well_named d" "\<And>s' me. described d s' (me_Name e) me \<longleftrightarrow> s' = s \<and> me = e"
  shows "init_scraper mord sord d \<lparr>mc_Scraper = [(me_Name e, True)], mc_Delayed = dl\<rparr> = Inr (single_manager (sc_Type d) s e dl)"
  by (simp add: init_scraper_def manager_Init_def Schedule_single [OF assms] single_manager_def NewScraperManager_def Let_def)

lemma arrival_single: "valid_arrivals arr \<Longrightarrow> arrival arr [x] = [x]"
  by (metis mset_arrival mset_single_iff_right mset.simps)

lemma single_scrape:
  assumes "valid_arrivals arr" "valid_arrivals (sch s)" "feature_IsReady now (mg_features m)" "m = single_manager ty s e dl"
  shows "manager_Scrape version False arr sch now m =
    (case me_Emit e now of
       Inl err \<Rightarrow> (([], Some (EmitFailed ty (Joined [Joined [MetricEmitFailed (me_Name e) err]]))), m)
     | Inr ms \<Rightarrow> (([\<lparr>rm_attrs = [], rm_scopes = (if ms = [] then [] else [\<lparr>sm_name = s, sm_version = version, sm_attrs = [], sm_metrics = ms\<rparr>])\<rparr>], None),
                  m\<lparr>mg_features := feature_UpdateLastProcessedTime now (mg_features m)\<rparr>))"
  using assms(3)
  by (simp add: assms(4) manager_Scrape_def single_manager_def processEmitOnScopeEmitters_def arrival_single [OF assms(1)] arrival_single [OF assms(2)]
      scope_Emit_def checkIfMetricEmittersAreRegistered_def processMetricEmitters_def processEmittedResults_def join_errors_def
      assemblyScopeMetricSlice_def receiveAndEvaluateEmitResults_def assemblyMetrics_def Let_def split: sum.split)

lemma single_start:
  assumes "valid_arrivals arr" "valid_arrivals (sch s)" "me_Init e now = None" "m = single_manager ty s e None"
  shows "manager_Start False arr sch now m = (None, m)"
  by (simp add: assms(3,4) manager_Start_def single_manager_def processInitOnScopeEmitters_def arrival_single [OF assms(1)] arrival_single [OF assms(2)]
      scope_Init_def checkIfMetricEmittersAreRegistered_def initializeMetricEmitters_def evaluateInitResults_def join_errors_def
      receiveAndEvaluateInitResults_def feature_InitDelayedProcessing_def feature_Init_def NewFeatureManager_def)

text \<open>What runs by default: scraper, scope and metric.\<close>

definition default_emitters :: "(string \<times> string \<times> string) list" where
  "default_emitters =
     [(''asset'', ''otelcol/swohostmetricsreceiver/asset'', ''swo.asset.installedsoftware''),
      (''hardwareinventory'', ''otelcol/swohostmetricsreceiver/hardwareinventory/cpu'', ''swo.hardwareinventory.cpu''),
      (''hostinfo'', ''otelcol/swohostmetricsreceiver/hostinfo'', ''swo.hostinfo.uptime''),
      (''processes'', processes_scope, ''swo.system.processes.count'')]"

definition default_delay :: "string \<Rightarrow> time_ns option" where
  "default_delay t = (if t \<in> {''asset'', ''hardwareinventory''} then Some 90000000000 else None)"

section \<open>The scrapers of a receiver\<close>

lemma create_scrapers_Inr:
  assumes "create_scrapers fs cfg = Inr opts"
  shows "map fst opts = filter (\<lambda>n. gm_get (rc_Scrapers cfg) n \<noteq> None) (map fst fs) \<and>
    (\<forall>(n, m) \<in> set opts. \<exists>f c. (n, f) \<in> set fs \<and> gm_get (rc_Scrapers cfg) n = Some c \<and> sf_CreateMetrics f c = Inr m)"
  using assms
proof (induction fs arbitrary: opts)
  case (Cons p fs)
  obtain n f where p: "p = (n, f)" by fastforce
  show ?case
  proof (cases "gm_get (rc_Scrapers cfg) n")
    case None
    with Cons.IH [of opts] Cons.prems show ?thesis by (auto simp: p) fastforce
  next
    case (Some c)
    with Cons.prems obtain m os where os: "sf_CreateMetrics f c = Inr m" "create_scrapers fs cfg = Inr os" "opts = (n, m) # os"
      by (cases "sf_CreateMetrics f c"; cases "create_scrapers fs cfg") (auto simp: p)
    with Cons.IH [OF os(2)] Some show ?thesis by (auto simp: p) fastforce
  qed
qed simp

lemma create_scrapers_ok:
  assumes "\<And>n f c. (n, f) \<in> set fs \<Longrightarrow> gm_get (rc_Scrapers cfg) n = Some c \<Longrightarrow> result_ok (sf_CreateMetrics f c)"
  shows "\<exists>opts. create_scrapers fs cfg = Inr opts"
  using assms
proof (induction fs)
  case (Cons p fs)
  obtain n f where p: "p = (n, f)" by fastforce
  have "\<exists>opts. create_scrapers fs cfg = Inr opts" by (rule Cons.IH) (use Cons.prems in auto)
  with Cons.prems [of n f] show ?case
    by (cases "gm_get (rc_Scrapers cfg) n") (auto simp: p result_ok_def split: sum.splits)
qed simp

lemma settings_put_get:
  assumes "gm_wf xs"
  shows "gm_get (fold (\<lambda>(k, v). gm_put k (g v)) xs m) n = (case gm_get xs n of Some v \<Rightarrow> Some (g v) | None \<Rightarrow> gm_get m n)"
  using assms
proof (induction xs arbitrary: m)
  case (Cons p xs)
  obtain k v where p: "p = (k, v)" by fastforce
  have "gm_wf xs" "gm_get xs k = None" using Cons.prems by (auto simp: p gm_wf_def map_of_eq_None_iff)
  with Cons.IH show ?case by (auto simp: p split: option.split)
qed simp

lemma factories_made:
  "scraperFactories mord sord emitter = Some [(''asset'', asset_factory mord sord emitter), (''hardwareinventory'', hardware_factory mord sord emitter),
     (''hostinfo'', hostinfo_factory mord sord emitter), (''processes'', processes_factory mord sord emitter)]"
  by (simp add: scraperFactories_def asset_factory_def hardware_factory_def hostinfo_factory_def processes_factory_def)

section \<open>What a family of emitters gives the receiver\<close>

text \<open>The receiver relies on its emitters for one law: the emitter created for a metric carries its name.\<close>

locale emitter_family =
  fixes emitter :: emitters
  assumes named: "me_Name (emitter n) = n"
begin

lemma descriptors_well_named:
  "well_named (asset_descriptor emitter)" "well_named (hardware_descriptor emitter)" "well_named (hostinfo_descriptor emitter)"
  "well_named (processes_descriptor emitter)"
  by (simp_all add: well_named_def asset_descriptor_def hardware_descriptor_def hostinfo_descriptor_def processes_descriptor_def
      scope_of_def gm_wf_def named)

lemma default_managers:
  assumes "map_order mord" "map_order sord"
  shows "NewAssetScraper mord sord emitter [(''swo.asset.installedsoftware'', True)] dl =
      Inr (single_manager ''asset'' ''otelcol/swohostmetricsreceiver/asset'' (emitter ''swo.asset.installedsoftware'') (Some dl))"
    and "NewHardwareInventoryScraper mord sord emitter [(''swo.hardwareinventory.cpu'', True)] dl =
      Inr (single_manager ''hardwareinventory'' ''otelcol/swohostmetricsreceiver/hardwareinventory/cpu'' (emitter ''swo.hardwareinventory.cpu'') (Some dl))"
    and "NewHostInfoScraper mord sord emitter [(''swo.hostinfo.uptime'', True)] =
      Inr (single_manager ''hostinfo'' ''otelcol/swohostmetricsreceiver/hostinfo'' (emitter ''swo.hostinfo.uptime'') None)"
    and "NewProcessesScraper mord sord emitter True =
      Inr (single_manager ''processes'' processes_scope (emitter ''swo.system.processes.count'') None)"
proof -
  note single = default_scraper [OF assms, where e = "emitter n" for n, unfolded named]
  note wn = descriptors_well_named
  show "NewAssetScraper mord sord emitter [(''swo.asset.installedsoftware'', True)] dl =
      Inr (single_manager ''asset'' ''otelcol/swohostmetricsreceiver/asset'' (emitter ''swo.asset.installedsoftware'') (Some dl))"
    unfolding NewAssetScraper_def by (subst single [OF wn(1)]) (auto simp: asset_descriptor_def described_scope)
  show "NewHardwareInventoryScraper mord sord emitter [(''swo.hardwareinventory.cpu'', True)] dl =
      Inr (single_manager ''hardwareinventory'' ''otelcol/swohostmetricsreceiver/hardwareinventory/cpu'' (emitter ''swo.hardwareinventory.cpu'') (Some dl))"
    unfolding NewHardwareInventoryScraper_def by (subst single [OF wn(2)]) (auto simp: hardware_descriptor_def described_scope)
  show "NewHostInfoScraper mord sord emitter [(''swo.hostinfo.uptime'', True)] =
      Inr (single_manager ''hostinfo'' ''otelcol/swohostmetricsreceiver/hostinfo'' (emitter ''swo.hostinfo.uptime'') None)"
    unfolding NewHostInfoScraper_def by (subst single [OF wn(3)]) (auto simp: hostinfo_descriptor_def described_scope)
  show "NewProcessesScraper mord sord emitter True =
      Inr (single_manager ''processes'' processes_scope (emitter ''swo.system.processes.count'') None)"
    unfolding NewProcessesScraper_def scraperConfigFromMetadata_def
    by (subst single [OF wn(4)]) (auto simp: processes_descriptor_def described_scope)
qed

lemma default_factories:
  assumes "map_order mord" "map_order sord" "scraperFactories mord sord emitter = Some fs" "gm_get fs t = Some f"
  shows "\<exists>s n. gm_get default_emitters t = Some (s, n) \<and>
    sf_CreateMetrics f (sf_CreateDefaultConfig f) = Inr (single_manager t s (emitter n) (default_delay t))"
proof -
  from assms(4) assms(3) [unfolded factories_made] consider
    "t = ''asset''" "f = asset_factory mord sord emitter" | "t = ''hardwareinventory''" "f = hardware_factory mord sord emitter"
    | "t = ''hostinfo''" "f = hostinfo_factory mord sord emitter" | "t = ''processes''" "f = processes_factory mord sord emitter"
    by (auto split: if_splits)
  then show ?thesis
    by cases (simp_all add: asset_factory_def hardware_factory_def hostinfo_factory_def processes_factory_def CreateScraper_def
        default_emitters_def default_delay_def default_managers [OF assms(1,2)])
qed

lemma default_receiver:
  assumes "map_order mord" "map_order sord" "map_order ord" "map_order ord'"
  shows "\<exists>fs opts. scraperFactories mord sord emitter = Some fs \<and>
    createScraperControllerOptions ord fs (host_createDefaultConfig ord' fs) = Inr opts \<and>
    distinct (map fst opts) \<and> set (map fst opts) = fst ` set default_emitters \<and>
    (\<forall>t m. (t, m) \<in> set opts \<longrightarrow> (\<exists>s n. gm_get default_emitters t = Some (s, n) \<and> m = single_manager t s (emitter n) (default_delay t)))"
proof -
  obtain fs where fs: "scraperFactories mord sord emitter = Some fs" by (simp add: factories_made)
  have keys: "map fst fs = map fst default_emitters" using fs by (auto simp: factories_made default_emitters_def)
  have wf: "gm_wf fs" unfolding gm_wf_def keys by (simp add: default_emitters_def)
  let ?cfg = "host_createDefaultConfig ord' fs"
  have settings: "gm_get (rc_Scrapers ?cfg) t = map_option sf_CreateDefaultConfig (gm_get fs t)" for t
    using settings_put_get [of "ord' fs" sf_CreateDefaultConfig "[]" t] map_order_wf [OF assms(4), THEN iffD2, OF wf] map_order_map_of [OF assms(4) wf]
    by (simp add: host_createDefaultConfig_def split: option.split)
  have ord: "gm_wf (ord fs)" "(t, f) \<in> set (ord fs) \<longleftrightarrow> gm_get fs t = Some f" for t f
    using assms(3) wf by (simp_all add: map_order_wf map_order_set gm_get_in)
  note def = default_factories [OF assms(1,2) fs]
  have "\<exists>opts. create_scrapers (ord fs) ?cfg = Inr opts"
    by (rule create_scrapers_ok) (use def ord(2) settings in \<open>fastforce simp: result_ok_def\<close>)
  then obtain opts where opts: "create_scrapers (ord fs) ?cfg = Inr opts" ..
  note created = create_scrapers_Inr [OF opts]
  have "gm_get (rc_Scrapers ?cfg) t \<noteq> None" if "t \<in> set (map fst (ord fs))" for t
    using that ord(2) settings by fastforce
  then have "filter (\<lambda>n. gm_get (rc_Scrapers ?cfg) n \<noteq> None) (map fst (ord fs)) = map fst (ord fs)" by (simp add: filter_id_conv)
  then have names: "map fst opts = map fst (ord fs)" using created by simp
  have "set (map fst opts) = set (map fst fs)" unfolding names using map_order_set [OF assms(3)] by simp
  then have set: "set (map fst opts) = fst ` set default_emitters" unfolding keys by simp
  have dist: "distinct (map fst opts)" using ord(1) unfolding names gm_wf_def .
  have single: "\<exists>s n. gm_get default_emitters t = Some (s, n) \<and> m = single_manager t s (emitter n) (default_delay t)" if "(t, m) \<in> set opts" for t m
  proof -
    from that created obtain f c where f: "gm_get fs t = Some f" "gm_get (rc_Scrapers ?cfg) t = Some c" "sf_CreateMetrics f c = Inr m"
      using ord(2) by blast
    then have "c = sf_CreateDefaultConfig f" using settings by simp
    with def [OF f(1)] f(3) show ?thesis by auto
  qed
  show ?thesis
    by (rule exI [of _ fs], rule exI [of _ opts]) (use fs opts dist set single in \<open>auto simp: createScraperControllerOptions_def\<close>)
qed

end

interpretation host: emitter_family "host_emitters h" for h
  by unfold_locales (simp add: host_emitters_def)

text \<open>A host whose only known detail is its name, which has one process and no software, and has been up for five seconds.\<close>

definition sample_host :: host_readings where
  "sample_host =
     \<lparr>hr_start = 0, hr_rawOrder = rev, hr_toInt64 = (\<lambda>_. 0), hr_goos = ''linux'', hr_clock = (\<lambda>now _. now), hr_errorText = (\<lambda>_. []),
      hr_uptime = (\<lambda>_. concat (map channel [[HostAtts [(''hostdetails.domain.fqdn'', ''h'')]], [OsAtts []], [UptimeValue (5, None)]])),
      hr_firewall = (\<lambda>_. Inr []), hr_users = (\<lambda>_. Inr []), hr_cpuStats = (\<lambda>_. \<lparr>cs_WorkDetails = [], cs_Error = None, cs_total = Finite 0, cs_numCPUs = 0\<rparr>),
      hr_processors = (\<lambda>_. Inr []), hr_software = (\<lambda>_. Inr []), hr_updates = (\<lambda>_. Inr []), hr_processCount = (\<lambda>_. (1, None)),
      hr_processesBuilder = NewProcessesBuilder True [] 0\<rparr>"

section \<open>What the processes scraper emits\<close>

lemma Schedule_nothing_enabled: "Schedule mord sord d [(m, False)] \<noteq> Inr rt"
  by (simp add: Schedule_def GetEnabledMetrics_def)

text \<open>A scraper of the number of processes that can be created never panics when it emits: in every sequence of
  emissions each one returns the error of the provider or a metric with exactly one point, the
  count that the provider returned for it.
\<close>

theorem processes_scraper_never_panics:
  assumes "NewProcessesScraper mord sord emitter enabled = Inr m"
  shows "count_run cs (NewProcessesBuilder enabled version start) =
    map (\<lambda>(now, n, err). case err of Some e \<Rightarrow> Some (Inl (Wrapped ''count calculation failed'' (Raised e)))
      | None \<Rightarrow> Some (Inr [count_metric (NewProcessesBuilder enabled version start) now n])) cs"
proof -
  have "enabled" using init_scraper_Inr [OF assms [unfolded NewProcessesScraper_def]] Schedule_nothing_enabled
    by (cases enabled) (auto simp: scraperConfigFromMetadata_def)
  moreover have "processes_idle (NewProcessesBuilder enabled version start)" "pb_enabled (NewProcessesBuilder enabled version start) = enabled"
    by (simp_all add: processes_idle_def NewProcessesBuilder_def)
  ultimately show ?thesis by (simp add: count_run_results)
qed

theorem processes_scraper_never_panics_witness:
  "\<exists>m. NewProcessesScraper rev rev (host_emitters sample_host) True = Inr m \<and>
     count_run [(7, 120, None), (8, 0, Some ''denied'')] (NewProcessesBuilder True [] 1) =
       [Some (Inr [count_metric (NewProcessesBuilder True [] 1) 7 120]), Some (Inl (Wrapped ''count calculation failed'' (Raised ''denied'')))]"
  using host.default_managers(4) [OF map_order_rev map_order_rev, of sample_host]
    processes_scraper_never_panics [OF host.default_managers(4) [OF map_order_rev map_order_rev, of sample_host],
      of "[(7, 120, None), (8, 0, Some ''denied'')]" "[]" 1] by auto

section \<open>The receiver with its default settings\<close>

text \<open>The default configuration gives a working receiver: the factories have distinct types, and whatever
  the orders in which Go ranges over its maps, the four scrapers are created, each once, and
  each runs the emitter of its default metric and no other.
\<close>

theorem default_receiver_runs:
  assumes "map_order mord" "map_order sord" "map_order ord" "map_order ord'"
  shows "\<exists>fs opts. scraperFactories mord sord (host_emitters h) = Some fs \<and>
    createScraperControllerOptions ord fs (host_createDefaultConfig ord' fs) = Inr opts \<and>
    distinct (map fst opts) \<and> set (map fst opts) = fst ` set default_emitters \<and>
    (\<forall>t m s n me. (t, m) \<in> set opts \<longrightarrow> (runs m s n me \<longleftrightarrow> (t, s, n) \<in> set default_emitters \<and> me = host_emitters h n))"
proof -
  have wf: "gm_wf default_emitters" by (simp add: gm_wf_def default_emitters_def)
  obtain fs opts where fs: "scraperFactories mord sord (host_emitters h) = Some fs"
    "createScraperControllerOptions ord fs (host_createDefaultConfig ord' fs) = Inr opts"
    "distinct (map fst opts)" "set (map fst opts) = fst ` set default_emitters"
    and single: "\<And>t m. (t, m) \<in> set opts \<Longrightarrow>
      \<exists>s n. gm_get default_emitters t = Some (s, n) \<and> m = single_manager t s (host_emitters h n) (default_delay t)"
    using host.default_receiver [OF assms, of h] by blast
  have "runs m s n me \<longleftrightarrow> (t, s, n) \<in> set default_emitters \<and> me = host_emitters h n" if "(t, m) \<in> set opts" for t m s n me
    using single [OF that] unfolding gm_get_in [OF wf, symmetric] by (auto simp: runs_single host.named)
  with fs show ?thesis by blast
qed

theorem default_receiver_runs_witness:
  "\<exists>fs opts m. scraperFactories rev rev (host_emitters sample_host) = Some fs \<and>
     createScraperControllerOptions rev fs (host_createDefaultConfig rev fs) = Inr opts \<and> (''hostinfo'', m) \<in> set opts \<and>
     runs m ''otelcol/swohostmetricsreceiver/hostinfo'' ''swo.hostinfo.uptime'' (host_emitters sample_host ''swo.hostinfo.uptime'')"
proof -
  from default_receiver_runs [OF map_order_rev map_order_rev map_order_rev map_order_rev, of sample_host] obtain fs opts where
    fs: "scraperFactories rev rev (host_emitters sample_host) = Some fs"
    "createScraperControllerOptions rev fs (host_createDefaultConfig rev fs) = Inr opts"
    "set (map fst opts) = fst ` set default_emitters"
    "\<forall>t m s n me. (t, m) \<in> set opts \<longrightarrow> (runs m s n me \<longleftrightarrow> (t, s, n) \<in> set default_emitters \<and> me = host_emitters sample_host n)"
    by (elim exE conjE) (rule that)
  have d: "(''hostinfo'', ''otelcol/swohostmetricsreceiver/hostinfo'', ''swo.hostinfo.uptime'') \<in> set default_emitters"
    by (simp add: default_emitters_def)
  then have "''hostinfo'' \<in> set (map fst opts)" unfolding fs(3) by force
  then obtain m where m: "(''hostinfo'', m) \<in> set opts" by auto
  have "runs m ''otelcol/swohostmetricsreceiver/hostinfo'' ''swo.hostinfo.uptime'' (host_emitters sample_host ''swo.hostinfo.uptime'')"
    using fs(4) m d by blast
  with fs(1,2) m show ?thesis by (intro exI conjI)
qed


lemma default_hostinfo:
  assumes "map_order mord" "map_order sord" "map_order ord" "map_order ord'"
  shows "\<exists>fs opts. scraperFactories mord sord (host_emitters h) = Some fs \<and>
    createScraperControllerOptions ord fs (host_createDefaultConfig ord' fs) = Inr opts \<and>
    (''hostinfo'', single_manager ''hostinfo'' ''otelcol/swohostmetricsreceiver/hostinfo'' (host_emitters h ''swo.hostinfo.uptime'') None) \<in> set opts"
proof -
  obtain fs opts where fs: "scraperFactories mord sord (host_emitters h) = Some fs"
    "createScraperControllerOptions ord fs (host_createDefaultConfig ord' fs) = Inr opts" "set (map fst opts) = fst ` set default_emitters"
    and single: "\<And>t m. (t, m) \<in> set opts \<Longrightarrow>
      \<exists>s n. gm_get default_emitters t = Some (s, n) \<and> m = single_manager t s (host_emitters h n) (default_delay t)"
    using host.default_receiver [OF assms, of h] by blast
  have "''hostinfo'' \<in> set (map fst opts)" unfolding fs(3) by (simp add: default_emitters_def)
  then obtain m where "(''hostinfo'', m) \<in> set opts" by auto
  with single [OF this] fs(1,2) show ?thesis by (auto simp: default_emitters_def default_delay_def)
qed

text \<open>The uptime metric of a scrape: one point with the uptime and the attributes of the sources.\<close>

definition uptime_scrape :: "string \<Rightarrow> time_ns \<Rightarrow> time_ns \<Rightarrow> u64 \<Rightarrow> pmap \<Rightarrow> metrics" where
  "uptime_scrape version start now n attrs =
     [\<lparr>rm_attrs = [], rm_scopes = [\<lparr>sm_name = ''otelcol/swohostmetricsreceiver/hostinfo'', sm_version = version, sm_attrs = [],
        sm_metrics = [host_metric ''swo.hostinfo.uptime'' ''Host uptime in seconds'' ''s''
          (MSum [\<lparr>dp_attrs = attrs, dp_startTimestamp = to_timestamp start, dp_timestamp = to_timestamp now, dp_value = VInt (uint n)\<rparr>])]\<rparr>]\<rparr>]"

text \<open>C36: From the providers to the scraped metrics, with the default configuration.  However the goroutines of the attribute
  generators interleave, they finish; and then, however the goroutines of the uptime emitter, of the emitters and of
  the scopes interleave, the created host information scraper starts, and each of its scrapes returns one
  resource whose single metric has the uptime that the provider reported and exactly the attributes of
  all the sources, or fails when the provider fails or its uptime does not fit 63 bits.
\<close>

theorem default_hostinfo_scrape:
  assumes "map_order mord" "map_order sord" "map_order ord" "map_order ord'" "map_order (hr_rawOrder h)"
    and "valid_arrivals arr" "\<forall>s. valid_arrivals (sch s)"
    and "at_most_one ds" "at_most_one ms" "at_most_one ts" "at_most_one is" "at_most_one ls"
    and "eh \<in> interleavings (map channel (hostdetails_channels ds ms ts))"
    and "eo \<in> interleavings (map channel (osdetails_channels is ls))"
  shows "\<exists>fs opts m ha oa. scraperFactories mord sord (host_emitters h) = Some fs \<and>
    createScraperControllerOptions ord fs (host_createDefaultConfig ord' fs) = Inr opts \<and> (''hostinfo'', m) \<in> set opts \<and>
    manager_Start False arr sch (hr_start h) m = (None, m) \<and>
    details_generate eh 3 = Some ha \<and> details_generate eo 2 = Some oa \<and>
    (hr_uptime h now \<in> interleavings (map channel [[HostAtts ha], [OsAtts oa], [UptimeValue (n, err)]]) \<longrightarrow>
     (if err = None \<and> uint n < 2 ^ 63
      then \<exists>attrs. manager_Scrape version False arr sch now m = ((uptime_scrape version (hr_start h) now n attrs, None), m) \<and>
        (\<forall>k v. p_get attrs k = Some v \<longleftrightarrow> (\<exists>a \<in> set (all_sources ds ms ts is ls). \<exists>s. gm_get a k = Some s \<and> v = VStr s))
      else \<exists>e. manager_Scrape version False arr sch now m = (([], Some e), m)))"
proof -
  let ?s = "''otelcol/swohostmetricsreceiver/hostinfo''" and ?e = "host_emitters h ''swo.hostinfo.uptime''"
  define m where "m = single_manager ''hostinfo'' ?s ?e None"
  obtain fs opts where fs: "scraperFactories mord sord (host_emitters h) = Some fs"
    "createScraperControllerOptions ord fs (host_createDefaultConfig ord' fs) = Inr opts" "(''hostinfo'', m) \<in> set opts"
    using default_hostinfo [OF assms(1-4), of h] unfolding m_def by blast
  have start: "manager_Start False arr sch (hr_start h) m = (None, m)"
    using single_start [OF assms(6) assms(7) [rule_format] _ m_def] by (simp add: host_emitters_def)
  obtain ha oa where gen: "details_generate eh 3 = Some ha" "details_generate eo 2 = Some oa"
    and emit: "\<forall>es \<in> interleavings (map channel [[HostAtts ha], [OsAtts oa], [UptimeValue (n, err)]]).
       \<exists>r. uptime_Emit (hr_rawOrder h) es (hr_start h) now = Some r \<and>
         (if err = None \<and> uint n < 2 ^ 63
          then \<exists>attrs. r = Inr [host_metric ''swo.hostinfo.uptime'' ''Host uptime in seconds'' ''s''
                 (MSum [\<lparr>dp_attrs = attrs, dp_startTimestamp = to_timestamp (hr_start h), dp_timestamp = to_timestamp now, dp_value = VInt (uint n)\<rparr>])] \<and>
               (\<forall>k v. p_get attrs k = Some v \<longleftrightarrow>
                  (\<exists>a \<in> set (all_sources ds ms ts is ls). \<exists>s. gm_get a k = Some s \<and> v = VStr s))
          else \<exists>e. r = Inl e)"
    using uptime_independent_of_order [OF assms(5,8-14), of n err "hr_start h" now] by blast
  have ready: "feature_IsReady now (mg_features m)" "feature_UpdateLastProcessedTime now (mg_features m) = mg_features m"
    by (simp_all add: m_def single_manager_def feature_IsReady_def feature_UpdateLastProcessedTime_def feature_Init_def NewFeatureManager_def)
  note scrape = single_scrape [OF assms(6) assms(7) [rule_format] ready(1) m_def, of version, unfolded ready(2)]
  have e: "me_Emit ?e now = the (uptime_Emit (hr_rawOrder h) (hr_uptime h now) (hr_start h) now)"
    by (simp add: host_emitters_def host_Emit_def Let_def)
  have "if err = None \<and> uint n < 2 ^ 63
      then \<exists>attrs. manager_Scrape version False arr sch now m = ((uptime_scrape version (hr_start h) now n attrs, None), m) \<and>
        (\<forall>k v. p_get attrs k = Some v \<longleftrightarrow> (\<exists>a \<in> set (all_sources ds ms ts is ls). \<exists>s. gm_get a k = Some s \<and> v = VStr s))
      else \<exists>e. manager_Scrape version False arr sch now m = (([], Some e), m)"
    if "hr_uptime h now \<in> interleavings (map channel [[HostAtts ha], [OsAtts oa], [UptimeValue (n, err)]])"
    using bspec [OF emit that] unfolding scrape e uptime_scrape_def by (auto split: if_splits)
  then show ?thesis using fs start gen by blast
qed

text \<open>The channels of the sample host read one after the other.\<close>

theorem default_hostinfo_scrape_witness:
  "\<exists>fs opts m attrs. scraperFactories rev rev (host_emitters sample_host) = Some fs \<and>
     createScraperControllerOptions rev fs (host_createDefaultConfig rev fs) = Inr opts \<and> (''hostinfo'', m) \<in> set opts \<and>
     manager_Scrape ''1'' False (\<lambda>n. [0..<n]) (\<lambda>_ n. [0..<n]) 9 m = ((uptime_scrape ''1'' 0 9 5 attrs, None), m) \<and>
     p_get attrs ''hostdetails.domain.fqdn'' = Some (VStr ''h'')"
proof -
  have one: "at_most_one [sample_domain]" "at_most_one ([] :: host_model list)" "at_most_one ([] :: time_zone list)"
    "at_most_one ([] :: info_stat list)" "at_most_one ([] :: host_language list)" by (simp_all add: at_most_one_def)
  have raw: "map_order (hr_rawOrder sample_host)" by (simp add: sample_host_def)
  have gen: "details_generate (concat (map channel (hostdetails_channels [sample_domain] [] []))) 3 = Some [(''hostdetails.domain.fqdn'', ''h'')]"
    "details_generate (concat (map channel (osdetails_channels [] []))) 2 = Some []" by code_simp+
  have src: "gm_get (processDomainAttributes sample_domain) ''hostdetails.domain.fqdn'' = Some ''h''"
    "processDomainAttributes sample_domain \<in> set (all_sources [sample_domain] [] [] [] [])"
    by (simp_all add: processDomainAttributes_def sample_domain_def put_nonempty_def all_sources_def hostdetails_channels_def)
  have up: "hr_uptime sample_host 9 \<in> interleavings (map channel [[HostAtts [(''hostdetails.domain.fqdn'', ''h'')]], [OsAtts []], [UptimeValue (5, None)]])"
    unfolding sample_host_def host_readings.simps by (rule concat_in_interleavings)
  from default_hostinfo_scrape [OF map_order_rev map_order_rev map_order_rev map_order_rev raw upt_arrivals _ one
      concat_in_interleavings concat_in_interleavings, where sch = "\<lambda>_ n. [0..<n]" and n = 5 and err = None and now = 9 and version = "''1''"]
  obtain fs opts m attrs where fs: "scraperFactories rev rev (host_emitters sample_host) = Some fs"
    "createScraperControllerOptions rev fs (host_createDefaultConfig rev fs) = Inr opts" "(''hostinfo'', m) \<in> set opts"
    and scrape: "manager_Scrape ''1'' False (\<lambda>n. [0..<n]) (\<lambda>_ n. [0..<n]) 9 m = ((uptime_scrape ''1'' (hr_start sample_host) 9 5 attrs, None), m)"
    and attrs: "\<forall>k v. p_get attrs k = Some v \<longleftrightarrow>
      (\<exists>a \<in> set (all_sources [sample_domain] [] [] [] []). \<exists>s. gm_get a k = Some s \<and> v = VStr s)"
    using up unfolding gen by (auto simp: upt_arrivals)
  have "p_get attrs ''hostdetails.domain.fqdn'' = Some (VStr ''h'')" using attrs src by blast
  moreover have "hr_start sample_host = 0" by (simp add: sample_host_def)
  ultimately show ?thesis using fs scrape by auto
qed

section \<open>Reading the configuration\<close>

text \<open>The settings that a section of the configuration gives a scraper, if it is accepted.\<close>

definition section_settings ::
  "(string \<Rightarrow> string option) \<Rightarrow> factories \<Rightarrow> string \<Rightarrow> (string, section_apply) result \<Rightarrow> scraper_settings option" where
  "section_settings newType fs n sub =
     (case newType n of None \<Rightarrow> None | Some t \<Rightarrow>
      (case gm_get fs t of None \<Rightarrow> None | Some f \<Rightarrow>
       (case sub of Inl _ \<Rightarrow> None | Inr ap \<Rightarrow>
        (case ap (sf_CreateDefaultConfig f) of Inl _ \<Rightarrow> None | Inr c \<Rightarrow> Some c))))"

lemma unmarshal_scraper_result:
  "case section_settings newType fs n sub of
     None \<Rightarrow> \<exists>e. unmarshal_scraper newType fs (n, sub) scrapers = (Some e, scrapers)
   | Some c \<Rightarrow> unmarshal_scraper newType fs (n, sub) scrapers = (None, gm_put n c scrapers)"
  by (simp add: section_settings_def unmarshal_scraper_def GetScraperFactory_def split: option.split sum.split)

lemma unmarshal_all:
  assumes "for_each (unmarshal_scraper newType fs) xs scrapers = (None, scrapers')" "gm_wf xs"
  shows "(\<forall>(n, sub) \<in> set xs. section_settings newType fs n sub \<noteq> None) \<and>
    gm_get scrapers' n = (case gm_get xs n of Some sub \<Rightarrow> section_settings newType fs n sub | None \<Rightarrow> gm_get scrapers n)"
  using assms
proof (induction xs arbitrary: scrapers)
  case (Cons p xs)
  obtain k sub where p: "p = (k, sub)" by fastforce
  have wf: "gm_wf xs" "gm_get xs k = None" using Cons.prems(2) by (auto simp: p gm_wf_def map_of_eq_None_iff)
  from Cons.prems(1) unmarshal_scraper_result [of newType fs k sub scrapers] obtain c where
    c: "section_settings newType fs k sub = Some c" "for_each (unmarshal_scraper newType fs) xs (gm_put k c scrapers) = (None, scrapers')"
    by (auto simp: p split: option.splits)
  from Cons.IH [OF c(2) wf(1)] c(1) wf(2) show ?case by (auto simp: p split: option.split)
qed simp

text \<open>C38: A receiver whose configuration was read and whose scrapers were created has exactly one scraper
  for every scraper of the configuration, created from the defaults of its factory with the
  section of the configuration applied; scrapers that are not configured do not run, although they have defaults.
\<close>

theorem configured_scrapers_created:
  assumes "map_order ord" "map_order ford" "gm_wf fs" "gm_wf scraperMap" "\<forall>n t. newType n = Some t \<longrightarrow> t = n"
    and "rw_Scrapers raw = Inr scraperMap"
    and "Unmarshal ord newType fs (Some raw) (Some defaults) = (None, Some cfg)"
    and "createScraperControllerOptions ford fs cfg = Inr opts"
  shows "distinct (map fst opts) \<and> set (map fst opts) = fst ` set scraperMap \<and>
    (\<forall>n m. (n, m) \<in> set opts \<longrightarrow> (\<exists>f ap c. gm_get fs n = Some f \<and> gm_get scraperMap n = Some (Inr ap) \<and>
       ap (sf_CreateDefaultConfig f) = Inr c \<and> sf_CreateMetrics f c = Inr m))"
proof -
  obtain scrapers where run: "for_each (unmarshal_scraper newType fs) (ord scraperMap) [] = (None, scrapers)" "rc_Scrapers cfg = scrapers"
    using assms(6,7) by (auto simp: Unmarshal_def Let_def split: sum.splits prod.splits)
  note all = unmarshal_all [OF run(1) map_order_wf [OF assms(1), THEN iffD2, OF assms(4)]]
  have get: "gm_get (rc_Scrapers cfg) n = Option.bind (gm_get scraperMap n) (section_settings newType fs n)" for n
    using all [of n] map_order_map_of [OF assms(1,4)] run(2) by (simp split: option.splits)
  have ok: "section_settings newType fs n sub \<noteq> None" if "gm_get scraperMap n = Some sub" for n sub
  proof -
    have "(n, sub) \<in> set (ord scraperMap)" using that by (simp add: map_order_set [OF assms(1)] gm_get_in [OF assms(4), symmetric])
    with all [of n] show ?thesis by blast
  qed
  have settings: "\<exists>f ap. gm_get fs n = Some f \<and> sub = Inr ap \<and> ap (sf_CreateDefaultConfig f) = Inr c"
    if "section_settings newType fs n sub = Some c" for n sub c
    using that assms(5) by (auto simp: section_settings_def split: option.splits sum.splits)
  note created = create_scrapers_Inr [OF assms(8) [unfolded createScraperControllerOptions_def]]
  have ford: "gm_wf (ford fs)" "(n, f) \<in> set (ford fs) \<longleftrightarrow> gm_get fs n = Some f" for n f
    using assms(2,3) by (simp_all add: map_order_wf map_order_set gm_get_in)
  have "n \<in> set (map fst opts) \<longleftrightarrow> n \<in> fst ` set scraperMap" for n
  proof -
    have "n \<in> set (map fst opts) \<longleftrightarrow> (\<exists>f. gm_get fs n = Some f) \<and> gm_get (rc_Scrapers cfg) n \<noteq> None"
    proof -
      have "n \<in> set (map fst opts) \<longleftrightarrow> n \<in> set (map fst (ford fs)) \<and> gm_get (rc_Scrapers cfg) n \<noteq> None" using created by simp
      also have "n \<in> set (map fst (ford fs)) \<longleftrightarrow> (\<exists>f. gm_get fs n = Some f)" using ford(2) by force
      finally show ?thesis .
    qed
    also have "\<dots> \<longleftrightarrow> gm_get scraperMap n \<noteq> None" 
    proof (cases "gm_get scraperMap n")
      case (Some sub)
      then obtain c where c: "section_settings newType fs n sub = Some c" using ok by blast
      with settings [OF c] Some show ?thesis by (auto simp: get)
    qed (simp add: get)
    finally show ?thesis by (simp add: map_of_eq_None_iff)
  qed
  moreover have "distinct (map fst opts)" using created ford(1) by (simp add: gm_wf_def)
  moreover have "\<exists>f ap c. gm_get fs n = Some f \<and> gm_get scraperMap n = Some (Inr ap) \<and> ap (sf_CreateDefaultConfig f) = Inr c \<and> sf_CreateMetrics f c = Inr m"
    if "(n, m) \<in> set opts" for n m
  proof -
    from that created obtain f c where f: "gm_get fs n = Some f" "gm_get (rc_Scrapers cfg) n = Some c" "sf_CreateMetrics f c = Inr m"
      using ford(2) by blast
    then obtain sub where sub: "gm_get scraperMap n = Some sub" "section_settings newType fs n sub = Some c"
      unfolding get by (auto simp: bind_eq_Some_conv)
    with settings [OF sub(2)] f show ?thesis by auto
  qed
  ultimately show ?thesis by blast
qed

text \<open>A configuration with an empty section for the host information.\<close>

definition sample_raw :: raw_config where
  "sample_raw = \<lparr>rw_Unmarshal = Inr 60000000000, rw_Scrapers = Inr [(''hostinfo'', Inr Inr)]\<rparr>"

theorem configured_scrapers_created_witness:
  "\<exists>cfg opts. Unmarshal rev Some [(''hostinfo'', hostinfo_factory rev rev (host_emitters sample_host))] (Some sample_raw)
       (Some \<lparr>rc_CollectionInterval = 0, rc_Scrapers = []\<rparr>) = (None, Some cfg) \<and>
     createScraperControllerOptions rev [(''hostinfo'', hostinfo_factory rev rev (host_emitters sample_host))] cfg = Inr opts \<and>
     set (map fst opts) = {''hostinfo''}"
proof -
  let ?fs = "[(''hostinfo'', hostinfo_factory rev rev (host_emitters sample_host))]"
  let ?map = "[(''hostinfo'', Inr Inr)] :: (string, (string, section_apply) result) gomap"
  let ?defaults = "\<lparr>rc_CollectionInterval = 0, rc_Scrapers = []\<rparr>"
  have raw: "rw_Scrapers sample_raw = Inr ?map" by (simp add: sample_raw_def)
  obtain cfg where cfg: "Unmarshal rev Some ?fs (Some sample_raw) (Some ?defaults) = (None, Some cfg)"
    "rc_Scrapers cfg = [(''hostinfo'', HostInfoSettings [(''swo.hostinfo.uptime'', True)])]"
    by (simp add: Unmarshal_def sample_raw_def unmarshal_scraper_def GetScraperFactory_def hostinfo_factory_def Let_def)
  obtain opts where opts: "createScraperControllerOptions rev ?fs cfg = Inr opts"
    by (simp add: createScraperControllerOptions_def cfg(2) hostinfo_factory_def CreateScraper_def host.default_managers(3) [OF map_order_rev map_order_rev])
  have "gm_wf ?fs" "gm_wf ?map" "\<forall>n t. Some n = Some t \<longrightarrow> t = n" by (simp_all add: gm_wf_def)
  from configured_scrapers_created [OF map_order_rev map_order_rev this raw cfg(1) opts]
  have "set (map fst opts) = {''hostinfo''}" by simp
  with cfg(1) opts show ?thesis by blast
qed

end
