(* ===== verification/Host_Windows.thy ===== *)
theory Host_Windows
  imports Host_Emitters
begin

text \<open>
  The providers of the host metrics receiver on Windows
  (\<open>receiver/swohostmetricsreceiver/internal/providers/*/provider_windows.go\<close>) with the registry reader and the WMI queries
  they use (\<open>pkg/registry\<close>, \<open>pkg/wmi\<close>), and the container provider on Windows (\<open>pkg/container\<close>).  The system
  calls are arguments: opening a registry key gives its subkeys and values or an error, a WMI query
  gives a slice (\<open>None\<close> is the nil slice) or an error.
\<close>

section \<open>Registry\<close>

datatype hive = LOCAL_MACHINE | CURRENT_USER

record registry_key =
  rk_ReadSubKeyNames :: "(string, string list) result"
  rk_GetStringValue :: "string \<Rightarrow> (string, string) result"
  rk_GetIntegerValue :: "string \<Rightarrow> (string, u64) result"

type_synonym open_key = "hive \<Rightarrow> string \<Rightarrow> (string, registry_key) result"

definition LocalMachineKey :: int where "LocalMachineKey = 0"
definition CurrentUserKey :: int where "CurrentUserKey = 1"

definition mapRootKey :: "int \<Rightarrow> (string, hive) result" where
  "mapRootKey rootKey =
     (if rootKey = LocalMachineKey then Inr LOCAL_MACHINE else if rootKey = CurrentUserKey then Inr CURRENT_USER
      else Inl (''undefined rootKey: '' @ strconv_Itoa rootKey))"

record registry_reader =
  rr_RootPath :: string
  rr_RootKey :: hive

definition NewReader :: "int \<Rightarrow> string \<Rightarrow> (string, registry_reader) result" where
  "NewReader rootKey rootPath =
     (if length rootPath = 0 then Inl (''rootPath can'' @ [CHR 0x27] @ ''t be empty'')
      else case mapRootKey rootKey of Inl e \<Rightarrow> Inl e | Inr key \<Rightarrow> Inr \<lparr>rr_RootPath = rootPath, rr_RootKey = key\<rparr>)"

definition GetSubKeys :: "open_key \<Rightarrow> registry_reader \<Rightarrow> (string, string list) result" where
  "GetSubKeys opn reader =
     (case opn (rr_RootKey reader) (rr_RootPath reader) of Inl e \<Rightarrow> Inl e | Inr k \<Rightarrow> rk_ReadSubKeyNames k)"

definition openKey :: "open_key \<Rightarrow> registry_reader \<Rightarrow> string \<Rightarrow> (string, registry_key) result" where
  "openKey opn reader keyName = opn (rr_RootKey reader) (rr_RootPath reader @ [CHR 0x5C] @ keyName)"

definition reader_GetKeyValues :: "open_key \<Rightarrow> registry_reader \<Rightarrow> string \<Rightarrow> string list \<Rightarrow> (string, (string, string) gomap) result" where
  "reader_GetKeyValues opn reader keyName names =
     (case openKey opn reader keyName of
        Inl e \<Rightarrow> Inl e
      | Inr key \<Rightarrow>
          Inr (fold (\<lambda>name values. gm_put name (case rk_GetStringValue key name of Inl _ \<Rightarrow> [] | Inr v \<Rightarrow> v) values) names []))"

definition reader_GetKeyUIntValue :: "open_key \<Rightarrow> registry_reader \<Rightarrow> string \<Rightarrow> string \<Rightarrow> (string, u64) result" where
  "reader_GetKeyUIntValue opn reader keyName name =
     (case openKey opn reader keyName of Inl e \<Rightarrow> Inl e | Inr key \<Rightarrow> rk_GetIntegerValue key name)"

definition GetKeyValues :: "open_key \<Rightarrow> int \<Rightarrow> string \<Rightarrow> string \<Rightarrow> string list \<Rightarrow> (string, (string, string) gomap) result" where
  "GetKeyValues opn rootKey parent keyName names =
     (case NewReader rootKey parent of Inl e \<Rightarrow> Inl e | Inr reader \<Rightarrow> reader_GetKeyValues opn reader keyName names)"

definition GetKeyUIntValue :: "open_key \<Rightarrow> int \<Rightarrow> string \<Rightarrow> string \<Rightarrow> string \<Rightarrow> (string, u64) result" where
  "GetKeyUIntValue opn rootKey parent keyName name =
     (case NewReader rootKey parent of Inl e \<Rightarrow> Inl e | Inr reader \<Rightarrow> reader_GetKeyUIntValue opn reader keyName name)"

text \<open>A path of the registry.\<close>

definition reg_path :: "string list \<Rightarrow> string" where
  "reg_path ps = strings_Join ps [CHR 0x5C]"

section \<open>WMI\<close>

datatype wmi_error = WmiQueryFailed string | WmiNoResult | WmiEmptyResult | WmiTooManyResults

type_synonym 'a wmi_query = "(string, 'a list option) result"

definition QueryResult :: "'a wmi_query \<Rightarrow> (wmi_error, 'a list option) result" where
  "QueryResult q = map_sum WmiQueryFailed id q"

definition QuerySingleResult :: "'a wmi_query \<Rightarrow> (wmi_error, 'a) result" where
  "QuerySingleResult q =
     (case QueryResult q of
        Inl e \<Rightarrow> Inl e
      | Inr None \<Rightarrow> Inl WmiNoResult
      | Inr (Some res) \<Rightarrow>
          if length res = 0 then Inl WmiEmptyResult else if length res > 1 then Inl WmiTooManyResults else Inr (hd res))"

section \<open>Model, domain and time zone\<close>

record computer_system =
  co_Model :: string
  co_Manufacturer :: string

datatype model_event = ComputerSystem computer_system | Bios string

definition loadComputerSystem :: "computer_system wmi_query \<Rightarrow> model_event list" where
  "loadComputerSystem q = (case QuerySingleResult q of Inl _ \<Rightarrow> [] | Inr r \<Rightarrow> [ComputerSystem r])"

definition loadBios :: "string wmi_query \<Rightarrow> model_event list" where
  "loadBios q = (case QuerySingleResult q of Inl _ \<Rightarrow> [] | Inr s \<Rightarrow> [Bios s])"

fun model_receive :: "model_event \<Rightarrow> host_model \<Rightarrow> host_model" where
  "model_receive (ComputerSystem cs) m = m\<lparr>hm_Manufacturer := co_Manufacturer cs, hm_Name := co_Model cs\<rparr>"
| "model_receive (Bios s) m = m\<lparr>hm_SerialNumber := s\<rparr>"

definition windows_model_Provide :: "model_event option list \<Rightarrow> host_model option" where
  "windows_model_Provide es = select_loop model_receive es 2 \<lparr>hm_Manufacturer = [], hm_Name = [], hm_SerialNumber = []\<rparr>"

record wmi_domain =
  wd_Domain :: string
  wd_DNSHostName :: string
  wd_DomainRole :: "16 word"
  wd_Workgroup :: string

definition windows_domain_Provide :: "wmi_domain wmi_query \<Rightarrow> host_domain list" where
  "windows_domain_Provide q =
     (case QuerySingleResult q of
        Inl _ \<Rightarrow> []
      | Inr r \<Rightarrow> [\<lparr>hd_Domain = wd_Domain r, hd_FQDN = wd_DNSHostName r @ ''.'' @ wd_Domain r, hd_DomainRole = uint (wd_DomainRole r),
                   hd_Workgroup = wd_Workgroup r\<rparr>])"

definition windows_timezone_Provide :: "time_zone wmi_query \<Rightarrow> time_zone list" where
  "windows_timezone_Provide q = (case QuerySingleResult q of Inl _ \<Rightarrow> [] | Inr r \<Rightarrow> [r])"

section \<open>Language and users\<close>

definition getLanguageInfo :: "open_key \<Rightarrow> (string, string) gomap \<Rightarrow> 32 word \<Rightarrow> (string, host_language) result" where
  "getLanguageInfo opn displayNames lcid =
     (case GetKeyValues opn CurrentUserKey ''Control Panel'' ''International'' [''LocaleName''] of
        Inl e \<Rightarrow> Inl (''failed to get current user locale info: '' @ e)
      | Inr values \<Rightarrow>
        (let shortName = value_or_empty values ''LocaleName'' in
         case gm_get displayNames shortName of
           None \<Rightarrow> Inl (''display name not found for language '' @ shortName)
         | Some displayName \<Rightarrow> Inr \<lparr>hl_LCID = uint lcid, hl_Name = shortName, hl_DisplayName = displayName\<rparr>))"

definition windows_language_Provide :: "open_key \<Rightarrow> (string, string) gomap \<Rightarrow> 32 word \<Rightarrow> host_language list" where
  "windows_language_Provide opn displayNames lcid = (case getLanguageInfo opn displayNames lcid of Inl _ \<Rightarrow> [] | Inr l \<Rightarrow> [l])"

definition windows_users_Provide :: "open_key \<Rightarrow> (string, logged_user list) result" where
  "windows_users_Provide opn =
     (case GetKeyValues opn LocalMachineKey (reg_path [''SOFTWARE'', ''Microsoft'', ''Windows'', ''CurrentVersion'', ''Authentication'']) ''LogonUI''
             [''LastLoggedOnUser'', ''LastLoggedOnDisplayName''] of
        Inl e \<Rightarrow> Inl e
      | Inr values \<Rightarrow> Inr [\<lparr>us_Name = value_or_empty values ''LastLoggedOnUser'', us_DisplayName = value_or_empty values ''LastLoggedOnDisplayName'',
                           us_TTY = []\<rparr>])"

section \<open>Installed software and updates\<close>

definition createRegistryReaders :: "registry_reader list" where
  "createRegistryReaders =
     (case NewReader LocalMachineKey (reg_path [''Software'', ''Microsoft'', ''Windows'', ''CurrentVersion'', ''Uninstall'']) of
        Inl _ \<Rightarrow> []
      | Inr r64 \<Rightarrow>
        (case NewReader LocalMachineKey (reg_path [''Software'', ''WOW6432Node'', ''Microsoft'', ''Windows'', ''CurrentVersion'', ''Uninstall'']) of
           Inl _ \<Rightarrow> []
         | Inr r32 \<Rightarrow> [r64, r32]))"

definition software_formatDate :: "string \<Rightarrow> string" where
  "software_formatDate inputDate =
     (if length inputDate = 8 then take 4 inputDate @ ''-'' @ take 2 (drop 4 inputDate) @ ''-'' @ drop 6 inputDate else [])"

definition read_software :: "open_key \<Rightarrow> registry_reader \<Rightarrow> string \<Rightarrow> installed_software list" where
  "read_software opn reader swKeyName =
     (case reader_GetKeyValues opn reader swKeyName [''DisplayName'', ''DisplayVersion'', ''Publisher'', ''InstallDate''] of
        Inl _ \<Rightarrow> []
      | Inr values \<Rightarrow>
        (let v = \<lparr>is_Name = value_or_empty values ''DisplayName'', is_Publisher = value_or_empty values ''Publisher'',
                  is_Version = value_or_empty values ''DisplayVersion'', is_InstallDate = software_formatDate (value_or_empty values ''InstallDate'')\<rparr>
         in if is_Name v \<noteq> [] then [v] else []))"

definition processRegistryReader :: "open_key \<Rightarrow> registry_reader \<Rightarrow> (string, installed_software list) result" where
  "processRegistryReader opn reader =
     (case GetSubKeys opn reader of
        Inl e \<Rightarrow> Inl (''Windows installed software can not be obtained: '' @ e)
      | Inr uninstallKeys \<Rightarrow> Inr (concat (map (read_software opn reader) uninstallKeys)))"

definition windows_GetSoftware :: "open_key \<Rightarrow> registry_reader list \<Rightarrow> (string, installed_software list) result" where
  "windows_GetSoftware opn readers =
     (if length readers = 0 then Inl ''no registry reader registered''
      else map_sum id concat (map_result (processRegistryReader opn) readers))"

definition updates_formatDate :: "string \<Rightarrow> string" where
  "updates_formatDate inputDate =
     (let dateParts = strings_Split inputDate (CHR ''/'') in
      if length dateParts = 3 then dateParts ! 2 @ ''-'' @ dateParts ! 0 @ ''-'' @ dateParts ! 1 else [])"

definition formatDates :: "installed_update list \<Rightarrow> installed_update list" where
  "formatDates updates = map (\<lambda>u. u\<lparr>iu_InstalledOn := updates_formatDate (iu_InstalledOn u)\<rparr>) updates"

definition windows_GetUpdates :: "installed_update wmi_query \<Rightarrow> (wmi_error, installed_update list) result" where
  "windows_GetUpdates q = map_sum id (\<lambda>r. formatDates (case r of None \<Rightarrow> [] | Some us \<Rightarrow> us)) (QueryResult q)"

section \<open>Firewall\<close>

definition getFirewallProfilesMapping :: "(string, string) gomap" where
  "getFirewallProfilesMapping = [(''StandardProfile'', ''Private''), (''DomainProfile'', ''Domain''), (''PublicProfile'', ''Public'')]"

definition getProfile :: "open_key \<Rightarrow> string \<times> string \<Rightarrow> (string \<times> string, firewall_profile) result" where
  "getProfile opn = (\<lambda>(pk, pt).
     case GetKeyUIntValue opn LocalMachineKey (reg_path [''SYSTEM'', ''CurrentControlSet'', ''services'', ''SharedAccess'', ''Parameters'', ''FirewallPolicy''])
            pk ''EnableFirewall'' of
       Inr value \<Rightarrow> Inr \<lparr>fp_Name = pt, fp_Enabled = sint value\<rparr>
     | Inl e \<Rightarrow> Inl (pk, e))"

text \<open>
  The goroutines of the profiles finish in some order, in which their results are in the buffered channels;
  errors are joined with the last one first.
\<close>

definition processFirewallProfilesChannels ::
  "(string \<times> string) list \<Rightarrow> firewall_profile list \<Rightarrow> firewall_profile list \<times> (string \<times> string) list" where
  "processFirewallProfilesChannels errCh profilesCh = (profilesCh, fold (#) errCh [])"

definition getFirewallProfiles :: "open_key \<Rightarrow> arrivals \<Rightarrow> firewall_profile list \<times> (string \<times> string) list" where
  "getFirewallProfiles opn arr =
     (let rs = arrival arr (map (getProfile opn) getFirewallProfilesMapping) in
      processFirewallProfilesChannels
        (concat (map (\<lambda>r. case r of Inl e \<Rightarrow> [e] | Inr _ \<Rightarrow> []) rs))
        (concat (map (\<lambda>r. case r of Inl _ \<Rightarrow> [] | Inr p \<Rightarrow> [p]) rs)))"

text \<open>What the emitter receives: the error if there is one, else the profiles.\<close>

definition windows_firewall_Provide :: "((string \<times> string) list \<Rightarrow> string) \<Rightarrow> open_key \<Rightarrow> arrivals \<Rightarrow> (string, firewall_profile list) result" where
  "windows_firewall_Provide message opn arr =
     (case getFirewallProfiles opn arr of (profiles, errs) \<Rightarrow> if errs = [] then Inr profiles else Inl (message errs))"

section \<open>Processors\<close>

record wmi_processor =
  wp_Name :: string
  wp_Manufacturer :: string
  wp_CurrentClockSpeed :: "32 word"
  wp_NumberOfCores :: "32 word"
  wp_NumberOfLogicalProcessors :: "32 word"
  wp_Stepping :: string
  wp_Caption :: string
  wp_DeviceID :: string

text \<open>
  The fields of the caption from the current one on.  The test of the length holds for every index, so a
  label at the end reads beyond the fields and panics (\<open>None\<close>).
\<close>

fun amend_fields :: "(string \<Rightarrow> string \<Rightarrow> bool) \<Rightarrow> string list \<Rightarrow> processor \<Rightarrow> processor option" where
  "amend_fields fold_eq [] p = Some p"
| "amend_fields fold_eq (f # fs) p =
     (case (if strings_EqualFold fold_eq f ''Model'' then (case fs of [] \<Rightarrow> None | x # _ \<Rightarrow> Some (p\<lparr>pc_Model := x\<rparr>)) else Some p) of
        None \<Rightarrow> None
      | Some p \<Rightarrow>
        (case (if pc_Stepping p = [] \<and> strings_EqualFold fold_eq f ''Stepping''
               then (case fs of [] \<Rightarrow> None | x # _ \<Rightarrow> Some (p\<lparr>pc_Stepping := x\<rparr>)) else Some p) of
           None \<Rightarrow> None
         | Some p \<Rightarrow> amend_fields fold_eq fs p))"

definition amendFromCaption :: "(string \<Rightarrow> string \<Rightarrow> bool) \<Rightarrow> unicode_ops \<Rightarrow> processor \<Rightarrow> string \<Rightarrow> processor option" where
  "amendFromCaption fold_eq uc p caption = amend_fields fold_eq (strings_Fields uc caption) p"

definition wmiProcessorToProcessor :: "(string \<Rightarrow> string \<Rightarrow> bool) \<Rightarrow> unicode_ops \<Rightarrow> wmi_processor \<Rightarrow> processor option" where
  "wmiProcessorToProcessor fold_eq uc r =
     amendFromCaption fold_eq uc
       \<lparr>pc_Name = wp_Name r, pc_Manufacturer = wp_Manufacturer r, pc_Speed = Finite (of_int (uint (wp_CurrentClockSpeed r))),
        pc_Cores = wp_NumberOfCores r, pc_Threads = wp_NumberOfLogicalProcessors r, pc_Model = [], pc_Stepping = wp_Stepping r,
        pc_SocketID = wp_DeviceID r\<rparr> (wp_Caption r)"

definition windows_cpu_Provide ::
  "(string \<Rightarrow> string \<Rightarrow> bool) \<Rightarrow> unicode_ops \<Rightarrow> wmi_processor wmi_query \<Rightarrow> (wmi_error, processor list) result option" where
  "windows_cpu_Provide fold_eq uc q =
     (case QueryResult q of
        Inl e \<Rightarrow> Some (Inl e)
      | Inr rs \<Rightarrow>
        (let ps = map (wmiProcessorToProcessor fold_eq uc) (case rs of None \<Rightarrow> [] | Some rs \<Rightarrow> rs) in
         if None \<in> set ps then None else Some (Inr (map the ps))))"

section \<open>Processor statistics\<close>

record times_stat =
  ts_CPU :: string
  ts_User :: float64
  ts_System :: float64
  ts_Idle :: float64

definition windows_times :: "float_ops \<Rightarrow> times_stat \<Rightarrow> cpu_stats \<Rightarrow> cpu_stats" where
  "windows_times fo t c =
     (if ts_CPU t \<noteq> ''cpu-total'' then c
      else
        let us = (\<lambda>v. fo_mul fo v (Finite 1000000));
            detail = (\<lambda>mode v. \<lparr>wd_AttrName = ''mode'', wd_AttrValue = mode, wd_Value = us v\<rparr>);
            c = add_detail ''cpu_time'' (detail ''user'' (ts_User t)) c;
            c = add_detail ''cpu_time'' (detail ''idle'' (ts_Idle t)) c;
            c = add_detail ''cpu_time'' (detail ''system'' (ts_System t)) c
        in add_detail ''cpu_time'' (detail ''total'' (fo_add fo (ts_User t) (ts_System t))) c)"

text \<open>The values that the goroutine of the provider sends; after an error it goes on and sends the empty statistics too.\<close>

definition windows_cpustats_sends :: "float_ops \<Rightarrow> (string, times_stat list) result \<Rightarrow> cpu_stats list" where
  "windows_cpustats_sends fo stats =
     (let empty = \<lparr>cs_WorkDetails = [], cs_Error = None, cs_total = Finite 0, cs_numCPUs = 0\<rparr> in
      case stats of
        Inl e \<Rightarrow> [empty\<lparr>cs_Error := Some (ReadFailed e)\<rparr>, empty]
      | Inr ts \<Rightarrow> [fold (windows_times fo) ts empty])"

section \<open>Containers\<close>

definition control_path :: string where
  "control_path = reg_path [''System'', ''CurrentControlSet'', ''Control'']"

definition windows_ReadContainerInstanceID :: "open_key \<Rightarrow> (string, string) result" where
  "windows_ReadContainerInstanceID opn =
     (case opn LOCAL_MACHINE control_path of
        Inl e \<Rightarrow> Inl e
      | Inr control \<Rightarrow>
        (case rk_GetIntegerValue control ''ContainerType'' of
           Inl _ \<Rightarrow> Inr []
         | Inr _ \<Rightarrow>
           (case opn LOCAL_MACHINE (reg_path [control_path, ''ComputerName'', ''ComputerName'']) of
              Inl e \<Rightarrow> Inl e
            | Inr name \<Rightarrow> rk_GetStringValue name ''ComputerName'')))"

definition windows_IsRunInContainerd :: bool where
  "windows_IsRunInContainerd = False"

section \<open>The model of the machine\<close>

definition only :: "'a wmi_query \<Rightarrow> 'a option" where
  "only q = (case q of Inr (Some [x]) \<Rightarrow> Some x | _ \<Rightarrow> None)"

lemma QuerySingleResult_only: "QuerySingleResult q = (case only q of Some x \<Rightarrow> Inr x | None \<Rightarrow> Inl (projl (QuerySingleResult q)))"
proof (cases "\<exists>x. q = Inr (Some [x])")
  case False
  then have "only q = None" by (auto simp: only_def split: sum.split option.split list.split)
  moreover have "\<exists>e. QuerySingleResult q = Inl e"
  proof (cases q)
    case (Inr r)
    with False show ?thesis
      by (cases r; cases "the r"; cases "tl (the r)") (auto simp: QuerySingleResult_def QueryResult_def)
  qed (simp add: QuerySingleResult_def QueryResult_def)
  ultimately show ?thesis by auto
qed (auto simp: only_def QuerySingleResult_def QueryResult_def)

text \<open>
  Whichever of the two queries answers first, the provider sends one model: the
  manufacturer and name of the only computer system and the serial number of the only BIOS, empty where the query does not give exactly one.
\<close>

theorem model_independent_of_order:
  assumes "es \<in> interleavings (map channel [loadComputerSystem q, loadBios b])"
  shows "windows_model_Provide es =
    Some \<lparr>hm_Manufacturer = (case only q of None \<Rightarrow> [] | Some cs \<Rightarrow> co_Manufacturer cs),
          hm_Name = (case only q of None \<Rightarrow> [] | Some cs \<Rightarrow> co_Model cs),
          hm_SerialNumber = (case only b of None \<Rightarrow> [] | Some s \<Rightarrow> s)\<rparr>"
proof -
  let ?e = "\<lparr>hm_Manufacturer = [], hm_Name = [], hm_SerialNumber = []\<rparr>"
  obtain xs where xs: "mset xs = mset (loadComputerSystem q @ loadBios b)" "windows_model_Provide es = Some (fold model_receive xs ?e)"
    using select_loop_channels [OF assms, of model_receive ?e] by (auto simp: windows_model_Provide_def numeral_2_eq_2)
  have q: "loadComputerSystem q = (case only q of None \<Rightarrow> [] | Some x \<Rightarrow> [ComputerSystem x])"
    unfolding loadComputerSystem_def by (subst QuerySingleResult_only) (simp split: option.split)
  have b: "loadBios b = (case only b of None \<Rightarrow> [] | Some s \<Rightarrow> [Bios s])"
    unfolding loadBios_def by (subst QuerySingleResult_only) (simp split: option.split)
  have "model_receive x \<circ> model_receive y = model_receive y \<circ> model_receive x" if "x \<in> set xs" "y \<in> set xs" for x y
  proof -
    have set: "set xs = set (loadComputerSystem q @ loadBios b)" using xs(1) by (metis set_mset_mset)
    have cs: "only q = Some c" if "ComputerSystem c \<in> set xs" for c using that unfolding set q b by (auto split: option.splits)
    have bs: "only b = Some c" if "Bios c \<in> set xs" for c using that unfolding set q b by (auto split: option.splits)
    have eq: "x = ComputerSystem c \<Longrightarrow> y = ComputerSystem d \<Longrightarrow> c = d" "x = Bios s \<Longrightarrow> y = Bios t \<Longrightarrow> s = t" for c d s t
      using that cs [of c] cs [of d] bs [of s] bs [of t] by auto
    show ?thesis
    proof (cases x)
      case cx: (ComputerSystem c)
      show ?thesis
      proof (cases y)
        case (ComputerSystem d)
        with cx eq(1) show ?thesis by blast
      qed (simp add: cx fun_eq_iff)
    next
      case bx: (Bios s)
      show ?thesis
      proof (cases y)
        case (Bios t)
        with bx eq(2) show ?thesis by blast
      qed (simp add: bx fun_eq_iff)
    qed
  qed
  then have "fold model_receive xs = fold model_receive (loadComputerSystem q @ loadBios b)" using xs(1) by (rule fold_multiset_equiv)
  then show ?thesis unfolding xs(2) q b by (simp split: option.split)
qed

text \<open>The BIOS answers first.\<close>

theorem model_independent_of_order_witness:
  "windows_model_Provide [Some (Bios ''77''), None, Some (ComputerSystem \<lparr>co_Model = ''X1'', co_Manufacturer = ''L''\<rparr>), None] =
     Some \<lparr>hm_Manufacturer = ''L'', hm_Name = ''X1'', hm_SerialNumber = ''77''\<rparr>"
proof -
  let ?q = "Inr (Some [\<lparr>co_Model = ''X1'', co_Manufacturer = ''L''\<rparr>]) :: computer_system wmi_query"
  let ?b = "Inr (Some [''77'']) :: string wmi_query"
  have "[Some (Bios ''77''), None, Some (ComputerSystem \<lparr>co_Model = ''X1'', co_Manufacturer = ''L''\<rparr>), None]
    \<in> interleavings (map channel [loadComputerSystem ?q, loadBios ?b])"
    by (simp add: loadComputerSystem_def loadBios_def QuerySingleResult_def QueryResult_def channel_def)
  from model_independent_of_order [OF this] show ?thesis by (simp add: only_def)
qed

section \<open>Captions of processors\<close>

lemma ascii_fields_nonempty: "f \<in> set (ascii_fields s) \<Longrightarrow> f \<noteq> []"
proof (induction s rule: ascii_fields.induct)
  case (1 s)
  let ?s = "dropWhile is_space s"
  show ?case
  proof (cases "?s = []")
    case False
    then have hd: "\<not> is_space (hd ?s)" by (rule hd_dropWhile)
    with False have "takeWhile (\<lambda>c. \<not> is_space c) ?s \<noteq> []" by (cases ?s) auto
    moreover have "ascii_fields s = takeWhile (\<lambda>c. \<not> is_space c) ?s # ascii_fields (dropWhile (\<lambda>c. \<not> is_space c) ?s)"
      using False by (subst ascii_fields.simps) (simp add: Let_def)
    ultimately show ?thesis using 1 False by auto
  qed (use 1(2) in \<open>simp add: ascii_fields.simps [of s]\<close>)
qed

definition labelled :: "(string \<Rightarrow> string \<Rightarrow> bool) \<Rightarrow> string \<Rightarrow> string \<Rightarrow> bool" where
  "labelled fold_eq l f = strings_EqualFold fold_eq f l"

lemma amend_fields_panics:
  assumes "\<And>f. f \<in> set fs \<Longrightarrow> f \<noteq> []"
  shows "amend_fields fold_eq fs p = None \<longleftrightarrow> fs \<noteq> [] \<and>
    (labelled fold_eq ''Model'' (last fs) \<or>
     labelled fold_eq ''Stepping'' (last fs) \<and> pc_Stepping p = [] \<and> (\<forall>f \<in> set (butlast fs). \<not> labelled fold_eq ''Stepping'' f))"
  using assms
proof (induction fs arbitrary: p)
  case (Cons f fs)
  show ?case
  proof (cases fs)
    case Nil
    then show ?thesis by (auto simp: labelled_def)
  next
    case (Cons x xs)
    let ?p = "if strings_EqualFold fold_eq f ''Model'' then p\<lparr>pc_Model := x\<rparr> else p"
    let ?p' = "if pc_Stepping ?p = [] \<and> strings_EqualFold fold_eq f ''Stepping'' then ?p\<lparr>pc_Stepping := x\<rparr> else ?p"
    have run: "amend_fields fold_eq (f # fs) p = amend_fields fold_eq fs ?p'"
      unfolding Cons by (subst amend_fields.simps(2)) (simp del: amend_fields.simps)
    have "x \<noteq> []" using Cons.prems [of x] by (simp add: Cons)
    then have "pc_Stepping ?p' = [] \<longleftrightarrow> pc_Stepping p = [] \<and> \<not> labelled fold_eq ''Stepping'' f" by (auto simp: labelled_def)
    moreover have "amend_fields fold_eq fs ?p' = None \<longleftrightarrow> fs \<noteq> [] \<and> (labelled fold_eq ''Model'' (last fs) \<or>
      labelled fold_eq ''Stepping'' (last fs) \<and> pc_Stepping ?p' = [] \<and> (\<forall>f \<in> set (butlast fs). \<not> labelled fold_eq ''Stepping'' f))"
      by (rule Cons.IH) (use Cons.prems in simp)
    ultimately show ?thesis unfolding run by (auto simp: Cons)
  qed
qed simp

text \<open>Reading the model and the stepping from the caption of a processor panics exactly when the caption ends with the label \<open>Model\<close>,
  or with the label \<open>Stepping\<close> when neither the query nor an earlier label gave a stepping.
\<close>

theorem caption_panics_iff:
  assumes "is_ascii (wp_Caption r)"
  shows "wmiProcessorToProcessor fold_eq uc r = None \<longleftrightarrow> ascii_fields (wp_Caption r) \<noteq> [] \<and>
    (labelled fold_eq ''Model'' (last (ascii_fields (wp_Caption r))) \<or>
     labelled fold_eq ''Stepping'' (last (ascii_fields (wp_Caption r))) \<and> wp_Stepping r = [] \<and>
       (\<forall>f \<in> set (butlast (ascii_fields (wp_Caption r))). \<not> labelled fold_eq ''Stepping'' f))"
  using amend_fields_panics [of "ascii_fields (wp_Caption r)", OF ascii_fields_nonempty] assms
  by (simp add: wmiProcessorToProcessor_def amendFromCaption_def strings_Fields_def)

theorem caption_panics_iff_witness:
  "wmiProcessorToProcessor (\<lambda>_ _. False) sample_unicode
     \<lparr>wp_Name = ''x'', wp_Manufacturer = ''y'', wp_CurrentClockSpeed = 1, wp_NumberOfCores = 1, wp_NumberOfLogicalProcessors = 1,
      wp_Stepping = [], wp_Caption = ''Family 6 Model'', wp_DeviceID = ''CPU0''\<rparr> = None"
proof -
  let ?r = "\<lparr>wp_Name = ''x'', wp_Manufacturer = ''y'', wp_CurrentClockSpeed = 1, wp_NumberOfCores = 1, wp_NumberOfLogicalProcessors = 1,
      wp_Stepping = [], wp_Caption = ''Family 6 Model'', wp_DeviceID = ''CPU0''\<rparr>"
  have a: "is_ascii (wp_Caption ?r)" by code_simp
  have f: "ascii_fields (wp_Caption ?r) = [''Family'', ''6'', ''Model'']" by code_simp
  have l: "labelled (\<lambda>_ _. False) ''Model'' ''Model''" by code_simp
  show ?thesis unfolding caption_panics_iff [OF a] f using l by simp
qed

section \<open>Firewall profiles\<close>

definition firewall_value :: "open_key \<Rightarrow> string \<Rightarrow> (string, u64) result" where
  "firewall_value opn pk =
     GetKeyUIntValue opn LocalMachineKey (reg_path [''SYSTEM'', ''CurrentControlSet'', ''services'', ''SharedAccess'', ''Parameters'', ''FirewallPolicy''])
       pk ''EnableFirewall''"

lemma getProfile_cases:
  "getProfile opn (pk, pt) = (case firewall_value opn pk of Inr v \<Rightarrow> Inr \<lparr>fp_Name = pt, fp_Enabled = sint v\<rparr> | Inl e \<Rightarrow> Inl (pk, e))"
  by (simp add: getProfile_def firewall_value_def split: sum.split)

lemma concat_map_mset_cong: "mset xs = mset ys \<Longrightarrow> mset (concat (map f xs)) = mset (concat (map f ys))"
  by (simp add: mset_concat_map_sum)

lemma fold_Cons_Nil: "fold (#) xs ys = [] \<longleftrightarrow> xs = [] \<and> ys = []"
  by (induction xs arbitrary: ys) auto

lemma firewall_points_values:
  "map (\<lambda>d. (dp_attrs d, dp_value d)) (map (\<lambda>(i, fp). firewall_point start (now i) fp) (enumerate n ps)) =
    map (\<lambda>fp. ([(''firewall.profile.name'', VStr (fp_Name fp))], VInt (fp_Enabled fp))) ps"
  by (induction ps arbitrary: n) (simp_all add: firewall_point_def)

text \<open>C40: In whichever order the goroutines of the profiles finish, the emitter on Windows reports exactly one point per firewall profile with its
  name and the value of the registry, or fails when a value cannot be read.
\<close>

theorem firewall_profiles_reported:
  assumes "valid_arrivals arr" and r_def: "r = firewall_Emit ''windows'' start now (windows_firewall_Provide message opn arr)"
  shows "if \<exists>pk \<in> fst ` set getFirewallProfilesMapping. \<exists>e. firewall_value opn pk = Inl e then \<exists>e. r = Inl e
    else \<exists>desc dps. r = Inr [host_metric ''swo.hostinfo.firewall'' desc ''{status}'' (MGauge dps)] \<and>
      mset (map (\<lambda>d. (dp_attrs d, dp_value d)) dps) =
      mset (map (\<lambda>(pk, pt). ([(''firewall.profile.name'', VStr pt)], VInt (sint (projr (firewall_value opn pk))))) getFirewallProfilesMapping)"
proof -
  let ?rs = "map (getProfile opn) getFirewallProfilesMapping"
  define errs where "errs = concat (map (\<lambda>r. case r of Inl e \<Rightarrow> [e] | Inr _ \<Rightarrow> []) (arrival arr ?rs))"
  define ps where "ps = concat (map (\<lambda>r. case r of Inl _ \<Rightarrow> [] | Inr p \<Rightarrow> [p]) (arrival arr ?rs))"
  have perm: "mset (arrival arr ?rs) = mset ?rs" using assms(1) by simp
  have no_errs: "errs = [] \<longleftrightarrow> \<not> (\<exists>pk \<in> fst ` set getFirewallProfilesMapping. \<exists>e. firewall_value opn pk = Inl e)"
  proof -
    have "set (arrival arr ?rs) = set ?rs" using perm by (rule mset_eq_setD)
    then have "errs = [] \<longleftrightarrow> (\<forall>r \<in> set ?rs. \<forall>e. r \<noteq> Inl e)" unfolding errs_def by (auto split: sum.splits)
    also have "\<dots> \<longleftrightarrow> (\<forall>(pk, pt) \<in> set getFirewallProfilesMapping. \<forall>e. firewall_value opn pk \<noteq> Inl e)"
      by (auto simp: getProfile_cases split: sum.splits)
    finally show ?thesis by force
  qed
  have provide: "windows_firewall_Provide message opn arr = (if errs = [] then Inr ps else Inl (message (fold (#) errs [])))"
    by (simp add: windows_firewall_Provide_def getFirewallProfiles_def processFirewallProfilesChannels_def Let_def fold_Cons_Nil errs_def ps_def)
  show ?thesis
  proof (cases "errs = []")
    case False
    then show ?thesis unfolding r_def provide using no_errs by (auto simp: firewall_Emit_def)
  next
    case True
    let ?v = "\<lambda>(pk, pt). \<lparr>fp_Name = pt, fp_Enabled = sint (projr (firewall_value opn pk))\<rparr>"
    have ok: "\<exists>v. firewall_value opn pk = Inr v" if "(pk, pt) \<in> set getFirewallProfilesMapping" for pk pt
      using True no_errs that by (cases "firewall_value opn pk") force+
    have "concat (map (\<lambda>r. case r of Inl _ \<Rightarrow> [] | Inr p \<Rightarrow> [p]) ?rs) = concat (map (\<lambda>x. [?v x]) getFirewallProfilesMapping)"
      unfolding map_map by (rule arg_cong [where f = concat], rule map_cong [OF refl]) (use ok in \<open>force simp: getProfile_cases\<close>)
    then have mset_ps: "mset ps = mset (map ?v getFirewallProfilesMapping)"
      using concat_map_mset_cong [OF perm, of "\<lambda>r. case r of Inl _ \<Rightarrow> [] | Inr p \<Rightarrow> [p]"] by (simp only: concat_map_singleton ps_def)
    have named: "filter (\<lambda>fp. fp_Name fp \<noteq> []) ps = ps"
    proof -
      have "set ps = set (map ?v getFirewallProfilesMapping)" using mset_ps by (rule mset_eq_setD)
      then show ?thesis by (auto simp: filter_id_conv getFirewallProfilesMapping_def)
    qed
    have "length ps = length (map ?v getFirewallProfilesMapping)" using mset_ps by (rule mset_eq_length)
    then have ne: "ps \<noteq> []" by (auto simp: getFirewallProfilesMapping_def)
    let ?dps = "map (\<lambda>(i, fp). firewall_point start (now i) fp) (enumerate 0 ps)"
    have "mset (map (\<lambda>d. (dp_attrs d, dp_value d)) ?dps) =
        mset (map (\<lambda>fp. ([(''firewall.profile.name'', VStr (fp_Name fp))], VInt (fp_Enabled fp))) (map ?v getFirewallProfilesMapping))"
      unfolding firewall_points_values using mset_ps by (metis mset_map)
    also have "map (\<lambda>fp. ([(''firewall.profile.name'', VStr (fp_Name fp))], VInt (fp_Enabled fp))) (map ?v getFirewallProfilesMapping) =
        map (\<lambda>(pk, pt). ([(''firewall.profile.name'', VStr pt)], VInt (sint (projr (firewall_value opn pk))))) getFirewallProfilesMapping"
      by (simp add: case_prod_beta)
    finally have vals: "mset (map (\<lambda>d. (dp_attrs d, dp_value d)) ?dps) =
        mset (map (\<lambda>(pk, pt). ([(''firewall.profile.name'', VStr pt)], VInt (sint (projr (firewall_value opn pk))))) getFirewallProfilesMapping)" .
    have "r = Inr [host_metric ''swo.hostinfo.firewall''
        ''Windows firewall profile statuses. Value 1 means profile is enabled, value 0 means profile is disabled.'' ''{status}'' (MGauge ?dps)]"
      unfolding r_def provide using True ne named by (simp add: firewall_Emit_def firewall_constructMetric_def)
    with vals have "\<exists>desc dps. r = Inr [host_metric ''swo.hostinfo.firewall'' desc ''{status}'' (MGauge dps)] \<and>
      mset (map (\<lambda>d. (dp_attrs d, dp_value d)) dps) =
      mset (map (\<lambda>(pk, pt). ([(''firewall.profile.name'', VStr pt)], VInt (sint (projr (firewall_value opn pk))))) getFirewallProfilesMapping)"
      by blast
    with True no_errs show ?thesis by (simp only: if_False)
  qed
qed

text \<open>A registry in which every value is one; the last profile is read first.\<close>

definition sample_registry :: open_key where
  "sample_registry hv path = Inr \<lparr>rk_ReadSubKeyNames = Inr [], rk_GetStringValue = (\<lambda>n. Inr n), rk_GetIntegerValue = (\<lambda>n. Inr 1)\<rparr>"

lemma rev_arrivals: "valid_arrivals (\<lambda>n. rev [0..<n])"
  by (simp add: valid_arrivals_def)

theorem firewall_profiles_reported_witness:
  "\<exists>desc dps. firewall_Emit ''windows'' 0 int (windows_firewall_Provide (\<lambda>_. []) sample_registry (\<lambda>n. rev [0..<n])) =
     Inr [host_metric ''swo.hostinfo.firewall'' desc ''{status}'' (MGauge dps)] \<and> size dps = 3"
proof -
  have v: "firewall_value sample_registry pk = Inr 1" for pk
    by (simp add: firewall_value_def GetKeyUIntValue_def NewReader_def reg_path_def mapRootKey_def LocalMachineKey_def reader_GetKeyUIntValue_def
        openKey_def sample_registry_def)
  from firewall_profiles_reported [OF rev_arrivals refl, where start = 0 and now = int and message = "\<lambda>_. []" and opn = sample_registry] obtain desc dps where
    r: "firewall_Emit ''windows'' 0 int (windows_firewall_Provide (\<lambda>_. []) sample_registry (\<lambda>n. rev [0..<n])) =
     Inr [host_metric ''swo.hostinfo.firewall'' desc ''{status}'' (MGauge dps)]"
    and dps: "mset (map (\<lambda>d. (dp_attrs d, dp_value d)) dps) =
      mset (map (\<lambda>(pk, pt). ([(''firewall.profile.name'', VStr pt)], VInt (sint (projr (firewall_value sample_registry pk))))) getFirewallProfilesMapping)"
    by (auto simp: v)
  from arg_cong [OF dps, of size] have "length dps = 3" by (simp add: getFirewallProfilesMapping_def)
  with r show ?thesis by auto
qed

text \<open>When the times cannot be read the provider sends twice, but its emitter receives once: the goroutine blocks on the second send.\<close>

theorem cpustats_error_sends_twice: "map (\<lambda>c. cs_Error c) (windows_cpustats_sends fo (Inl e)) = [Some (ReadFailed e), None]"
  by (simp add: windows_cpustats_sends_def Let_def)

end
