(* ===== verification/Host_Platforms.thy ===== *)
theory Host_Platforms
  imports Host_Emitters
begin

text \<open>
  The parts of the host metrics receiver that differ between systems only by what is behind them: the command line executors
  (\<open>internal/cli\<close>), the goroutines of the providers and attribute generators that send one value or what they receive, and the
  providers on Darwin (\<open>internal/providers/*/provider_darwin.go\<close>), with what the emitters report there.
\<close>

section \<open>Command line executors\<close>

text \<open>\<open>run\<close> runs a program with arguments; \<open>report\<close> makes the error of a failed command from its text and the error.\<close>

definition executeCommand :: "(string \<Rightarrow> string list \<Rightarrow> command_result) \<Rightarrow> string \<Rightarrow> string list \<Rightarrow> command_result" where
  "executeCommand run command args = run command args"

definition bash_ExecuteCommand ::
  "(string \<Rightarrow> string list \<Rightarrow> command_result) \<Rightarrow> (string \<Rightarrow> string list \<Rightarrow> string \<Rightarrow> string) \<Rightarrow> string list \<Rightarrow> command_result" where
  "bash_ExecuteCommand run report command =
     (let internalCommands = [''-c''] @ command;
          (stdOut, stdErr, err) = executeCommand run ''bash'' internalCommands in
      case err of Some e \<Rightarrow> ([], [], Some (report ''Bash command'' command e)) | None \<Rightarrow> (stdOut, stdErr, None))"

definition powershell_ExecuteCommand ::
  "(string \<Rightarrow> string list \<Rightarrow> command_result) \<Rightarrow> (string \<Rightarrow> string list \<Rightarrow> string \<Rightarrow> string) \<Rightarrow> string list \<Rightarrow> command_result" where
  "powershell_ExecuteCommand run report command =
     (let (stdOut, stdErr, err) = executeCommand run ''powershell'' command in
      case err of Some e \<Rightarrow> ([], [], Some (report ''Powershell command'' command e)) | None \<Rightarrow> (stdOut, stdErr, None))"

text \<open>The output of a command is used exactly when it ended without an error and wrote nothing to its standard error; bash
  gets the command as one argument.\<close>

theorem command_output_used:
  "(ProcessCommand (\<lambda>c. bash_ExecuteCommand run report [c]) command = Inr out \<longleftrightarrow> run ''bash'' [''-c'', command] = (out, [], None)) \<and>
   (ProcessCommand (\<lambda>c. powershell_ExecuteCommand run report [c]) command = Inr out \<longleftrightarrow> run ''powershell'' [command] = (out, [], None))"
  by (auto simp: ProcessCommand_def bash_ExecuteCommand_def powershell_ExecuteCommand_def executeCommand_def split: option.splits prod.splits)

section \<open>Goroutines of providers and generators\<close>

text \<open>The values that a goroutine sends before it closes its channel.\<close>

definition getUptimeInternal :: "u64 \<times> string option \<Rightarrow> uptime_value list" where
  "getUptimeInternal = (\<lambda>(uptime, err). [(uptime, err)])"

definition provideInternal :: "int \<times> string option \<Rightarrow> (int \<times> string option) list" where
  "provideInternal = (\<lambda>(count, err). [(count, err)])"

text \<open>The generators of attributes send what the values of their provider give, in order.\<close>

definition domain_generateInternal :: "host_domain list \<Rightarrow> attributes list" where
  "domain_generateInternal pCh = map processDomainAttributes pCh"

definition model_generateInternal :: "host_model list \<Rightarrow> attributes list" where
  "model_generateInternal pCh = map processModelAttributes pCh"

definition timezone_generateInternal :: "time_zone list \<Rightarrow> attributes list" where
  "timezone_generateInternal pCh = map processTimeZoneAttributes pCh"

definition infostat_generateInternal :: "info_stat list \<Rightarrow> attributes list" where
  "infostat_generateInternal pCh = map processInfoStatAttributes pCh"

definition language_generateInternal :: "host_language list \<Rightarrow> attributes list" where
  "language_generateInternal pCh = map processLanguageAttributes pCh"

text \<open>The composed generators read the channels of these goroutines.\<close>

lemma channels_generated:
  "hostdetails_channels ds ms ts = [domain_generateInternal ds, model_generateInternal ms, timezone_generateInternal ts]"
  "osdetails_channels is ls = [infostat_generateInternal is, language_generateInternal ls]"
  by (simp_all add: hostdetails_channels_def osdetails_channels_def domain_generateInternal_def model_generateInternal_def
      timezone_generateInternal_def infostat_generateInternal_def language_generateInternal_def)

text \<open>A reception from a channel: its next value, the zero value when it is closed.\<close>

definition receive :: "'a \<Rightarrow> 'a list \<Rightarrow> 'a" where
  "receive zero ch = (case ch of [] \<Rightarrow> zero | v # _ \<Rightarrow> v)"

section \<open>Providers on Darwin\<close>

definition darwin_domain_Provide :: "host_domain list" where "darwin_domain_Provide = []"

definition darwin_model_Provide :: "host_model list" where "darwin_model_Provide = []"

definition darwin_timezone_Provide :: "time_zone list" where "darwin_timezone_Provide = []"

definition darwin_language_Provide :: "host_language list" where "darwin_language_Provide = []"

definition darwin_cpu_Provide :: "(string, processor list) result list" where "darwin_cpu_Provide = []"

definition darwin_cpustats_Provide :: "cpu_stats list" where "darwin_cpustats_Provide = []"

definition darwin_users_Provide :: "(string, logged_user list) result list" where "darwin_users_Provide = []"

definition darwin_firewall_Provide :: "(string, firewall_profile list) result list" where "darwin_firewall_Provide = []"

definition darwin_GetSoftware :: "(string, installed_software list) result" where "darwin_GetSoftware = Inr []"

definition noUpdates_GetUpdates :: "(string, installed_update list) result" where "noUpdates_GetUpdates = Inr []"

lemmas darwin_defs = darwin_domain_Provide_def darwin_model_Provide_def darwin_timezone_Provide_def darwin_language_Provide_def darwin_cpu_Provide_def
  darwin_cpustats_Provide_def darwin_users_Provide_def darwin_firewall_Provide_def darwin_GetSoftware_def noUpdates_GetUpdates_def

lemma loop_of_one_value:
  assumes "es \<in> interleavings (map channel cs)" "concat cs = [v]"
  shows "select_loop f es (length cs) s = Some (f v s)"
  using select_loop_channels [OF assms(1), of f s] assms(2) by auto

lemma loop_of_no_value:
  assumes "es \<in> interleavings (map channel cs)" "concat cs = []"
  shows "select_loop f es (length cs) s = Some s"
  using select_loop_channels [OF assms(1), of f s] assms(2) by auto

text \<open>
  What is reported on Darwin.  However the goroutines are interleaved, the generators of attributes end; there are no attributes of the host and those
  of the operating system are the ones of the host library.  The emitters of users, processors, processor statistics, the firewall, installed
  software and updates report nothing, without an error, and the uptime and the process count are still received.
\<close>

theorem darwin_reports:
  assumes "es \<in> interleavings (map channel (hostdetails_channels darwin_domain_Provide darwin_model_Provide darwin_timezone_Provide))"
    and "es' \<in> interleavings (map channel (osdetails_channels (infostat_Provide info) darwin_language_Provide))"
  shows "details_generate es 3 = Some [] \<and>
    details_generate es' 2 = Some (case info of Inl _ \<Rightarrow> [] | Inr i \<Rightarrow> mergeAttributes (processInfoStatAttributes i) []) \<and>
    lastlogged_Emit ord now (receive (Inr []) darwin_users_Provide) = Inr [] \<and>
    cpu_Emit ord to_int64 now (receive (Inr []) darwin_cpu_Provide) = Inr [] \<and>
    cpustats_Emit name t (receive zero_stats darwin_cpustats_Provide) = Inr [] \<and>
    firewall_Emit ''darwin'' start now (receive (Inr []) darwin_firewall_Provide) = Inr [] \<and>
    software_Emit ord start now darwin_GetSoftware = Inr [] \<and> updates_Emit ord start now noUpdates_GetUpdates = Inr [] \<and>
    receive z (getUptimeInternal u) = u \<and> receive z' (provideInternal c) = c"
proof -
  have "details_generate es 3 = Some []"
    using loop_of_no_value [OF assms(1), of mergeAttributes "[]"] by (simp add: details_generate_def hostdetails_channels_def darwin_defs numeral_3_eq_3)
  moreover have "details_generate es' 2 = Some (case info of Inl _ \<Rightarrow> [] | Inr i \<Rightarrow> mergeAttributes (processInfoStatAttributes i) [])"
  proof (cases info)
    case (Inl e)
    then show ?thesis using loop_of_no_value [OF assms(2), of mergeAttributes "[]"]
      by (simp add: details_generate_def osdetails_channels_def infostat_Provide_def darwin_defs numeral_2_eq_2)
  next
    case (Inr i)
    then show ?thesis using loop_of_one_value [OF assms(2), of "processInfoStatAttributes i" mergeAttributes "[]"]
      by (simp add: details_generate_def osdetails_channels_def infostat_Provide_def darwin_defs numeral_2_eq_2)
  qed
  ultimately show ?thesis
    by (cases u) (simp add: receive_def darwin_defs lastlogged_Emit_def lastlogged_constructMetricSlice_def cpu_Emit_def cpu_constructMetricSlice_def
        cpustats_Emit_def zero_stats_def cpustats_constructMetricSlice_def firewall_Emit_def software_Emit_def software_populateMetric_def
        updates_Emit_def updates_populateMetric_def getUptimeInternal_def provideInternal_def Let_def split: prod.split)
qed

end
