(* ===== verification/K8s_Clients.thy ===== *)
theory K8s_Clients
  imports Workload_Status K8s_Objects
begin

text \<open>
  The clients of the Kubernetes API (\<open>internal/k8sconfig/config.go\<close>) and the start and shutdown of the
  components that are built on them: the workload status processor (\<open>processor.go\<close>) and the objects receiver
  (\<open>receiver.go\<close>).  The environment, the loading of a kubeconfig, the configuration of a pod in a cluster, the
  client constructors of client-go, informers and storage are arguments.
\<close>

section \<open>Configuration\<close>

record api_config =
  ac_AuthType :: string
  ac_Context :: string

definition authTypes :: "string list" where
  "authTypes = [''none'', ''serviceAccount'', ''kubeConfig'', ''tls'']"

text \<open>\<open>NilConfig\<close> is the panic of writing a field of a nil configuration.\<close>

datatype client_error =
    InvalidAuthType string
  | NoServiceEnvironment
  | KubeConfigFailed string
  | InClusterFailed string
  | ClientFailed string
  | NilConfig
  | StorageFailed string
  | CacheSyncFailed string

definition api_Validate :: "api_config \<Rightarrow> client_error option" where
  "api_Validate c = (if ac_AuthType c \<notin> set authTypes then Some (InvalidAuthType (ac_AuthType c)) else None)"

text \<open>The fields of \<open>rest.Config\<close> that the code writes; \<open>rc_NoProxy\<close> is the transport wrapper that removes the proxy.\<close>

record rest_config =
  rc_Host :: string
  rc_Insecure :: bool
  rc_NoProxy :: bool

record client_env =
  ce_Getenv :: "string \<Rightarrow> string"
  ce_KubeConfig :: "string option \<Rightarrow> (string, rest_config) result"
  ce_InCluster :: "(string, rest_config) result"

definition CreateRestConfig :: "client_env \<Rightarrow> api_config \<Rightarrow> (client_error, rest_config) result" where
  "CreateRestConfig env apiConf =
     (let authType = ac_AuthType apiConf;
          host = ce_Getenv env ''KUBERNETES_SERVICE_HOST'';
          port = ce_Getenv env ''KUBERNETES_SERVICE_PORT'' in
      if authType \<noteq> ''kubeConfig'' \<and> (length host = 0 \<or> length port = 0) then Inl NoServiceEnvironment
      else
        let k8sHost = (if authType \<noteq> ''kubeConfig'' then ''https://'' @ net_JoinHostPort host port else []);
            authConf =
              (if authType = ''kubeConfig''
               then map_sum KubeConfigFailed Some (ce_KubeConfig env (if ac_Context apiConf \<noteq> [] then Some (ac_Context apiConf) else None))
               else if authType = ''none'' then Inr (Some \<lparr>rc_Host = k8sHost, rc_Insecure = True, rc_NoProxy = False\<rparr>)
               else if authType = ''serviceAccount'' then map_sum InClusterFailed Some (ce_InCluster env)
               else Inr None)
        in case authConf of
             Inl e \<Rightarrow> Inl e
           | Inr None \<Rightarrow> Inl NilConfig
           | Inr (Some c) \<Rightarrow> Inr (c\<lparr>rc_NoProxy := True\<rparr>))"

text \<open>The three constructors differ in the client that they make of the configuration.\<close>

definition make_client :: "client_env \<Rightarrow> (rest_config \<Rightarrow> (string, 'c) result) \<Rightarrow> api_config \<Rightarrow> (client_error, 'c) result" where
  "make_client env newForConfig apiConf =
     (case api_Validate apiConf of
        Some e \<Rightarrow> Inl e
      | None \<Rightarrow>
        (case CreateRestConfig env apiConf of
           Inl e \<Rightarrow> Inl e
         | Inr authConf \<Rightarrow> map_sum ClientFailed id (newForConfig authConf)))"

definition MakeClient where "MakeClient env (newForConfig :: rest_config \<Rightarrow> (string, 'k8s) result) = make_client env newForConfig"
definition MakeDynamicClient where "MakeDynamicClient env (newForConfig :: rest_config \<Rightarrow> (string, 'dynamic) result) = make_client env newForConfig"
definition MakeOpenShiftQuotaClient where
  "MakeOpenShiftQuotaClient env (newForConfig :: rest_config \<Rightarrow> (string, 'quota) result) = make_client env newForConfig"

text \<open>The options with which the informer of a node lists and watches: \<open>selector\<close> prints the equality of a field.\<close>

record list_options =
  lo_FieldSelector :: string

definition node_options :: "(string \<Rightarrow> string \<Rightarrow> string) \<Rightarrow> string \<Rightarrow> list_options \<Rightarrow> list_options" where
  "node_options selector nodeName opts =
     (if nodeName \<noteq> [] then opts\<lparr>lo_FieldSelector := selector ''metadata.name'' nodeName\<rparr> else opts)"

section \<open>The workload status processor\<close>

text \<open>
  The processor before and after it is started: whether it has a cancel function and a factory, whether the context is
  cancelled and the factory shut down, and its informer.
\<close>

record 'i status_lifecycle =
  sl_cancel :: bool
  sl_cancelled :: bool
  sl_factory :: bool
  sl_factoryStopped :: bool
  sl_podInformer :: "'i option"

definition status_new :: "'i status_lifecycle" where
  "status_new = \<lparr>sl_cancel = False, sl_cancelled = False, sl_factory = False, sl_factoryStopped = False, sl_podInformer = None\<rparr>"

text \<open>
  \<open>informer\<close> gives the informer of pods of a client for a transform and an indexer; \<open>sync\<close> is what waiting for the caches returns,
  ranged over in the order \<open>ord\<close>.
\<close>

definition status_Start ::
  "(client_error, 'c) result \<Rightarrow> ('c \<Rightarrow> (cached_object \<Rightarrow> cached_object) \<Rightarrow> (cached_object \<Rightarrow> string list) \<Rightarrow> 'i)
   \<Rightarrow> ((string \<times> bool) list \<Rightarrow> (string \<times> bool) list) \<Rightarrow> (string, bool) gomap
   \<Rightarrow> 'i status_lifecycle \<Rightarrow> client_error option \<times> 'i status_lifecycle" where
  "status_Start getK8sClient informer ord sync p =
     (let p = p\<lparr>sl_cancel := True\<rparr> in
      case getK8sClient of
        Inl e \<Rightarrow> (Some e, p)
      | Inr client \<Rightarrow>
        (let p = p\<lparr>sl_factory := True, sl_podInformer := Some (informer client statusPodTransform workloadOwnerIndexer)\<rparr> in
         case find (\<lambda>(_, ok). \<not> ok) (ord sync) of
           Some (v, _) \<Rightarrow> (Some (CacheSyncFailed v), p)
         | None \<Rightarrow> (None, p)))"

definition status_Shutdown :: "'i status_lifecycle \<Rightarrow> 'i status_lifecycle" where
  "status_Shutdown p =
     (let p = (if sl_cancel p then p\<lparr>sl_cancelled := True\<rparr> else p) in
      if sl_factory p then p\<lparr>sl_factoryStopped := True\<rparr> else p)"

section \<open>The objects receiver\<close>

text \<open>The functions of the configuration that make the clients; tests set the first argument.\<close>

definition getDiscoveryClient ::
  "(client_error, 'd) result option \<Rightarrow> client_env \<Rightarrow> (rest_config \<Rightarrow> (string, 'k8s) result) \<Rightarrow> ('k8s \<Rightarrow> 'd) \<Rightarrow> api_config \<Rightarrow> (client_error, 'd) result" where
  "getDiscoveryClient makeDiscoveryClient env new discovery cfg =
     (case makeDiscoveryClient of
        Some r \<Rightarrow> r
      | None \<Rightarrow> (case MakeClient env new cfg of Inl err \<Rightarrow> Inl err | Inr client \<Rightarrow> Inr (discovery client)))"

definition getDynamicClient ::
  "(client_error, 'dynamic) result option \<Rightarrow> client_env \<Rightarrow> (rest_config \<Rightarrow> (string, 'dynamic) result) \<Rightarrow> api_config \<Rightarrow> (client_error, 'dynamic) result" where
  "getDynamicClient makeDynamicClient env new cfg = (case makeDynamicClient of Some r \<Rightarrow> r | None \<Rightarrow> MakeDynamicClient env new cfg)"

text \<open>What the receiver keeps of a client, a storage, the goroutines that it has started and their stop channels (whether closed).\<close>

record ('c, 's) objects_receiver =
  ob_objects :: "object_config list"
  ob_storageID :: "string option"
  ob_client :: "'c option"
  ob_cancel :: bool
  ob_cancelled :: bool
  ob_storage :: "'s option"
  ob_running :: "(object_config \<times> string \<times> string option) list"
  ob_stoppers :: "bool list"

definition objects_Start ::
  "(client_error, 'c) result \<Rightarrow> (string \<Rightarrow> (string, 's) result) \<Rightarrow> ('c, 's) objects_receiver \<Rightarrow> client_error option \<times> ('c, 's) objects_receiver" where
  "objects_Start dynamicClient getStorageClient kr =
     (case dynamicClient of
        Inl e \<Rightarrow> (Some e, kr)
      | Inr client \<Rightarrow>
        (let kr = kr\<lparr>ob_client := Some client, ob_cancel := True\<rparr>;
             storage = (case ob_storageID kr of None \<Rightarrow> Inr None | Some i \<Rightarrow> map_sum StorageFailed Some (getStorageClient i)) in
         case storage of
           Inl e \<Rightarrow> (Some e, kr\<lparr>ob_storage := None\<rparr>)
         | Inr st \<Rightarrow>
           (let kr = (if ob_storageID kr = None then kr else kr\<lparr>ob_storage := st\<rparr>) in
            (None, fold (\<lambda>object kr. kr\<lparr>ob_running := ob_running kr @ map (Pair object) (spawned object)\<rparr>) (ob_objects kr) kr))))"

text \<open>A started goroutine registers its stop channel first.  \<open>Shutdown\<close> closes the registered ones; \<open>None\<close> is the panic of closing one twice.\<close>

definition register_stopper :: "('c, 's) objects_receiver \<Rightarrow> ('c, 's) objects_receiver" where
  "register_stopper kr = kr\<lparr>ob_stoppers := ob_stoppers kr @ [False]\<rparr>"

definition objects_Shutdown :: "('c, 's) objects_receiver \<Rightarrow> ('c, 's) objects_receiver option" where
  "objects_Shutdown kr =
     (case closeStoppers (ob_stoppers kr) of
        None \<Rightarrow> None
      | Some stoppers \<Rightarrow> Some (kr\<lparr>ob_cancelled := (ob_cancelled kr \<or> ob_cancel kr), ob_stoppers := stoppers, ob_storage := None\<rparr>))"

section \<open>Outcomes of creating a client\<close>

lemma JoinHostPort_roundtrip:
  assumes "set host \<inter> set ''[]'' = {}" "set port \<inter> set '':[]'' = {}"
  shows "net_SplitHostPort (net_JoinHostPort host port) = Some (host, port)"
proof (cases "CHR '':'' \<in> set host")
  case True
  then show ?thesis using SplitHostPort_brackets [OF assms] by (simp add: net_JoinHostPort_def)
next
  case False
  with assms have "set host \<inter> set '':[]'' = {}" by auto
  with False show ?thesis using SplitHostPort_plain [OF _ assms(2), of host] by (simp add: net_JoinHostPort_def)
qed

lemma CreateRestConfig_nil:
  "CreateRestConfig env c = Inl NilConfig \<longleftrightarrow> ac_AuthType c \<notin> {''none'', ''serviceAccount'', ''kubeConfig''} \<and>
     ce_Getenv env ''KUBERNETES_SERVICE_HOST'' \<noteq> [] \<and> ce_Getenv env ''KUBERNETES_SERVICE_PORT'' \<noteq> []"
proof -
  have no: "map_sum KubeConfigFailed Some x \<noteq> Inl NilConfig" "map_sum InClusterFailed Some x \<noteq> Inl NilConfig"
    "map_sum KubeConfigFailed Some x \<noteq> Inr None" "map_sum InClusterFailed Some x \<noteq> Inr None" for x :: "(string, rest_config) result"
    by (cases x; simp)+
  show ?thesis using no by (auto simp: CreateRestConfig_def Let_def split: sum.splits option.splits)
qed

lemma CreateRestConfig_Inr:
  assumes "CreateRestConfig env c = Inr rc"
  shows "rc_NoProxy rc" "ac_AuthType c \<in> {''none'', ''serviceAccount'', ''kubeConfig''}"
    "ac_AuthType c = ''none'' \<Longrightarrow> rc_Insecure rc \<and>
       rc_Host rc = ''https://'' @ net_JoinHostPort (ce_Getenv env ''KUBERNETES_SERVICE_HOST'') (ce_Getenv env ''KUBERNETES_SERVICE_PORT'')"
  using assms by (auto simp: CreateRestConfig_def Let_def split: sum.splits option.splits if_splits)

lemma make_client_cases:
  "make_client env new c = Inl NilConfig \<longleftrightarrow> api_Validate c = None \<and> CreateRestConfig env c = Inl NilConfig"
  "make_client env new c = Inr client \<longleftrightarrow> api_Validate c = None \<and> (\<exists>rc. CreateRestConfig env c = Inr rc \<and> new rc = Inr client)"
proof -
  have n: "map_sum ClientFailed id x \<noteq> Inl NilConfig" "map_sum ClientFailed id x = Inr y \<longleftrightarrow> x = Inr y" for x :: "(string, 'a) result" and y
    by (cases x; simp)+
  have v: "api_Validate c \<noteq> Some NilConfig" by (simp add: api_Validate_def)
  show "make_client env new c = Inl NilConfig \<longleftrightarrow> api_Validate c = None \<and> CreateRestConfig env c = Inl NilConfig"
    using v n(1) by (auto simp: make_client_def split: option.splits sum.splits)
  show "make_client env new c = Inr client \<longleftrightarrow> api_Validate c = None \<and> (\<exists>rc. CreateRestConfig env c = Inr rc \<and> new rc = Inr client)"
    using n(2) by (auto simp: make_client_def split: option.splits sum.splits)
qed

text \<open>C39: Creating a client from a configuration: an unknown authentication type is rejected, and of the accepted ones \<open>tls\<close> has no case of its own, so
  that it panics whenever the environment names the API server; without authentication the client is made for exactly the host and the port of the environment; and every
  client is made from a configuration without proxy.
\<close>

theorem client_creation_outcomes:
  assumes "set (ce_Getenv env ''KUBERNETES_SERVICE_HOST'') \<inter> set ''[]'' = {}" "set (ce_Getenv env ''KUBERNETES_SERVICE_PORT'') \<inter> set '':[]'' = {}"
  shows "(MakeClient env new c = Inl NilConfig \<longleftrightarrow> ac_AuthType c = ''tls'' \<and>
      ce_Getenv env ''KUBERNETES_SERVICE_HOST'' \<noteq> [] \<and> ce_Getenv env ''KUBERNETES_SERVICE_PORT'' \<noteq> []) \<and>
    (MakeClient env new c = Inr client \<longrightarrow>
      (\<exists>rc. new rc = Inr client \<and> rc_NoProxy rc \<and> ac_AuthType c \<in> {''none'', ''serviceAccount'', ''kubeConfig''} \<and>
         (ac_AuthType c = ''none'' \<longrightarrow> rc_Insecure rc \<and> strings_HasPrefix (rc_Host rc) ''https://'' \<and>
            net_SplitHostPort (strings_TrimPrefix (rc_Host rc) ''https://'') =
              Some (ce_Getenv env ''KUBERNETES_SERVICE_HOST'', ce_Getenv env ''KUBERNETES_SERVICE_PORT''))))"
proof -
  note split = JoinHostPort_roundtrip [OF assms]
  have "MakeClient env new c = Inl NilConfig \<longleftrightarrow> ac_AuthType c = ''tls'' \<and>
      ce_Getenv env ''KUBERNETES_SERVICE_HOST'' \<noteq> [] \<and> ce_Getenv env ''KUBERNETES_SERVICE_PORT'' \<noteq> []"
    unfolding MakeClient_def make_client_cases CreateRestConfig_nil by (auto simp: api_Validate_def authTypes_def)
  moreover have "\<exists>rc. new rc = Inr client \<and> rc_NoProxy rc \<and> ac_AuthType c \<in> {''none'', ''serviceAccount'', ''kubeConfig''} \<and>
         (ac_AuthType c = ''none'' \<longrightarrow> rc_Insecure rc \<and> strings_HasPrefix (rc_Host rc) ''https://'' \<and>
            net_SplitHostPort (strings_TrimPrefix (rc_Host rc) ''https://'') =
              Some (ce_Getenv env ''KUBERNETES_SERVICE_HOST'', ce_Getenv env ''KUBERNETES_SERVICE_PORT''))"
    if client: "MakeClient env new c = Inr client"
  proof -
    from client obtain rc where rc: "CreateRestConfig env c = Inr rc" "new rc = Inr client"
      unfolding MakeClient_def make_client_cases by blast
    have "strings_HasPrefix (rc_Host rc) ''https://'' \<and> strings_TrimPrefix (rc_Host rc) ''https://'' =
        net_JoinHostPort (ce_Getenv env ''KUBERNETES_SERVICE_HOST'') (ce_Getenv env ''KUBERNETES_SERVICE_PORT'')"
      if "ac_AuthType c = ''none''"
      using CreateRestConfig_Inr(3) [OF rc(1) that] HasPrefix_append [of "''https://''"] TrimPrefix_append [of "''https://''"] by metis
    with rc(2) CreateRestConfig_Inr [OF rc(1)] split show ?thesis by auto
  qed
  ultimately show ?thesis by blast
qed

text \<open>An IPv6 address of the API server.\<close>

definition sample_env :: client_env where
  "sample_env = \<lparr>ce_Getenv = (\<lambda>n. if n = ''KUBERNETES_SERVICE_HOST'' then ''fd00::1'' else ''443''), ce_KubeConfig = (\<lambda>_. Inl []), ce_InCluster = Inl []\<rparr>"

theorem client_creation_outcomes_witness:
  "(\<exists>rc. MakeClient sample_env Inr \<lparr>ac_AuthType = ''none'', ac_Context = []\<rparr> = Inr rc \<and>
     net_SplitHostPort (strings_TrimPrefix (rc_Host rc) ''https://'') = Some (''fd00::1'', ''443'')) \<and>
   MakeClient sample_env (Inr :: rest_config \<Rightarrow> _) \<lparr>ac_AuthType = ''tls'', ac_Context = []\<rparr> = Inl NilConfig"
proof -
  have env: "ce_Getenv sample_env ''KUBERNETES_SERVICE_HOST'' = ''fd00::1''" "ce_Getenv sample_env ''KUBERNETES_SERVICE_PORT'' = ''443''"
    by (simp_all add: sample_env_def)
  have ok: "set (ce_Getenv sample_env ''KUBERNETES_SERVICE_HOST'') \<inter> set ''[]'' = {}"
    "set (ce_Getenv sample_env ''KUBERNETES_SERVICE_PORT'') \<inter> set '':[]'' = {}" by (simp_all add: env)
  note spec = client_creation_outcomes [OF ok, where new = Inr]
  obtain rc where rc: "MakeClient sample_env Inr \<lparr>ac_AuthType = ''none'', ac_Context = []\<rparr> = Inr rc"
    by (simp add: MakeClient_def make_client_def api_Validate_def authTypes_def CreateRestConfig_def env)
  from spec [of "\<lparr>ac_AuthType = ''none'', ac_Context = []\<rparr>" rc] rc
  have "net_SplitHostPort (strings_TrimPrefix (rc_Host rc) ''https://'') = Some (''fd00::1'', ''443'')" by (simp add: env)
  moreover have "MakeClient sample_env (Inr :: rest_config \<Rightarrow> _) \<lparr>ac_AuthType = ''tls'', ac_Context = []\<rparr> = Inl NilConfig"
    using spec [of "\<lparr>ac_AuthType = ''tls'', ac_Context = []\<rparr>"] by (simp add: env)
  ultimately show ?thesis using rc by blast
qed

section \<open>Stopping the receiver of objects\<close>

text \<open>The receiver with the number of its goroutines that have not registered their stop channel yet.\<close>

inductive objects_step :: "('c, 's) objects_receiver \<times> nat \<Rightarrow> ('c, 's) objects_receiver \<times> nat \<Rightarrow> bool" where
  obs_register: "objects_step (kr, Suc n) (register_stopper kr, n)"
| obs_shutdown: "objects_Shutdown kr = Some kr' \<Longrightarrow> objects_step (kr, n) (kr', n)"

lemma objects_Shutdown_Some:
  "objects_Shutdown kr = Some kr' \<longleftrightarrow> True \<notin> set (ob_stoppers kr) \<and>
     kr' = kr\<lparr>ob_cancelled := (ob_cancelled kr \<or> ob_cancel kr), ob_stoppers := map (\<lambda>_. True) (ob_stoppers kr), ob_storage := None\<rparr>"
  by (auto simp: objects_Shutdown_def closeStoppers_def)

text \<open>A shutdown stops the goroutines that have registered, and a second one panics when there are any.  A goroutine that
  registers after the shutdown is not stopped: no later step but another shutdown, which panics, closes its channel.\<close>

theorem shutdown_stops_registered:
  assumes "objects_Shutdown kr = Some kr'"
  shows "set (ob_stoppers kr') \<subseteq> {True} \<and> (ob_stoppers kr \<noteq> [] \<longrightarrow> objects_Shutdown kr' = None)"
  using assms by (cases "ob_stoppers kr") (auto simp: objects_Shutdown_Some, simp add: objects_Shutdown_def closeStoppers_def)

theorem late_goroutine_never_stopped:
  assumes "objects_Shutdown kr = Some kr'" "ob_stoppers kr \<noteq> []"
  shows "objects_step (kr', Suc n) (register_stopper kr', n) \<and>
    (\<forall>kr'' m. objects_step\<^sup>*\<^sup>* (register_stopper kr', n) (kr'', m) \<longrightarrow> False \<in> set (ob_stoppers kr''))"
proof -
  have init: "True \<in> set (ob_stoppers (register_stopper kr'))" "False \<in> set (ob_stoppers (register_stopper kr'))"
    using assms by (cases "ob_stoppers kr"; auto simp: objects_Shutdown_Some register_stopper_def)+
  have "True \<in> set (ob_stoppers kr'') \<and> False \<in> set (ob_stoppers kr'')" if "objects_step\<^sup>*\<^sup>* (register_stopper kr', n) (kr'', m)" for kr'' m
    using that
  proof (induction "(kr'', m)" arbitrary: kr'' m rule: rtranclp_induct)
    case base
    with init show ?case by simp
  next
    case (step y)
    obtain kr1 m1 where y: "y = (kr1, m1)" by fastforce
    from step(2) step(3) [OF y] show ?case unfolding y by cases (auto simp: register_stopper_def objects_Shutdown_Some)
  qed
  then show ?thesis using obs_register by blast
qed

end
