(* ===== verification/K8s_Lifecycles.thy ===== *)
theory K8s_Lifecycles
  imports K8s_Clients K8s_Discovery Workload_Type
begin

text \<open>
  The goroutines and the lifecycle of the components on Kubernetes clients that are not in \<open>K8s_Clients\<close>: the ticker of the discovery receiver
  (\<open>receiver/swok8sdiscovery/ticker.go\<close>) with the discovery loop as a step relation, creation, start and shutdown of this
  receiver (\<open>receiver.go\<close>, \<open>config.go\<close>), and start and shutdown of the workload type processor (\<open>processor.go\<close>).
\<close>

section \<open>The ticker of the discovery loop\<close>

text \<open>
  The state of the goroutines: whether a tick waits in the channel of the timer, whether the forwarding goroutine holds a
  time that it sends, whether the buffered channel \<open>nc\<close> holds one, whether the forwarding goroutine and the
  discovery loop have returned, and whether the context is cancelled; with the number of ticks of the timer and of the discovery
  cycles.  The channel \<open>nc\<close> has room for one time; the timer drops a tick when one waits already.
\<close>

record ticker =
  tk_tick :: bool
  tk_sending :: bool
  tk_buffer :: bool
  tk_returned :: bool
  tk_loopDone :: bool
  tk_cancelled :: bool
  tk_fired :: nat
  tk_cycles :: nat

text \<open>The timer panics for an interval that is not positive (\<open>None\<close>).  The forwarding goroutine first sends the current time.\<close>

definition discovery_newTicker :: "time_ns \<Rightarrow> ticker option" where
  "discovery_newTicker repeat =
     (if repeat \<le> 0 then None
      else Some \<lparr>tk_tick = False, tk_sending = True, tk_buffer = False, tk_returned = False, tk_loopDone = False,
                  tk_cancelled = False, tk_fired = 0, tk_cycles = 0\<rparr>)"

definition forward_tick :: "ticker \<Rightarrow> ticker" where
  "forward_tick s = s\<lparr>tk_tick := False, tk_sending := True\<rparr>"

definition send_tick :: "ticker \<Rightarrow> ticker" where
  "send_tick s = s\<lparr>tk_sending := False, tk_buffer := True\<rparr>"

text \<open>The loop receives a time and performs a cycle; when it returns, the deferred call stops the timer.\<close>

definition loop_cycle :: "ticker \<Rightarrow> ticker" where
  "loop_cycle s = s\<lparr>tk_buffer := False, tk_cycles := Suc (tk_cycles s)\<rparr>"

definition loop_return :: "ticker \<Rightarrow> ticker" where
  "loop_return s = s\<lparr>tk_loopDone := True, tk_tick := False\<rparr>"

inductive ticker_step :: "ticker \<Rightarrow> ticker \<Rightarrow> bool" where
  tk_fire: "\<not> tk_loopDone s \<Longrightarrow> ticker_step s (s\<lparr>tk_tick := True, tk_fired := Suc (tk_fired s)\<rparr>)"
| tk_forward: "\<not> tk_returned s \<Longrightarrow> \<not> tk_sending s \<Longrightarrow> tk_tick s \<Longrightarrow> ticker_step s (forward_tick s)"
| tk_send: "tk_sending s \<Longrightarrow> \<not> tk_buffer s \<Longrightarrow> ticker_step s (send_tick s)"
| tk_return: "\<not> tk_returned s \<Longrightarrow> \<not> tk_sending s \<Longrightarrow> tk_cancelled s \<Longrightarrow> ticker_step s (s\<lparr>tk_returned := True\<rparr>)"
| tk_cycle: "\<not> tk_loopDone s \<Longrightarrow> tk_buffer s \<Longrightarrow> ticker_step s (loop_cycle s)"
| tk_end: "\<not> tk_loopDone s \<Longrightarrow> tk_cancelled s \<Longrightarrow> ticker_step s (loop_return s)"
| tk_cancel: "ticker_step s (s\<lparr>tk_cancelled := True\<rparr>)"

inductive_cases ticker_step_cases: "ticker_step s s'"

lemmas ticker_defs = discovery_newTicker_def forward_tick_def send_tick_def loop_cycle_def loop_return_def

text \<open>Every cycle is for the initial time or for a tick of the timer, and a goroutine returns only when the context is cancelled.\<close>

definition ticker_inv :: "ticker \<Rightarrow> bool" where
  "ticker_inv s \<longleftrightarrow>
     tk_cycles s + of_bool (tk_buffer s) + of_bool (tk_sending s) + of_bool (tk_tick s) \<le> Suc (tk_fired s) \<and>
     (tk_returned s \<longrightarrow> tk_cancelled s \<and> \<not> tk_sending s) \<and> (tk_loopDone s \<longrightarrow> tk_cancelled s \<and> \<not> tk_tick s)"

interpretation tick: transition_invariant "\<lambda>s. discovery_newTicker repeat = Some s" ticker_step ticker_inv for repeat
proof
  fix s s'
  show "discovery_newTicker repeat = Some s \<Longrightarrow> ticker_inv s" by (auto simp: ticker_inv_def ticker_defs split: if_splits)
  assume "ticker_inv s" "ticker_step s s'"
  then show "ticker_inv s'" by (auto simp: ticker_inv_def ticker_defs elim!: ticker_step_cases)
qed

subsection \<open>What the loop and the forwarding goroutine can do\<close>

lemma new_ticker:
  assumes "discovery_newTicker repeat = Some s"
  shows "tk_sending s" "\<not> tk_buffer s" "\<not> tk_loopDone s" "\<not> tk_returned s" "tk_cycles s = 0" "tk_fired s = 0"
  using assms by (auto simp: discovery_newTicker_def split: if_splits)

lemma send_and_cycle:
  assumes "tk_sending s" "\<not> tk_buffer s" "\<not> tk_loopDone s"
  shows "ticker_step\<^sup>*\<^sup>* s (loop_cycle (send_tick s))"
proof -
  have "ticker_step s (send_tick s)" using assms by (intro tk_send)
  moreover have "ticker_step (send_tick s) (loop_cycle (send_tick s))" using assms by (intro tk_cycle) (simp_all add: send_tick_def)
  ultimately show ?thesis by (meson converse_rtranclp_into_rtranclp rtranclp.rtrancl_refl)
qed

lemma running_loop_cycles:
  assumes "ticker_inv s" "\<not> tk_cancelled s"
  shows "\<exists>s'. ticker_step\<^sup>*\<^sup>* s s' \<and> tk_cycles s' = Suc (tk_cycles s)"
proof -
  have up: "\<not> tk_loopDone s" "\<not> tk_returned s" using assms by (auto simp: ticker_inv_def)
  consider "tk_buffer s" | "tk_sending s" "\<not> tk_buffer s" | "\<not> tk_sending s" "\<not> tk_buffer s" by blast
  then show ?thesis
  proof cases
    case 1
    then show ?thesis using tk_cycle [OF up(1)] by (intro exI [of _ "loop_cycle s"]) (auto simp: loop_cycle_def)
  next
    case 2
    then show ?thesis using send_and_cycle up by (intro exI [of _ "loop_cycle (send_tick s)"]) (auto simp: ticker_defs)
  next
    case 3
    let ?t = "s\<lparr>tk_tick := True, tk_fired := Suc (tk_fired s)\<rparr>"
    have "ticker_step s ?t" "ticker_step ?t (forward_tick ?t)" using up 3 by (intro tk_fire tk_forward; simp)+
    moreover have "ticker_step\<^sup>*\<^sup>* (forward_tick ?t) (loop_cycle (send_tick (forward_tick ?t)))"
      using up 3 by (intro send_and_cycle) (simp_all add: forward_tick_def)
    moreover have "tk_cycles (loop_cycle (send_tick (forward_tick ?t))) = Suc (tk_cycles s)" by (simp add: ticker_defs)
    ultimately show ?thesis by (meson converse_rtranclp_into_rtranclp)
  qed
qed

text \<open>Once the loop has returned, a goroutine that waits to send to the full channel waits for ever.\<close>

lemma stuck_forever:
  assumes "ticker_step\<^sup>*\<^sup>* s s'" "tk_loopDone s" "tk_sending s" "tk_buffer s" "\<not> tk_returned s"
  shows "tk_loopDone s' \<and> tk_sending s' \<and> tk_buffer s' \<and> \<not> tk_returned s'"
  using assms by (induction rule: rtranclp_induct) (auto simp: ticker_defs elim!: ticker_step_cases)

lemma forwarder_returns:
  assumes "ticker_inv s" "tk_loopDone s"
  shows "(\<exists>s'. ticker_step\<^sup>*\<^sup>* s s' \<and> tk_returned s') \<longleftrightarrow> \<not> (tk_sending s \<and> tk_buffer s)"
proof
  show "\<not> (tk_sending s \<and> tk_buffer s)" if "\<exists>s'. ticker_step\<^sup>*\<^sup>* s s' \<and> tk_returned s'"
    using that stuck_forever assms by (auto simp: ticker_inv_def)
next
  assume free: "\<not> (tk_sending s \<and> tk_buffer s)"
  have c: "tk_cancelled s" using assms by (simp add: ticker_inv_def)
  have returns: "\<exists>s'. ticker_step\<^sup>*\<^sup>* t s' \<and> tk_returned s'" if "\<not> tk_sending t" "tk_cancelled t" for t
  proof (cases "tk_returned t")
    case False
    with tk_return [of t] that have "ticker_step\<^sup>*\<^sup>* t (t\<lparr>tk_returned := True\<rparr>)" by blast
    then show ?thesis by (intro exI [of _ "t\<lparr>tk_returned := True\<rparr>"]) simp
  qed blast
  show "\<exists>s'. ticker_step\<^sup>*\<^sup>* s s' \<and> tk_returned s'"
  proof (cases "tk_sending s")
    case True
    with free have "ticker_step s (send_tick s)" by (intro tk_send) auto
    with returns [of "send_tick s"] c show ?thesis by (auto simp: send_tick_def intro: converse_rtranclp_into_rtranclp)
  qed (use returns c in blast)
qed

text \<open>C16: The discovery loop ticks as meant.  For a positive interval, in every state that the goroutines can reach: there was no more than
  one cycle besides those for ticks of the timer; while the context is not cancelled another cycle can always be reached; once it is, the
  loop can return at once, and after that the forwarding goroutine can return exactly when it does not hold a
  time for a channel that is full.  The first cycle needs no tick.
\<close>

theorem discovery_ticker_correct:
  assumes "discovery_newTicker repeat = Some s0" "ticker_step\<^sup>*\<^sup>* s0 s"
  shows "tk_cycles s \<le> Suc (tk_fired s) \<and>
    (\<not> tk_cancelled s \<longrightarrow> (\<exists>s'. ticker_step\<^sup>*\<^sup>* s s' \<and> tk_cycles s' = Suc (tk_cycles s))) \<and>
    (tk_cancelled s \<and> \<not> tk_loopDone s \<longrightarrow> ticker_step s (loop_return s)) \<and>
    (tk_loopDone s \<longrightarrow> (\<exists>s'. ticker_step\<^sup>*\<^sup>* s s' \<and> tk_returned s') = (\<not> (tk_sending s \<and> tk_buffer s))) \<and>
    (\<exists>s1. ticker_step\<^sup>*\<^sup>* s0 s1 \<and> tk_cycles s1 = 1 \<and> tk_fired s1 = 0)"
proof -
  have inv: "ticker_inv s" by (rule tick.reachable_inv [OF assms])
  have "ticker_step\<^sup>*\<^sup>* s0 (loop_cycle (send_tick s0))" by (rule send_and_cycle) (use new_ticker [OF assms(1)] in simp_all)
  moreover have "tk_cycles (loop_cycle (send_tick s0)) = 1" "tk_fired (loop_cycle (send_tick s0)) = 0"
    using new_ticker [OF assms(1)] by (simp_all add: ticker_defs)
  moreover have "tk_cycles s \<le> Suc (tk_fired s)" using inv by (simp add: ticker_inv_def)
  ultimately show ?thesis using running_loop_cycles [OF inv] forwarder_returns [OF inv] tk_end [of s] by blast
qed

text \<open>A loop that is cancelled before its first cycle returns, and the forwarding goroutine returns after it.\<close>

theorem discovery_ticker_correct_witness:
  "\<exists>s0 s s'. discovery_newTicker 1 = Some s0 \<and> ticker_step\<^sup>*\<^sup>* s0 s \<and> tk_loopDone s \<and> tk_cycles s = 0 \<and> ticker_step\<^sup>*\<^sup>* s s' \<and> tk_returned s'"
proof -
  obtain s0 where s0: "discovery_newTicker 1 = Some s0" by (simp add: discovery_newTicker_def)
  let ?s = "loop_return (s0\<lparr>tk_cancelled := True\<rparr>)"
  have "ticker_step s0 (s0\<lparr>tk_cancelled := True\<rparr>)" by (rule tk_cancel)
  moreover have "ticker_step (s0\<lparr>tk_cancelled := True\<rparr>) ?s" using new_ticker [OF s0] by (intro tk_end) simp_all
  ultimately have run: "ticker_step\<^sup>*\<^sup>* s0 ?s" by (meson converse_rtranclp_into_rtranclp rtranclp.rtrancl_refl)
  have "tk_loopDone ?s" "tk_cycles ?s = 0" "\<not> tk_buffer ?s" using new_ticker [OF s0] by (simp_all add: loop_return_def)
  with discovery_ticker_correct [OF s0 run] run s0 show ?thesis by blast
qed

text \<open>The forwarding goroutine can leak: the channel is full, the next time is held, and the loop returns on the cancelled context.\<close>

theorem ticker_goroutine_leaks:
  assumes "discovery_newTicker repeat = Some s0"
  shows "\<exists>s. ticker_step\<^sup>*\<^sup>* s0 s \<and> tk_loopDone s \<and> (\<forall>s'. ticker_step\<^sup>*\<^sup>* s s' \<longrightarrow> \<not> tk_returned s')"
proof -
  let ?a = "send_tick s0" let ?b = "?a\<lparr>tk_tick := True, tk_fired := Suc (tk_fired ?a)\<rparr>"
  let ?c = "forward_tick ?b" let ?d = "?c\<lparr>tk_cancelled := True\<rparr>" let ?e = "loop_return ?d"
  note s0 = new_ticker [OF assms]
  have "ticker_step s0 ?a" using s0 by (intro tk_send)
  moreover have "ticker_step ?a ?b" using s0 by (intro tk_fire) (simp add: ticker_defs)
  moreover have "ticker_step ?b ?c" using s0 by (intro tk_forward) (simp_all add: ticker_defs)
  moreover have "ticker_step ?c ?d" by (rule tk_cancel)
  moreover have "ticker_step ?d ?e" using s0 by (intro tk_end) (simp_all add: ticker_defs)
  ultimately have "ticker_step\<^sup>*\<^sup>* s0 ?e" by (meson converse_rtranclp_into_rtranclp rtranclp.rtrancl_refl)
  moreover have "tk_loopDone ?e" "tk_sending ?e" "tk_buffer ?e" "\<not> tk_returned ?e" using s0 by (simp_all add: ticker_defs)
  ultimately show ?thesis using stuck_forever by blast
qed

section \<open>The discovery receiver\<close>

text \<open>
  The receiver before and after its start.  The loop is \<open>None\<close> when it was not started, \<open>Some None\<close> when creating the timer in its
  goroutine panicked, which ends the collector.
\<close>

record 'c discovery_lifecycle =
  dl_receiver :: discovery_receiver
  dl_kclient :: "'c option"
  dl_cancel :: bool
  dl_loop :: "ticker option option"

definition discovery_newReceiver :: "(string \<Rightarrow> string) \<Rightarrow> discovery_config \<Rightarrow> 'c discovery_lifecycle" where
  "discovery_newReceiver getenv config =
     \<lparr>dl_receiver = \<lparr>rv_config = config, rv_clusterUid = getenv ''CLUSTER_UID''\<rparr>, dl_kclient = None, dl_cancel = False, dl_loop = None\<rparr>"

definition discovery_getClient ::
  "(client_error, 'c) result option \<Rightarrow> client_env \<Rightarrow> (rest_config \<Rightarrow> (string, 'c) result) \<Rightarrow> api_config \<Rightarrow> (client_error, 'c) result" where
  "discovery_getClient makeClient env new cfg = (case makeClient of Some r \<Rightarrow> r | None \<Rightarrow> MakeClient env new cfg)"

definition discovery_Start :: "(client_error, 'c) result \<Rightarrow> 'c discovery_lifecycle \<Rightarrow> client_error option \<times> 'c discovery_lifecycle" where
  "discovery_Start client r =
     (case client of
        Inl e \<Rightarrow> (Some e, r)
      | Inr kclient \<Rightarrow>
          (None, r\<lparr>dl_kclient := Some kclient, dl_cancel := True,
                   dl_loop := Some (discovery_newTicker (dc_Interval (rv_config (dl_receiver r))))\<rparr>))"

definition discovery_Shutdown :: "'c discovery_lifecycle \<Rightarrow> 'c discovery_lifecycle" where
  "discovery_Shutdown r =
     (if dl_cancel r then r\<lparr>dl_loop := map_option (map_option (\<lambda>t. t\<lparr>tk_cancelled := True\<rparr>)) (dl_loop r)\<rparr> else r)"

text \<open>The answers to the list requests for all namespaces.\<close>

definition listPods :: "(string \<Rightarrow> (string, k8s_pod list) result) \<Rightarrow> k8s_pod list option" where
  "listPods request = (case request [] of Inl err \<Rightarrow> None | Inr items \<Rightarrow> Some items)"

definition listServices :: "(string \<Rightarrow> (string, k8s_service list) result) \<Rightarrow> k8s_service list option" where
  "listServices request = (case request [] of Inl err \<Rightarrow> None | Inr items \<Rightarrow> Some items)"

text \<open>A validated receiver that is started runs its loop unless the configured interval is negative: validation replaces only an interval of zero, so
  that a negative one passes and the timer panics.
\<close>

theorem started_discovery_runs:
  assumes "discovery_Validate True compile uni c = Inr c'"
  shows "discovery_Start (Inr client) (discovery_newReceiver getenv c') =
      (None, (discovery_newReceiver getenv c')\<lparr>dl_kclient := Some client, dl_cancel := True, dl_loop := Some (discovery_newTicker (dc_Interval c'))\<rparr>)
    \<and> (discovery_newTicker (dc_Interval c') = None \<longleftrightarrow> dc_Interval c < 0)"
proof -
  have "dc_Interval c' = (if dc_Interval c = 0 then 5 * 60 * 10 ^ 9 else dc_Interval c)"
    using assms by (auto simp: discovery_Validate_def Let_def split: option.splits sum.splits if_splits)
  then show ?thesis by (auto simp: discovery_Start_def discovery_newReceiver_def discovery_newTicker_def)
qed

section \<open>The workload type processor\<close>

text \<open>
  The processor with its lifecycle.  \<open>wt_Start\<close> gives the informers or the error; the cancel function is set before the client is
  made and the factory when there is one, also when the start fails later.  The informers of a start that failed are not used and not kept.
\<close>

record type_lifecycle =
  tl_cancel :: bool
  tl_cancelled :: bool
  tl_factory :: bool
  tl_factoryStopped :: bool
  tl_informers :: "informers option"

definition type_new :: type_lifecycle where
  "type_new = \<lparr>tl_cancel = False, tl_cancelled = False, tl_factory = False, tl_factoryStopped = False, tl_informers = None\<rparr>"

definition type_getK8sClient :: "(api_config \<Rightarrow> (client_error, 'c) result) \<Rightarrow> api_config \<Rightarrow> (client_error, 'c) result" where
  "type_getK8sClient initKubeClient cfg = initKubeClient cfg"

definition type_getDiscoveryClient ::
  "(api_config \<Rightarrow> (client_error, 'c) result) \<Rightarrow> ('c \<Rightarrow> 'd) \<Rightarrow> api_config \<Rightarrow> (client_error, 'd) result" where
  "type_getDiscoveryClient initKubeClient discovery cfg =
     (case initKubeClient cfg of Inl err \<Rightarrow> Inl err | Inr client \<Rightarrow> Inr (discovery client))"

definition type_Start ::
  "(client_error, 'c) result \<Rightarrow> ('c \<Rightarrow> informer_factory) \<Rightarrow> ((string \<times> gvrk) list \<Rightarrow> (string \<times> gvrk) list) \<Rightarrow> bool \<Rightarrow> wt_config
   \<Rightarrow> type_lifecycle \<Rightarrow> wt_error option \<times> type_lifecycle" where
  "type_Start client newFactory ord synced cfg p =
     (let factory = (case client of Inl _ \<Rightarrow> None | Inr cl \<Rightarrow> Some (newFactory cl));
          p = p\<lparr>tl_cancel := True, tl_factory := (tl_factory p \<or> factory \<noteq> None)\<rparr> in
      case wt_Start factory ord synced cfg of
        Inl er \<Rightarrow> (Some er, p)
      | Inr infs \<Rightarrow> (None, p\<lparr>tl_informers := Some infs\<rparr>))"

definition type_Shutdown :: "type_lifecycle \<Rightarrow> type_lifecycle" where
  "type_Shutdown p =
     (let p = (if tl_cancel p then p\<lparr>tl_cancelled := True\<rparr> else p) in
      if tl_factory p then p\<lparr>tl_factoryStopped := True\<rparr> else p)"

text \<open>Shutting the processor down after a start, also after one that failed, cancels the context of the informers and stops the
  factory if there is one; a processor that was never started is left as it is.\<close>

theorem type_shutdown_releases:
  "tl_cancelled (type_Shutdown (snd (type_Start client newFactory ord synced cfg type_new))) \<and>
   (tl_factoryStopped (type_Shutdown (snd (type_Start client newFactory ord synced cfg type_new))) \<longleftrightarrow> (\<exists>cl. client = Inr cl)) \<and>
   type_Shutdown type_new = type_new"
  by (auto simp: type_Shutdown_def type_Start_def type_new_def Let_def split: sum.split)

end
