(* ===== verification/Component_Factories.thy ===== *)
theory Component_Factories
  imports K8s_Lifecycles K8s_Event_Logs Sw_Processor Entity_Ref Dns_Query Mqtt_Receiver Entity_Connector Host_Receiver
begin

text \<open>
  The factories of the components (\<open>factory.go\<close> of every component and \<open>receiver.go\<close> of the host metrics receiver): the default
  configurations, the functions that create a component from a configuration of any type, and the table of what the factories register with
  the collector.  The helpers of the collector that wrap a process function are not part of the repository; a
  creation gives what is handed to them.
\<close>

section \<open>Configurations\<close>

text \<open>The configurations behind the interface \<open>component.Config\<close>, one constructor per configuration type.\<close>

datatype component_config =
    TypeConfig api_config time_ns "workload_mapping option list"
  | StatusConfig api_config time_ns
  | EventConfig
  | SolarwindsConfig sw_config
  | EntityRefConfig ref_config
  | DiscoveryConfig api_config discovery_config
  | ObjectsConfig api_config "object_config list"
  | MqttConfig "mqtt_broker list"
  | DnsConfig dns_config time_ns
  | HostConfig receiver_config
  | EntityConfig config
  | ExtensionConfig ext_config

definition serviceAccountConfig :: api_config where
  "serviceAccountConfig = \<lparr>ac_AuthType = ''serviceAccount'', ac_Context = []\<rparr>"

definition type_createDefaultConfig :: component_config where
  "type_createDefaultConfig = TypeConfig serviceAccountConfig (5 * 60 * 10 ^ 9) []"

definition status_createDefaultConfig :: component_config where
  "status_createDefaultConfig = StatusConfig serviceAccountConfig (5 * 60 * 10 ^ 9)"

definition event_createDefaultConfig :: component_config where
  "event_createDefaultConfig = EventConfig"

definition ref_createDefaultConfig :: component_config where
  "ref_createDefaultConfig = EntityRefConfig \<lparr>rc_Action = ActionInsert, rc_EntityRefs = []\<rparr>"

definition discovery_createDefaultConfig :: component_config where
  "discovery_createDefaultConfig = DiscoveryConfig serviceAccountConfig \<lparr>dc_Interval = 0, dc_Reporter = [], dc_Database = None\<rparr>"

definition objects_createDefaultConfig :: component_config where
  "objects_createDefaultConfig = ObjectsConfig serviceAccountConfig []"

definition mqtt_createDefaultConfig :: component_config where
  "mqtt_createDefaultConfig = MqttConfig []"

definition entity_NewDefaultConfig :: component_config where
  "entity_NewDefaultConfig =
     EntityConfig \<lparr>cf_Schema = \<lparr>sc_Entities = [], sc_Events = \<lparr>ev_Relationships = [], ev_Entities = []\<rparr>\<rparr>, cf_Expiration = default_expiration,
                   cf_SourcePrefix = [], cf_DestinationPrefix = []\<rparr>"

text \<open>\<open>grpc\<close> is the default client configuration of the collector.\<close>

definition extension_NewDefaultConfig :: "grpc_config \<Rightarrow> component_config" where
  "extension_NewDefaultConfig grpc = ExtensionConfig \<lparr>xc_CollectorName = [], xc_Resource = None, xc_WithoutEntity = False, xc_Grpc = grpc\<rparr>"

section \<open>Creation of processors\<close>

text \<open>What a processor hands to the helper: the configuration, the method that processes a batch in a state of the processor, the declared
  capability and whether \<open>Start\<close> and \<open>Shutdown\<close> are registered.\<close>

record ('p, 'd, 'r) helper_settings =
  hs_config :: component_config
  hs_process :: "'p \<Rightarrow> 'd \<Rightarrow> 'r"
  hs_MutatesData :: bool
  hs_Start :: bool
  hs_Shutdown :: bool

text \<open>\<open>ConfigPanic\<close> is the panic of a type assertion that does not hold.\<close>

datatype 'e factory_error = ConfigPanic | FactoryError 'e

definition type_createMetricsProcessor ::
  "component_config \<Rightarrow> (unit factory_error, (wt_processor, metrics, (abort, metrics) result) helper_settings) result" where
  "type_createMetricsProcessor cfg =
     (case cfg of
        TypeConfig _ _ _ \<Rightarrow> Inr \<lparr>hs_config = cfg, hs_process = wt_processMetrics, hs_MutatesData = True, hs_Start = True, hs_Shutdown = True\<rparr>
      | _ \<Rightarrow> Inl ConfigPanic)"

definition status_createLogsProcessor ::
  "component_config \<Rightarrow> (unit factory_error, (status_processor, logs, logs) helper_settings) result" where
  "status_createLogsProcessor cfg =
     (case cfg of
        StatusConfig _ _ \<Rightarrow> Inr \<lparr>hs_config = cfg, hs_process = status_processLogs, hs_MutatesData = False, hs_Start = True, hs_Shutdown = True\<rparr>
      | _ \<Rightarrow> Inl ConfigPanic)"

text \<open>The event generation processor accepts any configuration and hands the default one on.\<close>

definition event_createLogsProcessor ::
  "component_config \<Rightarrow> (unit factory_error, (event_env, logs, unit option \<times> logs) helper_settings) result" where
  "event_createLogsProcessor cfg =
     Inr \<lparr>hs_config = event_createDefaultConfig, hs_process = event_processLogs, hs_MutatesData = False, hs_Start = True, hs_Shutdown = True\<rparr>"

text \<open>The solarwinds processor checks the type of the configuration and validates it (\<open>createProcessor\<close>); the three functions differ in
  the process function.  The result has the created processor.\<close>

definition sw_config_of :: "component_config \<Rightarrow> sw_config option" where
  "sw_config_of cfg = (case cfg of SolarwindsConfig c \<Rightarrow> Some c | _ \<Rightarrow> None)"

definition sw_create ::
  "(string, string) result \<Rightarrow> bool \<Rightarrow> (sw_processor \<Rightarrow> 'd \<Rightarrow> 'r) \<Rightarrow> component_config
   \<Rightarrow> (sw_error factory_error, sw_processor \<times> (sw_processor, 'd, 'r) helper_settings) result" where
  "sw_create instanceID isContainerd process cfg =
     (case createProcessor instanceID isContainerd (sw_config_of cfg) of
        Inl err \<Rightarrow> Inl (FactoryError err)
      | Inr p \<Rightarrow> Inr (p, \<lparr>hs_config = cfg, hs_process = process, hs_MutatesData = True, hs_Start = True, hs_Shutdown = False\<rparr>))"

definition sw_createLogsProcessor where
  "sw_createLogsProcessor instanceID isContainerd marshal fold_eq ord = sw_create instanceID isContainerd (sw_processLogs marshal fold_eq ord)"

definition sw_createMetricsProcessor where
  "sw_createMetricsProcessor instanceID isContainerd marshal fold_eq ord = sw_create instanceID isContainerd (sw_processMetrics marshal fold_eq ord)"

definition sw_createTracesProcessor where
  "sw_createTracesProcessor instanceID isContainerd marshal fold_eq ord = sw_create instanceID isContainerd (sw_processTraces marshal fold_eq ord)"

text \<open>The entity reference processor: only the one for logs registers \<open>Start\<close>, which does no more than log.\<close>

definition ref_create ::
  "(string \<Rightarrow> string) \<Rightarrow> bool \<Rightarrow> (ref_config \<Rightarrow> 'd \<Rightarrow> 'r) \<Rightarrow> component_config
   \<Rightarrow> (ref_error factory_error, ref_config \<times> (ref_config, 'd, 'r) helper_settings) result" where
  "ref_create uni start process cfg =
     (case cfg of
        EntityRefConfig c \<Rightarrow>
          (case buildProcessor uni c of
             Inl err \<Rightarrow> Inl (FactoryError err)
           | Inr p \<Rightarrow> Inr (p, \<lparr>hs_config = cfg, hs_process = process, hs_MutatesData = True, hs_Start = start, hs_Shutdown = False\<rparr>))
      | _ \<Rightarrow> Inl ConfigPanic)"

definition ref_createLogsProcessor where
  "ref_createLogsProcessor uni = ref_create uni True (\<lambda>cfg (readOnly, batch). ref_processLogs uni cfg readOnly batch)"

definition ref_createMetricsProcessor where
  "ref_createMetricsProcessor uni = ref_create uni False (\<lambda>cfg (readOnly, batch). ref_processMetrics uni cfg readOnly batch)"

definition ref_createTracesProcessor where
  "ref_createTracesProcessor uni = ref_create uni False (\<lambda>cfg (readOnly, batch). ref_processTraces uni cfg readOnly batch)"

section \<open>Creation of receivers, the connector and the extension\<close>

text \<open>\<open>newObsReport\<close> is the creation of the report of a receiver by the collector, \<open>newController\<close> that of the controller of scrapers.\<close>

definition discovery_createLogsReceiver ::
  "(string \<Rightarrow> string) \<Rightarrow> component_config \<Rightarrow> (unit factory_error, 'c discovery_lifecycle) result" where
  "discovery_createLogsReceiver getenv cfg =
     (case cfg of DiscoveryConfig _ c \<Rightarrow> Inr (discovery_newReceiver getenv c) | _ \<Rightarrow> Inl ConfigPanic)"

definition objects_createLogsReceiver ::
  "string option \<Rightarrow> component_config \<Rightarrow> (string factory_error, object_config list) result" where
  "objects_createLogsReceiver newObsReport cfg =
     (case cfg of
        ObjectsConfig _ objects \<Rightarrow> (case newObsReport of Some err \<Rightarrow> Inl (FactoryError err) | None \<Rightarrow> Inr (objects_newReceiver objects))
      | _ \<Rightarrow> Inl ConfigPanic)"

definition mqtt_createMetricsReceiver :: "component_config \<Rightarrow> (unit factory_error, mqtt_broker list) result" where
  "mqtt_createMetricsReceiver cfg = (case cfg of MqttConfig brokers \<Rightarrow> Inr brokers | _ \<Rightarrow> Inl ConfigPanic)"

definition dns_createMetricsReceiver ::
  "(time_ns \<Rightarrow> dnsQueryScraper \<Rightarrow> (string, 'r) result) \<Rightarrow> string \<Rightarrow> u64 \<Rightarrow> component_config \<Rightarrow> (string factory_error, 'r) result" where
  "dns_createMetricsReceiver newController version now cfg =
     (case cfg of
        DnsConfig rCfg collectionInterval \<Rightarrow> map_sum FactoryError id (newController collectionInterval (newDNSQueryScraper rCfg version now))
      | _ \<Rightarrow> Inl ConfigPanic)"

datatype host_error = OptionsFailed create_error | ControllerFailed string

definition host_createMetricsReceiver ::
  "(time_ns \<Rightarrow> (string \<times> manager) list \<Rightarrow> (string, 'r) result) \<Rightarrow> factory_order \<Rightarrow> factories \<Rightarrow> component_config
   \<Rightarrow> (host_error factory_error, 'r) result" where
  "host_createMetricsReceiver newController ord facs cfg =
     (case cfg of
        HostConfig c \<Rightarrow>
          (case createScraperControllerOptions ord facs c of
             Inl err \<Rightarrow> Inl (FactoryError (OptionsFailed err))
           | Inr scraperControllerOptions \<Rightarrow>
               map_sum (FactoryError \<circ> ControllerFailed) id (newController (rc_CollectionInterval c) scraperControllerOptions))
      | _ \<Rightarrow> Inl ConfigPanic)"

text \<open>Logs and metrics are given to the same connector.\<close>

definition entity_config_of :: "component_config \<Rightarrow> config option" where
  "entity_config_of cfg = (case cfg of EntityConfig c \<Rightarrow> Some c | _ \<Rightarrow> None)"

definition createLogsToLogsConnector where
  "createLogsToLogsConnector marshal parseDuration newMetricParser newLogParser cfg =
     createConnector marshal parseDuration newMetricParser newLogParser (entity_config_of cfg)"

definition createMetricsToLogsConnector where
  "createMetricsToLogsConnector marshal parseDuration newMetricParser newLogParser cfg =
     createConnector marshal parseDuration newMetricParser newLogParser (entity_config_of cfg)"

definition extension_config_of :: "component_config \<Rightarrow> ext_config option" where
  "extension_config_of cfg = (case cfg of ExtensionConfig c \<Rightarrow> Some c | _ \<Rightarrow> None)"

section \<open>The factories\<close>

datatype component_kind = Receiver | Processor | Connector | Extension

datatype pipeline = LogsPipeline | MetricsPipeline | TracesPipeline | MetricsToLogs | LogsToLogs

text \<open>What a factory registers: the kind and the type of the component, the default configuration and the pipelines.\<close>

record component_factory =
  fa_Kind :: component_kind
  fa_Type :: string
  fa_DefaultConfig :: component_config
  fa_Pipelines :: "pipeline list"

definition type_NewFactory :: component_factory where
  "type_NewFactory = \<lparr>fa_Kind = Processor, fa_Type = ''swok8sworkloadtype'', fa_DefaultConfig = type_createDefaultConfig, fa_Pipelines = [MetricsPipeline]\<rparr>"

definition status_NewFactory :: component_factory where
  "status_NewFactory = \<lparr>fa_Kind = Processor, fa_Type = ''swok8sworkloadstatus'', fa_DefaultConfig = status_createDefaultConfig, fa_Pipelines = [LogsPipeline]\<rparr>"

definition event_NewFactory :: component_factory where
  "event_NewFactory = \<lparr>fa_Kind = Processor, fa_Type = ''k8seventgeneration'', fa_DefaultConfig = event_createDefaultConfig, fa_Pipelines = [LogsPipeline]\<rparr>"

definition sw_NewFactory :: component_factory where
  "sw_NewFactory = \<lparr>fa_Kind = Processor, fa_Type = ''solarwinds'', fa_DefaultConfig = SolarwindsConfig sw_createDefaultConfig,
     fa_Pipelines = [TracesPipeline, MetricsPipeline, LogsPipeline]\<rparr>"

definition ref_NewFactory :: component_factory where
  "ref_NewFactory = \<lparr>fa_Kind = Processor, fa_Type = ''swootelentityref'', fa_DefaultConfig = ref_createDefaultConfig,
     fa_Pipelines = [LogsPipeline, MetricsPipeline, TracesPipeline]\<rparr>"

definition discovery_NewFactory :: component_factory where
  "discovery_NewFactory = \<lparr>fa_Kind = Receiver, fa_Type = ''swok8sdiscovery'', fa_DefaultConfig = discovery_createDefaultConfig, fa_Pipelines = [LogsPipeline]\<rparr>"

definition objects_NewFactory :: component_factory where
  "objects_NewFactory = \<lparr>fa_Kind = Receiver, fa_Type = ''swok8sobjects'', fa_DefaultConfig = objects_createDefaultConfig, fa_Pipelines = [LogsPipeline]\<rparr>"

definition mqtt_NewFactory :: component_factory where
  "mqtt_NewFactory = \<lparr>fa_Kind = Receiver, fa_Type = ''mqtt'', fa_DefaultConfig = mqtt_createDefaultConfig, fa_Pipelines = [MetricsPipeline]\<rparr>"

definition dns_NewFactory :: component_factory where
  "dns_NewFactory = \<lparr>fa_Kind = Receiver, fa_Type = ''dnsquery'', fa_DefaultConfig = DnsConfig createDefaultConfig (60 * 10 ^ 9), fa_Pipelines = [MetricsPipeline]\<rparr>"

definition host_NewFactory :: "factory_order \<Rightarrow> factories \<Rightarrow> component_factory" where
  "host_NewFactory ord facs =
     \<lparr>fa_Kind = Receiver, fa_Type = ''swohostmetrics'', fa_DefaultConfig = HostConfig (host_createDefaultConfig ord facs), fa_Pipelines = [MetricsPipeline]\<rparr>"

definition entity_NewFactory :: component_factory where
  "entity_NewFactory = \<lparr>fa_Kind = Connector, fa_Type = ''solarwindsentity'', fa_DefaultConfig = entity_NewDefaultConfig, fa_Pipelines = [MetricsToLogs, LogsToLogs]\<rparr>"

definition extension_NewFactory :: "grpc_config \<Rightarrow> component_factory" where
  "extension_NewFactory grpc = \<lparr>fa_Kind = Extension, fa_Type = ''solarwinds'', fa_DefaultConfig = extension_NewDefaultConfig grpc, fa_Pipelines = []\<rparr>"

lemmas factory_defs = type_NewFactory_def status_NewFactory_def event_NewFactory_def sw_NewFactory_def ref_NewFactory_def discovery_NewFactory_def
  objects_NewFactory_def mqtt_NewFactory_def dns_NewFactory_def host_NewFactory_def entity_NewFactory_def extension_NewFactory_def

lemmas default_config_defs = type_createDefaultConfig_def status_createDefaultConfig_def event_createDefaultConfig_def ref_createDefaultConfig_def
  discovery_createDefaultConfig_def objects_createDefaultConfig_def mqtt_createDefaultConfig_def entity_NewDefaultConfig_def extension_NewDefaultConfig_def

section \<open>Creation from configurations of any type\<close>

lemmas creation_defs = type_createMetricsProcessor_def status_createLogsProcessor_def event_createLogsProcessor_def
  sw_create_def sw_createLogsProcessor_def sw_createMetricsProcessor_def sw_createTracesProcessor_def
  ref_create_def ref_createLogsProcessor_def ref_createMetricsProcessor_def ref_createTracesProcessor_def
  discovery_createLogsReceiver_def objects_createLogsReceiver_def mqtt_createMetricsReceiver_def

text \<open>The creation functions that assert the type of a configuration panic exactly for the configurations of other components.\<close>

theorem creation_panics:
  "(type_createMetricsProcessor cfg = Inl ConfigPanic \<longleftrightarrow> (\<nexists>a w ms. cfg = TypeConfig a w ms)) \<and>
   (status_createLogsProcessor cfg = Inl ConfigPanic \<longleftrightarrow> (\<nexists>a w. cfg = StatusConfig a w)) \<and>
   event_createLogsProcessor cfg \<noteq> Inl ConfigPanic \<and>
   sw_createLogsProcessor iid ctd marshal fold_eq ord cfg \<noteq> Inl ConfigPanic \<and>
   (ref_createLogsProcessor uni cfg = Inl ConfigPanic \<longleftrightarrow> (\<nexists>c. cfg = EntityRefConfig c)) \<and>
   (discovery_createLogsReceiver getenv cfg = (Inl ConfigPanic :: (unit factory_error, 'c discovery_lifecycle) result) \<longleftrightarrow> (\<nexists>a c. cfg = DiscoveryConfig a c)) \<and>
   (objects_createLogsReceiver obs cfg = Inl ConfigPanic \<longleftrightarrow> (\<nexists>a os. cfg = ObjectsConfig a os)) \<and>
   (mqtt_createMetricsReceiver cfg = Inl ConfigPanic \<longleftrightarrow> (\<nexists>bs. cfg = MqttConfig bs))"
  by (cases cfg) (simp_all add: creation_defs sw_config_of_def split: sum.split option.split)

text \<open>The factories register different types for each kind of component, so that one collector can have them all, and no creation function panics
  for the default configuration of its factory.\<close>

theorem factories_distinct:
  "distinct (map (\<lambda>f. (fa_Kind f, fa_Type f))
     [type_NewFactory, status_NewFactory, event_NewFactory, sw_NewFactory, ref_NewFactory, discovery_NewFactory, objects_NewFactory,
      mqtt_NewFactory, dns_NewFactory, host_NewFactory ord facs, entity_NewFactory, extension_NewFactory grpc])"
  by (simp add: factory_defs)

text \<open>
  What a user gets without any setting.  The entity reference, event generation, workload status, MQTT, discovery, objects and
  connector defaults are usable: creation and validation succeed, the latter for the objects receiver whenever the API
  server answers.  The defaults of the solarwinds processor, the workload type processor, the DNS receiver and the extension are rejected, each for
  the setting that the user has to give.
\<close>

theorem default_configurations:
  "(\<exists>p hs. ref_createLogsProcessor uni (fa_DefaultConfig ref_NewFactory) = Inr (p, hs)) \<and>
   (\<exists>cn. createLogsToLogsConnector json parseDuration (Inr mp) (Inr lp) (fa_DefaultConfig entity_NewFactory) = Inr cn \<and>
      \<not> ep_Enabled (cn_expirationPolicy cn)) \<and>
   (\<exists>hs. event_createLogsProcessor (fa_DefaultConfig event_NewFactory) = Inr hs) \<and>
   (\<exists>hs. status_createLogsProcessor (fa_DefaultConfig status_NewFactory) = Inr hs) \<and>
   mqtt_createMetricsReceiver (fa_DefaultConfig mqtt_NewFactory) = Inr [] \<and>
   (\<exists>a c. fa_DefaultConfig discovery_NewFactory = DiscoveryConfig a c \<and> api_Validate a = None \<and>
      discovery_Validate True compile lower c = Inr (c\<lparr>dc_Interval := 5 * 60 * 10 ^ 9\<rparr>)) \<and>
   (\<exists>a. fa_DefaultConfig objects_NewFactory = ObjectsConfig a [] \<and> api_Validate a = None \<and>
      (\<forall>objs. objects_getValidObjects server = Inr objs \<longrightarrow> objects_Validate server [] = Inr [])) \<and>
   sw_createLogsProcessor iid ctd marshal fold_eq ord (fa_DefaultConfig sw_NewFactory) = Inl (FactoryError (ValidationFailed ExtensionMustBeSet)) \<and>
   (\<exists>a w. fa_DefaultConfig type_NewFactory = TypeConfig a w [] \<and> config_Validate client [] = Inl MappingsEmpty) \<and>
   (\<exists>c i. fa_DefaultConfig dns_NewFactory = DnsConfig c i \<and> dns_Validate blankp c = Some ServersEmpty) \<and>
   (\<exists>c. fa_DefaultConfig (extension_NewFactory grpc) = ExtensionConfig c \<and> CollectorNameMustBeSet \<in> set (ext_Validate c))"
proof -
  have "buildProcessor uni \<lparr>rc_Action = ActionInsert, rc_EntityRefs = []\<rparr> = Inr \<lparr>rc_Action = ActionInsert, rc_EntityRefs = []\<rparr>"
    by (simp add: buildProcessor_def ref_Validate_def)
  moreover have "checkConfig (Some sw_createDefaultConfig) = Inl (ValidationFailed ExtensionMustBeSet)"
    by (simp add: checkConfig_def sw_Validate_def collector_Validate_def sw_createDefaultConfig_def)
  moreover have "\<exists>cn. createLogsToLogsConnector json parseDuration (Inr mp) (Inr lp) entity_NewDefaultConfig = Inr cn \<and> \<not> ep_Enabled (cn_expirationPolicy cn)"
    by (simp add: createLogsToLogsConnector_def entity_config_of_def entity_NewDefaultConfig_def createConnector_def unmarshal_expiration_def
        default_expiration_def disabled_policy_def unmarshal_schema_def createParsedEvents_def)
  ultimately show ?thesis
    by (auto simp: factory_defs default_config_defs creation_defs sw_config_of_def createProcessor_def serviceAccountConfig_def api_Validate_def authTypes_def
        discovery_Validate_def objects_Validate_def config_Validate_def dns_Validate_def createDefaultConfig_def ext_Validate_def)
qed

section \<open>Declared capabilities\<close>

text \<open>A processor is honest when it declares that it changes data or leaves every batch as it is; \<open>batch\<close> is the batch of a result.\<close>

definition honest :: "('r \<Rightarrow> 'd) \<Rightarrow> ('p, 'd, 'r) helper_settings \<Rightarrow> bool" where
  "honest batch hs \<longleftrightarrow> hs_MutatesData hs \<or> (\<forall>p d. batch (hs_process hs p d) = d)"

definition sample_log :: "string \<Rightarrow> logs" where
  "sample_log kind = [\<lparr>rl_attrs = [], rl_scopes = [\<lparr>sl_attrs = [], sl_records = [new_record\<lparr>lr_body := VStr [], lr_attrs := p_putStr ''k8s.object.kind'' kind []\<rparr>]\<rparr>]\<rparr>]"

lemma status_changes_batch:
  "status_processLogs \<lparr>sp_decodeStatus = (\<lambda>_. Some \<lparr>ds_Replicas = 0, ds_Conditions = []\<rparr>), sp_decodeMeta = (\<lambda>_. None), sp_podInformer = None\<rparr>
     (sample_log ''Deployment'') \<noteq> sample_log ''Deployment''"
  by (simp add: status_processLogs_def sample_log_def status_record_def computeDeploymentStatus_def new_record_def p_map_defs)

lemma event_changes_batch:
  "snd (event_processLogs (wit_event_env\<lparr>ee_decodePod := (\<lambda>_. Some wit_pod_manifest)\<rparr>) (sample_log ''Pod'')) \<noteq> sample_log ''Pod''"
proof -
  have "getContainers (\<lambda>r. Some (r, None)) wit_pod_manifest \<noteq> []"
    by (simp add: getContainers_def wit_pod_manifest_def fillStates_def fillContainerImages_def fillContainer_def processStatus_def
        processSpec_def update_container_def gomap_simps Let_def)
  then show ?thesis
    by (simp add: event_processLogs_def generateManifests_def sample_log_def new_record_def extractManifest_def body_string_def p_map_defs
        generateLogRecords_def addEntityStateEventResourceLog_def addServiceMappingsResourceLog_def transformContainersToContainerLogs_def wit_event_env_def
        getTimestamp_def Let_def)
qed

text \<open>
  Two processors are not honest.  The workload type, solarwinds and entity reference processors declare that they change data for every pipeline
  they serve; the workload status and the event generation processor declare that they do not, and yet change a
  batch, so that a batch shared with other consumers changes under them.
\<close>

theorem undeclared_changes:
  "(\<forall>cfg hs. type_createMetricsProcessor cfg = Inr hs \<longrightarrow> hs_MutatesData hs) \<and>
   (\<forall>cfg p hs. sw_createLogsProcessor iid ctd marshal fold_eq ord cfg = Inr (p, hs) \<longrightarrow> hs_MutatesData hs) \<and>
   (\<forall>cfg p hs. ref_createLogsProcessor uni cfg = Inr (p, hs) \<longrightarrow> hs_MutatesData hs) \<and>
   (\<forall>cfg hs. status_createLogsProcessor cfg = Inr hs \<longrightarrow> \<not> honest (\<lambda>ld. ld) hs) \<and>
   (\<forall>cfg hs. event_createLogsProcessor cfg = Inr hs \<longrightarrow> \<not> honest snd hs)"
proof (intro conjI allI impI)
  show "\<not> honest (\<lambda>ld. ld) hs" if "status_createLogsProcessor cfg = Inr hs" for cfg hs
    using that status_changes_batch by (fastforce simp: creation_defs honest_def split: component_config.splits)
  show "\<not> honest snd hs" if "event_createLogsProcessor cfg = Inr hs" for cfg hs
    using that event_changes_batch by (fastforce simp: creation_defs honest_def)
qed (auto simp: creation_defs split: component_config.splits sum.splits)

end
