(* ===== verification/Spec2Isabelle.thy ===== *)
theory Spec2Isabelle
  imports Entity_Lifecycle Workload_Type Workload_Status K8s_Event_Logs Sw_Processor Entity_Ref Container_Info
    K8s_Objects K8s_Discovery Mqtt_Receiver Dns_Query Host_Receiver Host_Windows Host_Platforms Component_Factories
begin

text \<open>
  A verification development for the SolarWinds components of the OpenTelemetry collector
  (\<open>src/\<close>): a connector, an extension, five processors and five receivers that run inside a collector process, and
  the packages they share.  The definitions are shallow translations of the Go code; every
  theory names the source files it models, and definitions keep the names of the functions they translate (a
  prefix is added where two components use the same name).

  \<^bold>\<open>The program.\<close>  Receivers produce telemetry: Kubernetes objects as logs, entities of databases found in a
  cluster, health and sensor data of MQTT brokers, results of DNS queries and metrics of the host.  Processors change
  batches on their way: they add the workload of an address or a name, the status of a workload, entity references,
  attributes of the collector and the host, or generate records for containers, images and relationships from manifests.  The entity
  connector turns logs and metrics into entity and relationship events and lets relationships expire.  The
  extension sends a heartbeat and gives the processors the identity of the collector.

  \<^bold>\<open>Conventions.\<close>  \<open>Go_Prelude\<close> has the string functions, decimal numbers and maps of Go that the components use: a map
  is an association list with distinct keys, and ranging over it visits the entries in the order of an argument \<open>ord\<close> about which
  only \<open>map_order\<close> is assumed.  It also has the locales of transition systems with an invariant and of those whose runs are bounded, which the
  goroutines are interpreted in.  \<open>Pdata\<close> has the telemetry data: attribute maps, logs, metrics and traces, with the locale of
  attribute maps that all lemmas on attributes go through.  Errors are values of a sum or an option type; a panic is an error value of its own or
  \<open>None\<close>.  Goroutines are step relations with reachable states, sequences of select outcomes, or, where their results
  are only collected, an order of arrival (\<open>valid_arrivals\<close>) or an interleaving of channels (\<open>interleavings\<close>) over which the
  theorems quantify.  Code outside the repository (client-go, OTTL, ristretto, the MQTT and DNS libraries, JSON, regular
  expressions, hash functions, WMI and the registry, float arithmetic, the Unicode part of string functions) is an argument,
  with its documented behaviour as hypotheses where a theorem needs it.

  \<^bold>\<open>Entity connector\<close> (\<open>src/connector/solarwindsentityconnector\<close>).  \<open>Entity_Config\<close>: \<open>config/\<close>, validation and
  parsing.  \<open>Entity_Model\<close>: \<open>internal/attributes.go\<close>, entities, relationships and their log records, read back from what was
  written.  \<open>Entity_Keys\<close>: \<open>internal/key_builder.go\<close>, with the 64-bit FNV-1a hash on words.  \<open>Entity_Detector\<close>:
  \<open>internal/event_detector.go\<close>, which events a resource gives and that entities are reported once.  \<open>Entity_Storage\<close>:
  \<open>internal/storage\<close> and the consumer of expired events; the caches are arguments of which it is only assumed that they give back what they were handed (they work in the background, may
  refuse, delay or lose writes, and evict at any time), keys go through the locale of the key builder, and the batching goroutine is a step
  relation with the batch it drops when its context ends and the panic for a batch that the consumer refuses.  \<open>Entity_Connector\<close>: \<open>connector.go\<close> and \<open>factory.go\<close>; the connector refines the detector, and a connector with a validated
  configuration does not fail.  \<open>Entity_Lifecycle\<close>: start and shutdown of the storage, interleaved with evictions and the goroutine, never
  send on the closed channel, and every received event is accounted for as sent, pending or dropped.

  \<^bold>\<open>Kubernetes.\<close>  \<open>Workload_Lookup\<close> and \<open>Workload_Type\<close> (\<open>src/processor/swok8sworkloadtypeprocessor\<close>): the object cache, its
  indexes and lookups, and the configuration and enrichment.  The recursion through owners may not end in the code; it has fuel, and the
  theorem on the lookup of owners shows that any fuel above the length of the longest chain of owners is enough, and that the result is the one of
  the big-step rules of ownership \<open>top_owner\<close>.  \<open>Workload_Status\<close>
  (\<open>src/processor/swok8sworkloadstatusprocessor\<close>).  \<open>K8s_Manifests\<close> and \<open>K8s_Event_Logs\<close> (\<open>src/processor/k8seventgenerationprocessor\<close>): manifests
  and the records generated from them: exactly the entities of \<open>manifest_entity\<close>, and relationships between reported entities but for one exact exception.  \<open>K8s_Objects\<close> (\<open>src/receiver/swok8sobjectsreceiver\<close>): pulls
  and watches with the cache of hashes, which refines the map of the last seen objects.  \<open>K8s_Discovery\<close> (\<open>src/receiver/swok8sdiscovery\<close>): the discovery of
  databases by image and by domain; relationships follow their entities in every interleaving.  \<open>K8s_Clients\<close> (\<open>src/internal/k8sconfig\<close>):
  creation of API clients, and start and shutdown of the components on them.  \<open>K8s_Lifecycles\<close>: the discovery receiver and the workload type
  processor from creation to shutdown, and the ticker of the discovery loop as a step relation.

  \<^bold>\<open>Factories.\<close>  \<open>Component_Factories\<close>: the \<open>factory.go\<close> of every component, with the default configurations, creation from a configuration of
  any type and the declared capabilities.

  \<^bold>\<open>Collector.\<close>  \<open>Sw_Extension\<close> (\<open>src/extension/solarwindsextension\<close>): the heartbeat is a step relation of starts, shutdowns and beats with an
  invariant on all reachable states.  \<open>Sw_Processor\<close> (\<open>src/processor/solarwindsprocessor\<close>, \<open>src/pkg/attributesdecorator\<close>,
  \<open>src/pkg/extensionfinder\<close>): decoration of logs, metrics and traces through one locale, the host attribute policy and the size limit on
  64-bit words.  \<open>Entity_Ref\<close> (\<open>src/processor/swootelentityrefprocessor\<close>).  \<open>Container_Info\<close> (\<open>src/pkg/container\<close>).  This theory has the property
  that the extension and the processor agree on the identity of the collector.

  \<^bold>\<open>Other receivers.\<close>  \<open>Metric_Builder\<close>: the generated builders once for all receivers.  \<open>Mqtt_Receiver\<close>
  (\<open>src/receiver/mqttreceiver\<close>) and \<open>Dns_Query\<close> (\<open>src/receiver/dnsqueryreceiver\<close>).

  \<^bold>\<open>Host metrics receiver\<close> (\<open>src/receiver/swohostmetricsreceiver\<close>).  \<open>Scraper_Framework\<close>: \<open>internal/scraper/framework\<close>, scheduling, emission
  and delayed processing.  \<open>Host_Providers\<close>: the Linux providers of \<open>internal/providers\<close>.  \<open>Host_Emitters\<close>: \<open>internal/attributes\<close> and the
  emitters of \<open>internal/scraper/*/metrics\<close>.  \<open>Select_Loops\<close>: \<open>internal/synchronization\<close> and the loops that collect from several
  goroutines; the step relation with the wait group and the supervising routine never blocks, ends, and refines a function of the order of the receptions.  \<open>Host_Receiver\<close>: the process counter, the descriptors of the scrapers, \<open>config.go\<close> and \<open>receiver.go\<close>; the receiver runs exactly the
  configured scrapers, and by default one emitter of each.  What it needs of its emitters is a locale, interpreted on the emitters of \<open>Host_Emitters\<close>, and a default
  scrape is followed from the providers to the returned metrics.  \<open>Host_Windows\<close>: the Windows providers, \<open>src/pkg/registry\<close> and \<open>src/pkg/wmi\<close>.
  \<open>Host_Platforms\<close>: the command line executors (\<open>internal/cli\<close>) and the providers on Darwin, with what is reported there.

  \<^bold>\<open>What the properties show.\<close>  Each property is the theorem after a text block with its number.  They cover the functional behaviour of the
  operations on every branch, invariants of reachable states, refinement of abstract specifications, round trips of keys, names, records and
  package lists, termination of lookups and loops, wrap-around of sizes and intervals, and the conditions of errors and panics.  Several show
  defects of the code, which the manifest lists as findings.

  \<^bold>\<open>Not modelled.\<close>  Generated configuration, resource and telemetry code other than the builders (it repeats one template, of which \<open>Metric_Builder\<close>
  is the model), the table of display names of languages on Windows (data), the version constant, logging, test helpers, the example of the scraper
  framework and the generator of benchmark data.  Capacities of slices, flags of data points and the aggregation temporality of sums are not
  part of the data model.  Command execution, file access and timers are arguments or orders of events.  The helpers of the
  collector that wrap what a factory creates, and its pipelines, are outside the repository.
\<close>

section \<open>Properties that span components\<close>

text \<open>C19: The extension and the processor name the same collector. When the host offers the created extension under the
  configured identifier and the attributes map is not nil, starting a created processor succeeds, and
  from then on every resource of a processed log batch carries exactly the collector name and, unless
  entities are disabled, the creation flag that the heartbeat of that extension exports.\<close>

theorem collector_identity_consistent:
  assumes "createExtension xf start command (Some xcfg) = Inr x"
    and "pred_option gm_wf (xc_Resource xcfg)" "map_order ord"
    and "createProcessor i b (Some c) = Inr p"
    and "cd_Enabled (sc_Collector c)" "parse (cd_ExtensionName (sc_Collector c)) = Some extID"
    and "gm_get host extID = Some (SolarwindsExtension (ex_config x))"
    and "sc_ResourceAttributes c = Some m" "gm_wf m"
    and "sw_start parse host p = (err, p')"
    and "sw_processLogs marshal fold_eq ord p' ls = Inr (ls', w)" "r \<in> set ls'"
  shows "err = None \<and>
    (\<exists>a. map rm_attrs (heartbeat_generate fl ord now (ex_heartbeat x)) = [a] \<and>
       p_get (rl_attrs r) ''sw.otelcol.collector.name'' = p_get a ''sw.otelcol.collector.name'' \<and>
       p_get a ''sw.otelcol.collector.name'' = Some (VStr (xc_CollectorName xcfg)) \<and>
       (\<not> xc_WithoutEntity xcfg \<longrightarrow>
          p_get (rl_attrs r) ''sw.otelcol.collector.entity_creation'' = p_get a ''sw.otelcol.collector.entity_creation''))"
proof -
  have x: "ex_config x = xcfg" using assms(1) by (auto simp: createExtension_def split: sum.splits)
  have h: "ex_heartbeat x = newHeartbeatWithExporter start command xcfg"
    using createExtension_heartbeat [OF assms(1)] x by simp
  have name: "xc_CollectorName xcfg \<noteq> []" using createExtension_valid [OF assms(1)] x by (simp add: ext_valid_iff)
  have p: "p = newProcessor i b c" using assms(4) by (simp add: createProcessor_Inr)
  have "findExtension parse as_solarwinds (cd_ExtensionName (sc_Collector c)) host = Inr xcfg"
    using assms(6,7) x by (simp add: findExtension_def)
  then have st: "err = None" "configured_attributes (pr_cfg p') = with_collector xcfg m"
    using assms(10) sw_start_enabled [OF assms(5), of parse host i b] assms(8)
    by (auto simp: p configured_attributes_def Let_def)
  have "list_all2 (decorated fold_eq p' rl_attrs rl_scopes) ls ls'"
    by (rule lri.processed_items [OF assms(3) _ assms(11) [unfolded sw_processLogs_def]]) (simp_all add: st assms(9))
  then obtain r0 where r0: "decorated fold_eq p' rl_attrs rl_scopes r0 r"
    using assms(12) by (auto simp: list_all2_conv_all_nth in_set_conv_nth)
  define a where "a = heartbeat_decorate ord (ex_heartbeat x) []"
  have "pred_option gm_wf (hb_resource (ex_heartbeat x))" using assms(2) h by (simp add: newHeartbeatWithExporter_def)
  note hb = decorate_get [OF assms(3) this, of "[]"]
  have a: "p_get a CollectorNameAttribute = Some (VStr (xc_CollectorName xcfg))"
    "\<not> xc_WithoutEntity xcfg \<Longrightarrow> p_get a EntityCreation = Some (VStr EntityCreationValue)"
    using name by (simp_all add: a_def hb) (simp_all add: h newHeartbeatWithExporter_def)
  have one: "map rm_attrs (heartbeat_generate fl ord now (ex_heartbeat x)) = [a]"
    by (simp add: heartbeat_generate_def uptime_add_def a_def)
  have r: "p_get (rl_attrs r) CollectorNameAttribute = Some (VStr (xc_CollectorName xcfg))"
    "\<not> xc_WithoutEntity xcfg \<Longrightarrow> p_get (rl_attrs r) EntityCreation = Some (VStr EntityCreationValue)"
    using r0 by (simp_all add: decorated_def decorated_attr_def st with_collector_get)
  show ?thesis using st(1) one a r by simp
qed

lemma collector_identity_consistent_witness:
  "\<exists>x p p' r w a. createExtension wit_factory 0 [] (Some wit_ext_config) = Inr x \<and>
     createProcessor (Inl []) False (Some wit_sw_config) = Inr p \<and>
     sw_start Some [(''solarwinds'', SolarwindsExtension (ex_config x))] p = (None, p') \<and>
     sw_processLogs (\<lambda>_. Inr []) (\<lambda>_ _. False) rev p' [\<lparr>rl_attrs = [], rl_scopes = []\<rparr>] = Inr ([r], w) \<and>
     map rm_attrs (heartbeat_generate id rev 5 (ex_heartbeat x)) = [a] \<and>
     p_get (rl_attrs r) ''sw.otelcol.collector.name'' = p_get a ''sw.otelcol.collector.name''"
proof -
  obtain x where x: "createExtension wit_factory 0 [] (Some wit_ext_config) = Inr x"
    by (simp add: createExtension_def newHeartbeat_def newExporter_def applyGrpcConfig_def ext_valid_iff wit_factory_def
        wit_ext_config_def)
  let ?host = "[(''solarwinds'', SolarwindsExtension (ex_config x))]"
  let ?ls = "[\<lparr>rl_attrs = [], rl_scopes = []\<rparr>]"
  let ?m = "[(''env'', ''prod''), (''host.id'', ''fixed'')]"
  obtain p where p: "createProcessor (Inl []) False (Some wit_sw_config) = Inr p"
    by (simp add: createProcessor_Inr sw_Validate_iff wit_sw_config_def)
  obtain err p' where st: "sw_start Some ?host p = (err, p')" by fastforce
  have cfg: "cd_Enabled (sc_Collector wit_sw_config)" "Some (cd_ExtensionName (sc_Collector wit_sw_config)) = Some ''solarwinds''"
    "gm_get ?host ''solarwinds'' = Some (SolarwindsExtension (ex_config x))"
    "sc_ResourceAttributes wit_sw_config = Some ?m" "gm_wf ?m" "pred_option gm_wf (xc_Resource wit_ext_config)"
    by (simp_all add: wit_sw_config_def wit_ext_config_def gm_wf_def)
  have "sc_MaxSizeMib (pr_cfg p') = 1"
    using sw_start_limit [OF st] p by (simp add: createProcessor_Inr newProcessor_def wit_sw_config_def)
  then obtain r w where pr: "sw_processLogs (\<lambda>_. Inr []) (\<lambda>_ _. False) rev p' ?ls = Inr ([r], w)"
    by (simp add: sw_processLogs_def sw_process_def Let_def notifySignalSizeLimitExceeded_def decorate_batch)
  have mem: "r \<in> set [r]" by simp
  from collector_identity_consistent [OF x cfg(6) map_order_rev p cfg(1-5) st pr mem, of id 5]
  obtain a where e: "err = None" and one: "map rm_attrs (heartbeat_generate id rev 5 (ex_heartbeat x)) = [a]"
    and eq: "p_get (rl_attrs r) ''sw.otelcol.collector.name'' = p_get a ''sw.otelcol.collector.name''"
    by (elim conjE exE) (rule that)
  show ?thesis using st e by (intro exI conjI) (rule x, rule p, simp, rule pr, rule one, rule eq)
qed

end
